(* ===== verification/Ez_Prelude.thy ===== *)
theory Ez_Prelude
  imports Main "HOL-Library.Word"
begin

text \<open>
  Shared vocabulary of the development: the machine integers of the C++ sources, byte
  strings, the exceptions of the C++ standard library, the collections of facts the
  component proofs draw on, and generic lemmas on lists and words.

  A C++ \<open>std::string\<close> is a list of \<open>char\<close>; an Isabelle \<open>char\<close> is an 8-bit byte, so
  \<open>length\<close> counts bytes as \<open>std::string::size\<close> does. \<open>long long\<close> is \<open>64 word\<close> read with
  \<open>sint\<close>, \<open>uint32_t\<close> is \<open>32 word\<close>, and \<open>size_t\<close> is \<open>nat\<close> (the sources index in-memory
  objects with it) except where the code truncates it.
\<close>

unbundle bit_operations_syntax

type_synonym i64 = "64 word"
type_synonym u64 = "64 word"
type_synonym u32 = "32 word"
type_synonym byte = "8 word"

text \<open>Exceptions that leave a modelled function as a C++ throw.\<close>

datatype cxx_exn =
    BadVariantAccess
  | OutOfRange string
  | InvalidArgument string
  | CxxRuntimeError string
  | Undefined string

named_theorems ez_ops \<open>defining equations of the operations of the components\<close>
named_theorems ez_inv \<open>preservation of component invariants\<close>
named_theorems ez_bytes \<open>byte, character and encoding facts\<close>

subsection \<open>Bytes and characters\<close>

definition byte_of_char :: "char \<Rightarrow> byte" where
  "byte_of_char c = of_char c"

definition char_of_byte :: "byte \<Rightarrow> char" where
  "char_of_byte b = char_of (unat b)"

text \<open>The value \<open>(unsigned char)c\<close> of a byte of a string.\<close>

definition uc :: "char \<Rightarrow> nat" where
  "uc c = of_char c"

lemma uc_bound [simp, ez_bytes]: "uc c < 256"
  by (simp add: uc_def)

lemma uc_inj [simp]: "uc c = uc d \<longleftrightarrow> c = d"
  by (simp add: uc_def)

lemma char_of_uc [simp, ez_bytes]: "char_of (uc c) = c"
  by (simp add: uc_def)

lemma uc_char_of [simp, ez_bytes]: "uc (char_of (n::nat)) = n mod 256"
  by (simp add: uc_def)

lemma unat_byte_of_char [simp, ez_bytes]: "unat (byte_of_char c) = uc c"
proof -
  have "of_char c = (word_of_nat (uc c) :: byte)"
    by (simp add: uc_def of_nat_of_char)
  moreover have "take_bit 8 (uc c) = uc c"
    by (simp add: take_bit_nat_eq_self_iff)
  ultimately show ?thesis
    by (simp add: byte_of_char_def unat_of_nat take_bit_eq_mod)
qed

lemma char_of_byte_of_char [simp, ez_bytes]: "char_of_byte (byte_of_char c) = c"
  by (simp add: char_of_byte_def)

lemma byte_of_char_of_byte [simp, ez_bytes]: "byte_of_char (char_of_byte b) = b"
proof -
  have "unat b < 256" using unsigned_less [of b] by simp
  then have "unat (byte_of_char (char_of_byte b)) = unat b"
    by (simp add: char_of_byte_def)
  then show ?thesis by (simp only: word_unat_eq_iff unat_byte_of_char)
qed

subsection \<open>Lists\<close>

text \<open>\<open>std::string::substr(pos, n)\<close> for \<open>pos\<close> within the string.\<close>

definition substr :: "'a list \<Rightarrow> nat \<Rightarrow> nat \<Rightarrow> 'a list" where
  "substr s pos n = take n (drop pos s)"

lemma length_substr [simp]: "length (substr s p n) = min n (length s - p)"
  by (simp add: substr_def)

lemma substr_all [simp]: "length s \<le> n \<Longrightarrow> substr s 0 n = s"
  by (simp add: substr_def)

lemma substr_append: "substr s p m @ substr s (p + m) n = substr s p (m + n)"
  by (simp add: substr_def take_add add.commute)

lemma substr_one: "p < length s \<Longrightarrow> substr s p 1 = [s ! p]"
  by (simp add: substr_def take_Suc_conv_app_nth)

lemma drop_substr_id: "p + n = length s \<Longrightarrow> substr s p n = drop p s"
  by (simp add: substr_def)

text \<open>A word in single quotes, as the messages of the program show it.\<close>

definition sq :: "string \<Rightarrow> string" where
  "sq t = CHR 0x27 # t @ [CHR 0x27]"

subsection \<open>Sums as results\<close>

text \<open>Sequencing of computations that may throw.\<close>

fun res_bind :: "'e + 'a \<Rightarrow> ('a \<Rightarrow> 'e + 'b) \<Rightarrow> 'e + 'b" where
  "res_bind (Inl e) f = Inl e"
| "res_bind (Inr a) f = f a"

lemma res_bind_assoc: "res_bind (res_bind m f) g = res_bind m (\<lambda>x. res_bind (f x) g)"
  by (cases m) auto

lemma res_bind_Inr_iff: "res_bind m f = Inr b \<longleftrightarrow> (\<exists>a. m = Inr a \<and> f a = Inr b)"
  by (cases m) auto

lemma res_bind_Inl_iff:
  "res_bind m f = Inl e \<longleftrightarrow> m = Inl e \<or> (\<exists>a. m = Inr a \<and> f a = Inl e)"
  by (cases m) auto

lemma res_bind_cong [fundef_cong]:
  "m = m' \<Longrightarrow> (\<And>a. m' = Inr a \<Longrightarrow> f a = g a) \<Longrightarrow> res_bind m f = res_bind m' g"
  by (cases m') auto

end
