(* ===== verification/Wrap_Arith.thy ===== *)
theory Wrap_Arith
  imports Ez_Prelude "HOL-Library.Signed_Division"
begin

text \<open>
  The integer arithmetic of \<open>src/utils/WrapArith.h\<close>: two's-complement wrapping on
  \<open>long long\<close>, shared by the virtual machine and the constant folder, and the guards of
  integer division.
\<close>

definition wrapAdd :: "i64 \<Rightarrow> i64 \<Rightarrow> i64" where
  "wrapAdd a b = a + b"

definition wrapSub :: "i64 \<Rightarrow> i64 \<Rightarrow> i64" where
  "wrapSub a b = a - b"

definition wrapMul :: "i64 \<Rightarrow> i64 \<Rightarrow> i64" where
  "wrapMul a b = a * b"

definition wrapNeg :: "i64 \<Rightarrow> i64" where
  "wrapNeg a = 0 - a"

definition llong_min :: i64 where
  "llong_min = 0x8000000000000000"

definition divIsUB :: "i64 \<Rightarrow> i64 \<Rightarrow> bool" where
  "divIsUB a b \<longleftrightarrow> b = 0 \<or> (a = llong_min \<and> b = - 1)"

text \<open>C++ \<open>/\<close> and \<open>%\<close> on \<open>long long\<close> truncate towards zero.\<close>

definition cdiv :: "i64 \<Rightarrow> i64 \<Rightarrow> i64" where
  "cdiv a b = word_of_int (sint a sdiv sint b)"

definition cmod :: "i64 \<Rightarrow> i64 \<Rightarrow> i64" where
  "cmod a b = word_of_int (sint a smod sint b)"

definition divIsExact :: "i64 \<Rightarrow> i64 \<Rightarrow> bool" where
  "divIsExact a b \<longleftrightarrow> cmod a b = 0"

end
