(* ===== verification/Utf8.thy ===== *)
theory Utf8
  imports Ez_Prelude
begin

text \<open>
  The lenient UTF-8 helpers of \<open>src/runtime/Utf8.h\<close> (namespace \<open>ez_utf8\<close>): sequence
  lengths, validation, decoding, encoding, reversal, character counting, index conversion
  and case mapping. A position is a byte offset. Code points are \<open>nat\<close>: a decoded value has
  at most 21 bits, so \<open>uint32_t\<close> never wraps here.
\<close>

definition seqLen :: "char \<Rightarrow> nat" where
  "seqLen ch = (let c = uc ch in
     if c < 0x80 then 1
     else if c AND 0xE0 = 0xC0 then 2
     else if c AND 0xF0 = 0xE0 then 3
     else if c AND 0xF8 = 0xF0 then 4
     else 1)"

text \<open>The loop over the continuation bytes \<open>k = 1 .. n - 1\<close> of a sequence at \<open>i\<close>.\<close>

definition contAt :: "string \<Rightarrow> nat \<Rightarrow> bool" where
  "contAt s j \<longleftrightarrow> uc (s ! j) AND 0xC0 = 0x80"

definition validAt :: "string \<Rightarrow> nat \<Rightarrow> nat \<Rightarrow> bool" where
  "validAt s i n \<longleftrightarrow>
     (if n = 1 then uc (s ! i) < 0x80 \<or> seqLen (s ! i) = 1
      else if i + n > length s then False
      else list_all (\<lambda>k. contAt s (i + k)) [1..<n])"

definition decode :: "string \<Rightarrow> nat \<Rightarrow> nat \<times> nat" where
  "decode s i = (let c = uc (s ! i); n = seqLen (s ! i) in
     if n = 1 \<or> \<not> validAt s i n then (c, i + 1)
     else
       let cp0 = (if n = 2 then c AND 0x1F else if n = 3 then c AND 0x0F else c AND 0x07)
       in (fold (\<lambda>k cp. push_bit 6 cp OR (uc (s ! (i + k)) AND 0x3F)) [1..<n] cp0, i + n))"

text \<open>\<open>encode\<close> appends to \<open>out\<close> and says whether it did.\<close>

definition encode :: "nat \<Rightarrow> string \<Rightarrow> bool \<times> string" where
  "encode cp out =
     (if cp > 0x10FFFF then (False, out)
      else if cp \<ge> 0xD800 \<and> cp \<le> 0xDFFF then (False, out)
      else if cp < 0x80 then (True, out @ [char_of cp])
      else if cp < 0x800 then
        (True, out @ [char_of (0xC0 OR drop_bit 6 cp), char_of (0x80 OR (cp AND 0x3F))])
      else if cp < 0x10000 then
        (True, out @ [char_of (0xE0 OR drop_bit 12 cp),
                      char_of (0x80 OR (drop_bit 6 cp AND 0x3F)),
                      char_of (0x80 OR (cp AND 0x3F))])
      else
        (True, out @ [char_of (0xF0 OR drop_bit 18 cp),
                      char_of (0x80 OR (drop_bit 12 cp AND 0x3F)),
                      char_of (0x80 OR (drop_bit 6 cp AND 0x3F)),
                      char_of (0x80 OR (cp AND 0x3F))]))"

text \<open>
  The extent of the character at \<open>i\<close>, as \<open>reverseChars\<close>, \<open>lengthChars\<close> and the offset
  conversions compute it in their loops.
\<close>

definition charExtent :: "string \<Rightarrow> nat \<Rightarrow> nat" where
  "charExtent s i = (let n = seqLen (s ! i) in if \<not> validAt s i n then 1 else n)"

lemma seqLen_pos [simp]: "0 < seqLen c"
  by (simp add: seqLen_def Let_def)

lemma charExtent_pos [simp]: "0 < charExtent s i"
  by (simp add: charExtent_def Let_def)

lemma seqLen_le4: "seqLen c \<le> 4"
  by (simp add: seqLen_def Let_def)

function spansFrom :: "string \<Rightarrow> nat \<Rightarrow> (nat \<times> nat) list" where
  "spansFrom s i =
     (if i < length s
      then (let n0 = seqLen (s ! i); n = (if n0 = 1 \<or> \<not> validAt s i n0 then 1 else n0)
            in (i, n) # spansFrom s (i + n))
      else [])"
  by pat_completeness auto
termination
  by (relation "measure (\<lambda>(s, i). length s - i)") (auto intro: diff_less_mono2)

definition reverseChars :: "string \<Rightarrow> string" where
  "reverseChars s = concat (map (\<lambda>(off, n). substr s off n) (rev (spansFrom s 0)))"

function lengthCharsFrom :: "string \<Rightarrow> nat \<Rightarrow> nat \<Rightarrow> nat" where
  "lengthCharsFrom s i count =
     (if i < length s then lengthCharsFrom s (i + charExtent s i) (count + 1) else count)"
  by pat_completeness auto
termination
  by (relation "measure (\<lambda>(s, i, count). length s - i)") (auto intro: diff_less_mono2)

definition lengthChars :: "string \<Rightarrow> nat" where
  "lengthChars s = lengthCharsFrom s 0 0"

function charToByteFrom :: "string \<Rightarrow> nat \<Rightarrow> nat \<Rightarrow> nat \<Rightarrow> nat" where
  "charToByteFrom s charIndex i count =
     (if i < length s \<and> count < charIndex
      then charToByteFrom s charIndex (i + charExtent s i) (count + 1) else i)"
  by pat_completeness auto
termination
  by (relation "measure (\<lambda>(s, ci, i, count). length s - i)") (auto intro: diff_less_mono2)

definition charOffsetToByteOffset :: "string \<Rightarrow> nat \<Rightarrow> nat" where
  "charOffsetToByteOffset s charIndex = charToByteFrom s charIndex 0 0"

function byteToCharFrom :: "string \<Rightarrow> nat \<Rightarrow> nat \<Rightarrow> nat \<Rightarrow> nat" where
  "byteToCharFrom s byteIndex i charCount =
     (if i < length s \<and> i < byteIndex
      then byteToCharFrom s byteIndex (i + charExtent s i) (charCount + 1) else charCount)"
  by pat_completeness auto
termination
  by (relation "measure (\<lambda>(s, bi, i, count). length s - i)") (auto intro: diff_less_mono2)

definition byteOffsetToCharOffset :: "string \<Rightarrow> nat \<Rightarrow> nat" where
  "byteOffsetToCharOffset s byteIndex = byteToCharFrom s byteIndex 0 0"

definition toUpperCP :: "nat \<Rightarrow> nat" where
  "toUpperCP cp =
     (if cp \<ge> 0x61 \<and> cp \<le> 0x7A then cp - 32
      else if cp \<ge> 0xE0 \<and> cp \<le> 0xF6 then cp - 32
      else if cp \<ge> 0xF8 \<and> cp \<le> 0xFE then cp - 32
      else if cp = 0xFF then 0x0178
      else if cp \<ge> 0x0430 \<and> cp \<le> 0x044F then cp - 32
      else cp)"

definition toLowerCP :: "nat \<Rightarrow> nat" where
  "toLowerCP cp =
     (if cp \<ge> 0x41 \<and> cp \<le> 0x5A then cp + 32
      else if cp \<ge> 0xC0 \<and> cp \<le> 0xD6 then cp + 32
      else if cp \<ge> 0xD8 \<and> cp \<le> 0xDE then cp + 32
      else if cp = 0x0178 then 0xFF
      else if cp \<ge> 0x0410 \<and> cp \<le> 0x042F then cp + 32
      else cp)"

lemma decode_advances: "i < snd (decode s i)"
  by (auto simp: decode_def Let_def)

function upperCharsFrom :: "string \<Rightarrow> nat \<Rightarrow> string \<Rightarrow> string" where
  "upperCharsFrom s i out =
     (if i < length s
      then (case decode s i of (cp, i') \<Rightarrow> upperCharsFrom s i' (snd (encode (toUpperCP cp) out)))
      else out)"
  by pat_completeness auto
termination
  by (relation "measure (\<lambda>(s, i, out). length s - i)")
     (auto, metis decode_advances diff_less_mono2 snd_conv)

definition upperChars :: "string \<Rightarrow> string" where
  "upperChars s = upperCharsFrom s 0 []"

function lowerCharsFrom :: "string \<Rightarrow> nat \<Rightarrow> string \<Rightarrow> string" where
  "lowerCharsFrom s i out =
     (if i < length s
      then (case decode s i of (cp, i') \<Rightarrow> lowerCharsFrom s i' (snd (encode (toLowerCP cp) out)))
      else out)"
  by pat_completeness auto
termination
  by (relation "measure (\<lambda>(s, i, out). length s - i)")
     (auto, metis decode_advances diff_less_mono2 snd_conv)

definition lowerChars :: "string \<Rightarrow> string" where
  "lowerChars s = lowerCharsFrom s 0 []"

declare spansFrom.simps [simp del] lengthCharsFrom.simps [simp del]
  charToByteFrom.simps [simp del] byteToCharFrom.simps [simp del]
  upperCharsFrom.simps [simp del] lowerCharsFrom.simps [simp del]

subsection \<open>Bit arithmetic of the encoding\<close>

lemma push_and_0: "b < 2 ^ n \<Longrightarrow> push_bit n a AND b = (0::nat)"
proof (rule bit_eqI)
  fix m assume "b < 2 ^ n"
  then have "take_bit n b = b" by (simp add: take_bit_nat_eq_self_iff)
  then have "bit b m \<Longrightarrow> m < n" by (metis bit_take_bit_iff)
  then show "bit (push_bit n a AND b) m = bit 0 m" by (auto simp: bit_simps)
qed
lemma push_or_plus: "b < 2 ^ n \<Longrightarrow> push_bit n a OR b = push_bit n a + (b::nat)"
  using push_and_0[of b n a] by (simp add: disjunctive_add_eq_or)
lemma and63: "x AND 0x3F = x mod (64::nat)" using take_bit_eq_mask[of 6 x] by (simp add: mask_eq_exp_minus_1 take_bit_eq_mod)
lemma and_push_mask: "x AND push_bit n (mask m) = push_bit n (take_bit m (drop_bit n (x::nat)))"
  by (rule bit_eqI) (auto simp: bit_simps)
lemma and_E0: "x AND 0xE0 = 32 * ((x div 32) mod (8::nat))"
  using and_push_mask[of x 5 3] by (simp add: mask_eq_exp_minus_1 take_bit_eq_mod drop_bit_eq_div push_bit_eq_mult)
lemma and_F0: "x AND 0xF0 = 16 * ((x div 16) mod (16::nat))"
  using and_push_mask[of x 4 4] by (simp add: mask_eq_exp_minus_1 take_bit_eq_mod drop_bit_eq_div push_bit_eq_mult)
lemma and_F8: "x AND 0xF8 = 8 * ((x div 8) mod (32::nat))"
  using and_push_mask[of x 3 5] by (simp add: mask_eq_exp_minus_1 take_bit_eq_mod drop_bit_eq_div push_bit_eq_mult)
lemma and_C0: "x AND 0xC0 = 64 * ((x div 64) mod (4::nat))"
  using and_push_mask[of x 6 2] by (simp add: mask_eq_exp_minus_1 take_bit_eq_mod drop_bit_eq_div push_bit_eq_mult)
lemma and_low: "x AND 0x1F = x mod (32::nat)" "x AND 0x0F = x mod (16::nat)" "x AND 0x07 = x mod (8::nat)"
  using take_bit_eq_mask[of 5 x] take_bit_eq_mask[of 4 x] take_bit_eq_mask[of 3 x] by (simp_all add: mask_eq_exp_minus_1 take_bit_eq_mod)
lemma or_lead: "x < 64 \<Longrightarrow> 0x80 OR x = 0x80 + (x::nat)" "x < 32 \<Longrightarrow> 0xC0 OR x = 0xC0 + (x::nat)" 
   "x < 16 \<Longrightarrow> 0xE0 OR x = 0xE0 + (x::nat)" "x < 8 \<Longrightarrow> 0xF0 OR x = 0xF0 + (x::nat)"
  using push_or_plus[of x 6 2] push_or_plus[of x 5 6] push_or_plus[of x 4 14] push_or_plus[of x 3 30] by (simp_all add: push_bit_eq_mult)
lemma div_eq_range: "0 < d \<Longrightarrow> (c::nat) div d = q \<longleftrightarrow> d * q \<le> c \<and> c < d * Suc q"
  by (metis div_nat_eqI dividend_less_times_div times_div_less_eq_dividend add.commute mult_Suc_right)
lemma lead_ranges:
  assumes "c < (256::nat)"
  shows "c AND 0xE0 = 0xC0 \<longleftrightarrow> 192 \<le> c \<and> c < 224"
    and "c AND 0xF0 = 0xE0 \<longleftrightarrow> 224 \<le> c \<and> c < 240"
    and "c AND 0xF8 = 0xF0 \<longleftrightarrow> 240 \<le> c \<and> c < 248"
    and "c AND 0xC0 = 0x80 \<longleftrightarrow> 128 \<le> c \<and> c < 192"
proof -
  have q: "c div 32 < 8" "c div 16 < 16" "c div 8 < 32" "c div 64 < 4"
    using assms by (simp_all add: div_less_iff_less_mult)
  have m: "32 * x = 192 \<longleftrightarrow> x = 6" "16 * x = 224 \<longleftrightarrow> x = 14" "8 * x = 240 \<longleftrightarrow> x = 30"
    "64 * x = 128 \<longleftrightarrow> x = 2" for x :: nat by auto
  show "c AND 0xE0 = 0xC0 \<longleftrightarrow> 192 \<le> c \<and> c < 224"
    unfolding and_E0 mod_less [OF q(1)] m by (simp add: div_eq_range)
  show "c AND 0xF0 = 0xE0 \<longleftrightarrow> 224 \<le> c \<and> c < 240"
    unfolding and_F0 mod_less [OF q(2)] m by (simp add: div_eq_range)
  show "c AND 0xF8 = 0xF0 \<longleftrightarrow> 240 \<le> c \<and> c < 248"
    unfolding and_F8 mod_less [OF q(3)] m by (simp add: div_eq_range)
  show "c AND 0xC0 = 0x80 \<longleftrightarrow> 128 \<le> c \<and> c < 192"
    unfolding and_C0 mod_less [OF q(4)] m by (simp add: div_eq_range)
qed
lemma seqLen_alt:
  "seqLen ch = (if uc ch < 192 then 1 else if uc ch < 224 then 2
     else if uc ch < 240 then 3 else if uc ch < 248 then 4 else 1)"
  unfolding seqLen_def Let_def lead_ranges [OF uc_bound] by auto
lemma contAt_alt: "contAt s j \<longleftrightarrow> 128 \<le> uc (s ! j) \<and> uc (s ! j) < 192"
  unfolding contAt_def lead_ranges [OF uc_bound] ..
definition scalar :: "nat \<Rightarrow> bool" where
  "scalar cp \<longleftrightarrow> cp \<le> 0x10FFFF \<and> \<not> (0xD800 \<le> cp \<and> cp \<le> 0xDFFF)"
definition enc1 :: "nat \<Rightarrow> string" where "enc1 cp = snd (encode cp [])"
lemma encode_eq: "encode cp out = (if scalar cp then (True, out @ enc1 cp) else (False, out))"
  by (auto simp: encode_def enc1_def scalar_def)
lemma enc1_arith:
  assumes "scalar cp"
  shows "map uc (enc1 cp) =
    (if cp < 0x80 then [cp]
     else if cp < 0x800 then [0xC0 + cp div 64, 0x80 + cp mod 64]
     else if cp < 0x10000 then [0xE0 + cp div 4096, 0x80 + cp div 64 mod 64, 0x80 + cp mod 64]
     else [0xF0 + cp div 262144, 0x80 + cp div 4096 mod 64, 0x80 + cp div 64 mod 64, 0x80 + cp mod 64])"
proof -
  have b: "cp \<le> 0x10FFFF" using assms by (simp add: scalar_def)
  have l: "cp < 0x800 \<Longrightarrow> cp div 64 < 32" "cp < 0x10000 \<Longrightarrow> cp div 4096 < 16" "cp div 262144 < 8"
    using b by (simp_all add: div_less_iff_less_mult)
  have c: "x mod 64 < (64::nat)" for x by simp
  show ?thesis
    using assms l b
    unfolding enc1_def encode_def scalar_def and63 drop_bit_eq_div or_lead(1) [OF c]
    by (auto simp: or_lead)
qed

lemma upt_123: "[Suc 0..<2] = [Suc 0]" "[Suc 0..<3] = [Suc 0, 2]" "[Suc 0..<4] = [Suc 0, 2, 3]"
  by (simp_all add: upt_rec)
lemma shift6: "push_bit 6 a OR (x AND 0x3F) = 64 * a + x mod (64::nat)"
  using push_or_plus [of "x mod 64" 6 a] by (simp add: and63 push_bit_eq_mult)

lemma low_bits:
  "b < 64 \<Longrightarrow> (128 + b) mod 64 = (b::nat)" "a < 32 \<Longrightarrow> (192 + a) mod 32 = (a::nat)"
  "a < 16 \<Longrightarrow> (224 + a) mod 16 = (a::nat)" "a < 8 \<Longrightarrow> (240 + a) mod 8 = (a::nat)"
  using mod_mult_self3 [of 2 64 b] mod_mult_self3 [of 6 32 a] mod_mult_self3 [of 14 16 a]
    mod_mult_self3 [of 30 8 a] by simp_all

lemma enc1_cases:
  assumes "scalar cp"
  obtains (one) "cp < 0x80" "map uc (enc1 cp) = [cp]"
    | (two) a b where "a < 32" "2 \<le> a" "b < 64" "cp = 64 * a + b" "map uc (enc1 cp) = [0xC0 + a, 0x80 + b]"
    | (three) a b c where "a < 16" "b < 64" "c < 64" "cp = 64 * (64 * a + b) + c"
        "map uc (enc1 cp) = [0xE0 + a, 0x80 + b, 0x80 + c]"
    | (four) a b c d where "a < 8" "b < 64" "c < 64" "d < 64" "cp = 64 * (64 * (64 * a + b) + c) + d"
        "map uc (enc1 cp) = [0xF0 + a, 0x80 + b, 0x80 + c, 0x80 + d]"
proof -
  have b: "cp \<le> 0x10FFFF" using assms by (simp add: scalar_def)
  note e = enc1_arith [OF assms]
  consider "cp < 0x80" | "\<not> cp < 0x80" "cp < 0x800" | "\<not> cp < 0x800" "cp < 0x10000" | "\<not> cp < 0x10000"
    by linarith
  then show thesis
  proof cases
    case 1 then show thesis using one e by simp
  next
    case 2
    have "cp = 64 * (cp div 64) + cp mod 64" by simp
    moreover have "2 \<le> cp div 64" using 2 div_le_mono [of 128 cp 64] by simp
    moreover have "cp div 64 < 32" using 2 by (simp add: div_less_iff_less_mult)
    ultimately show thesis using two [of "cp div 64" "cp mod 64"] e 2 by simp
  next
    case 3
    have "cp div 4096 = cp div 64 div 64" by (simp add: div_mult2_eq [symmetric])
    then have "cp = 64 * (64 * (cp div 4096) + cp div 64 mod 64) + cp mod 64"
      by (simp only: mult_div_mod_eq)
    moreover have "cp div 4096 < 16" using 3 by (simp add: div_less_iff_less_mult)
    moreover have "map uc (enc1 cp) = [0xE0 + cp div 4096, 0x80 + cp div 64 mod 64, 0x80 + cp mod 64]"
      using e 3 by simp
    ultimately show thesis by (intro three) (assumption | rule mod_less_divisor zero_less_numeral)+
  next
    case 4
    have "cp div 4096 = cp div 64 div 64" "cp div 262144 = cp div 64 div 64 div 64"
      by (simp_all add: div_mult2_eq [symmetric])
    then have "cp = 64 * (64 * (64 * (cp div 262144) + cp div 4096 mod 64) + cp div 64 mod 64) + cp mod 64"
      by (simp only: mult_div_mod_eq)
    moreover have "cp div 262144 < 8" using b by (simp add: div_less_iff_less_mult)
    moreover have "map uc (enc1 cp) = [0xF0 + cp div 262144, 0x80 + cp div 4096 mod 64,
        0x80 + cp div 64 mod 64, 0x80 + cp mod 64]"
      using e 4 by simp
    ultimately show thesis by (intro four) (assumption | rule mod_less_divisor zero_less_numeral)+
  qed
qed

lemma enc1_nonempty: "scalar cp \<Longrightarrow> enc1 cp \<noteq> []"
  by (erule enc1_cases) auto

lemma nth_mid: "k < length m \<Longrightarrow> (pre @ m @ rest) ! (length pre + k) = m ! k"
  by (simp add: nth_append)

lemma uc_mid:
  assumes "map uc m = bs" "k < length bs"
  shows "uc ((pre @ m @ rest) ! (length pre + k)) = bs ! k"
  using assms by (auto simp: nth_append)

text \<open>An encoded scalar, wherever it stands in a string, is read back whole.\<close>

lemma decode_mid:
  fixes pre rest :: string
  assumes "scalar cp"
  defines "s \<equiv> pre @ enc1 cp @ rest"
  shows "decode s (length pre) = (cp, length pre + length (enc1 cp))
    \<and> charExtent s (length pre) = length (enc1 cp)
    \<and> seqLen (s ! length pre) = length (enc1 cp)
    \<and> validAt s (length pre) (length (enc1 cp))"
  using assms(1)
proof (cases rule: enc1_cases)
  case one
  have l: "length (enc1 cp) = 1" using arg_cong [OF one(2), of length] by simp
  show ?thesis using one uc_mid [OF one(2), of 0 pre rest]
    by (simp add: s_def decode_def charExtent_def validAt_def Let_def seqLen_alt l)
next
  case (two a b)
  have l: "length (enc1 cp) = 2" using arg_cong [OF two(5), of length] by simp
  have "uc (s ! length pre) = 192 + a" "uc (s ! Suc (length pre)) = 128 + b" "length pre + 2 \<le> length s"
    using uc_mid [OF two(5), of 0 pre rest] uc_mid [OF two(5), of 1 pre rest] l by (simp_all add: s_def)
  then show ?thesis using two(1-3) two(4) [symmetric]
    by (simp add: decode_def charExtent_def validAt_def Let_def seqLen_alt contAt_alt l low_bits upt_123 shift6 and_low)
next
  case (three a b c)
  have l: "length (enc1 cp) = 3" using arg_cong [OF three(5), of length] by simp
  have "uc (s ! length pre) = 224 + a" "uc (s ! Suc (length pre)) = 128 + b" "uc (s ! (length pre + 2)) = 128 + c" "length pre + 3 \<le> length s"
    using uc_mid [OF three(5), of 0 pre rest] uc_mid [OF three(5), of 1 pre rest] uc_mid [OF three(5), of 2 pre rest] l by (simp_all add: s_def)
  then show ?thesis using three(1-3) three(4) [symmetric]
    by (simp add: decode_def charExtent_def validAt_def Let_def seqLen_alt contAt_alt l low_bits upt_123 shift6 and_low)
next
  case (four a b c d)
  have l: "length (enc1 cp) = 4" using arg_cong [OF four(6), of length] by simp
  have "uc (s ! length pre) = 240 + a" "uc (s ! Suc (length pre)) = 128 + b" "uc (s ! (length pre + 2)) = 128 + c" "uc (s ! (length pre + 3)) = 128 + d" "length pre + 4 \<le> length s"
    using uc_mid [OF four(6), of 0 pre rest] uc_mid [OF four(6), of 1 pre rest] uc_mid [OF four(6), of 2 pre rest] uc_mid [OF four(6), of 3 pre rest] l by (simp_all add: s_def)
  then show ?thesis using four(1-4) four(5) [symmetric]
    by (simp add: decode_def charExtent_def validAt_def Let_def seqLen_alt contAt_alt l low_bits upt_123 shift6 and_low)
qed

subsection \<open>Well-formed strings\<close>

definition utf8 :: "nat list \<Rightarrow> string" where
  "utf8 cps = concat (map enc1 cps)"

lemma utf8_simps [simp]: "utf8 [] = []" "utf8 (cp # cps) = enc1 cp @ utf8 cps"
  "utf8 (cps @ ds) = utf8 cps @ utf8 ds"
  by (simp_all add: utf8_def)

lemma utf8_head:
  assumes "scalar cp"
  shows "decode (pre @ enc1 cp @ rest) (length pre) = (cp, length (pre @ enc1 cp))"
    and "charExtent (pre @ enc1 cp @ rest) (length pre) = length (enc1 cp)"
    and "length pre < length (pre @ enc1 cp @ rest)"
  using decode_mid [OF assms, of pre rest] enc1_nonempty [OF assms] by simp_all

lemma lengthCharsFrom_utf8:
  "list_all scalar cps \<Longrightarrow> lengthCharsFrom (pre @ utf8 cps) (length pre) n = n + length cps"
proof (induction cps arbitrary: pre n)
  case Nil show ?case by (subst lengthCharsFrom.simps) simp
next
  case (Cons cp cps)
  then have sc: "scalar cp" by simp
  show ?case using Cons.IH [of "pre @ enc1 cp" "Suc n"] Cons.prems utf8_head [OF sc, of pre "utf8 cps"]
    by (subst lengthCharsFrom.simps) simp
qed

lemma charToByteFrom_utf8:
  "list_all scalar cps \<Longrightarrow> n \<le> k \<Longrightarrow>
   charToByteFrom (pre @ utf8 cps) k (length pre) n = length (pre @ utf8 (take (k - n) cps))"
proof (induction cps arbitrary: pre n)
  case Nil show ?case by (subst charToByteFrom.simps) simp
next
  case (Cons cp cps)
  then have sc: "scalar cp" by simp
  show ?case
  proof (cases "n < k")
    case True
    then have "k - n = Suc (k - Suc n)" by simp
    then show ?thesis
      using True Cons.IH [of "Suc n" "pre @ enc1 cp"] Cons.prems utf8_head [OF sc, of pre "utf8 cps"]
      by (subst charToByteFrom.simps) simp
  next
    case False
    then show ?thesis using Cons.prems by (subst charToByteFrom.simps) simp
  qed
qed

lemma byteToCharFrom_utf8:
  "list_all scalar (cps @ ds) \<Longrightarrow>
   byteToCharFrom (pre @ utf8 (cps @ ds)) (length (pre @ utf8 cps)) (length pre) n = n + length cps"
proof (induction cps arbitrary: pre n)
  case Nil show ?case by (subst byteToCharFrom.simps) simp
next
  case (Cons cp cps)
  then have sc: "scalar cp" by simp
  show ?case
    using Cons.IH [of "pre @ enc1 cp" "Suc n"] Cons.prems
      utf8_head [OF sc, of pre "utf8 (cps @ ds)"]  enc1_nonempty [OF sc]
    by (subst byteToCharFrom.simps) simp
qed

lemma spansFrom_utf8:
  "list_all scalar cps \<Longrightarrow>
   map (\<lambda>(off, n). substr (pre @ utf8 cps) off n) (spansFrom (pre @ utf8 cps) (length pre)) = map enc1 cps"
proof (induction cps arbitrary: pre)
  case Nil show ?case by (subst spansFrom.simps) simp
next
  case (Cons cp cps)
  then have sc: "scalar cp" by simp
  have "(if seqLen (s ! i) = 1 \<or> \<not> validAt s i (seqLen (s ! i)) then 1 else seqLen (s ! i)) = charExtent s i" for s i
    by (simp add: charExtent_def)
  moreover have "substr (pre @ enc1 cp @ utf8 cps) (length pre) (length (enc1 cp)) = enc1 cp"
    by (simp add: substr_def)
  ultimately show ?case
    using Cons.IH [of "pre @ enc1 cp"] Cons.prems
      utf8_head [OF sc, of pre "utf8 cps"]  enc1_nonempty [OF sc]
    by (subst spansFrom.simps) (simp add: Let_def)
qed

lemma upperCharsFrom_utf8:
  "list_all scalar cps \<Longrightarrow>
   upperCharsFrom (pre @ utf8 cps) (length pre) out = out @ utf8 (filter scalar (map toUpperCP cps))"
proof (induction cps arbitrary: pre out)
  case Nil show ?case by (subst upperCharsFrom.simps) simp
next
  case (Cons cp cps)
  then have sc: "scalar cp" by simp
  show ?case using Cons.IH [of "pre @ enc1 cp"] Cons.prems utf8_head [OF sc, of pre "utf8 cps"]
    by (subst upperCharsFrom.simps) (simp add: encode_eq)
qed
lemma lowerCharsFrom_utf8:
  "list_all scalar cps \<Longrightarrow>
   lowerCharsFrom (pre @ utf8 cps) (length pre) out = out @ utf8 (filter scalar (map toLowerCP cps))"
proof (induction cps arbitrary: pre out)
  case Nil show ?case by (subst lowerCharsFrom.simps) simp
next
  case (Cons cp cps)
  then have sc: "scalar cp" by simp
  show ?case using Cons.IH [of "pre @ enc1 cp"] Cons.prems utf8_head [OF sc, of pre "utf8 cps"]
    by (subst lowerCharsFrom.simps) (simp add: encode_eq)
qed
lemma scalar_toUpper: "scalar cp \<Longrightarrow> scalar (toUpperCP cp)"
  by (auto simp: scalar_def toUpperCP_def)
lemma scalar_toLower: "scalar cp \<Longrightarrow> scalar (toLowerCP cp)"
  by (auto simp: scalar_def toLowerCP_def)
lemma toLower_toUpper_idem: "toUpperCP (toUpperCP cp) = toUpperCP cp" "toLowerCP (toLowerCP cp) = toLowerCP cp"
  by (auto simp: toUpperCP_def toLowerCP_def)

text \<open>C21. On a well-formed string (the encoding of a list of scalar values) every character
  operation is the list operation on the code points: counting, reversal, case mapping.\<close>

theorem utf8_chars_faithful:
  assumes "list_all scalar cps"
  shows "lengthChars (utf8 cps) = length cps
    \<and> reverseChars (utf8 cps) = utf8 (rev cps)
    \<and> upperChars (utf8 cps) = utf8 (map toUpperCP cps)
    \<and> lowerChars (utf8 cps) = utf8 (map toLowerCP cps)"
proof -
  have f: "filter scalar (map toUpperCP cps) = map toUpperCP cps" "filter scalar (map toLowerCP cps) = map toLowerCP cps"
    using assms by (auto simp: list_all_iff scalar_toUpper scalar_toLower intro!: filter_True)
  have r: "reverseChars (utf8 cps) = utf8 (rev cps)"
    using spansFrom_utf8 [OF assms, of "[]"] by (simp add: reverseChars_def utf8_def rev_map [symmetric])
  show ?thesis
    using lengthCharsFrom_utf8 [OF assms, of "[]" 0] r upperCharsFrom_utf8 [OF assms, of "[]" "[]"]
      lowerCharsFrom_utf8 [OF assms, of "[]" "[]"] f
    by (simp add: lengthChars_def upperChars_def lowerChars_def)
qed

theorem utf8_chars_faithful_witness:
  "upperChars (utf8 [0x61, 0xE9, 0x20AC, 0x1F600]) = utf8 [0x41, 0xC9, 0x20AC, 0x1F600]"
  using utf8_chars_faithful [of "[0x61, 0xE9, 0x20AC, 0x1F600]"]
  by (simp add: scalar_def toUpperCP_def)

text \<open>The two offset conversions are inverse to each other on a well-formed string: the
  byte offset of character \<open>k\<close> is the size of the first \<open>k\<close> characters, and maps back to \<open>k\<close>;
  a character index past the end gives the end of the string.\<close>

theorem utf8_offsets_roundtrip:
  assumes "list_all scalar cps"
  shows "charOffsetToByteOffset (utf8 cps) k = length (utf8 (take k cps))
    \<and> byteOffsetToCharOffset (utf8 cps) (charOffsetToByteOffset (utf8 cps) k) = min k (length cps)"
proof -
  have c: "charOffsetToByteOffset (utf8 cps) k = length (utf8 (take k cps))"
    using charToByteFrom_utf8 [OF assms, of 0 k "[]"] by (simp add: charOffsetToByteOffset_def)
  then show ?thesis
    using byteToCharFrom_utf8 [of "take k cps" "drop k cps" "[]" 0] assms
    by (simp add: byteOffsetToCharOffset_def min.commute del: utf8_simps(3))
qed

theorem utf8_offsets_roundtrip_witness:
  "byteOffsetToCharOffset (utf8 [0x61, 0x20AC, 0x62]) (charOffsetToByteOffset (utf8 [0x61, 0x20AC, 0x62]) 2) = 2"
  using utf8_offsets_roundtrip [of "[0x61, 0x20AC, 0x62]" 2, THEN conjunct2]
  by (simp add: scalar_def del: utf8_simps)

text \<open>C20. Decoding reads back what \<open>encode\<close> appended, wherever it stands in a string, and
  stops right behind it; \<open>encode\<close> accepts exactly the Unicode scalar values and leaves the
  output alone otherwise.\<close>

theorem utf8_encode_decode:
  "encode cp out = (if scalar cp then (True, out @ enc1 cp) else (False, out))
   \<and> (scalar cp \<longrightarrow> decode (snd (encode cp out) @ rest) (length out) = (cp, length (snd (encode cp out))))"
  using utf8_head(1) [of cp out rest] by (simp add: encode_eq)

theorem utf8_encode_decode_witness:
  "decode (snd (encode 0x20AC ''x'') @ ''y'') 1 = (0x20AC, 4)"
  using utf8_encode_decode [of "0x20AC" "''x''" "''y''"]
  by (simp add: scalar_def encode_def enc1_def)

text \<open>The spans cover any byte string, well formed or not.\<close>
lemma spansFrom_cover: "i \<le> length s \<Longrightarrow> concat (map (\<lambda>(off, n). substr s off n) (spansFrom s i)) = drop i s"
proof (induction s i rule: spansFrom.induct)
  case (1 s i)
  let ?n = "if seqLen (s ! i) = 1 \<or> \<not> validAt s i (seqLen (s ! i)) then 1 else seqLen (s ! i)"
  show ?case
  proof (cases "i < length s")
    case True
    have "i + ?n \<le> length s" using True by (auto simp: validAt_def Let_def split: if_splits)
    moreover have "drop i s = substr s i ?n @ drop (i + ?n) s"
      by (metis substr_def append_take_drop_id drop_drop add.commute)
    ultimately show ?thesis using 1 True by (subst spansFrom.simps) (simp add: Let_def)
  next
    case False then show ?thesis using 1 by (subst spansFrom.simps) simp
  qed
qed
text \<open>Reversal keeps every byte of any string, malformed sequences included.\<close>

theorem reverseChars_keeps_bytes: "length (reverseChars s) = length s \<and> (\<forall>c. count_list (reverseChars s) c = count_list s c)"
proof -
  have rev: "count_list (concat (rev xs)) c = count_list (concat xs) c" "length (concat (rev xs)) = length (concat xs)" 
    for xs :: "string list" and c
    by (induction xs) auto
  show ?thesis using spansFrom_cover [of 0 s] 
    unfolding reverseChars_def rev_map [symmetric] rev by simp
qed

end
