(* ===== verification/Name_Distance.thy ===== *)
theory Name_Distance
  imports Ez_Prelude "HOL-Library.List_Lexorder" "HOL-Library.Product_Lexorder"
    "HOL-Library.Char_ord" "HOL-Library.Sublist"
begin

text \<open>
  The case-insensitive edit distance of \<open>src/utils/StringHelpers.h\<close>, which the parser, the
  compiler, the type checker and (as a textual copy) the virtual machine use to suggest a
  name, and the suggestion text the machine builds from it. The two-row dynamic program is
  related to an inductive relation of edit scripts.
\<close>

subsection \<open>The code\<close>

text \<open>\<open>std::tolower\<close> on an unsigned char, in the C locale.\<close>

definition tolowerC :: "char \<Rightarrow> char" where
  "tolowerC c = (if 65 \<le> uc c \<and> uc c \<le> 90 then char_of (uc c + 32) else c)"

definition substCost :: "char \<Rightarrow> char \<Rightarrow> nat" where
  "substCost x y = (if tolowerC x = tolowerC y then 0 else 1)"

text \<open>
  The inner loop: cells \<open>current[j], current[j+1], ...\<close> for the rest of \<open>b\<close>, given
  \<open>previous[j-1], previous[j], ...\<close> and \<open>current[j-1]\<close>.
\<close>

fun rowFrom :: "char \<Rightarrow> string \<Rightarrow> nat list \<Rightarrow> nat \<Rightarrow> nat list" where
  "rowFrom x (y # bs) (p0 # p1 # ps) left =
     (let c = min (min (p1 + 1) (left + 1)) (p0 + substCost x y)
      in c # rowFrom x bs (p1 # ps) c)"
| "rowFrom x bs ps left = []"

text \<open>The outer loop from row \<open>i\<close> on; \<open>best\<close> starts at \<open>current[0]\<close> and folds \<open>min\<close>.\<close>

fun distRows :: "nat \<Rightarrow> string \<Rightarrow> string \<Rightarrow> nat \<Rightarrow> nat list \<Rightarrow> nat" where
  "distRows limit b [] i previous = previous ! length b"
| "distRows limit b (x # xs) i previous =
     (let current = i # rowFrom x b previous i;
          best = fold min (tl current) i
      in if best > limit then limit + 1 else distRows limit b xs (i + 1) current)"

definition nameDistance :: "string \<Rightarrow> string \<Rightarrow> nat \<Rightarrow> nat" where
  "nameDistance a b limit =
     (if a = b then 0
      else if length a > length b + limit \<or> length b > length a + limit then limit + 1
      else distRows limit b a 1 [0 ..< length b + 1])"

text \<open>The candidates \<open>ezDidYouMean\<close> scores, in \<open>std::sort\<close>'s order on pairs.\<close>

definition suggestLimit :: "string \<Rightarrow> nat" where
  "suggestLimit wanted = (if length wanted \<le> 4 then 1 else 2)"

definition scoredNames :: "string \<Rightarrow> string list \<Rightarrow> (nat \<times> string) list" where
  "scoredNames wanted candidates =
     sort (map (\<lambda>c. (nameDistance wanted c (suggestLimit wanted), c))
       (filter (\<lambda>c. \<not> (c = wanted \<or> c = []) \<and> take 2 c \<noteq> ''__''
          \<and> nameDistance wanted c (suggestLimit wanted) \<le> suggestLimit wanted) candidates))"

fun joinNames :: "nat \<Rightarrow> nat \<Rightarrow> string list \<Rightarrow> string" where
  "joinNames i shown [] = []"
| "joinNames i shown (n # ns) =
     (if i = 0 then [] else if i + 1 = shown then '' or '' else '', '')
       @ [CHR 0x27] @ n @ [CHR 0x27] @ joinNames (i + 1) shown ns"

definition ezDidYouMean :: "string \<Rightarrow> string list \<Rightarrow> string" where
  "ezDidYouMean wanted candidates =
     (if wanted = [] \<or> candidates = [] then []
      else let scored = scoredNames wanted candidates in
        if scored = [] then []
        else CHR 0x0A # ''  Did you mean ''
               @ joinNames 0 (min (length scored) 3) (map snd (take 3 scored)) @ ''?'')"

subsection \<open>Edit scripts\<close>

text \<open>\<open>edit n a b\<close>: \<open>n\<close> insertions, deletions and replacements turn \<open>a\<close> into \<open>b\<close>, up to case.\<close>

inductive edit :: "nat \<Rightarrow> string \<Rightarrow> string \<Rightarrow> bool" where
  edit_nil: "edit 0 [] []"
| edit_keep: "tolowerC x = tolowerC y \<Longrightarrow> edit n xs ys \<Longrightarrow> edit n (x # xs) (y # ys)"
| edit_subst: "edit n xs ys \<Longrightarrow> edit (Suc n) (x # xs) (y # ys)"
| edit_ins: "edit n xs ys \<Longrightarrow> edit (Suc n) xs (y # ys)"
| edit_del: "edit n xs ys \<Longrightarrow> edit (Suc n) (x # xs) ys"

lemma edit_append: "edit m as bs \<Longrightarrow> edit n xs ys \<Longrightarrow> edit (m + n) (as @ xs) (bs @ ys)"
  by (induction rule: edit.induct) (auto intro: edit.intros)

lemma edit_rev: "edit n xs ys \<Longrightarrow> edit n (rev xs) (rev ys)"
proof (induction rule: edit.induct)
  case edit_nil then show ?case by (simp add: edit.intros)
next
  case (edit_keep x y n xs ys)
  have "edit 0 [x] [y]" using edit_keep(1) by (intro edit.edit_keep edit.edit_nil)
  from edit_append [OF edit_keep.IH this] show ?case by simp
next
  case (edit_subst n xs ys x y)
  have "edit 1 [x] [y]" using edit.edit_subst [OF edit.edit_nil] by simp
  from edit_append [OF edit_subst.IH this] show ?case by simp
next
  case (edit_ins n xs ys y)
  have "edit 1 [] [y]" using edit.edit_ins [OF edit.edit_nil] by simp
  from edit_append [OF edit_ins.IH this] show ?case by simp
next
  case (edit_del n xs ys x)
  have "edit 1 [x] []" using edit.edit_del [OF edit.edit_nil] by simp
  from edit_append [OF edit_del.IH this] show ?case by simp
qed

lemma edit_refl: "edit 0 xs xs"
  by (induction xs) (auto intro: edit.intros)

lemma edit_lengths: "edit n xs ys \<Longrightarrow> length xs \<le> length ys + n \<and> length ys \<le> length xs + n"
  by (induction rule: edit.induct) auto

text \<open>The recurrence the table holds; it is the least cost of an edit script.\<close>

fun lev :: "string \<Rightarrow> string \<Rightarrow> nat" where
  "lev [] ys = length ys"
| "lev xs [] = length xs"
| "lev (x # xs) (y # ys) =
     min (min (lev xs (y # ys) + 1) (lev (x # xs) ys + 1)) (lev xs ys + substCost x y)"

lemma lev_Nil2 [simp]: "lev xs [] = length xs"
  by (cases xs) auto

lemma edit_insert_all: "edit (length ys) [] ys"
  by (induction ys) (auto intro: edit.intros)

lemma edit_delete_all: "edit (length xs) xs []"
  by (induction xs) (auto intro: edit.intros)

lemma edit_lev: "edit (lev xs ys) xs ys"
proof (induction xs ys rule: lev.induct)
  case (1 ys) show ?case by (simp add: edit_insert_all)
next
  case (2 x xs) show ?case using edit_delete_all [of "x # xs"] by simp
next
  case (3 x xs y ys)
  have "edit (lev xs ys + substCost x y) (x # xs) (y # ys)"
    using 3(3) by (auto simp: substCost_def intro: edit.intros)
  moreover have "edit (lev xs (y # ys) + 1) (x # xs) (y # ys)"
    using 3(1) by (auto intro: edit.intros)
  moreover have "edit (lev (x # xs) ys + 1) (x # xs) (y # ys)"
    using 3(2) by (auto intro: edit.intros)
  ultimately show ?case by (auto simp: min_def)
qed

lemma lev_del: "lev (x # xs) ys \<le> Suc (lev xs ys)"
  by (cases ys) (auto simp: min_def)

lemma lev_ins: "lev xs (y # ys) \<le> Suc (lev xs ys)"
  by (cases xs) (auto simp: min_def)

lemma lev_least: "edit n xs ys \<Longrightarrow> lev xs ys \<le> n"
proof (induction rule: edit.induct)
  case (edit_keep x y n xs ys)
  then show ?case by (simp add: substCost_def)
next
  case (edit_subst n xs ys x y)
  then show ?case by (auto simp: substCost_def min_le_iff_disj)
next
  case (edit_ins n xs ys y)
  then show ?case using lev_ins [of xs y ys] by simp
next
  case (edit_del n xs ys x)
  then show ?case using lev_del [of x xs ys] by simp
qed simp

lemma lev_le_iff: "lev xs ys \<le> k \<longleftrightarrow> (\<exists>n\<le>k. edit n xs ys)"
  using edit_lev lev_least le_trans by blast

subsection \<open>The table rows\<close>

text \<open>The row for a (reversed) prefix \<open>ra\<close> of \<open>a\<close>, over the rest of \<open>b\<close> after \<open>rev rb\<close>.\<close>

fun prefRow :: "string \<Rightarrow> string \<Rightarrow> string \<Rightarrow> nat list" where
  "prefRow ra rb [] = [lev ra rb]"
| "prefRow ra rb (y # bs) = lev ra rb # prefRow ra (y # rb) bs"

lemma prefRow_hd: "prefRow ra rb bs = lev ra rb # tl (prefRow ra rb bs)"
  by (cases bs) auto

lemma length_prefRow [simp]: "length (prefRow ra rb bs) = Suc (length bs)"
  by (induction bs arbitrary: rb) auto

lemma last_prefRow: "prefRow ra rb bs ! length bs = lev ra (rev bs @ rb)"
  by (induction bs arbitrary: rb) auto

lemma rowFrom_prefRow:
  "rowFrom x bs (prefRow ra rb bs) (lev (x # ra) rb) = tl (prefRow (x # ra) rb bs)"
proof (induction bs arbitrary: rb)
  case (Cons y bs)
  have "prefRow ra (y # rb) bs = lev ra (y # rb) # tl (prefRow ra (y # rb) bs)"
    by (rule prefRow_hd)
  then show ?case
    using Cons.IH [of "y # rb"] prefRow_hd [of "x # ra" "y # rb" bs]
    by (metis (no_types, lifting) lev.simps(3) list.sel(3) prefRow.simps(2) rowFrom.simps(1))
qed simp

lemma prefRow_empty: "prefRow [] rb bs = [length rb ..< length rb + Suc (length bs)]"
  by (induction bs arbitrary: rb) (simp_all add: upt_rec)

lemma prefRow_members: "set (prefRow ra rb bs) = (\<lambda>k. lev ra (rev (take k bs) @ rb)) ` {..length bs}"
proof (induction bs arbitrary: rb)
  case (Cons y bs)
  have "{..Suc (length bs)} = insert 0 (Suc ` {..length bs})"
    by (auto simp: image_iff Suc_le_D) (metis Suc_le_D Suc_le_mono atMost_iff not0_implies_Suc not_less_eq_eq)
  then show ?case by (simp add: Cons.IH image_image)
qed simp

lemma lev_row_lower:
  "\<exists>ys'. suffix ys' ys \<and> lev ra ys' \<le> lev (xs @ ra) ys"
proof (induction xs ys rule: lev.induct)
  case (1 ys) then show ?case by auto
next
  case (2 x xs) show ?case by (intro exI [of _ "[]"]) simp
next
  case (3 x xs y ys)
  consider "lev ((x # xs) @ ra) (y # ys) = lev (xs @ ra) (y # ys) + 1"
    | "lev ((x # xs) @ ra) (y # ys) = lev ((x # xs) @ ra) ys + 1"
    | "lev ((x # xs) @ ra) (y # ys) = lev (xs @ ra) ys + substCost x y"
    by (simp add: min_def) metis
  then show ?case
    using 3 by cases (metis le_add1 le_trans suffix_ConsI)+
qed

lemma fold_min_Min: "fold min xs (a::nat) = Min (insert a (set xs))"
proof (induction xs arbitrary: a)
  case (Cons x xs)
  show ?case
    by (cases "xs = []") (simp_all add: Cons.IH min.assoc min.left_commute min.commute)
qed simp

lemma distRows_spec:
  assumes "k \<le> limit"
  shows "distRows limit b xs (Suc (length ra)) (prefRow ra [] b) \<le> k \<longleftrightarrow> lev (rev xs @ ra) (rev b) \<le> k"
proof (induction xs arbitrary: ra)
  case Nil then show ?case by (simp add: last_prefRow)
next
  case (Cons x xs)
  let ?cur = "prefRow (x # ra) [] b"
  have cur: "Suc (length ra) # rowFrom x b (prefRow ra [] b) (Suc (length ra)) = ?cur"
    using rowFrom_prefRow [of x b ra "[]"] prefRow_hd [of "x # ra" "[]" b] by simp
  have best: "fold min (tl ?cur) (Suc (length ra)) = Min (set ?cur)"
    using prefRow_hd [of "x # ra" "[]" b] unfolding fold_min_Min
    by (metis lev_Nil2 length_Cons list.set(2))
  show ?case
  proof (cases "Min (set ?cur) > limit")
    case True
    obtain ys' where ys': "suffix ys' (rev b)" "lev (x # ra) ys' \<le> lev (rev xs @ x # ra) (rev b)"
      using lev_row_lower by blast
    then obtain us where "b = rev ys' @ us"
      by (metis rev_rev_ident rev_append suffix_def)
    then have "rev (take (length ys') b) = ys'" "length ys' \<le> length b" by simp_all
    then have "lev (x # ra) ys' \<in> set ?cur"
      by (force simp: prefRow_members)
    then have "limit < lev (x # ra) ys'" using True by (meson List.finite_set Min_le leD leI le_less_trans)
    then show ?thesis using True best cur ys'(2) assms by (simp add: Let_def)
  next
    case False
    then show ?thesis using best cur Cons.IH [of "x # ra"] by (simp add: Let_def)
  qed
qed

subsection \<open>Properties\<close>

lemma nameDistance_lev:
  assumes "k \<le> limit"
  shows "nameDistance a b limit \<le> k \<longleftrightarrow> lev (rev a) (rev b) \<le> k"
proof -
  consider "a = b" | "length a > length b + limit \<or> length b > length a + limit" "a \<noteq> b"
    | "\<not> (length a > length b + limit \<or> length b > length a + limit)" "a \<noteq> b" by blast
  then show ?thesis
  proof cases
    case 1
    then show ?thesis using lev_least [OF edit_refl] by (simp add: nameDistance_def)
  next
    case 2
    then have "\<not> lev (rev a) (rev b) \<le> k"
      using edit_lengths [OF edit_lev, of "rev a" "rev b"] assms by auto
    then show ?thesis using 2 assms by (simp add: nameDistance_def)
  next
    case 3
    then show ?thesis
      using distRows_spec [OF assms, of b a "[]"] prefRow_empty [of "[]" b]
      by (simp add: nameDistance_def)
  qed
qed

lemma nameDistance_edit:
  assumes "k \<le> limit"
  shows "nameDistance a b limit \<le> k \<longleftrightarrow> (\<exists>n\<le>k. edit n a b)"
proof -
  have "(\<exists>n\<le>k. edit n (rev a) (rev b)) \<longleftrightarrow> (\<exists>n\<le>k. edit n a b)"
    by (metis edit_rev rev_rev_ident)
  then show ?thesis using nameDistance_lev [OF assms] lev_le_iff by simp
qed

text \<open>C22. Within its limit, \<open>nameDistance\<close> is the least number of insertions, deletions and
  replacements (ignoring case) that turn one name into the other; beyond the limit it only
  says so. The early exits never change the answer.\<close>

theorem nameDistance_correct:
  assumes "k \<le> limit"
  shows "nameDistance a b limit \<le> k \<longleftrightarrow> (\<exists>n\<le>k. edit n a b)"
  using assms by (rule nameDistance_edit)

theorem nameDistance_correct_witness:
  "nameDistance ''lenght'' ''Length'' 2 \<le> 2 \<longleftrightarrow> (\<exists>n\<le>2. edit n ''lenght'' ''Length'')"
  by (rule nameDistance_correct) simp

lemma set_scoredNames:
  "(d, c) \<in> set (scoredNames w cs) \<longleftrightarrow>
     c \<in> set cs \<and> c \<noteq> w \<and> c \<noteq> [] \<and> take 2 c \<noteq> ''__''
     \<and> d = nameDistance w c (suggestLimit w) \<and> d \<le> suggestLimit w"
  by (auto simp: scoredNames_def)

text \<open>\<open>ezDidYouMean\<close> is silent exactly when no candidate other than the name itself,
  the empty name and the \<open>__\<close> internals is within one edit (short names) or two.\<close>

theorem ezDidYouMean_silent:
  "ezDidYouMean w cs = [] \<longleftrightarrow>
     w = [] \<or> (\<forall>c \<in> set cs. c = w \<or> c = [] \<or> take 2 c = ''__''
                 \<or> \<not> (\<exists>n. n \<le> suggestLimit w \<and> edit n w c))"
proof -
  have "scoredNames w cs = [] \<longleftrightarrow> (\<forall>c \<in> set cs. c = w \<or> c = [] \<or> take 2 c = ''__''
           \<or> \<not> nameDistance w c (suggestLimit w) \<le> suggestLimit w)"
  proof -
    have "scoredNames w cs = [] \<longleftrightarrow> (\<forall>d c. (d, c) \<notin> set (scoredNames w cs))"
      by (metis empty_iff list.set(1) list.set_intros(1) neq_Nil_conv surj_pair)
    then show ?thesis unfolding set_scoredNames by auto
  qed
  then show ?thesis
    unfolding nameDistance_edit [OF order_refl]
    by (cases "cs = []") (simp_all add: ezDidYouMean_def Let_def)
qed

theorem ezDidYouMean_silent_witness:
  "ezDidYouMean ''abcde'' [''__abc'', ''abcde'']= []"
  unfolding ezDidYouMean_silent by simp

end
