(* ===== verification/Cxx_Double.thy ===== *)
theory Cxx_Double
  imports Complex_Main Ez_Prelude "HOL-Library.Log_Nat"
begin

text \<open>
  The C++ type \<open>double\<close>: IEEE 754 binary64, held as its 64 bits. A double is read as a
  sign and a magnitude (a rational); every arithmetic operation is the exact rational
  operation rounded to nearest, ties to even, with gradual underflow. The payload of a NaN
  produced by an operation is not specified by C++; \<open>dnan\<close> stands for it.
\<close>

type_synonym dbl = "64 word"

datatype dval = DNaN | DInf bool | DFin bool rat

definition pow2 :: "int \<Rightarrow> rat" where
  "pow2 e = (if e \<ge> 0 then 2 ^ nat e else 1 / 2 ^ nat (- e))"

definition dsign :: "dbl \<Rightarrow> bool" where
  "dsign x \<longleftrightarrow> uint x \<ge> 2 ^ 63"

definition dexp :: "dbl \<Rightarrow> int" where
  "dexp x = uint x div 2 ^ 52 mod 2 ^ 11"

definition dfrac :: "dbl \<Rightarrow> int" where
  "dfrac x = uint x mod 2 ^ 52"

definition dval_of :: "dbl \<Rightarrow> dval" where
  "dval_of x =
     (if dexp x = 2047 then (if dfrac x = 0 then DInf (dsign x) else DNaN)
      else if dexp x = 0 then DFin (dsign x) (of_int (dfrac x) * pow2 (- 1074))
      else DFin (dsign x) (of_int (2 ^ 52 + dfrac x) * pow2 (dexp x - 1075)))"

definition dnan :: dbl where "dnan = 0x7FF8000000000000"
definition dinf :: dbl where "dinf = 0x7FF0000000000000"

definition with_sign :: "bool \<Rightarrow> dbl \<Rightarrow> dbl" where
  "with_sign neg x = (if neg then x + 0x8000000000000000 else x)"

subsection \<open>Rounding\<close>

text \<open>The exponent of the leading binary digit of a positive rational.\<close>

definition flog2 :: "rat \<Rightarrow> int" where
  "flog2 r = (case quotient_of r of (p, q) \<Rightarrow>
     let e = int (floorlog 2 (nat p)) - int (floorlog 2 (nat q)) in
     if pow2 e \<le> r then e else e - 1)"

definition rnd_even :: "rat \<Rightarrow> int" where
  "rnd_even r = (let f = \<lfloor>r\<rfloor>; d = r - of_int f in
     if d < 1 / 2 then f else if d > 1 / 2 then f + 1 else if even f then f else f + 1)"

text \<open>
  The exponent of the last place, the rounded significand, and the bits: biased exponent and
  significand share one integer, so a carry out of the significand moves the exponent.
\<close>

definition quantum :: "rat \<Rightarrow> int" where
  "quantum r = max (flog2 r - 52) (- 1074)"

definition mag_bits :: "rat \<Rightarrow> int" where
  "mag_bits r = (if r = 0 then 0
     else (quantum r + 1074) * 2 ^ 52 + rnd_even (r / pow2 (quantum r)))"

definition dround :: "bool \<Rightarrow> rat \<Rightarrow> dbl" where
  "dround neg r = with_sign neg (if mag_bits r \<ge> uint dinf then dinf else word_of_int (mag_bits r))"

text \<open>A signed rational; an exact zero takes the given sign.\<close>

definition dof_rat :: "bool \<Rightarrow> rat \<Rightarrow> dbl" where
  "dof_rat zneg r = (if r = 0 then with_sign zneg 0 else dround (r < 0) \<bar>r\<bar>)"

definition dsigned :: "bool \<Rightarrow> rat \<Rightarrow> rat" where
  "dsigned neg r = (if neg then - r else r)"

subsection \<open>Operations\<close>

definition dneg :: "dbl \<Rightarrow> dbl" where
  "dneg x = x + 0x8000000000000000"

fun dadd_val :: "dval \<Rightarrow> dval \<Rightarrow> dbl" where
  "dadd_val DNaN y = dnan"
| "dadd_val x DNaN = dnan"
| "dadd_val (DInf s) (DInf t) = (if s = t then with_sign s dinf else dnan)"
| "dadd_val (DInf s) (DFin t b) = with_sign s dinf"
| "dadd_val (DFin s a) (DInf t) = with_sign t dinf"
| "dadd_val (DFin s a) (DFin t b) = dof_rat (s \<and> t) (dsigned s a + dsigned t b)"

definition dadd :: "dbl \<Rightarrow> dbl \<Rightarrow> dbl" where
  "dadd x y = dadd_val (dval_of x) (dval_of y)"

definition dsub :: "dbl \<Rightarrow> dbl \<Rightarrow> dbl" where
  "dsub x y = dadd x (dneg y)"

fun dmul_val :: "dval \<Rightarrow> dval \<Rightarrow> dbl" where
  "dmul_val DNaN y = dnan"
| "dmul_val x DNaN = dnan"
| "dmul_val (DInf s) (DInf t) = with_sign (s \<noteq> t) dinf"
| "dmul_val (DInf s) (DFin t b) = (if b = 0 then dnan else with_sign (s \<noteq> t) dinf)"
| "dmul_val (DFin s a) (DInf t) = (if a = 0 then dnan else with_sign (s \<noteq> t) dinf)"
| "dmul_val (DFin s a) (DFin t b) = dof_rat (s \<noteq> t) (dsigned s a * dsigned t b)"

definition dmul :: "dbl \<Rightarrow> dbl \<Rightarrow> dbl" where
  "dmul x y = dmul_val (dval_of x) (dval_of y)"

fun ddiv_val :: "dval \<Rightarrow> dval \<Rightarrow> dbl" where
  "ddiv_val DNaN y = dnan"
| "ddiv_val x DNaN = dnan"
| "ddiv_val (DInf s) (DInf t) = dnan"
| "ddiv_val (DInf s) (DFin t b) = with_sign (s \<noteq> t) dinf"
| "ddiv_val (DFin s a) (DInf t) = with_sign (s \<noteq> t) 0"
| "ddiv_val (DFin s a) (DFin t b) =
     (if b = 0 then (if a = 0 then dnan else with_sign (s \<noteq> t) dinf)
      else dof_rat (s \<noteq> t) (dsigned s a / dsigned t b))"

definition ddiv :: "dbl \<Rightarrow> dbl \<Rightarrow> dbl" where
  "ddiv x y = ddiv_val (dval_of x) (dval_of y)"

text \<open>\<open>std::fmod\<close>: the exact remainder of the truncated quotient, with the dividend's sign.\<close>

fun dfmod_val :: "dbl \<Rightarrow> dval \<Rightarrow> dval \<Rightarrow> dbl" where
  "dfmod_val x DNaN y = dnan"
| "dfmod_val x a DNaN = dnan"
| "dfmod_val x (DInf s) y = dnan"
| "dfmod_val x (DFin s a) (DInf t) = x"
| "dfmod_val x (DFin s a) (DFin t b) =
     (if b = 0 then dnan else dof_rat s (dsigned s (a - b * of_int \<lfloor>a / b\<rfloor>)))"

definition dfmod :: "dbl \<Rightarrow> dbl \<Rightarrow> dbl" where
  "dfmod x y = dfmod_val x (dval_of x) (dval_of y)"

text \<open>Comparisons: every comparison with a NaN is false.\<close>

fun dval_eq :: "dval \<Rightarrow> dval \<Rightarrow> bool" where
  "dval_eq (DInf s) (DInf t) = (s = t)"
| "dval_eq (DFin s a) (DFin t b) = (dsigned s a = dsigned t b)"
| "dval_eq x y = False"

definition deq :: "dbl \<Rightarrow> dbl \<Rightarrow> bool" where
  "deq x y = dval_eq (dval_of x) (dval_of y)"

fun dval_lt :: "dval \<Rightarrow> dval \<Rightarrow> bool" where
  "dval_lt (DInf s) (DInf t) = (s \<and> \<not> t)"
| "dval_lt (DInf s) (DFin t b) = s"
| "dval_lt (DFin s a) (DInf t) = (\<not> t)"
| "dval_lt (DFin s a) (DFin t b) = (dsigned s a < dsigned t b)"
| "dval_lt x y = False"

definition dlt :: "dbl \<Rightarrow> dbl \<Rightarrow> bool" where
  "dlt x y = dval_lt (dval_of x) (dval_of y)"

definition dle :: "dbl \<Rightarrow> dbl \<Rightarrow> bool" where
  "dle x y \<longleftrightarrow> dlt x y \<or> deq x y"

text \<open>Conversions: \<open>(double)n\<close> rounds; \<open>(long long)x\<close> truncates and is undefined out of range.\<close>

definition d_of_i64 :: "i64 \<Rightarrow> dbl" where
  "d_of_i64 n = dof_rat False (of_int (sint n))"

definition i64_of_d :: "dbl \<Rightarrow> i64 option" where
  "i64_of_d x = (case dval_of x of
       DFin s a \<Rightarrow> (let t = (if s then - \<lfloor>a\<rfloor> else \<lfloor>a\<rfloor>) in
         if - (2 ^ 63) \<le> t \<and> t < 2 ^ 63 then Some (word_of_int t) else None)
     | _ \<Rightarrow> None)"

subsection \<open>Reading decimal numerals\<close>

definition isDigitC :: "char \<Rightarrow> bool" where
  "isDigitC c \<longleftrightarrow> 48 \<le> uc c \<and> uc c \<le> 57"

definition digitsVal :: "string \<Rightarrow> nat" where
  "digitsVal ds = foldl (\<lambda>v c. 10 * v + (uc c - 48)) 0 ds"

text \<open>\<open>std::to_string\<close> of a non-negative integer.\<close>

fun showNat :: "nat \<Rightarrow> string" where
  "showNat n = (if n < 10 then [char_of (48 + n)]
     else showNat (n div 10) @ [char_of (48 + n mod 10)])"

declare showNat.simps [simp del]

lemma digitsVal_snoc: "digitsVal (ds @ [c]) = 10 * digitsVal ds + (uc c - 48)"
  by (simp add: digitsVal_def)

lemma showNat_props: "digitsVal (showNat n) = n \<and> list_all isDigitC (showNat n) \<and> showNat n \<noteq> []"
proof (induction n rule: showNat.induct)
  case (1 n)
  have "n mod 10 < 10" by simp
  then show ?case
    using 1 by (subst (1 2 3) showNat.simps)
      (auto simp: digitsVal_snoc isDigitC_def [abs_def] digitsVal_def [of "[x]" for x] simp del: of_nat_mod)
qed

lemmas digitsVal_showNat [simp] = showNat_props [THEN conjunct1]
lemmas showNat_digits [simp] = showNat_props [THEN conjunct2, THEN conjunct1]
lemmas showNat_nonempty [simp] = showNat_props [THEN conjunct2, THEN conjunct2]

text \<open>
  \<open>strtod\<close> on a text that starts with a decimal digit: the integer part, a fraction, and an
  exponent when at least one digit follows it. \<open>None\<close> is \<open>ERANGE\<close>: overflow, or an inexact
  result below the normal range (as the GNU library reports it); \<open>std::stod\<close> turns it into
  \<open>std::out_of_range\<close>.
\<close>

definition expPart :: "string \<Rightarrow> int" where
  "expPart t = (case t of
      c # u \<Rightarrow> if c \<noteq> CHR ''e'' \<and> c \<noteq> CHR ''E'' then 0
               else (case u of
                   [] \<Rightarrow> 0
                 | d # v \<Rightarrow>
                     if d = CHR ''-'' then - int (digitsVal (takeWhile isDigitC v))
                     else if d = CHR ''+'' then int (digitsVal (takeWhile isDigitC v))
                     else int (digitsVal (takeWhile isDigitC u)))
    | [] \<Rightarrow> 0)"

definition decimalVal :: "string \<Rightarrow> rat" where
  "decimalVal t =
     (let ip = takeWhile isDigitC t; r1 = dropWhile isDigitC t;
          fp = (case r1 of c # u \<Rightarrow> if c = CHR ''.'' then takeWhile isDigitC u else [] | [] \<Rightarrow> []);
          r2 = (case r1 of c # u \<Rightarrow> if c = CHR ''.'' then dropWhile isDigitC u else r1 | [] \<Rightarrow> []);
          e = expPart r2 - int (length fp);
          m = of_nat (digitsVal (ip @ fp))
      in if e \<ge> 0 then m * 10 ^ nat e else m / 10 ^ nat (- e))"

definition tiny_inexact :: "rat \<Rightarrow> bool" where
  "tiny_inexact r \<longleftrightarrow> r \<noteq> 0 \<and> mag_bits r < 2 ^ 52
     \<and> of_int (rnd_even (r / pow2 (quantum r))) * pow2 (quantum r) \<noteq> r"

definition stod :: "string \<Rightarrow> cxx_exn + dbl" where
  "stod t = (let r = decimalVal t in
     if mag_bits r \<ge> uint dinf \<or> tiny_inexact r then Inl (OutOfRange ''stod'')
     else Inr (dround False r))"

end
