(* ===== verification/Token.thy ===== *)
theory Token
  imports Cxx_Double
begin

text \<open>
  Tokens, from \<open>src/lexer/Token.h\<close>: the enumeration \<open>TokenKind\<close>, the literal variant, the
  token record and \<open>tokenTypeToString\<close>. The enumeration is split along the sections of its
  declaration; \<open>TK_X\<close> abbreviates the source's \<open>TokenKind::X\<close>.
\<close>

datatype lit_kind =
    K_NUMBER | K_STRING | K_IDENTIFIER | K_TRUE | K_FALSE | K_NIL

datatype kw_kind =
    K_OUT | K_IN | K_WHEN | K_OTHER | K_REPEAT | K_TO | K_STEP | K_WHILE | K_USE | K_TASK
  | K_GIVE | K_ESCAPE | K_SKIP | K_GET | K_MATCH | K_AND | K_OR | K_NOT | K_ASYNC | K_AWAIT
  | K_TEST | K_DECORATOR_KW

datatype oop_kind =
    K_MODEL | K_INIT | K_SELF | K_HIDDEN | K_SHOWN | K_EXTENDS | K_STRUCT | K_ENUM | K_NEW
  | K_SUPER | K_STATIC | K_INTERFACE | K_IMPLEMENTS | K_TRY | K_CATCH | K_THROW | K_FINALLY
  | K_EXPORT | K_REQUIRES | K_ENSURES | K_AT

datatype op_kind =
    K_PLUS | K_MINUS | K_STAR | K_STAR_STAR | K_SLASH | K_PERCENT | K_EQUAL | K_EQUAL_EQUAL
  | K_BANG | K_BANG_EQUAL | K_LESS | K_LESS_EQUAL | K_GREATER | K_GREATER_EQUAL | K_PLUS_EQUAL
  | K_MINUS_EQUAL | K_STAR_EQUAL | K_STAR_STAR_EQUAL | K_SLASH_EQUAL

datatype bit_kind =
    K_AMPERSAND | K_CARET | K_TILDE | K_LSHIFT | K_RSHIFT

datatype punct_kind =
    K_LPAREN | K_RPAREN | K_LBRACKET | K_RBRACKET | K_LBRACE | K_RBRACE | K_COMMA | K_DOT
  | K_COLON | K_QUESTION_MARK | K_QUESTION_QUESTION | K_QUESTION_DOT | K_PIPE | K_ARROW
  | K_NEWLINE | K_ELLIPSIS

datatype special_kind =
    K_END_OF_FILE | K_ERROR

datatype token_kind =
    TLit lit_kind | TKw kw_kind | TOop oop_kind | TOp op_kind | TBit bit_kind
  | TPunct punct_kind | TSpecial special_kind

abbreviation "TK_NUMBER \<equiv> TLit K_NUMBER"
abbreviation "TK_STRING \<equiv> TLit K_STRING"
abbreviation "TK_IDENTIFIER \<equiv> TLit K_IDENTIFIER"
abbreviation "TK_TRUE \<equiv> TLit K_TRUE"
abbreviation "TK_FALSE \<equiv> TLit K_FALSE"
abbreviation "TK_NIL \<equiv> TLit K_NIL"
abbreviation "TK_OUT \<equiv> TKw K_OUT"
abbreviation "TK_IN \<equiv> TKw K_IN"
abbreviation "TK_WHEN \<equiv> TKw K_WHEN"
abbreviation "TK_OTHER \<equiv> TKw K_OTHER"
abbreviation "TK_REPEAT \<equiv> TKw K_REPEAT"
abbreviation "TK_TO \<equiv> TKw K_TO"
abbreviation "TK_STEP \<equiv> TKw K_STEP"
abbreviation "TK_WHILE \<equiv> TKw K_WHILE"
abbreviation "TK_USE \<equiv> TKw K_USE"
abbreviation "TK_TASK \<equiv> TKw K_TASK"
abbreviation "TK_GIVE \<equiv> TKw K_GIVE"
abbreviation "TK_ESCAPE \<equiv> TKw K_ESCAPE"
abbreviation "TK_SKIP \<equiv> TKw K_SKIP"
abbreviation "TK_GET \<equiv> TKw K_GET"
abbreviation "TK_MATCH \<equiv> TKw K_MATCH"
abbreviation "TK_AND \<equiv> TKw K_AND"
abbreviation "TK_OR \<equiv> TKw K_OR"
abbreviation "TK_NOT \<equiv> TKw K_NOT"
abbreviation "TK_ASYNC \<equiv> TKw K_ASYNC"
abbreviation "TK_AWAIT \<equiv> TKw K_AWAIT"
abbreviation "TK_TEST \<equiv> TKw K_TEST"
abbreviation "TK_DECORATOR_KW \<equiv> TKw K_DECORATOR_KW"
abbreviation "TK_MODEL \<equiv> TOop K_MODEL"
abbreviation "TK_INIT \<equiv> TOop K_INIT"
abbreviation "TK_SELF \<equiv> TOop K_SELF"
abbreviation "TK_HIDDEN \<equiv> TOop K_HIDDEN"
abbreviation "TK_SHOWN \<equiv> TOop K_SHOWN"
abbreviation "TK_EXTENDS \<equiv> TOop K_EXTENDS"
abbreviation "TK_STRUCT \<equiv> TOop K_STRUCT"
abbreviation "TK_ENUM \<equiv> TOop K_ENUM"
abbreviation "TK_NEW \<equiv> TOop K_NEW"
abbreviation "TK_SUPER \<equiv> TOop K_SUPER"
abbreviation "TK_STATIC \<equiv> TOop K_STATIC"
abbreviation "TK_INTERFACE \<equiv> TOop K_INTERFACE"
abbreviation "TK_IMPLEMENTS \<equiv> TOop K_IMPLEMENTS"
abbreviation "TK_TRY \<equiv> TOop K_TRY"
abbreviation "TK_CATCH \<equiv> TOop K_CATCH"
abbreviation "TK_THROW \<equiv> TOop K_THROW"
abbreviation "TK_FINALLY \<equiv> TOop K_FINALLY"
abbreviation "TK_EXPORT \<equiv> TOop K_EXPORT"
abbreviation "TK_REQUIRES \<equiv> TOop K_REQUIRES"
abbreviation "TK_ENSURES \<equiv> TOop K_ENSURES"
abbreviation "TK_AT \<equiv> TOop K_AT"
abbreviation "TK_PLUS \<equiv> TOp K_PLUS"
abbreviation "TK_MINUS \<equiv> TOp K_MINUS"
abbreviation "TK_STAR \<equiv> TOp K_STAR"
abbreviation "TK_STAR_STAR \<equiv> TOp K_STAR_STAR"
abbreviation "TK_SLASH \<equiv> TOp K_SLASH"
abbreviation "TK_PERCENT \<equiv> TOp K_PERCENT"
abbreviation "TK_EQUAL \<equiv> TOp K_EQUAL"
abbreviation "TK_EQUAL_EQUAL \<equiv> TOp K_EQUAL_EQUAL"
abbreviation "TK_BANG \<equiv> TOp K_BANG"
abbreviation "TK_BANG_EQUAL \<equiv> TOp K_BANG_EQUAL"
abbreviation "TK_LESS \<equiv> TOp K_LESS"
abbreviation "TK_LESS_EQUAL \<equiv> TOp K_LESS_EQUAL"
abbreviation "TK_GREATER \<equiv> TOp K_GREATER"
abbreviation "TK_GREATER_EQUAL \<equiv> TOp K_GREATER_EQUAL"
abbreviation "TK_PLUS_EQUAL \<equiv> TOp K_PLUS_EQUAL"
abbreviation "TK_MINUS_EQUAL \<equiv> TOp K_MINUS_EQUAL"
abbreviation "TK_STAR_EQUAL \<equiv> TOp K_STAR_EQUAL"
abbreviation "TK_STAR_STAR_EQUAL \<equiv> TOp K_STAR_STAR_EQUAL"
abbreviation "TK_SLASH_EQUAL \<equiv> TOp K_SLASH_EQUAL"
abbreviation "TK_AMPERSAND \<equiv> TBit K_AMPERSAND"
abbreviation "TK_CARET \<equiv> TBit K_CARET"
abbreviation "TK_TILDE \<equiv> TBit K_TILDE"
abbreviation "TK_LSHIFT \<equiv> TBit K_LSHIFT"
abbreviation "TK_RSHIFT \<equiv> TBit K_RSHIFT"
abbreviation "TK_LPAREN \<equiv> TPunct K_LPAREN"
abbreviation "TK_RPAREN \<equiv> TPunct K_RPAREN"
abbreviation "TK_LBRACKET \<equiv> TPunct K_LBRACKET"
abbreviation "TK_RBRACKET \<equiv> TPunct K_RBRACKET"
abbreviation "TK_LBRACE \<equiv> TPunct K_LBRACE"
abbreviation "TK_RBRACE \<equiv> TPunct K_RBRACE"
abbreviation "TK_COMMA \<equiv> TPunct K_COMMA"
abbreviation "TK_DOT \<equiv> TPunct K_DOT"
abbreviation "TK_COLON \<equiv> TPunct K_COLON"
abbreviation "TK_QUESTION_MARK \<equiv> TPunct K_QUESTION_MARK"
abbreviation "TK_QUESTION_QUESTION \<equiv> TPunct K_QUESTION_QUESTION"
abbreviation "TK_QUESTION_DOT \<equiv> TPunct K_QUESTION_DOT"
abbreviation "TK_PIPE \<equiv> TPunct K_PIPE"
abbreviation "TK_ARROW \<equiv> TPunct K_ARROW"
abbreviation "TK_NEWLINE \<equiv> TPunct K_NEWLINE"
abbreviation "TK_ELLIPSIS \<equiv> TPunct K_ELLIPSIS"
abbreviation "TK_END_OF_FILE \<equiv> TSpecial K_END_OF_FILE"
abbreviation "TK_ERROR \<equiv> TSpecial K_ERROR"

text \<open>\<open>std::variant<nullptr_t, double, long long, std::string, bool>\<close>.\<close>

datatype literal = LNull | LDouble dbl | LInt i64 | LStr string | LBool bool

record token =
  ttype :: token_kind
  lexeme :: string
  literal :: literal
  tfile :: string
  tline :: int
  tcolumn :: int

text \<open>\<open>tokenTypeToString\<close>: the kinds its \<open>switch\<close> has no case for give \<open>UNKNOWN\<close>.\<close>

primrec litName :: "lit_kind \<Rightarrow> string" where
  "litName K_NUMBER = ''NUMBER''"
| "litName K_STRING = ''STRING''"
| "litName K_IDENTIFIER = ''IDENTIFIER''"
| "litName K_TRUE = ''TRUE''"
| "litName K_FALSE = ''FALSE''"
| "litName K_NIL = ''NIL''"

primrec kwName :: "kw_kind \<Rightarrow> string" where
  "kwName K_OUT = ''OUT''"
| "kwName K_IN = ''IN''"
| "kwName K_WHEN = ''WHEN''"
| "kwName K_OTHER = ''OTHER''"
| "kwName K_REPEAT = ''REPEAT''"
| "kwName K_TO = ''TO''"
| "kwName K_STEP = ''STEP''"
| "kwName K_WHILE = ''WHILE''"
| "kwName K_USE = ''USE''"
| "kwName K_TASK = ''TASK''"
| "kwName K_GIVE = ''GIVE''"
| "kwName K_ESCAPE = ''ESCAPE''"
| "kwName K_SKIP = ''SKIP''"
| "kwName K_GET = ''GET''"
| "kwName K_MATCH = ''MATCH''"
| "kwName K_AND = ''AND''"
| "kwName K_OR = ''OR''"
| "kwName K_NOT = ''NOT''"
| "kwName K_ASYNC = ''UNKNOWN''"
| "kwName K_AWAIT = ''UNKNOWN''"
| "kwName K_TEST = ''UNKNOWN''"
| "kwName K_DECORATOR_KW = ''DECORATOR_KW''"

primrec oopName :: "oop_kind \<Rightarrow> string" where
  "oopName K_MODEL = ''MODEL''"
| "oopName K_INIT = ''INIT''"
| "oopName K_SELF = ''SELF''"
| "oopName K_HIDDEN = ''HIDDEN''"
| "oopName K_SHOWN = ''SHOWN''"
| "oopName K_EXTENDS = ''EXTENDS''"
| "oopName K_STRUCT = ''STRUCT''"
| "oopName K_ENUM = ''ENUM''"
| "oopName K_NEW = ''NEW''"
| "oopName K_SUPER = ''UNKNOWN''"
| "oopName K_STATIC = ''UNKNOWN''"
| "oopName K_INTERFACE = ''UNKNOWN''"
| "oopName K_IMPLEMENTS = ''UNKNOWN''"
| "oopName K_TRY = ''TRY''"
| "oopName K_CATCH = ''CATCH''"
| "oopName K_THROW = ''THROW''"
| "oopName K_FINALLY = ''UNKNOWN''"
| "oopName K_EXPORT = ''EXPORT''"
| "oopName K_REQUIRES = ''REQUIRES''"
| "oopName K_ENSURES = ''ENSURES''"
| "oopName K_AT = ''AT''"

primrec opName :: "op_kind \<Rightarrow> string" where
  "opName K_PLUS = ''PLUS''"
| "opName K_MINUS = ''MINUS''"
| "opName K_STAR = ''STAR''"
| "opName K_STAR_STAR = ''STAR_STAR''"
| "opName K_SLASH = ''SLASH''"
| "opName K_PERCENT = ''PERCENT''"
| "opName K_EQUAL = ''EQUAL''"
| "opName K_EQUAL_EQUAL = ''EQUAL_EQUAL''"
| "opName K_BANG = ''BANG''"
| "opName K_BANG_EQUAL = ''BANG_EQUAL''"
| "opName K_LESS = ''LESS''"
| "opName K_LESS_EQUAL = ''LESS_EQUAL''"
| "opName K_GREATER = ''GREATER''"
| "opName K_GREATER_EQUAL = ''GREATER_EQUAL''"
| "opName K_PLUS_EQUAL = ''PLUS_EQUAL''"
| "opName K_MINUS_EQUAL = ''MINUS_EQUAL''"
| "opName K_STAR_EQUAL = ''STAR_EQUAL''"
| "opName K_STAR_STAR_EQUAL = ''STAR_STAR_EQUAL''"
| "opName K_SLASH_EQUAL = ''SLASH_EQUAL''"

primrec bitName :: "bit_kind \<Rightarrow> string" where
  "bitName K_AMPERSAND = ''AMPERSAND''"
| "bitName K_CARET = ''CARET''"
| "bitName K_TILDE = ''TILDE''"
| "bitName K_LSHIFT = ''LSHIFT''"
| "bitName K_RSHIFT = ''RSHIFT''"

primrec punctName :: "punct_kind \<Rightarrow> string" where
  "punctName K_LPAREN = ''LPAREN''"
| "punctName K_RPAREN = ''RPAREN''"
| "punctName K_LBRACKET = ''LBRACKET''"
| "punctName K_RBRACKET = ''RBRACKET''"
| "punctName K_LBRACE = ''LBRACE''"
| "punctName K_RBRACE = ''RBRACE''"
| "punctName K_COMMA = ''COMMA''"
| "punctName K_DOT = ''DOT''"
| "punctName K_COLON = ''COLON''"
| "punctName K_QUESTION_MARK = ''QUESTION_MARK''"
| "punctName K_QUESTION_QUESTION = ''QUESTION_QUESTION''"
| "punctName K_QUESTION_DOT = ''QUESTION_DOT''"
| "punctName K_PIPE = ''PIPE''"
| "punctName K_ARROW = ''ARROW''"
| "punctName K_NEWLINE = ''NEWLINE''"
| "punctName K_ELLIPSIS = ''ELLIPSIS''"

primrec specialName :: "special_kind \<Rightarrow> string" where
  "specialName K_END_OF_FILE = ''EOF''"
| "specialName K_ERROR = ''ERROR''"

primrec tokenTypeToString :: "token_kind \<Rightarrow> string" where
  "tokenTypeToString (TLit k) = litName k"
| "tokenTypeToString (TKw k) = kwName k"
| "tokenTypeToString (TOop k) = oopName k"
| "tokenTypeToString (TOp k) = opName k"
| "tokenTypeToString (TBit k) = bitName k"
| "tokenTypeToString (TPunct k) = punctName k"
| "tokenTypeToString (TSpecial k) = specialName k"

end
