(* ===== verification/Lexer.thy ===== *)
theory Lexer
  imports Token Utf8 "HOL-Library.Sublist"
begin

text \<open>
  The lexer, from \<open>src/lexer/Lexer.h\<close> and \<open>src/lexer/Lexer.cpp\<close>. The record holds the
  class's members; \<open>diags\<close> collects what \<open>Lexer::error\<close> prints (message, line, column; the
  source line under it is not modelled). \<open>int\<close> members are unbounded here: they count bytes
  of one source text. Functions that may let a C++ exception escape (\<open>std::stod\<close> outside a
  \<open>try\<close>) return a sum. The sub-lexer of a template string is a parameter of the scanning
  functions; \<open>tokenizeD\<close> ties the knot with a depth that \<open>tokenizeD_enough\<close> shows sufficient.
\<close>

record lexer =
  source :: string
  filename :: string
  tokens :: "token list"
  start :: nat
  current :: nat
  line :: int
  column :: int
  hadError :: bool
  openParens :: int
  openBrackets :: int
  diags :: "(string \<times> int \<times> int) list"

definition newLexer :: "string \<Rightarrow> string \<Rightarrow> lexer" where
  "newLexer src file = \<lparr>source = src, filename = file, tokens = [], start = 0, current = 0,
     line = 1, column = 1, hadError = False, openParens = 0, openBrackets = 0, diags = []\<rparr>"

subsection \<open>Cursor\<close>

definition isAtEnd :: "lexer \<Rightarrow> bool" where
  "isAtEnd s \<longleftrightarrow> current s \<ge> length (source s)"

definition advance :: "lexer \<Rightarrow> char \<times> lexer" where
  "advance s =
     (if isAtEnd s then (CHR 0x00, s)
      else let c = source s ! current s; s1 = s\<lparr>current := current s + 1\<rparr> in
        if c = CHR 0x0A then (c, s1\<lparr>line := line s + 1, column := 1\<rparr>)
        else (c, s1\<lparr>column := column s + 1\<rparr>))"

definition skip1 :: "lexer \<Rightarrow> lexer" where
  "skip1 s = snd (advance s)"

definition peek :: "lexer \<Rightarrow> char" where
  "peek s = (if isAtEnd s then CHR 0x00 else source s ! current s)"

definition peekNext :: "lexer \<Rightarrow> char" where
  "peekNext s = (if current s + 1 \<ge> length (source s) then CHR 0x00 else source s ! (current s + 1))"

definition match :: "char \<Rightarrow> lexer \<Rightarrow> bool \<times> lexer" where
  "match expected s =
     (if isAtEnd s then (False, s)
      else if source s ! current s \<noteq> expected then (False, s)
      else (True, skip1 s))"

definition errorAt :: "string \<Rightarrow> int \<Rightarrow> int \<Rightarrow> lexer \<Rightarrow> lexer" where
  "errorAt msg atLine atColumn s = s\<lparr>hadError := True, diags := diags s @ [(msg, atLine, atColumn)]\<rparr>"

definition lexError :: "string \<Rightarrow> lexer \<Rightarrow> lexer" where
  "lexError msg s = errorAt msg (line s) (column s) s"

definition lexText :: "lexer \<Rightarrow> string" where
  "lexText s = substr (source s) (start s) (current s - start s)"

definition pushToken :: "token_kind \<Rightarrow> string \<Rightarrow> literal \<Rightarrow> int \<Rightarrow> int \<Rightarrow> lexer \<Rightarrow> lexer" where
  "pushToken ty text lit lno col s =
     s\<lparr>tokens := tokens s @ [\<lparr>ttype = ty, lexeme = text, literal = lit, tfile = filename s,
                              tline = lno, tcolumn = col\<rparr>]\<rparr>"

definition addToken :: "token_kind \<Rightarrow> literal \<Rightarrow> lexer \<Rightarrow> lexer" where
  "addToken ty lit s =
     pushToken ty (lexText s) lit (line s) (column s - int (current s - start s)) s"

text \<open>\<open>if (match(c)) ... else ...\<close>\<close>

definition ifMatch :: "char \<Rightarrow> (lexer \<Rightarrow> lexer) \<Rightarrow> (lexer \<Rightarrow> lexer) \<Rightarrow> lexer \<Rightarrow> lexer" where
  "ifMatch c yes no s = (case match c s of (m, s') \<Rightarrow> if m then yes s' else no s')"

subsection \<open>Every operation moves forward over the same source\<close>

text \<open>
  \<open>moves s s'\<close>: the source and the file name are kept, the cursor does not go back or past the
  end, tokens (none of them \<open>END_OF_FILE\<close>), diagnostics and the error flag only grow.
\<close>

definition moves :: "lexer \<Rightarrow> lexer \<Rightarrow> bool" where
  "moves s s' \<longleftrightarrow> source s' = source s \<and> filename s' = filename s \<and> current s \<le> current s'
     \<and> (current s \<le> length (source s) \<longrightarrow> current s' \<le> length (source s))
     \<and> (\<exists>new. tokens s' = tokens s @ new \<and> (\<forall>t\<in>set new. ttype t \<noteq> TK_END_OF_FILE))
     \<and> prefix (diags s) (diags s')
     \<and> (hadError s \<longrightarrow> hadError s')"

lemma moves_refl [simp, intro]: "moves s s"
  by (simp add: moves_def)

lemma moves_trans [trans]: "moves a b \<Longrightarrow> moves b c \<Longrightarrow> moves a c"
  unfolding moves_def by (elim conjE exE) (auto intro: prefix_order.trans)

lemma moves_source [dest]: "moves s s' \<Longrightarrow> source s' = source s"
  by (simp add: moves_def)

definition remaining :: "lexer \<Rightarrow> nat" where
  "remaining s = length (source s) - current s"

lemma moves_remaining: "moves s s' \<Longrightarrow> remaining s' \<le> remaining s"
  by (auto simp: moves_def remaining_def)

lemma moves_advance [simp, intro]: "moves s (snd (advance s))" "moves s (skip1 s)"
  by (auto simp: moves_def advance_def skip1_def Let_def isAtEnd_def)

lemma advance_Pair: "advance s = (c, s') \<Longrightarrow> moves s s'"
  by (metis moves_advance(1) snd_conv)

lemma skip1_progress: "\<not> isAtEnd s \<Longrightarrow> remaining (skip1 s) < remaining s"
  by (auto simp: remaining_def skip1_def advance_def isAtEnd_def Let_def)

lemma moves_match [simp, intro]: "moves s (snd (match c s))"
  by (auto simp: match_def)

lemma moves_errorAt [simp, intro]: "moves s (errorAt m l c s)" "moves s (lexError m s)"
  by (auto simp: moves_def errorAt_def lexError_def)

lemma moves_pushToken [simp, intro]:
  assumes "ty \<noteq> TK_END_OF_FILE"
  shows "moves s (pushToken ty t lit l c s)" and "moves s (addToken ty lit s)"
  using assms by (simp_all add: moves_def pushToken_def addToken_def)

lemma tok_after: "ty \<noteq> TK_END_OF_FILE \<Longrightarrow> moves s s' \<Longrightarrow> moves s (addToken ty lit s')"
  using moves_pushToken(2) moves_trans by blast

lemma pushTok_after: "ty \<noteq> TK_END_OF_FILE \<Longrightarrow> moves s s' \<Longrightarrow> moves s (pushToken ty t lit l c s')"
  using moves_pushToken(1) moves_trans by blast

text \<open>
  The contract of the scanning routines, as an interface: a routine that starts where another
  one stopped keeps \<open>moves\<close>. It is interpreted below for every routine of the class.
\<close>

locale scanner =
  fixes scan :: "lexer \<Rightarrow> lexer"
  assumes scan_moves: "moves s (scan s)"
begin

lemma after: "moves s s' \<Longrightarrow> moves s (scan s')"
  using moves_trans scan_moves by blast

lemma keeps_source: "source (scan s) = source s"
  using scan_moves [of s] by (simp add: moves_def)

lemma no_growth: "remaining (scan s) \<le> remaining s"
  by (rule moves_remaining [OF scan_moves])

lemma iterated: "moves s ((scan ^^ n) s)"
  by (induction n) (auto intro: after)

end

interpretation sk1: scanner skip1 by unfold_locales simp
interpretation err: scanner "lexError m" for m by unfold_locales simp
interpretation errAt: scanner "errorAt m l c" for m l c by unfold_locales simp

lemma moves_ifMatch:
  assumes "\<And>s. moves s (yes s)" "\<And>s. moves s (no s)"
  shows "moves s (ifMatch c yes no s)"
proof (cases "match c s")
  case (Pair m s')
  then have "moves s s'" using moves_match [of s c] by simp
  then show ?thesis using Pair assms by (auto simp: ifMatch_def intro: moves_trans)
qed

subsection \<open>Scanning loops\<close>

text \<open>\<open>while (P(peek())) advance();\<close>, for the sources' predicates, false of NUL.\<close>

function skipWhile :: "(char \<Rightarrow> bool) \<Rightarrow> lexer \<Rightarrow> lexer" where
  "skipWhile P s = (if \<not> isAtEnd s \<and> P (peek s) then skipWhile P (skip1 s) else s)"
  by pat_completeness auto
termination by (relation "measure (\<lambda>(P, s). remaining s)") (auto simp: skip1_progress)

declare skipWhile.simps [simp del]

lemma moves_skipWhile [simp, intro]: "moves s (skipWhile P s)"
proof (induction P s rule: skipWhile.induct)
  case (1 P s)
  then show ?case by (subst skipWhile.simps) (use moves_trans moves_advance(2) in \<open>auto\<close>)
qed

interpretation skw: scanner "skipWhile P" for P by unfold_locales simp

definition isDigit :: "char \<Rightarrow> bool" where
  "isDigit c \<longleftrightarrow> isDigitC c"

definition isAlpha :: "char \<Rightarrow> bool" where
  "isAlpha c \<longleftrightarrow> (97 \<le> uc c \<and> uc c \<le> 122) \<or> (65 \<le> uc c \<and> uc c \<le> 90) \<or> c = CHR ''_''"

definition isAlphaNumeric :: "char \<Rightarrow> bool" where
  "isAlphaNumeric c \<longleftrightarrow> isAlpha c \<or> isDigit c"

definition isxdigit :: "char \<Rightarrow> bool" where
  "isxdigit c \<longleftrightarrow> isDigitC c \<or> (97 \<le> uc c \<and> uc c \<le> 102) \<or> (65 \<le> uc c \<and> uc c \<le> 70)"

definition skipLineComment :: "lexer \<Rightarrow> lexer" where
  "skipLineComment s = skipWhile (\<lambda>c. c \<noteq> CHR 0x0A) s"

function blockLoop :: "nat \<Rightarrow> lexer \<Rightarrow> nat \<times> lexer" where
  "blockLoop nesting s =
     (if \<not> isAtEnd s \<and> nesting > 0 then
        (if peek s = CHR ''/'' \<and> peekNext s = CHR ''*'' then blockLoop (nesting + 1) (skip1 (skip1 s))
         else if peek s = CHR ''*'' \<and> peekNext s = CHR ''/'' then blockLoop (nesting - 1) (skip1 (skip1 s))
         else blockLoop nesting (skip1 s))
      else (nesting, s))"
  by pat_completeness auto
termination
  by (relation "measure (\<lambda>(n, s). remaining s)")
     (auto simp: skip1_progress intro: le_less_trans [OF moves_remaining [OF moves_advance(2)]])

declare blockLoop.simps [simp del]

definition skipBlockComment :: "lexer \<Rightarrow> lexer" where
  "skipBlockComment s =
     (case blockLoop 1 s of (nesting, s') \<Rightarrow>
        if nesting > 0
        then errorAt ''Unterminated block comment -- no matching '*/' found before end of file''
               (line s) (column s - 2) s'
        else s')"

lemma moves_blockLoop: "moves s (snd (blockLoop n s))"
proof (induction n s rule: blockLoop.induct)
  case (1 n s)
  have "moves s (skip1 (skip1 s))" by (intro sk1.after) simp
  with 1 show ?case
    by (subst blockLoop.simps) (auto intro: moves_trans moves_advance(2))
qed

lemma moves_comments [simp, intro]: "moves s (skipLineComment s)" "moves s (skipBlockComment s)"
  using moves_blockLoop [of s 1]
  by (auto simp: skipLineComment_def skipBlockComment_def split: prod.splits intro: errAt.after)

subsection \<open>Numbers\<close>

text \<open>\<open>std::isspace\<close> and the integer parsing of \<open>std::stoi\<close>, \<open>std::stoul\<close> in base 16: blanks, a
  sign, an optional \<open>0x\<close>, the longest run of digits. \<open>None\<close> is \<open>std::invalid_argument\<close>.\<close>

definition isSpaceC :: "char \<Rightarrow> bool" where
  "isSpaceC c \<longleftrightarrow> uc c = 32 \<or> (9 \<le> uc c \<and> uc c \<le> 13)"

definition xdigitVal :: "char \<Rightarrow> nat" where
  "xdigitVal c = (if isDigitC c then uc c - 48 else if 97 \<le> uc c then uc c - 87 else uc c - 55)"

definition baseVal :: "nat \<Rightarrow> string \<Rightarrow> nat" where
  "baseVal b ds = foldl (\<lambda>v c. b * v + xdigitVal c) 0 ds"

definition strtol16 :: "string \<Rightarrow> int option" where
  "strtol16 t =
     (let u = dropWhile isSpaceC t;
          neg = (u \<noteq> [] \<and> hd u = CHR ''-'');
          v = (if u \<noteq> [] \<and> (hd u = CHR ''-'' \<or> hd u = CHR ''+'') then tl u else u);
          w = (if 3 \<le> length v \<and> v ! 0 = CHR ''0'' \<and> (v ! 1 = CHR ''x'' \<or> v ! 1 = CHR ''X'')
                  \<and> isxdigit (v ! 2) then drop 2 v else v);
          ds = takeWhile isxdigit w
      in if ds = [] then None
         else Some (if neg then - int (baseVal 16 ds) else int (baseVal 16 ds)))"

definition scanExponent :: "lexer \<Rightarrow> bool \<times> lexer" where
  "scanExponent s =
     (if peek s = CHR ''e'' \<or> peek s = CHR ''E'' then
        let s1 = skip1 s;
            s2 = (if peek s1 = CHR ''+'' \<or> peek s1 = CHR ''-'' then skip1 s1 else s1);
            s3 = (if \<not> isDigit (peek s2) then lexError ''Expected digits after exponent'' s2 else s2)
        in (True, skipWhile isDigit s3)
      else (False, s))"

definition scanFraction :: "lexer \<Rightarrow> bool \<times> lexer" where
  "scanFraction s =
     (if peek s = CHR ''.'' \<and> isDigit (peekNext s) then (True, skipWhile isDigit (skip1 s))
      else (False, s))"

definition scanNumber :: "lexer \<Rightarrow> cxx_exn + lexer" where
  "scanNumber s0 =
     (case scanFraction (skipWhile isDigit s0) of (isFrac, s1) \<Rightarrow>
      case scanExponent s1 of (isExp, s2) \<Rightarrow>
        let text = lexText s2 in
        if isFrac \<or> isExp then res_bind (stod text) (\<lambda>d. Inr (addToken TK_NUMBER (LDouble d) s2))
        else if digitsVal text < 2 ^ 63
        then Inr (addToken TK_NUMBER (LInt (of_nat (digitsVal text))) s2)
        else res_bind (stod text) (\<lambda>d. Inr (addToken TK_NUMBER (LDouble d) s2)))"

definition scanRadix :: "nat \<Rightarrow> (char \<Rightarrow> bool) \<Rightarrow> string \<Rightarrow> string \<Rightarrow> lexer \<Rightarrow> lexer" where
  "scanRadix b digit noDigits tooLarge s0 =
     (let s = skipWhile digit s0;
          text = substr (source s) (start s + 2) (current s - (start s + 2)) in
      if text = [] then lexError noDigits s
      else if baseVal b text < 2 ^ 64 then addToken TK_NUMBER (LInt (of_nat (baseVal b text))) s
      else lexError tooLarge s)"

definition scanHexNumber :: "lexer \<Rightarrow> lexer" where
  "scanHexNumber = scanRadix 16 isxdigit (''Expected hexadecimal digits after '0x'' @ [CHR 0x27])
     ''Hexadecimal literal too large''"

definition scanBinaryNumber :: "lexer \<Rightarrow> lexer" where
  "scanBinaryNumber = scanRadix 2 (\<lambda>c. c = CHR ''0'' \<or> c = CHR ''1'')
     (''Expected binary digits after '0b'' @ [CHR 0x27]) ''Binary literal too large''"

subsection \<open>Strings\<close>

definition moveBy :: "nat \<Rightarrow> lexer \<Rightarrow> lexer" where
  "moveBy n s = s\<lparr>current := current s + n, column := column s + int n\<rparr>"

definition hexEscape :: "lexer \<Rightarrow> string \<Rightarrow> lexer \<times> string" where
  "hexEscape s value =
     (if current s + 2 > length (source s) then (lexError ''Incomplete hex escape'' s, value)
      else let hex = substr (source s) (current s) 2; s1 = moveBy 2 s in
        case strtol16 hex of
          Some v \<Rightarrow> (s1, value @ [char_of (nat (v mod 256))])
        | None \<Rightarrow> (lexError (''Invalid hex escape: '' @ [CHR 0x5C, CHR ''x''] @ hex) s1, value))"

definition unicodeEscape :: "lexer \<Rightarrow> string \<Rightarrow> lexer \<times> string" where
  "unicodeEscape s value =
     (if current s + 4 > length (source s)
      then (lexError ''Incomplete unicode escape (expected 4 hex digits)'' s, value)
      else let hex = substr (source s) (current s) 4; s1 = moveBy 4 s in
        case strtol16 hex of
          None \<Rightarrow> (lexError (''Invalid unicode escape: '' @ [CHR 0x5C, CHR ''u''] @ hex) s1, value)
        | Some v \<Rightarrow>
            let cp = nat (v mod 2 ^ 64) in
            (s1, value @
              (if cp \<le> 0x7F then [char_of cp]
               else if cp \<le> 0x7FF then
                 [char_of (0xC0 OR drop_bit 6 cp), char_of (0x80 OR (cp AND 0x3F))]
               else [char_of (0xE0 OR drop_bit 12 cp),
                     char_of (0x80 OR (drop_bit 6 cp AND 0x3F)),
                     char_of (0x80 OR (cp AND 0x3F))])))"

text \<open>The \<open>switch\<close> on the character after a backslash in a quoted string.\<close>

definition scanEscape :: "char \<Rightarrow> lexer \<Rightarrow> string \<Rightarrow> lexer \<times> string" where
  "scanEscape escaped s value =
     (if escaped = CHR ''n'' then (s, value @ [CHR 0x0A])
      else if escaped = CHR ''t'' then (s, value @ [CHR 0x09])
      else if escaped = CHR ''r'' then (s, value @ [CHR 0x0D])
      else if escaped = CHR ''0'' then (s, value @ [CHR 0x00])
      else if escaped = CHR ''x'' then hexEscape s value
      else if escaped = CHR ''u'' then unicodeEscape s value
      else (s, value @ [escaped]))"

lemma moves_moveBy: "current s + n \<le> length (source s) \<Longrightarrow> moves s (moveBy n s)"
  by (simp add: moves_def moveBy_def)

lemma moves_scanEscape: "moves s (fst (scanEscape c s v))"
  by (auto simp: scanEscape_def hexEscape_def unicodeEscape_def Let_def moves_moveBy
      split: option.splits intro: err.after)

text \<open>
  The loop of \<open>scanString\<close>: \<open>Inl\<close> is an early return, \<open>Inr\<close> falls out of the loop. In a
  multi-line string a newline is counted here and again by \<open>advance\<close>, as the source does.
\<close>

definition countNewline :: "bool \<Rightarrow> lexer \<Rightarrow> lexer" where
  "countNewline b s = (if b \<and> peek s = CHR 0x0A then s\<lparr>line := line s + 1, column := 1\<rparr> else s)"

lemma moves_countNewline [simp, intro]: "moves s (countNewline b s)"
  by (simp add: countNewline_def moves_def)

lemma countNewline_simps [simp]:
  "isAtEnd (countNewline b s) = isAtEnd s" "remaining (countNewline b s) = remaining s"
  "peek (countNewline b s) = peek s"
  by (simp_all add: countNewline_def isAtEnd_def remaining_def peek_def)

text \<open>One round of the loop: \<open>Inl\<close> leaves it, \<open>Inr\<close> goes on.\<close>

definition strStep :: "char \<Rightarrow> bool \<Rightarrow> int \<Rightarrow> int \<Rightarrow> lexer \<Rightarrow> string
    \<Rightarrow> (lexer + lexer \<times> string) + (lexer \<times> string)" where
  "strStep quote multi sl sc s value =
     (if isAtEnd s then Inl (Inr (s, value))
      else if multi \<and> peek s = CHR 0x22 \<and> peekNext s = CHR 0x22
              \<and> current s + 2 < length (source s) \<and> source s ! (current s + 2) = CHR 0x22
      then Inl (Inr (s, value))
      else if \<not> multi \<and> peek s = quote then Inl (Inr (s, value))
      else if \<not> multi \<and> peek s = CHR 0x0A then Inl (Inl (lexError ''Unterminated string'' s))
      else let s1 = countNewline multi s in
        if peek s1 = CHR 0x5C then
          let s2 = skip1 s1 in
          if isAtEnd s2
          then Inl (Inl (errorAt ''Unterminated string -- no closing quote found'' sl sc s2))
          else (case advance s2 of (escaped, s3) \<Rightarrow> Inr (scanEscape escaped s3 value))
        else (case advance s1 of (c, s2) \<Rightarrow> Inr (s2, value @ [c])))"

lemma remaining_adv: "\<not> isAtEnd s \<Longrightarrow> advance s = (c, s') \<Longrightarrow> remaining s' < remaining s"
  using skip1_progress [of s] by (simp add: skip1_def)

lemma remaining_adv2: "(c, s') = advance s \<Longrightarrow> \<not> isAtEnd s \<Longrightarrow> remaining s' < remaining s"
  using remaining_adv by metis

lemma escape_moves:
  assumes "advance (skip1 s) = (c, s3)" "scanEscape c s3 v = (s4, v')"
  shows "moves (skip1 s) s4"
  using advance_Pair [OF assms(1)] moves_scanEscape [of s3 c v] assms(2) moves_trans by fastforce

lemma strStep_Inr:
  assumes "strStep quote multi sl sc s v = Inr (s', v')"
  shows "moves s s'" and "remaining s' < remaining s"
proof -
  let ?s1 = "countNewline multi s"
  from assms have ne: "\<not> isAtEnd ?s1"
    by (auto simp: strStep_def split: if_splits)
  from assms consider
      (esc) c s3 where "advance (skip1 ?s1) = (c, s3)" "scanEscape c s3 v = (s', v')"
    | (chr) c where "advance ?s1 = (c, s')"
    unfolding strStep_def Let_def by (auto split: if_splits prod.splits)
  then have "moves ?s1 s' \<and> remaining s' < remaining ?s1"
  proof cases
    case esc
    from escape_moves [OF this] show ?thesis
      using skip1_progress [OF ne] sk1.scan_moves moves_trans moves_remaining
      by (meson le_less_trans)
  next
    case chr
    then show ?thesis using advance_Pair remaining_adv [OF ne] by blast
  qed
  then show "moves s s'" and "remaining s' < remaining s"
    using moves_countNewline moves_trans by auto
qed

lemma strStep_Inl:
  "strStep quote multi sl sc s v = Inl (Inl s') \<Longrightarrow> moves s s'"
  "strStep quote multi sl sc s v = Inl (Inr (s', v')) \<Longrightarrow> moves s s'"
  unfolding strStep_def Let_def
  by (auto split: if_splits prod.splits intro: errAt.after sk1.after)

function strLoop :: "char \<Rightarrow> bool \<Rightarrow> int \<Rightarrow> int \<Rightarrow> lexer \<Rightarrow> string \<Rightarrow> lexer + lexer \<times> string" where
  "strLoop quote multi sl sc s value =
     (case strStep quote multi sl sc s value of
        Inl r \<Rightarrow> r
      | Inr (s', value') \<Rightarrow> strLoop quote multi sl sc s' value')"
  by pat_completeness auto
termination strLoop
  by (relation "measure (\<lambda>(q, m, sl, sc, s, v). remaining s)") (auto dest: strStep_Inr(2))

declare strLoop.simps [simp del]

definition scanString :: "lexer \<Rightarrow> lexer" where
  "scanString s0 =
     (let quote = source s0 ! start s0; sl = line s0; sc = column s0;
          multi = (quote = CHR 0x22 \<and> peek s0 = CHR 0x22 \<and> peekNext s0 = CHR 0x22);
          s1 = (if multi then skip1 (skip1 s0) else s0)
      in case strLoop quote multi sl sc s1 [] of
           Inl s \<Rightarrow> s
         | Inr (s, value) \<Rightarrow>
             if isAtEnd s then errorAt
               ''Unterminated string -- no closing quote found before end of file'' sl sc s
             else addToken TK_STRING (LStr value)
                    (if multi then skip1 (skip1 (skip1 s)) else skip1 s))"

function rawLoop :: "char \<Rightarrow> lexer \<Rightarrow> string \<Rightarrow> lexer \<times> string" where
  "rawLoop quote s value =
     (if \<not> isAtEnd s \<and> peek s \<noteq> quote
      then (case advance (countNewline True s) of (c, s') \<Rightarrow> rawLoop quote s' (value @ [c]))
      else (s, value))"
  by pat_completeness auto
termination
  by (relation "measure (\<lambda>(q, s, v). remaining s)")
     (simp_all, metis countNewline_simps(1,2) remaining_adv)

declare rawLoop.simps [simp del]

definition scanRawString :: "lexer \<Rightarrow> lexer" where
  "scanRawString s0 =
     (case advance s0 of (quote, s1) \<Rightarrow>
      case rawLoop quote s1 [] of (s, value) \<Rightarrow>
        if isAtEnd s then errorAt
          ''Unterminated raw string -- no closing quote found before end of file''
          (line s0) (column s0) s
        else addToken TK_STRING (LStr value) (skip1 s))"

subsection \<open>Identifiers and keywords\<close>

definition keywordTable :: "(string \<times> token_kind) list" where
  "keywordTable = [
    (''out'', TK_OUT), (''in'', TK_IN), (''when'', TK_WHEN), (''other'', TK_OTHER),
    (''repeat'', TK_REPEAT), (''to'', TK_TO), (''step'', TK_STEP), (''while'', TK_WHILE),
    (''use'', TK_USE), (''task'', TK_TASK), (''decorator'', TK_DECORATOR_KW),
    (''give'', TK_GIVE), (''escape'', TK_ESCAPE), (''skip'', TK_SKIP), (''get'', TK_GET),
    (''match'', TK_MATCH), (''async'', TK_ASYNC), (''await'', TK_AWAIT), (''test'', TK_TEST),
    (''and'', TK_AND), (''or'', TK_OR), (''not'', TK_NOT), (''true'', TK_TRUE),
    (''false'', TK_FALSE), (''yes'', TK_TRUE), (''no'', TK_FALSE), (''nil'', TK_NIL),
    (''model'', TK_MODEL), (''init'', TK_INIT), (''self'', TK_SELF), (''hidden'', TK_HIDDEN),
    (''shown'', TK_SHOWN), (''extends'', TK_EXTENDS), (''struct'', TK_STRUCT),
    (''enum'', TK_ENUM), (''new'', TK_NEW), (''super'', TK_SUPER), (''static'', TK_STATIC),
    (''interface'', TK_INTERFACE), (''implements'', TK_IMPLEMENTS), (''try'', TK_TRY),
    (''catch'', TK_CATCH), (''throw'', TK_THROW), (''finally'', TK_FINALLY),
    (''export'', TK_EXPORT), (''requires'', TK_REQUIRES), (''ensures'', TK_ENSURES)]"

definition keywordLiteral :: "token_kind \<Rightarrow> literal" where
  "keywordLiteral k = (if k = TK_TRUE then LBool True else if k = TK_FALSE then LBool False else LNull)"

definition scanIdentifier :: "lexer \<Rightarrow> lexer" where
  "scanIdentifier s0 =
     (let s = skipWhile isAlphaNumeric s0; text = lexText s in
      case map_of keywordTable text of
        Some k \<Rightarrow> addToken k (keywordLiteral k) s
      | None \<Rightarrow>
          if text = ''r'' \<and> (peek s = CHR 0x22 \<or> peek s = CHR 0x27)
          then scanRawString (s\<lparr>start := current s\<rparr>)
          else addToken TK_IDENTIFIER LNull s)"

lemma moves_strLoop:
  "strLoop quote multi sl sc s v = Inl s' \<Longrightarrow> moves s s'"
  "strLoop quote multi sl sc s v = Inr (s', v') \<Longrightarrow> moves s s'"
proof (induction quote multi sl sc s v rule: strLoop.induct)
  case (1 quote multi sl sc s v)
  { case 1
    then show ?case using "1.IH"(1)
      by (subst (asm) strLoop.simps)
         (auto split: sum.splits prod.splits dest: strStep_Inl strStep_Inr(1) intro: moves_trans)
  next
    case 2
    then show ?case using "1.IH"(2)
      by (subst (asm) strLoop.simps)
         (auto split: sum.splits prod.splits dest: strStep_Inl strStep_Inr(1) intro: moves_trans)
  }
qed

lemma moves_scanString [simp, intro]: "moves s (scanString s)"
proof -
  let ?b = "source s ! start s = CHR 0x22 \<and> peek s = CHR 0x22 \<and> peekNext s = CHR 0x22"
  let ?s1 = "if ?b then skip1 (skip1 s) else s"
  have m: "moves s ?s1" by (simp add: sk1.after)
  show ?thesis
  proof (cases "strLoop (source s ! start s) ?b (line s) (column s) ?s1 []")
    case (Inl s')
    then show ?thesis using m moves_trans [OF _ moves_strLoop(1)]
      unfolding scanString_def Let_def by simp
  next
    case (Inr r)
    then obtain s' v where r: "r = (s', v)" by (cases r)
    have "moves s s'" using m moves_trans [OF _ moves_strLoop(2)] Inr r by blast
    then show ?thesis using Inr r unfolding scanString_def Let_def
      by (simp add: errAt.after tok_after sk1.after)
  qed
qed

lemma moves_rawLoop: "moves s (fst (rawLoop quote s v))"
proof (induction quote s v rule: rawLoop.induct)
  case (1 quote s v)
  show ?case
  proof (cases "\<not> isAtEnd s \<and> peek s \<noteq> quote")
    case True
    obtain c s' where a: "advance (countNewline True s) = (c, s')" by (cases "advance (countNewline True s)")
    then have "moves s s'" using advance_Pair moves_countNewline moves_trans by blast
    then show ?thesis using 1 True a moves_trans by (subst rawLoop.simps) auto
  next
    case False
    then show ?thesis by (subst rawLoop.simps) auto
  qed
qed

lemma moves_scanRawString [simp, intro]: "moves s (scanRawString s)"
proof -
  obtain q s1 where a: "advance s = (q, s1)" by (cases "advance s")
  obtain s2 v where r: "rawLoop q s1 [] = (s2, v)" by (cases "rawLoop q s1 []")
  have "moves s s2" using advance_Pair [OF a] moves_rawLoop [of s1 q "[]"] r moves_trans by fastforce
  then show ?thesis using a r by (simp add: scanRawString_def errAt.after tok_after sk1.after)
qed

lemma moves_start [simp]: "moves s s' \<Longrightarrow> moves s (s'\<lparr>start := n\<rparr>)"
  by (simp add: moves_def)

lemma keyword_kind: "map_of keywordTable t = Some k \<Longrightarrow> k \<noteq> TK_END_OF_FILE"
  by (drule map_of_SomeD) (auto simp: keywordTable_def)

lemma moves_scanIdentifier [simp, intro]: "moves s (scanIdentifier s)"
proof -
  let ?s = "skipWhile isAlphaNumeric s"
  have "moves s ?s" by simp
  then show ?thesis
    using moves_trans [OF moves_start [of s ?s] moves_scanRawString]
    by (auto simp: scanIdentifier_def Let_def split: option.splits dest: keyword_kind intro!: tok_after)
qed

lemma moves_scanFraction: "moves s (snd (scanFraction s))"
  by (auto simp: scanFraction_def intro: skw.after)

lemma moves_scanExponent: "moves s (snd (scanExponent s))"
  by (auto simp: scanExponent_def Let_def intro!: skw.after err.after sk1.after)

lemma moves_scanRadix [simp, intro]:
  "moves s (scanRadix b d m1 m2 s)" "moves s (scanHexNumber s)" "moves s (scanBinaryNumber s)"
proof -
  show "moves s (scanRadix b d m1 m2 s)" for b d m1 m2
    by (auto simp: scanRadix_def Let_def tok_after err.after)
  then show "moves s (scanHexNumber s)" "moves s (scanBinaryNumber s)"
    by (simp_all add: scanHexNumber_def scanBinaryNumber_def)
qed

lemma moves_scanNumber: "scanNumber s = Inr s' \<Longrightarrow> moves s s'"
proof -
  let ?s0 = "skipWhile isDigit s"
  obtain f s1 where f: "scanFraction ?s0 = (f, s1)" by (cases "scanFraction ?s0")
  obtain e s2 where e: "scanExponent s1 = (e, s2)" by (cases "scanExponent s1")
  have "moves s s2"
    using moves_scanFraction [of ?s0] moves_scanExponent [of s1] f e skw.scan_moves moves_trans
    by (metis snd_conv)
  moreover assume "scanNumber s = Inr s'"
  ultimately show ?thesis using f e
    by (auto simp: scanNumber_def Let_def res_bind_Inr_iff tok_after split: if_splits)
qed

interpretation rawStr: scanner scanRawString by unfold_locales simp
interpretation str: scanner scanString by unfold_locales simp
interpretation ident: scanner scanIdentifier by unfold_locales simp
interpretation radix: scanner "scanRadix b d m1 m2" for b d m1 m2 by unfold_locales simp
interpretation lineComment: scanner skipLineComment by unfold_locales simp
interpretation blockComment: scanner skipBlockComment by unfold_locales simp

subsection \<open>Template strings\<close>

datatype part = TextPart string | ExprPart string

text \<open>A quoted string inside an interpolation, copied whole.\<close>

function quoteLoop :: "char \<Rightarrow> lexer \<Rightarrow> string \<Rightarrow> lexer \<times> string" where
  "quoteLoop quote s text =
     (if isAtEnd s then (s, text)
      else case advance s of (inStr, s1) \<Rightarrow>
        if inStr = CHR 0x5C \<and> \<not> isAtEnd s1
        then (case advance s1 of (c, s2) \<Rightarrow> quoteLoop quote s2 (text @ [inStr, c]))
        else if inStr = quote then (s1, text @ [inStr])
        else quoteLoop quote s1 (text @ [inStr]))"
  by pat_completeness auto
termination
  by (relation "measure (\<lambda>(q, s, t). remaining s)")
     (auto dest: remaining_adv2, metis less_trans remaining_adv2)

text \<open>The text of one interpolation, up to its closing brace (not consumed).\<close>

definition isQuote :: "char \<Rightarrow> bool" where
  "isQuote c \<longleftrightarrow> c = CHR 0x22 \<or> c = CHR 0x27"

declare quoteLoop.simps [simp del]

text \<open>The loops only move the cursor and collect what they pass.\<close>

definition collects :: "lexer \<Rightarrow> string \<Rightarrow> lexer \<times> string \<Rightarrow> bool" where
  "collects s t r \<longleftrightarrow> moves s (fst r) \<and> length (snd r) + remaining (fst r) \<le> length t + remaining s"

lemma collects_refl [simp]: "collects s t (s, t)"
  by (simp add: collects_def)

lemma collects_step:
  "\<not> isAtEnd s \<Longrightarrow> advance s = (c, s1) \<Longrightarrow> collects s1 (t @ [c]) r \<Longrightarrow> collects s t r"
  using advance_Pair [of s c s1] remaining_adv [of s c s1] moves_trans [of s s1 "fst r"]
  by (simp add: collects_def)

lemma collects_trans: "collects s t (s1, t1) \<Longrightarrow> collects s1 t1 r \<Longrightarrow> collects s t r"
  using moves_trans [of s s1 "fst r"] by (simp add: collects_def)

lemma collects_quoteLoop: "collects s t (quoteLoop quote s t)"
proof (induction quote s t rule: quoteLoop.induct)
  case (1 quote s t)
  show ?case
  proof (cases "isAtEnd s")
    case True then show ?thesis by (simp add: quoteLoop.simps)
  next
    case False
    obtain c s1 where a: "advance s = (c, s1)" by (cases "advance s")
    obtain d s2 where b: "advance s1 = (d, s2)" by (cases "advance s1")
    show ?thesis
    proof (cases "c = CHR 0x5C \<and> \<not> isAtEnd s1")
      case True
      have "collects s2 ((t @ [c]) @ [d]) (quoteLoop quote s2 (t @ [c, d]))"
        using 1(1) [OF False a [symmetric] True b [symmetric]] by simp
      from collects_step [OF False a collects_step [OF conjunct2 [OF True] b this]]
      show ?thesis using False True a b by (subst quoteLoop.simps) simp
    next
      case no: False
      show ?thesis
      proof (cases "c = quote")
        case True
        then show ?thesis using False no a collects_step [OF False a, of t "(s1, t @ [c])"]
          by (subst quoteLoop.simps) auto
      next
        case nq: False
        have "collects s1 (t @ [c]) (quoteLoop quote s1 (t @ [c]))"
          using 1(2) [OF False a [symmetric] no nq] .
        from collects_step [OF False a this] show ?thesis
          using False no nq a by (subst quoteLoop.simps) auto
      qed
    qed
  qed
qed

lemma quoteLoop_remaining: "(s2, t2) = quoteLoop q s t \<Longrightarrow> remaining s2 \<le> remaining s"
  by (metis collects_def collects_quoteLoop fst_conv moves_remaining)

lemma exprLoop_remaining:
  "(s2, t2) = quoteLoop p s1 t \<Longrightarrow> (p, s1) = advance s \<Longrightarrow> \<not> isAtEnd s \<Longrightarrow> remaining s2 < remaining s"
  using quoteLoop_remaining remaining_adv2 le_less_trans by metis

lemma exprLoop_remaining_case:
  "(p, s1) = advance s \<Longrightarrow> \<not> isAtEnd s \<Longrightarrow>
   (case quoteLoop p s1 t of (a, b) \<Rightarrow> remaining a) < remaining s"
  by (metis exprLoop_remaining case_prod_unfold surjective_pairing)

function exprLoop :: "nat \<Rightarrow> lexer \<Rightarrow> string \<Rightarrow> lexer \<times> string" where
  "exprLoop depth s text =
     (if isAtEnd s \<or> depth = 0 then (s, text)
      else case advance s of (p, s1) \<Rightarrow>
        if isQuote p
        then (case quoteLoop p s1 (text @ [p]) of (s2, text2) \<Rightarrow> exprLoop depth s2 text2)
        else if p = CHR ''{'' then exprLoop (depth + 1) s1 (text @ [p])
        else if p = CHR ''}'' then
          (if depth = 1 then (s, text) else exprLoop (depth - 1) s1 (text @ [p]))
        else exprLoop depth s1 (text @ [p]))"
  by pat_completeness auto
termination
  by (relation "measure (\<lambda>(d, s, t). remaining s)")
     (simp_all add: remaining_adv2 exprLoop_remaining exprLoop_remaining_case)

declare exprLoop.simps [simp del]

lemma collects_exprLoop: "collects s t (exprLoop depth s t)"
proof (induction depth s t rule: exprLoop.induct)
  case (1 depth s t)
  show ?case
  proof (cases "isAtEnd s \<or> depth = 0")
    case True then show ?thesis by (simp add: exprLoop.simps)
  next
    case False
    then have ne: "\<not> isAtEnd s" by simp
    obtain p s1 where a: "advance s = (p, s1)" by (cases "advance s")
    obtain s2 t2 where q: "quoteLoop p s1 (t @ [p]) = (s2, t2)" by (cases "quoteLoop p s1 (t @ [p])")
    note IH = 1 [OF False a [symmetric]]
    note step = collects_step [OF ne a]
    have "isQuote p \<Longrightarrow> collects s1 (t @ [p]) (exprLoop depth s2 t2)"
      using collects_trans [OF _ IH(1) [OF _ q [symmetric]]] collects_quoteLoop [of s1 "t @ [p]" p] q
      by simp
    then show ?thesis using False a q IH(2-) step
      by (subst exprLoop.simps) (auto simp: Let_def)
  qed
qed

definition tmplEscape :: "char \<Rightarrow> char" where
  "tmplEscape c = (if c = CHR ''n'' then CHR 0x0A else if c = CHR ''t'' then CHR 0x09
     else if c = CHR ''r'' then CHR 0x0D else c)"

text \<open>
  One round of the loop of \<open>scanInterpolatedString\<close>: \<open>Inl\<close> returns after an error, \<open>Inr\<close> goes
  on with the parts and the text collected so far.
\<close>

definition tmplStep :: "int \<Rightarrow> int \<Rightarrow> lexer \<Rightarrow> part list \<Rightarrow> string \<Rightarrow> lexer + lexer \<times> part list \<times> string" where
  "tmplStep sl sc s parts text =
     (if peek s = CHR 0x5C then
        let s1 = skip1 s in
        if isAtEnd s1 then Inl (errorAt (''Unterminated template string -- no closing '`' found before end of file'') sl sc s1)
        else (case advance s1 of (c, s2) \<Rightarrow> Inr (s2, parts, text @ [tmplEscape c]))
      else if peek s = CHR ''{'' then
        (case exprLoop 1 (skip1 s) [] of (s1, exprText) \<Rightarrow>
           if isAtEnd s1
           then Inl (errorAt (''Unterminated interpolation in template string -- no closing '}' found before end of file'') sl sc s1)
           else Inr (skip1 s1,
                     parts @ [TextPart text] @ (if exprText = [] then [] else [ExprPart exprText]), []))
      else (case advance s of (c, s1) \<Rightarrow> Inr (s1, parts, text @ [c])))"

lemma moves_exprLoop: "moves s (fst (exprLoop d s t))"
  using collects_exprLoop [of s t d] by (simp add: collects_def)

lemma tmplStep_moves:
  "tmplStep sl sc s parts t = Inl s' \<Longrightarrow> moves s s'"
  "tmplStep sl sc s parts t = Inr (s', r) \<Longrightarrow> moves s s'"
proof -
  have e: "moves s s1" if "exprLoop (Suc 0) (skip1 s) [] = (s1, x)" for s1 x
    using moves_exprLoop [of "skip1 s" "Suc 0" "[]"] that moves_trans [OF sk1.scan_moves] by simp
  have a: "moves s s2" if "advance (skip1 s) = (c, s2)" for c s2
    using advance_Pair [OF that] moves_trans [OF sk1.scan_moves] by blast
  show "tmplStep sl sc s parts t = Inl s' \<Longrightarrow> moves s s'"
    by (auto simp: tmplStep_def Let_def split: if_splits prod.splits intro: errAt.after dest: e)
  show "tmplStep sl sc s parts t = Inr (s', r) \<Longrightarrow> moves s s'"
    by (auto simp: tmplStep_def Let_def split: if_splits prod.splits intro: sk1.after dest: e a advance_Pair)
qed

lemma tmplStep_remaining:
  assumes "\<not> isAtEnd s" "tmplStep sl sc s parts t = Inr (s', r)"
  shows "remaining s' < remaining s"
proof -
  have 1: "remaining s2 < remaining s" if "advance (skip1 s) = (c, s2)" for c s2
    using moves_remaining [OF advance_Pair [OF that]] skip1_progress [OF assms(1)] by simp
  have 2: "remaining (skip1 s1) < remaining s" if "exprLoop (Suc 0) (skip1 s) [] = (s1, x)" for s1 x
    using moves_remaining [OF moves_exprLoop [of "skip1 s" "Suc 0" "[]"]] that
      skip1_progress [OF assms(1)] sk1.no_growth [of s1] by simp
  show ?thesis using assms 1 2
    by (auto simp: tmplStep_def Let_def split: if_splits prod.splits dest: remaining_adv)
qed

function tmplLoop :: "int \<Rightarrow> int \<Rightarrow> lexer \<Rightarrow> part list \<Rightarrow> string \<Rightarrow> lexer + lexer \<times> part list \<times> string" where
  "tmplLoop sl sc s parts text =
     (if isAtEnd s \<or> peek s = CHR ''`'' then Inr (s, parts, text)
      else case tmplStep sl sc s parts text of
             Inl s' \<Rightarrow> Inl s'
           | Inr (s', parts', text') \<Rightarrow> tmplLoop sl sc s' parts' text')"
  by pat_completeness auto
termination
  by (relation "measure (\<lambda>(sl, sc, s, p, t). remaining s)") (auto dest: tmplStep_remaining)

declare tmplLoop.simps [simp del]

lemma moves_tmplLoop:
  "tmplLoop sl sc s parts t = Inl s' \<Longrightarrow> moves s s'"
  "tmplLoop sl sc s parts t = Inr (s', r) \<Longrightarrow> moves s s'"
proof (induction sl sc s parts t rule: tmplLoop.induct)
  case (1 sl sc s parts t)
  { case 1
    then show ?case using "1.IH"(1)
      by (subst (asm) tmplLoop.simps)
         (auto split: sum.splits prod.splits if_splits dest: tmplStep_moves intro: moves_trans)
  next
    case 2
    then show ?case using "1.IH"(2)
      by (subst (asm) tmplLoop.simps)
         (auto split: sum.splits prod.splits if_splits dest: tmplStep_moves intro: moves_trans)
  }
qed

text \<open>
  Emission. \<open>sub\<close> lexes the text of an expression; its tokens lose \<open>END_OF_FILE\<close> and
  \<open>NEWLINE\<close> and take the template's line. What the sub-lexer printed is kept, its error flag is
  dropped.
\<close>

definition subToken :: "lexer \<Rightarrow> int \<Rightarrow> token \<Rightarrow> token" where
  "subToken s sl t = t\<lparr>tline := sl, tfile := filename s\<rparr>"

definition emitPart ::
  "(string \<Rightarrow> string \<Rightarrow> cxx_exn + lexer) \<Rightarrow> int \<Rightarrow> int \<Rightarrow> part \<Rightarrow> lexer \<Rightarrow> cxx_exn + lexer" where
  "emitPart sub sl sc p s =
     (case p of
        TextPart t \<Rightarrow> Inr (pushToken TK_STRING ([CHR 0x22] @ t @ [CHR 0x22]) (LStr t) sl sc s)
      | ExprPart t \<Rightarrow>
          let s1 = pushToken TK_LPAREN ''('' LNull sl sc (pushToken TK_IDENTIFIER ''str'' LNull sl sc s)
          in res_bind (sub t (filename s)) (\<lambda>sl_state.
            let new = map (subToken s sl) (filter (\<lambda>k. ttype k \<noteq> TK_END_OF_FILE \<and> ttype k \<noteq> TK_NEWLINE)
                        (tokens sl_state));
                s2 = s1\<lparr>tokens := tokens s1 @ new, diags := diags s1 @ diags sl_state\<rparr>
            in Inr (pushToken TK_RPAREN '')'' LNull sl sc s2)))"

fun emitParts ::
  "(string \<Rightarrow> string \<Rightarrow> cxx_exn + lexer) \<Rightarrow> int \<Rightarrow> int \<Rightarrow> bool \<Rightarrow> part list \<Rightarrow> lexer \<Rightarrow> cxx_exn + lexer" where
  "emitParts sub sl sc first [] s = Inr s"
| "emitParts sub sl sc first (p # ps) s =
     res_bind (emitPart sub sl sc p (if first then s else pushToken TK_PLUS ''+'' LNull sl sc s))
       (emitParts sub sl sc False ps)"

definition partText :: "part \<Rightarrow> string" where
  "partText p = (case p of TextPart t \<Rightarrow> t | ExprPart t \<Rightarrow> t)"

definition isExprPart :: "part \<Rightarrow> bool" where
  "isExprPart p = (case p of TextPart t \<Rightarrow> False | ExprPart t \<Rightarrow> True)"

definition scanInterpolatedString ::
  "(string \<Rightarrow> string \<Rightarrow> cxx_exn + lexer) \<Rightarrow> lexer \<Rightarrow> cxx_exn + lexer" where
  "scanInterpolatedString sub s0 =
     (let sl = line s0; sc = column s0 in
      case tmplLoop sl sc s0 [] [] of
        Inl s \<Rightarrow> Inr s
      | Inr (s, parts0, text) \<Rightarrow>
          if isAtEnd s
          then Inr (errorAt (''Unterminated template string -- no closing '`' found before end of file'') sl sc s)
          else let s1 = skip1 s; parts = parts0 @ [TextPart text] in
            if \<not> list_ex isExprPart parts then
              let full = concat (map partText parts) in
              Inr (pushToken TK_STRING ([CHR ''`''] @ full @ [CHR ''`'']) (LStr full) sl sc s1)
            else res_bind (emitParts sub sl sc True parts (pushToken TK_LPAREN ''('' LNull sl sc s1))
                   (\<lambda>s2. Inr (pushToken TK_RPAREN '')'' LNull sl sc s2)))"

lemma moves_emitPart: "emitPart sub sl sc p s = Inr s' \<Longrightarrow> moves s s'"
proof -
  assume h: "emitPart sub sl sc p s = Inr s'"
  show "moves s s'"
  proof (cases p)
    case (TextPart t)
    then show ?thesis using h by (auto simp: emitPart_def)
  next
    case (ExprPart t)
    then show ?thesis using h unfolding emitPart_def Let_def
      by (clarsimp simp: res_bind_Inr_iff) (simp add: moves_def pushToken_def subToken_def)
  qed
qed

lemma moves_emitParts: "emitParts sub sl sc first ps s = Inr s' \<Longrightarrow> moves s s'"
proof (induction ps arbitrary: first s)
  case (Cons p ps)
  let ?s0 = "if first then s else pushToken TK_PLUS ''+'' LNull sl sc s"
  obtain s1 where e: "emitPart sub sl sc p ?s0 = Inr s1" and r: "emitParts sub sl sc False ps s1 = Inr s'"
    using Cons.prems unfolding emitParts.simps res_bind_Inr_iff by blast
  have "moves s ?s0" by simp
  then show ?case
    using moves_emitPart [OF e] Cons.IH [OF r] moves_trans by blast
qed simp

lemma moves_scanInterpolatedString: "scanInterpolatedString sub s = Inr s' \<Longrightarrow> moves s s'"
proof -
  assume h: "scanInterpolatedString sub s = Inr s'"
  show "moves s s'"
  proof (cases "tmplLoop (line s) (column s) s [] []")
    case (Inl a)
    then show ?thesis using h moves_tmplLoop(1) [OF Inl] by (simp add: scanInterpolatedString_def Let_def)
  next
    case (Inr r)
    then obtain s1 ps t where r: "r = (s1, ps, t)" by (cases r)
    have m: "moves s s1" using moves_tmplLoop(2) [OF Inr [unfolded r]] .
    then have k: "moves s (skip1 s1)" by (rule sk1.after)
    have e: "moves s s3" if "emitParts sub sl sc b q (pushToken ty a lit l c (skip1 s1)) = Inr s3"
      and "ty \<noteq> TK_END_OF_FILE"
      for b q ty a lit l c sl sc s3
      using moves_emitParts [OF that(1)] moves_trans pushTok_after [OF that(2) k] by blast
    have "isAtEnd s1 \<or> (\<not> isAtEnd s1 \<and> \<not> list_ex isExprPart (ps @ [TextPart t]))
        \<or> (\<not> isAtEnd s1 \<and> list_ex isExprPart (ps @ [TextPart t]))" by blast
    then show ?thesis
    proof (elim disjE conjE)
      assume "isAtEnd s1"
      then show ?thesis using h m unfolding scanInterpolatedString_def Let_def Inr r sum.case prod.case
        by (auto intro: errAt.after)
    next
      assume a: "\<not> isAtEnd s1" "\<not> list_ex isExprPart (ps @ [TextPart t])"
      then show ?thesis using h k unfolding scanInterpolatedString_def Let_def Inr r sum.case prod.case
        by (simp only: if_False if_True not_False_eq_True sum.inject) (auto intro: pushTok_after)
    next
      assume a: "\<not> isAtEnd s1" "list_ex isExprPart (ps @ [TextPart t])"
      then show ?thesis using h unfolding scanInterpolatedString_def Let_def Inr r sum.case prod.case
        by (simp only: if_False if_True not_True_eq_False res_bind_Inr_iff) (auto intro: pushTok_after e)
    qed
  qed
qed

text \<open>The text of an interpolation is shorter than the source it stands in.\<close>

definition shortParts :: "nat \<Rightarrow> part list \<Rightarrow> bool" where
  "shortParts n ps \<longleftrightarrow> list_all (\<lambda>p. isExprPart p \<longrightarrow> length (partText p) < n) ps"

lemma tmplStep_short:
  assumes "\<not> isAtEnd s" "shortParts (length (source s)) parts"
    and "tmplStep sl sc s parts t = Inr (s', parts', t')"
  shows "shortParts (length (source s)) parts'"
proof -
  have "length x < length (source s)" if "exprLoop (Suc 0) (skip1 s) [] = (s1, x)" for s1 x
    using collects_exprLoop [of "skip1 s" "[]" "Suc 0"] that skip1_progress [OF assms(1)]
    by (auto simp: collects_def remaining_def sk1.keeps_source)
  then show ?thesis using assms
    by (auto simp: tmplStep_def shortParts_def isExprPart_def partText_def Let_def
        split: if_splits prod.splits)
qed

lemma tmplLoop_short:
  "shortParts (length (source s)) parts \<Longrightarrow> tmplLoop sl sc s parts t = Inr (s', parts', t') \<Longrightarrow>
   shortParts (length (source s)) parts'"
proof (induction sl sc s parts t rule: tmplLoop.induct)
  case (1 sl sc s parts t)
  show ?case
  proof (cases "isAtEnd s \<or> peek s = CHR ''`''")
    case True
    then show ?thesis using 1 by (auto simp: tmplLoop.simps)
  next
    case False
    then show ?thesis
    proof (cases "tmplStep sl sc s parts t")
      case (Inl a)
      then show ?thesis using 1 False by (subst (asm) tmplLoop.simps) simp
    next
      case (Inr r)
      then obtain s1 ps u where r: "r = (s1, ps, u)" by (cases r)
      have "source s1 = source s" using tmplStep_moves(2) [OF Inr [unfolded r]] by (simp add: moves_def)
      moreover have "shortParts (length (source s)) ps"
        using tmplStep_short [of s parts sl sc t s1 ps u] False 1(2) Inr r by simp
      moreover have "tmplLoop sl sc s1 ps u = Inr (s', parts', t')"
        using 1(3) False Inr r by (subst (asm) tmplLoop.simps) simp
      ultimately show ?thesis using 1(1) [OF False Inr, of s1 "(ps, u)" ps u] r by simp
    qed
  qed
qed

lemma emitParts_cong:
  assumes "\<And>x. length x < n \<Longrightarrow> sub x = sub' x"
  shows "shortParts n ps \<Longrightarrow> emitParts sub sl sc first ps s = emitParts sub' sl sc first ps s"
proof (induction ps arbitrary: first s)
  case (Cons p ps)
  then have "emitPart sub sl sc p = emitPart sub' sl sc p"
    using assms by (auto simp: shortParts_def emitPart_def isExprPart_def partText_def fun_eq_iff split: part.splits)
  moreover have "emitParts sub sl sc False ps = emitParts sub' sl sc False ps"
    using Cons by (simp add: shortParts_def fun_eq_iff)
  ultimately show ?case by simp
qed simp

lemma scanInterpolatedString_cong:
  assumes "\<And>x. length x < length (source s) \<Longrightarrow> sub x = sub' x"
  shows "scanInterpolatedString sub s = scanInterpolatedString sub' s"
proof (cases "tmplLoop (line s) (column s) s [] []")
  case (Inr r)
  then obtain s1 ps t where r: "r = (s1, ps, t)" by (cases r)
  have "shortParts (length (source s)) (ps @ [TextPart t])"
    using tmplLoop_short [of s "[]" "line s" "column s" "[]" s1 ps t] Inr r
    by (simp add: shortParts_def isExprPart_def)
  from emitParts_cong [OF assms this] show ?thesis
    unfolding scanInterpolatedString_def Let_def Inr r sum.case prod.case by simp
qed (simp add: scanInterpolatedString_def Let_def)

subsection \<open>scanToken\<close>

definition continuationKinds :: "token_kind list" where
  "continuationKinds = [TK_PLUS, TK_MINUS, TK_STAR, TK_STAR_STAR, TK_SLASH, TK_PERCENT,
     TK_EQUAL_EQUAL, TK_BANG_EQUAL, TK_LESS, TK_LESS_EQUAL, TK_GREATER, TK_GREATER_EQUAL,
     TK_AND, TK_OR, TK_COMMA, TK_DOT, TK_EQUAL, TK_PLUS_EQUAL, TK_MINUS_EQUAL, TK_STAR_EQUAL,
     TK_STAR_STAR_EQUAL, TK_SLASH_EQUAL, TK_AMPERSAND, TK_PIPE, TK_CARET, TK_LSHIFT,
     TK_RSHIFT, TK_ARROW]"

definition scanNewline :: "lexer \<Rightarrow> lexer" where
  "scanNewline s =
     (if openParens s > 0 \<or> openBrackets s > 0 then s
      else if tokens s \<noteq> [] \<and> ttype (last (tokens s)) \<in> set continuationKinds then s
      else addToken TK_NEWLINE LNull s)"

abbreviation emit :: "token_kind \<Rightarrow> lexer \<Rightarrow> lexer" where
  "emit k \<equiv> addToken k LNull"

text \<open>The brackets, which keep the nesting counters.\<close>

definition scanBracket :: "char \<Rightarrow> lexer \<Rightarrow> lexer option" where
  "scanBracket c s =
     (if c = CHR ''('' then Some (emit TK_LPAREN (s\<lparr>openParens := openParens s + 1\<rparr>))
      else if c = CHR '')'' then
        Some (emit TK_RPAREN (if openParens s > 0 then s\<lparr>openParens := openParens s - 1\<rparr> else s))
      else if c = CHR ''['' then Some (emit TK_LBRACKET (s\<lparr>openBrackets := openBrackets s + 1\<rparr>))
      else if c = CHR '']'' then
        Some (emit TK_RBRACKET (if openBrackets s > 0 then s\<lparr>openBrackets := openBrackets s - 1\<rparr> else s))
      else None)"

text \<open>The other characters the \<open>switch\<close> names, quotes and back-quote apart.\<close>

definition scanOperator :: "char \<Rightarrow> lexer \<Rightarrow> lexer option" where
  "scanOperator c s =
     (if c = CHR ''{'' then Some (emit TK_LBRACE s)
      else if c = CHR ''}'' then Some (emit TK_RBRACE s)
      else if c = CHR '','' then Some (emit TK_COMMA s)
      else if c = CHR ''.'' then
        Some (ifMatch CHR ''.'' (ifMatch CHR ''.'' (emit TK_ELLIPSIS)
          (lexError (''Invalid token '' @ [CHR 0x27, CHR ''.'', CHR ''.'', CHR 0x27]))) (emit TK_DOT) s)
      else if c = CHR '':'' then Some (emit TK_COLON s)
      else if c = CHR ''@'' then Some (emit TK_AT s)
      else if c = CHR ''?'' then
        Some (ifMatch CHR ''?'' (emit TK_QUESTION_QUESTION)
               (ifMatch CHR ''.'' (emit TK_QUESTION_DOT) (emit TK_QUESTION_MARK)) s)
      else if c = CHR ''+'' then Some (ifMatch CHR ''='' (emit TK_PLUS_EQUAL) (emit TK_PLUS) s)
      else if c = CHR ''-'' then
        Some (ifMatch CHR ''='' (emit TK_MINUS_EQUAL) (ifMatch CHR ''>'' (emit TK_ARROW) (emit TK_MINUS)) s)
      else if c = CHR ''*'' then
        Some (ifMatch CHR ''*'' (ifMatch CHR ''='' (emit TK_STAR_STAR_EQUAL) (emit TK_STAR_STAR))
               (ifMatch CHR ''='' (emit TK_STAR_EQUAL) (emit TK_STAR)) s)
      else if c = CHR ''/'' then
        Some (ifMatch CHR ''/'' skipLineComment
               (ifMatch CHR ''*'' skipBlockComment
                 (ifMatch CHR ''='' (emit TK_SLASH_EQUAL) (emit TK_SLASH))) s)
      else if c = CHR ''%'' then Some (emit TK_PERCENT s)
      else if c = CHR ''='' then
        Some (ifMatch CHR ''='' (emit TK_EQUAL_EQUAL) (ifMatch CHR ''>'' (emit TK_ARROW) (emit TK_EQUAL)) s)
      else if c = CHR ''!'' then Some (ifMatch CHR ''='' (emit TK_BANG_EQUAL) (emit TK_BANG) s)
      else if c = CHR ''<'' then
        Some (ifMatch CHR ''<'' (emit TK_LSHIFT) (ifMatch CHR ''='' (emit TK_LESS_EQUAL) (emit TK_LESS)) s)
      else if c = CHR ''>'' then
        Some (ifMatch CHR ''>'' (emit TK_RSHIFT) (ifMatch CHR ''='' (emit TK_GREATER_EQUAL) (emit TK_GREATER)) s)
      else if c = CHR ''&'' then Some (emit TK_AMPERSAND s)
      else if c = CHR ''|'' then Some (emit TK_PIPE s)
      else if c = CHR ''^'' then Some (emit TK_CARET s)
      else if c = CHR ''~'' then Some (emit TK_TILDE s)
      else if c = CHR ''#'' then Some (skipLineComment s)
      else if c = CHR 0x0A then Some (scanNewline s)
      else if c = CHR '';'' then Some (emit TK_NEWLINE s)
      else if c = CHR '' '' \<or> c = CHR 0x0D \<or> c = CHR 0x09 then Some s
      else None)"

definition scanDigits :: "char \<Rightarrow> lexer \<Rightarrow> cxx_exn + lexer" where
  "scanDigits c s =
     (if c = CHR ''0'' \<and> (peek s = CHR ''x'' \<or> peek s = CHR ''X'') then Inr (scanHexNumber (skip1 s))
      else if c = CHR ''0'' \<and> (peek s = CHR ''b'' \<or> peek s = CHR ''B'') then Inr (scanBinaryNumber (skip1 s))
      else scanNumber s)"

definition scanToken :: "(string \<Rightarrow> string \<Rightarrow> cxx_exn + lexer) \<Rightarrow> lexer \<Rightarrow> cxx_exn + lexer" where
  "scanToken sub s0 =
     (case advance s0 of (c, s) \<Rightarrow>
        (case scanBracket c s of Some s' \<Rightarrow> Inr s'
         | None \<Rightarrow>
        (case scanOperator c s of Some s' \<Rightarrow> Inr s'
         | None \<Rightarrow>
           if c = CHR 0x22 \<or> c = CHR 0x27 then Inr (scanString s)
           else if c = CHR ''`'' then scanInterpolatedString sub s
           else if isDigit c then scanDigits c s
           else if isAlpha c then Inr (scanIdentifier s)
           else Inr (lexError (''Unexpected character: '' @ [c]) s))))"

lemma moves_scanBracket: "scanBracket c s = Some s' \<Longrightarrow> moves s s'"
  by (auto simp: scanBracket_def split: if_splits intro!: tok_after) (simp_all add: moves_def)

lemma moves_scanNewline [simp, intro]: "moves s (scanNewline s)"
  by (simp add: scanNewline_def)

lemma moves_scanOperator: "scanOperator c s = Some s' \<Longrightarrow> moves s s'"
  unfolding scanOperator_def
  by (auto split: if_split_asm intro!: moves_ifMatch)

lemma moves_scanDigits: "scanDigits c s = Inr s' \<Longrightarrow> moves s s'"
  by (auto simp: scanDigits_def split: if_splits intro: moves_scanNumber moves_trans [OF sk1.scan_moves])

lemma moves_scanToken:
  assumes "\<not> isAtEnd s" "scanToken sub s = Inr s'"
  shows "moves s s'" and "remaining s' < remaining s"
proof -
  obtain c s1 where a: "advance s = (c, s1)" by (cases "advance s")
  have m: "moves s1 s'" using assms(2) a
    by (auto simp: scanToken_def split: option.splits if_splits
        intro: moves_scanBracket moves_scanOperator moves_scanInterpolatedString moves_scanDigits)
  then show "moves s s'" using advance_Pair [OF a] moves_trans by blast
  show "remaining s' < remaining s"
    using moves_remaining [OF m] remaining_adv [OF assms(1) a] by simp
qed

lemma scanToken_cong:
  assumes "\<And>x. length x < length (source s) \<Longrightarrow> sub x = sub' x"
  shows "scanToken sub s = scanToken sub' s"
proof -
  obtain c s1 where a: "advance s = (c, s1)" by (cases "advance s")
  then have "source s1 = source s" using advance_Pair by blast
  then have "scanInterpolatedString sub s1 = scanInterpolatedString sub' s1"
    using assms by (intro scanInterpolatedString_cong) simp
  then show ?thesis by (auto simp: scanToken_def a split: option.splits)
qed

subsection \<open>tokenize\<close>

function tokLoop :: "(string \<Rightarrow> string \<Rightarrow> cxx_exn + lexer) \<Rightarrow> lexer \<Rightarrow> cxx_exn + lexer" where
  "tokLoop sub s =
     (if isAtEnd s then Inr s
      else case scanToken sub (s\<lparr>start := current s\<rparr>) of
             Inl e \<Rightarrow> Inl e
           | Inr s' \<Rightarrow> tokLoop sub s')"
  by pat_completeness auto

lemma at_start [simp]:
  "isAtEnd (s\<lparr>start := n\<rparr>) = isAtEnd s" "remaining (s\<lparr>start := n\<rparr>) = remaining s"
  by (simp_all add: isAtEnd_def remaining_def)

lemma moves_from_start: "moves (s\<lparr>start := n\<rparr>) s' \<longleftrightarrow> moves s s'"
  by (simp add: moves_def)

termination tokLoop
  by (relation "measure (\<lambda>(sub, s). remaining s)") (auto dest!: moves_scanToken(2) [rotated])

declare tokLoop.simps [simp del]

definition tokenizeFrom :: "(string \<Rightarrow> string \<Rightarrow> cxx_exn + lexer) \<Rightarrow> lexer \<Rightarrow> cxx_exn + lexer" where
  "tokenizeFrom sub s0 =
     res_bind (tokLoop sub s0)
       (\<lambda>s. Inr (pushToken TK_END_OF_FILE [] LNull (line s) (column s) s))"

fun tokenizeD :: "nat \<Rightarrow> string \<Rightarrow> string \<Rightarrow> cxx_exn + lexer" where
  "tokenizeD 0 src file = Inr (newLexer src file)"
| "tokenizeD (Suc d) src file = tokenizeFrom (tokenizeD d) (newLexer src file)"

definition tokenize :: "string \<Rightarrow> string \<Rightarrow> cxx_exn + lexer" where
  "tokenize src file = tokenizeD (Suc (length src)) src file"

lemma tokLoop_moves: "tokLoop sub s = Inr s' \<Longrightarrow> moves s s' \<and> isAtEnd s'"
proof (induction sub s rule: tokLoop.induct)
  case (1 sub s)
  show ?case
  proof (cases "isAtEnd s")
    case True then show ?thesis using 1(2) by (simp add: tokLoop.simps)
  next
    case False
    then obtain s1 where s1: "scanToken sub (s\<lparr>start := current s\<rparr>) = Inr s1"
      using 1(2) by (subst (asm) tokLoop.simps) (auto split: sum.splits)
    have "moves s s1"
      using moves_scanToken(1) [OF _ s1] False by (simp add: moves_from_start)
    moreover have "tokLoop sub s1 = Inr s'"
      using 1(2) False s1 by (subst (asm) tokLoop.simps) simp
    ultimately show ?thesis using 1(1) [OF False s1] moves_trans by blast
  qed
qed

lemma tokLoop_cong:
  "(\<And>x. length x < length (source s) \<Longrightarrow> sub x = sub' x) \<Longrightarrow> tokLoop sub s = tokLoop sub' s"
proof (induction sub s rule: tokLoop.induct)
  case (1 sub s)
  let ?s = "s\<lparr>start := current s\<rparr>"
  have e: "scanToken sub ?s = scanToken sub' ?s"
    using 1(2) by (intro scanToken_cong) simp
  show ?case
  proof (cases "isAtEnd s \<or> (\<exists>x. scanToken sub ?s = Inl x)")
    case True then show ?thesis using e by (subst (1 2) tokLoop.simps) auto
  next
    case False
    then obtain s1 where s1: "scanToken sub ?s = Inr s1" by (metis sumE)
    then have "source s1 = source s"
      using moves_scanToken(1) [OF _ s1] False by auto
    then have "tokLoop sub s1 = tokLoop sub' s1" using 1 False s1 by simp
    moreover have "scanToken sub' ?s = Inr s1" using e s1 by simp
    ultimately show ?thesis using s1 by (subst (1 2) tokLoop.simps) simp
  qed
qed

lemma tokenizeD_enough:
  "length src < d \<Longrightarrow> length src < d' \<Longrightarrow> tokenizeD d src = tokenizeD d' src"
proof (induction d arbitrary: d' src)
  case (Suc d)
  then obtain e where e: "d' = Suc e" by (cases d') auto
  have "tokLoop (tokenizeD d) (newLexer src f) = tokLoop (tokenizeD e) (newLexer src f)" for f
  proof (intro tokLoop_cong)
    fix x :: string assume "length x < length (source (newLexer src f))"
    then show "tokenizeD d x = tokenizeD e x" using Suc.prems e by (intro Suc.IH) (simp_all add: newLexer_def)
  qed
  then show ?case by (simp add: e tokenizeFrom_def fun_eq_iff)
qed simp

lemma tokenize_rec: "tokenize src file = tokenizeFrom tokenize (newLexer src file)"
proof -
  have "tokLoop (tokenizeD (length src)) (newLexer src file) = tokLoop tokenize (newLexer src file)"
  proof (intro tokLoop_cong)
    fix x :: string assume "length x < length (source (newLexer src file))"
    then show "tokenizeD (length src) x = tokenize x"
      unfolding tokenize_def [abs_def] using tokenizeD_enough [of x "length src" "Suc (length x)"]
      by (simp add: newLexer_def)
  qed
  then show ?thesis by (simp add: tokenize_def [of src] tokenizeFrom_def)
qed

text \<open>C18. Lexing always comes back, template strings included: a sub-lexer only sees texts
  shorter than its source, so \<open>tokenize\<close> satisfies the recursion of the source without a depth.
  It throws or has consumed its whole source, which it left alone.\<close>

theorem tokenize_total:
  "tokenize src file = tokenizeFrom tokenize (newLexer src file)
   \<and> (case tokenize src file of
        Inl e \<Rightarrow> True
      | Inr s \<Rightarrow> source s = src \<and> current s = length src)"
proof -
  have "source s = src \<and> current s = length src" if h: "tokenize src file = Inr s" for s
  proof -
    obtain s1 where s1: "tokLoop tokenize (newLexer src file) = Inr s1"
      and s: "s = pushToken TK_END_OF_FILE [] LNull (line s1) (column s1) s1"
      using h unfolding tokenize_rec [of src] tokenizeFrom_def by (auto simp: res_bind_Inr_iff)
    have "moves (newLexer src file) s1 \<and> isAtEnd s1" by (rule tokLoop_moves [OF s1])
    then show ?thesis
      by (auto simp: s pushToken_def newLexer_def moves_def isAtEnd_def)
  qed
  then show ?thesis using tokenize_rec by (auto split: sum.splits)
qed

lemma tokens_end:
  assumes "tokenize src file = Inr s"
  shows "\<exists>ts t. tokens s = ts @ [t] \<and> ttype t = TK_END_OF_FILE
           \<and> TK_END_OF_FILE \<notin> ttype ` set ts"
proof -
  obtain s1 where s1: "tokLoop tokenize (newLexer src file) = Inr s1"
    and s: "s = pushToken TK_END_OF_FILE [] LNull (line s1) (column s1) s1"
    using assms unfolding tokenize_rec [of src] tokenizeFrom_def by (auto simp: res_bind_Inr_iff)
  have "moves (newLexer src file) s1" using tokLoop_moves [OF s1] by simp
  then obtain new where "tokens s1 = new" "\<forall>t\<in>set new. ttype t \<noteq> TK_END_OF_FILE"
    by (auto simp: moves_def newLexer_def)
  then show ?thesis
    by (intro exI [of _ new]) (auto simp: s pushToken_def)
qed

text \<open>C19. The token list ends with \<open>END_OF_FILE\<close> and holds it nowhere else.\<close>

theorem tokenize_ends_with_eof:
  assumes "tokenize src file = Inr s"
  shows "\<exists>ts t. tokens s = ts @ [t] \<and> ttype t = TK_END_OF_FILE
           \<and> TK_END_OF_FILE \<notin> ttype ` set ts"
  by (rule tokens_end [OF assms])

subsection \<open>Single tokens\<close>

lemma peek_at: "source s = pre @ w \<Longrightarrow> current s = length pre \<Longrightarrow>
    peek s = (case w of [] \<Rightarrow> CHR 0x00 | c # _ \<Rightarrow> c) \<and> isAtEnd s = (w = [])"
  by (auto simp: peek_def isAtEnd_def nth_append split: list.splits)

lemma advance_at: "source s = pre @ c # w \<Longrightarrow> current s = length pre \<Longrightarrow> c \<noteq> CHR 0x0A \<Longrightarrow>
    advance s = (c, s\<lparr>current := Suc (length pre), column := column s + 1\<rparr>)"
  by (auto simp: advance_def isAtEnd_def nth_append Let_def)

lemma skipWhile_run:
  "source s = pre @ w @ rest \<Longrightarrow> current s = length pre \<Longrightarrow> list_all P w \<Longrightarrow> CHR 0x0A \<notin> set w \<Longrightarrow>
   rest = [] \<or> \<not> P (hd rest) \<Longrightarrow>
   skipWhile P s = s\<lparr>current := length pre + length w, column := column s + int (length w)\<rparr>"
proof (induction w arbitrary: s pre)
  case Nil
  then have "isAtEnd s \<or> \<not> P (peek s)"
    using peek_at [of s pre rest] by (cases rest) auto
  then show ?case using Nil by (subst skipWhile.simps) auto
next
  case (Cons c w)
  then have a: "advance s = (c, s\<lparr>current := Suc (length pre), column := column s + 1\<rparr>)"
    by (intro advance_at [of _ _ _ "w @ rest"]) auto
  show ?case
    using Cons.prems Cons.IH [of "skip1 s" "pre @ [c]"] peek_at [of s pre "(c # w) @ rest"] a
    by (subst skipWhile.simps) (simp add: skip1_def algebra_simps)
qed

lemma tokenize_one:
  assumes "src \<noteq> []" "scanToken tokenize (newLexer src f) = Inr s" "current s = length src"
    and "source s = src"
  shows "tokenize src f = Inr (pushToken TK_END_OF_FILE [] LNull (line s) (column s) s)"
proof -
  have "newLexer src f\<lparr>start := current (newLexer src f)\<rparr> = newLexer src f"
    by (simp add: newLexer_def)
  moreover have "\<not> isAtEnd (newLexer src f)" using assms(1) by (simp add: newLexer_def isAtEnd_def)
  moreover have "tokLoop tokenize s = Inr s"
    using assms by (subst tokLoop.simps) (simp add: isAtEnd_def)
  ultimately have "tokLoop tokenize (newLexer src f) = Inr s"
    using assms(2) by (subst tokLoop.simps) simp
  then show ?thesis by (simp add: tokenize_rec [of src] tokenizeFrom_def)
qed

definition specialChars :: string where
  "specialChars = [CHR ''('', CHR '')'', CHR ''['', CHR '']'', CHR ''{'', CHR ''}'', CHR '','', CHR ''.'',
     CHR '':'', CHR ''@'', CHR ''?'', CHR ''+'', CHR ''-'', CHR ''*'', CHR ''/'', CHR ''%'', CHR ''='',
     CHR ''!'', CHR ''<'', CHR ''>'', CHR ''&'', CHR ''|'', CHR ''^'', CHR ''~'', CHR ''#'', CHR 0x0A,
     CHR '';'', CHR '' '', CHR 0x0D, CHR 0x09, CHR 0x22, CHR 0x27, CHR ''`'', CHR 0x5C, CHR 0x00]"

lemma special_not_word: "c \<in> set specialChars \<Longrightarrow> \<not> isAlphaNumeric c"
proof -
  have "list_all (\<lambda>c. \<not> isAlphaNumeric c) specialChars"
    by (simp add: specialChars_def isAlphaNumeric_def isAlpha_def isDigit_def isDigitC_def uc_def)
  then show "c \<in> set specialChars \<Longrightarrow> \<not> isAlphaNumeric c" by (simp add: list_all_iff)
qed

lemma scanBracket_special: "scanBracket c s = Some s' \<Longrightarrow> c \<in> set specialChars"
  unfolding scanBracket_def by (simp add: specialChars_def split: if_split_asm)

lemma scanOperator_special: "scanOperator c s = Some s' \<Longrightarrow> c \<in> set specialChars"
  unfolding scanOperator_def specialChars_def by (auto split: if_split_asm)

lemma word_char_not_special:
  assumes "isAlphaNumeric c"
  shows "scanBracket c s = None" "scanOperator c s = None" "c \<noteq> CHR 0x22" "c \<noteq> CHR 0x27"
    "c \<noteq> CHR ''`''" "c \<noteq> CHR 0x0A"
proof -
  have n: "c \<notin> set specialChars" using assms special_not_word by blast
  show "scanBracket c s = None" using n scanBracket_special by (cases "scanBracket c s") blast+
  show "scanOperator c s = None" using n scanOperator_special by (cases "scanOperator c s") blast+
  show "c \<noteq> CHR 0x22" "c \<noteq> CHR 0x27" "c \<noteq> CHR ''`''" "c \<noteq> CHR 0x0A"
    using n by (auto simp: specialChars_def)
qed

lemma alpha_not_digit: "isAlpha c \<Longrightarrow> \<not> isDigit c"
  by (auto simp: isAlpha_def isDigit_def isDigitC_def uc_def)

lemma word_no_newline: "list_all isAlphaNumeric w \<Longrightarrow> CHR 0x0A \<notin> set w"
  by (auto simp: list_all_iff dest!: bspec word_char_not_special(6))

text \<open>A source that is one word lexes to one token, of the keyword's kind if the word is a
  keyword and \<open>IDENTIFIER\<close> otherwise, with the word as its lexeme, at line 1, column 1.\<close>

theorem tokenize_word:
  assumes "w \<noteq> []" "isAlpha (hd w)" "list_all isAlphaNumeric w"
  shows "\<exists>s. tokenize w f = Inr s \<and> \<not> hadError s
     \<and> map (\<lambda>t. (ttype t, lexeme t, tline t, tcolumn t)) (tokens s) =
         [(case map_of keywordTable w of Some k \<Rightarrow> k | None \<Rightarrow> TK_IDENTIFIER, w, 1, 1),
          (TK_END_OF_FILE, [], 1, 1 + int (length w))]"
proof -
  obtain c v where w: "w = c # v" using assms(1) by (cases w) auto
  let ?s0 = "newLexer w f"
  let ?s1 = "?s0\<lparr>current := Suc 0, column := 2\<rparr>"
  let ?s2 = "?s0\<lparr>current := length w, column := 1 + int (length w)\<rparr>"
  have c: "isAlphaNumeric c" "isAlpha c" "list_all isAlphaNumeric v" using assms w by auto
  have a: "advance ?s0 = (c, ?s1)"
    using advance_at [of ?s0 "[]" c v] word_char_not_special(6) [OF c(1)] w by (simp add: newLexer_def)
  have sk: "skipWhile isAlphaNumeric ?s1 = ?s2"
    using skipWhile_run [of ?s1 "[c]" v "[]" isAlphaNumeric] c(3) word_no_newline [OF c(3)] w
    by (simp add: newLexer_def)
  have tx: "lexText ?s2 = w" by (simp add: lexText_def newLexer_def)
  have pk: "peek ?s2 = CHR 0x00" by (simp add: peek_def isAtEnd_def newLexer_def)
  let ?k = "case map_of keywordTable w of Some k \<Rightarrow> k | None \<Rightarrow> TK_IDENTIFIER"
  obtain l where "scanIdentifier ?s1 = addToken ?k l ?s2"
    using sk tx pk by (cases "map_of keywordTable w") (auto simp: scanIdentifier_def Let_def)
  then have t: "scanToken tokenize ?s0 = Inr (addToken ?k l ?s2)"
    using word_char_not_special [OF c(1)] alpha_not_digit [OF c(2)] c(2) by (simp add: scanToken_def a)
  have "tokenize w f = Inr (pushToken TK_END_OF_FILE [] LNull 1 (1 + int (length w)) (addToken ?k l ?s2))"
    using tokenize_one [OF assms(1) t] by (simp add: addToken_def pushToken_def newLexer_def)
  then show ?thesis
    by (simp add: addToken_def pushToken_def newLexer_def lexText_def)
qed

theorem tokenize_word_witness:
  "\<exists>s. tokenize ''while'' [] = Inr s \<and> \<not> hadError s
     \<and> map (\<lambda>t. (ttype t, lexeme t, tline t, tcolumn t)) (tokens s) =
         [(TK_WHILE, ''while'', 1, 1), (TK_END_OF_FILE, [], 1, 6)]"
  using tokenize_word [of "''while''" "[]"]
  by (simp add: isAlpha_def isAlphaNumeric_def uc_def keywordTable_def)

text \<open>C25. The decimal text of any integer below \<open>2^63\<close> lexes to a single integer literal of that
  value: integer literals survive printing and reading.\<close>

theorem tokenize_decimal:
  assumes "n < 2 ^ 63"
  shows "\<exists>s. tokenize (showNat n) f = Inr s \<and> \<not> hadError s
     \<and> map (\<lambda>t. (ttype t, lexeme t, literal t)) (tokens s) =
         [(TK_NUMBER, showNat n, LInt (of_nat n)), (TK_END_OF_FILE, [], LNull)]"
proof -
  let ?w = "showNat n"
  obtain c v where w: "?w = c # v" by (cases ?w) auto
  let ?s0 = "newLexer ?w f"
  let ?s1 = "?s0\<lparr>current := Suc 0, column := 2\<rparr>"
  let ?s2 = "?s0\<lparr>current := length ?w, column := 1 + int (length ?w)\<rparr>"
  have d: "list_all isDigit ?w" using showNat_digits [of n] by (simp add: isDigit_def [abs_def])
  then have c: "isDigit c" "isAlphaNumeric c" "list_all isDigit v" using w by (auto simp: isAlphaNumeric_def)
  have "list_all isAlphaNumeric v" using c(3) by (auto simp: isAlphaNumeric_def list_all_iff)
  then have nl: "CHR 0x0A \<notin> set v" by (rule word_no_newline)
  have a: "advance ?s0 = (c, ?s1)"
    using advance_at [of ?s0 "[]" c v] word_char_not_special(6) [OF c(2)] w by (simp add: newLexer_def)
  have sk: "skipWhile isDigit ?s1 = ?s2"
    using skipWhile_run [of ?s1 "[c]" v "[]" isDigit] c(3) nl w by (simp add: newLexer_def)
  have tx: "lexText ?s2 = ?w" by (simp add: lexText_def newLexer_def)
  have pk: "peek ?s2 = CHR 0x00" by (simp add: peek_def isAtEnd_def newLexer_def)
  have nx: "peek ?s1 \<noteq> CHR ''x'' \<and> peek ?s1 \<noteq> CHR ''X'' \<and> peek ?s1 \<noteq> CHR ''b'' \<and> peek ?s1 \<noteq> CHR ''B''"
    using peek_at [of ?s1 "[c]" v] c(3) w
    by (cases v) (auto simp: newLexer_def isDigit_def isDigitC_def uc_def)
  have "scanNumber ?s1 = Inr (addToken TK_NUMBER (LInt (of_nat n)) ?s2)"
    using assms by (simp add: scanNumber_def sk scanFraction_def scanExponent_def pk tx Let_def)
  then have t: "scanToken tokenize ?s0 = Inr (addToken TK_NUMBER (LInt (of_nat n)) ?s2)"
    using word_char_not_special [OF c(2)] c(1) nx by (simp add: scanToken_def a scanDigits_def)
  have "tokenize ?w f = Inr (pushToken TK_END_OF_FILE [] LNull 1 (1 + int (length ?w))
      (addToken TK_NUMBER (LInt (of_nat n)) ?s2))"
    using tokenize_one [OF _ t] by (simp add: addToken_def pushToken_def newLexer_def)
  then show ?thesis
    by (simp add: addToken_def pushToken_def newLexer_def lexText_def)
qed

theorem tokenize_decimal_witness:
  "\<exists>s. tokenize (showNat 907) [] = Inr s \<and> \<not> hadError s
     \<and> map (\<lambda>t. (ttype t, lexeme t, literal t)) (tokens s) =
         [(TK_NUMBER, showNat 907, LInt 907), (TK_END_OF_FILE, [], LNull)]"
  using tokenize_decimal [of 907 "[]"] by simp

lemma newLexer_sel [simp]:
  "source (newLexer w f) = w" "start (newLexer w f) = 0" "current (newLexer w f) = 0"
  "tokens (newLexer w f) = []" "line (newLexer w f) = 1" "column (newLexer w f) = 1"
  by (simp_all add: newLexer_def)

text \<open>A quoted literal for any byte string: quotes, backslashes and newlines are escaped.\<close>

definition escapeChar :: "char \<Rightarrow> string" where
  "escapeChar c = (if c = CHR 0x22 \<or> c = CHR 0x5C then [CHR 0x5C, c]
     else if c = CHR 0x0A then [CHR 0x5C, CHR ''n''] else [c])"

definition quoted :: "string \<Rightarrow> string" where
  "quoted v = [CHR 0x22] @ concat (map escapeChar v) @ [CHR 0x22]"

lemma strLoop_quoted:
  assumes "source s = pre @ concat (map escapeChar v) @ [CHR 0x22]" "current s = length pre"
  shows "\<exists>col. strLoop CHR 0x22 False sl sc s va =
     Inr (s\<lparr>current := length pre + length (concat (map escapeChar v)), column := col\<rparr>, va @ v)"
  using assms
proof (induction v arbitrary: s pre va)
  case Nil
  then show ?case
    using peek_at [of s pre "[CHR 0x22]"]
    by (subst strLoop.simps) (simp add: strStep_def, metis lexer.surjective lexer.update_convs(5,7))
next
  case (Cons c v)
  let ?rest = "concat (map escapeChar v) @ [CHR 0x22]"
  consider (esc) d where "escapeChar c = [CHR 0x5C, d]" "d \<noteq> CHR 0x0A"
      "\<And>s'. scanEscape d s' va = (s', va @ [c])"
    | (raw) "escapeChar c = [c]" "c \<noteq> CHR 0x22" "c \<noteq> CHR 0x5C" "c \<noteq> CHR 0x0A"
    by (cases "c = CHR 0x22 \<or> c = CHR 0x5C \<or> c = CHR 0x0A") (auto simp: escapeChar_def scanEscape_def)
  then show ?case
  proof cases
    case esc
    let ?s1 = "s\<lparr>current := Suc (length pre), column := column s + 1\<rparr>"
    let ?s2 = "s\<lparr>current := Suc (Suc (length pre)), column := column s + 2\<rparr>"
    have src: "source s = pre @ CHR 0x5C # d # ?rest" using Cons.prems esc by simp
    have a1: "advance s = (CHR 0x5C, ?s1)"
      using advance_at [OF src Cons.prems(2)] by simp
    have a2: "advance ?s1 = (d, ?s2)"
      using advance_at [of ?s1 "pre @ [CHR 0x5C]" d ?rest] src esc(2) by simp
    have "strStep CHR 0x22 False sl sc s va = Inr (?s2, va @ [c])"
      using peek_at [OF src Cons.prems(2)] a1 a2 esc(3) peek_at [of ?s1 "pre @ [CHR 0x5C]" "d # ?rest"] src
      by (simp add: strStep_def countNewline_def skip1_def)
    then show ?thesis
      using Cons.IH [of ?s2 "pre @ [CHR 0x5C, d]" "va @ [c]"] src esc(1)
      by (subst strLoop.simps) simp
  next
    case raw
    let ?s1 = "s\<lparr>current := Suc (length pre), column := column s + 1\<rparr>"
    have src: "source s = pre @ c # ?rest" using Cons.prems raw by simp
    have "strStep CHR 0x22 False sl sc s va = Inr (?s1, va @ [c])"
      using peek_at [OF src Cons.prems(2)] advance_at [OF src Cons.prems(2) raw(4)] raw
      by (simp add: strStep_def countNewline_def)
    then show ?thesis
      using Cons.IH [of ?s1 "pre @ [c]" "va @ [c]"] src raw(1)
      by (subst strLoop.simps) simp
  qed
qed

text \<open>C24. Every byte string, whatever it contains, is the value of a string literal: escaping
  quotes, backslashes and newlines and lexing the quoted text gives it back in one token.\<close>

theorem tokenize_quoted:
  "\<exists>s. tokenize (quoted v) f = Inr s \<and> \<not> hadError s
     \<and> map (\<lambda>t. (ttype t, lexeme t, literal t)) (tokens s) =
         [(TK_STRING, quoted v, LStr v), (TK_END_OF_FILE, [], LNull)]"
proof -
  let ?w = "quoted v" and ?b = "concat (map escapeChar v)"
  let ?s0 = "newLexer ?w f"
  let ?s1 = "?s0\<lparr>current := Suc 0, column := 2\<rparr>"
  have w: "?w = [CHR 0x22] @ ?b @ [CHR 0x22]" "?w ! 0 = CHR 0x22" by (simp_all add: quoted_def)
  have src: "source ?s1 = [CHR 0x22] @ ?b @ [CHR 0x22]" by (simp add: w(1))
  have a: "advance ?s0 = (CHR 0x22, ?s1)"
    using advance_at [of ?s0 "[]" "CHR 0x22" "?b @ [CHR 0x22]"] w(1) by simp
  have hd: "v \<noteq> [] \<Longrightarrow> peek ?s1 \<noteq> CHR 0x22"
    using peek_at [OF src] by (cases v) (auto simp: escapeChar_def)
  have nx: "v = [] \<Longrightarrow> peekNext ?s1 \<noteq> CHR 0x22"
    by (simp add: peekNext_def quoted_def)
  have multi: "\<not> (peek ?s1 = CHR 0x22 \<and> peekNext ?s1 = CHR 0x22)" using hd nx by blast
  obtain col where l: "strLoop CHR 0x22 False 1 2 ?s1 [] =
      Inr (?s1\<lparr>current := 1 + length ?b, column := col\<rparr>, v)"
    using strLoop_quoted [OF src, of 1 2 "[]"] by auto
  let ?s2 = "?s1\<lparr>current := 1 + length ?b, column := col\<rparr>"
  let ?s3 = "?s0\<lparr>current := 2 + length ?b, column := col + 1\<rparr>"
  have len: "length ?w = 2 + length ?b" by (simp add: quoted_def)
  have sk: "skip1 ?s2 = ?s3" and ne: "\<not> isAtEnd ?s2"
    using advance_at [of ?s2 "[CHR 0x22] @ ?b" "CHR 0x22" "[]"] w(1) len
    by (simp_all add: skip1_def isAtEnd_def)
  have "scanString ?s1 = (case strLoop CHR 0x22 False 1 2 ?s1 [] of Inl s \<Rightarrow> s
      | Inr (s, va) \<Rightarrow> if isAtEnd s then errorAt
               ''Unterminated string -- no closing quote found before end of file'' 1 2 s
             else addToken TK_STRING (LStr va) (skip1 s))"
  proof -
    have q: "source ?s1 ! start ?s1 = CHR 0x22" "line ?s1 = 1" "column ?s1 = 2"
      using w(2) by simp_all
    have m: "(CHR 0x22 = CHR 0x22 \<and> peek ?s1 = CHR 0x22 \<and> peekNext ?s1 = CHR 0x22) = False"
      using multi by blast
    show ?thesis unfolding scanString_def Let_def q m if_False ..
  qed
  also have "\<dots> = addToken TK_STRING (LStr v) ?s3"
    unfolding l sum.case prod.case sk using ne by simp
  finally have t: "scanToken tokenize ?s0 = Inr (addToken TK_STRING (LStr v) ?s3)"
    by (simp add: scanToken_def a scanBracket_def scanOperator_def)
  have "tokenize ?w f = Inr (pushToken TK_END_OF_FILE [] LNull 1 (col + 1) (addToken TK_STRING (LStr v) ?s3))"
    using tokenize_one [OF _ t] len by (simp add: addToken_def pushToken_def quoted_def)
  then show ?thesis
    using len by (simp add: addToken_def pushToken_def newLexer_def lexText_def)
qed

text \<open>A newline inside a triple-quoted string moves the line counter by two (the loop counts
  it and so does \<open>advance\<close>), so every later token of the file is reported too far down;
  everywhere else a newline counts once.\<close>

theorem multiline_newline_counts_twice:
  assumes "\<not> isAtEnd s" "peek s = CHR 0x0A"
  shows "\<exists>s'. strStep CHR 0x22 True sl sc s v = Inr (s', v @ [CHR 0x0A])
           \<and> line s' = line s + 2 \<and> line (skip1 s) = line s + 1"
  using assms
  by (auto simp: strStep_def countNewline_def advance_def skip1_def Let_def peek_def isAtEnd_def)

theorem multiline_newline_counts_twice_witness:
  "\<exists>s'. strStep CHR 0x22 True 1 1 (newLexer [CHR 0x0A] []) [] = Inr (s', [CHR 0x0A])
      \<and> line s' = 3 \<and> line (skip1 (newLexer [CHR 0x0A] [])) = 2"
  using multiline_newline_counts_twice [of "newLexer [CHR 0x0A] []" 1 1 "[]"]
  by (simp add: isAtEnd_def peek_def)

lemma tokenize_plus: "\<exists>s. tokenize ''+'' f = Inr s \<and> map ttype (tokens s) = [TK_PLUS, TK_END_OF_FILE]"
proof -
  let ?s = "(newLexer ''+'' f)\<lparr>current := 1, column := 2\<rparr>"
  have a: "advance (newLexer ''+'' f) = (CHR ''+'', ?s)"
    by (simp add: advance_def isAtEnd_def Let_def)
  have t: "scanToken tokenize (newLexer ''+'' f) = Inr (emit TK_PLUS ?s)"
    by (simp add: scanToken_def a scanBracket_def scanOperator_def ifMatch_def match_def isAtEnd_def)
  show ?thesis using tokenize_one [OF _ t] by (simp add: addToken_def pushToken_def)
qed

theorem tokenize_ends_with_eof_witness:
  "\<exists>s ts t. tokenize ''+'' [] = Inr s \<and> tokens s = ts @ [t] \<and> ttype t = TK_END_OF_FILE
     \<and> TK_END_OF_FILE \<notin> ttype ` set ts"
  using tokenize_plus [of "[]"] tokenize_ends_with_eof [of "''+''" "[]"] by blast

end
