(* ===== verification/Opcode.thy ===== *)
theory Opcode
  imports Ez_Prelude
begin

text \<open>
  The instruction set: the enumeration \<open>OpCode\<close> of \<open>src/bytecode/Bytecode.h\<close>, split in the
  order of its declaration, the byte of each opcode (its position in the enumeration) and the
  decoding of a byte. \<open>OP_X\<close> abbreviates the source's \<open>OpCode::X\<close>.
\<close>

datatype var_op =
    I_LOAD_CONST | I_LOAD_LOCAL | I_STORE_LOCAL | I_LOAD_UPVALUE | I_STORE_UPVALUE
  | I_LOAD_GLOBAL | I_STORE_GLOBAL | I_LOAD_PROPERTY | I_STORE_PROPERTY | I_POP | I_DUP
  | I_DUP2 | I_LOAD_NIL | I_LOAD_TRUE | I_LOAD_FALSE | I_LOAD_ZERO | I_LOAD_ONE
  | I_LOAD_EMPTY_STR | I_INC_LOCAL | I_DEC_LOCAL

datatype calc_op =
    I_ADD | I_SUB | I_MUL | I_DIV | I_MOD | I_POW | I_NEGATE | I_BIT_AND | I_BIT_OR | I_BIT_XOR
  | I_BIT_NOT | I_SHIFT_LEFT | I_SHIFT_RIGHT | I_EQUAL | I_NOT_EQUAL | I_LESS | I_LESS_EQ
  | I_GREATER | I_GREATER_EQ | I_NOT

datatype flow_op =
    I_JUMP | I_JUMP_IF_FALSE | I_JUMP_IF_TRUE | I_JUMP_IF_NIL | I_JUMP_IF_NOT_NIL | I_LOOP
  | I_CALL | I_TAIL_CALL | I_CALL_KW | I_RETURN | I_CLOSURE | I_CLOSE_UPVALUE

datatype data_op =
    I_MAKE_ARRAY | I_BUILD_TUPLE | I_MAKE_DICT | I_INDEX_GET | I_INDEX_SET | I_ARRAY_APPEND
  | I_ARRAY_EXTEND | I_CALL_SPREAD | I_NEW_INSTANCE | I_GET_METHOD | I_SUPER | I_SUPER_CALL
  | I_GET_ITER | I_GET_DICT_ITER | I_ITER_NEXT | I_ITER_HAS_NEXT

datatype exn_op =
    I_TRY_START | I_TRY_END | I_THROW | I_FINALLY_START | I_FINALLY_END | I_TO_STRING | I_PRINT
  | I_CLOCK | I_TYPE_OF | I_IS_INSTANCE_OF | I_OP_AWAIT | I_MAKE_INTERFACE | I_MAKE_CLASS
  | I_BREAKPOINT | I_LINE | I_HAS_GLOBAL

datatype ext_op =
    I_LOAD_GLOBAL_SLOT | I_STORE_GLOBAL_SLOT | I_LOOP_LESS_EQ_LOCAL | I_LOOP_GREATER_EQ_LOCAL
  | I_INTERCEPTED_STORE_PROPERTY | I_RATELIMIT_CHECK | I_GET_CACHED_RESULT
  | I_STORE_CACHED_RESULT | I_LOAD_LOCAL_W | I_STORE_LOCAL_W | I_MEMBER_IN | I_ADD_LOCAL_LOCAL
  | I_SUB_LOCAL_LOCAL | I_INC_LOCAL_BY | I_ADD_GLOBAL_LOCAL | I_PRINT_STR | I_INVOKE_METHOD
  | I_END

datatype opcode = OVar var_op | OCalc calc_op | OFlow flow_op | OData data_op | OExn exn_op | OExt ext_op

abbreviation "OP_LOAD_CONST \<equiv> OVar I_LOAD_CONST"
abbreviation "OP_LOAD_LOCAL \<equiv> OVar I_LOAD_LOCAL"
abbreviation "OP_STORE_LOCAL \<equiv> OVar I_STORE_LOCAL"
abbreviation "OP_LOAD_UPVALUE \<equiv> OVar I_LOAD_UPVALUE"
abbreviation "OP_STORE_UPVALUE \<equiv> OVar I_STORE_UPVALUE"
abbreviation "OP_LOAD_GLOBAL \<equiv> OVar I_LOAD_GLOBAL"
abbreviation "OP_STORE_GLOBAL \<equiv> OVar I_STORE_GLOBAL"
abbreviation "OP_LOAD_PROPERTY \<equiv> OVar I_LOAD_PROPERTY"
abbreviation "OP_STORE_PROPERTY \<equiv> OVar I_STORE_PROPERTY"
abbreviation "OP_POP \<equiv> OVar I_POP"
abbreviation "OP_DUP \<equiv> OVar I_DUP"
abbreviation "OP_DUP2 \<equiv> OVar I_DUP2"
abbreviation "OP_LOAD_NIL \<equiv> OVar I_LOAD_NIL"
abbreviation "OP_LOAD_TRUE \<equiv> OVar I_LOAD_TRUE"
abbreviation "OP_LOAD_FALSE \<equiv> OVar I_LOAD_FALSE"
abbreviation "OP_LOAD_ZERO \<equiv> OVar I_LOAD_ZERO"
abbreviation "OP_LOAD_ONE \<equiv> OVar I_LOAD_ONE"
abbreviation "OP_LOAD_EMPTY_STR \<equiv> OVar I_LOAD_EMPTY_STR"
abbreviation "OP_INC_LOCAL \<equiv> OVar I_INC_LOCAL"
abbreviation "OP_DEC_LOCAL \<equiv> OVar I_DEC_LOCAL"

abbreviation "OP_ADD \<equiv> OCalc I_ADD"
abbreviation "OP_SUB \<equiv> OCalc I_SUB"
abbreviation "OP_MUL \<equiv> OCalc I_MUL"
abbreviation "OP_DIV \<equiv> OCalc I_DIV"
abbreviation "OP_MOD \<equiv> OCalc I_MOD"
abbreviation "OP_POW \<equiv> OCalc I_POW"
abbreviation "OP_NEGATE \<equiv> OCalc I_NEGATE"
abbreviation "OP_BIT_AND \<equiv> OCalc I_BIT_AND"
abbreviation "OP_BIT_OR \<equiv> OCalc I_BIT_OR"
abbreviation "OP_BIT_XOR \<equiv> OCalc I_BIT_XOR"
abbreviation "OP_BIT_NOT \<equiv> OCalc I_BIT_NOT"
abbreviation "OP_SHIFT_LEFT \<equiv> OCalc I_SHIFT_LEFT"
abbreviation "OP_SHIFT_RIGHT \<equiv> OCalc I_SHIFT_RIGHT"
abbreviation "OP_EQUAL \<equiv> OCalc I_EQUAL"
abbreviation "OP_NOT_EQUAL \<equiv> OCalc I_NOT_EQUAL"
abbreviation "OP_LESS \<equiv> OCalc I_LESS"
abbreviation "OP_LESS_EQ \<equiv> OCalc I_LESS_EQ"
abbreviation "OP_GREATER \<equiv> OCalc I_GREATER"
abbreviation "OP_GREATER_EQ \<equiv> OCalc I_GREATER_EQ"
abbreviation "OP_NOT \<equiv> OCalc I_NOT"

abbreviation "OP_JUMP \<equiv> OFlow I_JUMP"
abbreviation "OP_JUMP_IF_FALSE \<equiv> OFlow I_JUMP_IF_FALSE"
abbreviation "OP_JUMP_IF_TRUE \<equiv> OFlow I_JUMP_IF_TRUE"
abbreviation "OP_JUMP_IF_NIL \<equiv> OFlow I_JUMP_IF_NIL"
abbreviation "OP_JUMP_IF_NOT_NIL \<equiv> OFlow I_JUMP_IF_NOT_NIL"
abbreviation "OP_LOOP \<equiv> OFlow I_LOOP"
abbreviation "OP_CALL \<equiv> OFlow I_CALL"
abbreviation "OP_TAIL_CALL \<equiv> OFlow I_TAIL_CALL"
abbreviation "OP_CALL_KW \<equiv> OFlow I_CALL_KW"
abbreviation "OP_RETURN \<equiv> OFlow I_RETURN"
abbreviation "OP_CLOSURE \<equiv> OFlow I_CLOSURE"
abbreviation "OP_CLOSE_UPVALUE \<equiv> OFlow I_CLOSE_UPVALUE"

abbreviation "OP_MAKE_ARRAY \<equiv> OData I_MAKE_ARRAY"
abbreviation "OP_BUILD_TUPLE \<equiv> OData I_BUILD_TUPLE"
abbreviation "OP_MAKE_DICT \<equiv> OData I_MAKE_DICT"
abbreviation "OP_INDEX_GET \<equiv> OData I_INDEX_GET"
abbreviation "OP_INDEX_SET \<equiv> OData I_INDEX_SET"
abbreviation "OP_ARRAY_APPEND \<equiv> OData I_ARRAY_APPEND"
abbreviation "OP_ARRAY_EXTEND \<equiv> OData I_ARRAY_EXTEND"
abbreviation "OP_CALL_SPREAD \<equiv> OData I_CALL_SPREAD"
abbreviation "OP_NEW_INSTANCE \<equiv> OData I_NEW_INSTANCE"
abbreviation "OP_GET_METHOD \<equiv> OData I_GET_METHOD"
abbreviation "OP_SUPER \<equiv> OData I_SUPER"
abbreviation "OP_SUPER_CALL \<equiv> OData I_SUPER_CALL"
abbreviation "OP_GET_ITER \<equiv> OData I_GET_ITER"
abbreviation "OP_GET_DICT_ITER \<equiv> OData I_GET_DICT_ITER"
abbreviation "OP_ITER_NEXT \<equiv> OData I_ITER_NEXT"
abbreviation "OP_ITER_HAS_NEXT \<equiv> OData I_ITER_HAS_NEXT"

abbreviation "OP_TRY_START \<equiv> OExn I_TRY_START"
abbreviation "OP_TRY_END \<equiv> OExn I_TRY_END"
abbreviation "OP_THROW \<equiv> OExn I_THROW"
abbreviation "OP_FINALLY_START \<equiv> OExn I_FINALLY_START"
abbreviation "OP_FINALLY_END \<equiv> OExn I_FINALLY_END"
abbreviation "OP_TO_STRING \<equiv> OExn I_TO_STRING"
abbreviation "OP_PRINT \<equiv> OExn I_PRINT"
abbreviation "OP_CLOCK \<equiv> OExn I_CLOCK"
abbreviation "OP_TYPE_OF \<equiv> OExn I_TYPE_OF"
abbreviation "OP_IS_INSTANCE_OF \<equiv> OExn I_IS_INSTANCE_OF"
abbreviation "OP_OP_AWAIT \<equiv> OExn I_OP_AWAIT"
abbreviation "OP_MAKE_INTERFACE \<equiv> OExn I_MAKE_INTERFACE"
abbreviation "OP_MAKE_CLASS \<equiv> OExn I_MAKE_CLASS"
abbreviation "OP_BREAKPOINT \<equiv> OExn I_BREAKPOINT"
abbreviation "OP_LINE \<equiv> OExn I_LINE"
abbreviation "OP_HAS_GLOBAL \<equiv> OExn I_HAS_GLOBAL"

abbreviation "OP_LOAD_GLOBAL_SLOT \<equiv> OExt I_LOAD_GLOBAL_SLOT"
abbreviation "OP_STORE_GLOBAL_SLOT \<equiv> OExt I_STORE_GLOBAL_SLOT"
abbreviation "OP_LOOP_LESS_EQ_LOCAL \<equiv> OExt I_LOOP_LESS_EQ_LOCAL"
abbreviation "OP_LOOP_GREATER_EQ_LOCAL \<equiv> OExt I_LOOP_GREATER_EQ_LOCAL"
abbreviation "OP_INTERCEPTED_STORE_PROPERTY \<equiv> OExt I_INTERCEPTED_STORE_PROPERTY"
abbreviation "OP_RATELIMIT_CHECK \<equiv> OExt I_RATELIMIT_CHECK"
abbreviation "OP_GET_CACHED_RESULT \<equiv> OExt I_GET_CACHED_RESULT"
abbreviation "OP_STORE_CACHED_RESULT \<equiv> OExt I_STORE_CACHED_RESULT"
abbreviation "OP_LOAD_LOCAL_W \<equiv> OExt I_LOAD_LOCAL_W"
abbreviation "OP_STORE_LOCAL_W \<equiv> OExt I_STORE_LOCAL_W"
abbreviation "OP_MEMBER_IN \<equiv> OExt I_MEMBER_IN"
abbreviation "OP_ADD_LOCAL_LOCAL \<equiv> OExt I_ADD_LOCAL_LOCAL"
abbreviation "OP_SUB_LOCAL_LOCAL \<equiv> OExt I_SUB_LOCAL_LOCAL"
abbreviation "OP_INC_LOCAL_BY \<equiv> OExt I_INC_LOCAL_BY"
abbreviation "OP_ADD_GLOBAL_LOCAL \<equiv> OExt I_ADD_GLOBAL_LOCAL"
abbreviation "OP_PRINT_STR \<equiv> OExt I_PRINT_STR"
abbreviation "OP_INVOKE_METHOD \<equiv> OExt I_INVOKE_METHOD"
abbreviation "OP_END \<equiv> OExt I_END"

primrec var_op_no :: "var_op \<Rightarrow> nat" where
  "var_op_no I_LOAD_CONST = 0"
| "var_op_no I_LOAD_LOCAL = 1"
| "var_op_no I_STORE_LOCAL = 2"
| "var_op_no I_LOAD_UPVALUE = 3"
| "var_op_no I_STORE_UPVALUE = 4"
| "var_op_no I_LOAD_GLOBAL = 5"
| "var_op_no I_STORE_GLOBAL = 6"
| "var_op_no I_LOAD_PROPERTY = 7"
| "var_op_no I_STORE_PROPERTY = 8"
| "var_op_no I_POP = 9"
| "var_op_no I_DUP = 10"
| "var_op_no I_DUP2 = 11"
| "var_op_no I_LOAD_NIL = 12"
| "var_op_no I_LOAD_TRUE = 13"
| "var_op_no I_LOAD_FALSE = 14"
| "var_op_no I_LOAD_ZERO = 15"
| "var_op_no I_LOAD_ONE = 16"
| "var_op_no I_LOAD_EMPTY_STR = 17"
| "var_op_no I_INC_LOCAL = 18"
| "var_op_no I_DEC_LOCAL = 19"

primrec calc_op_no :: "calc_op \<Rightarrow> nat" where
  "calc_op_no I_ADD = 20"
| "calc_op_no I_SUB = 21"
| "calc_op_no I_MUL = 22"
| "calc_op_no I_DIV = 23"
| "calc_op_no I_MOD = 24"
| "calc_op_no I_POW = 25"
| "calc_op_no I_NEGATE = 26"
| "calc_op_no I_BIT_AND = 27"
| "calc_op_no I_BIT_OR = 28"
| "calc_op_no I_BIT_XOR = 29"
| "calc_op_no I_BIT_NOT = 30"
| "calc_op_no I_SHIFT_LEFT = 31"
| "calc_op_no I_SHIFT_RIGHT = 32"
| "calc_op_no I_EQUAL = 33"
| "calc_op_no I_NOT_EQUAL = 34"
| "calc_op_no I_LESS = 35"
| "calc_op_no I_LESS_EQ = 36"
| "calc_op_no I_GREATER = 37"
| "calc_op_no I_GREATER_EQ = 38"
| "calc_op_no I_NOT = 39"

primrec flow_op_no :: "flow_op \<Rightarrow> nat" where
  "flow_op_no I_JUMP = 40"
| "flow_op_no I_JUMP_IF_FALSE = 41"
| "flow_op_no I_JUMP_IF_TRUE = 42"
| "flow_op_no I_JUMP_IF_NIL = 43"
| "flow_op_no I_JUMP_IF_NOT_NIL = 44"
| "flow_op_no I_LOOP = 45"
| "flow_op_no I_CALL = 46"
| "flow_op_no I_TAIL_CALL = 47"
| "flow_op_no I_CALL_KW = 48"
| "flow_op_no I_RETURN = 49"
| "flow_op_no I_CLOSURE = 50"
| "flow_op_no I_CLOSE_UPVALUE = 51"

primrec data_op_no :: "data_op \<Rightarrow> nat" where
  "data_op_no I_MAKE_ARRAY = 52"
| "data_op_no I_BUILD_TUPLE = 53"
| "data_op_no I_MAKE_DICT = 54"
| "data_op_no I_INDEX_GET = 55"
| "data_op_no I_INDEX_SET = 56"
| "data_op_no I_ARRAY_APPEND = 57"
| "data_op_no I_ARRAY_EXTEND = 58"
| "data_op_no I_CALL_SPREAD = 59"
| "data_op_no I_NEW_INSTANCE = 60"
| "data_op_no I_GET_METHOD = 61"
| "data_op_no I_SUPER = 62"
| "data_op_no I_SUPER_CALL = 63"
| "data_op_no I_GET_ITER = 64"
| "data_op_no I_GET_DICT_ITER = 65"
| "data_op_no I_ITER_NEXT = 66"
| "data_op_no I_ITER_HAS_NEXT = 67"

primrec exn_op_no :: "exn_op \<Rightarrow> nat" where
  "exn_op_no I_TRY_START = 68"
| "exn_op_no I_TRY_END = 69"
| "exn_op_no I_THROW = 70"
| "exn_op_no I_FINALLY_START = 71"
| "exn_op_no I_FINALLY_END = 72"
| "exn_op_no I_TO_STRING = 73"
| "exn_op_no I_PRINT = 74"
| "exn_op_no I_CLOCK = 75"
| "exn_op_no I_TYPE_OF = 76"
| "exn_op_no I_IS_INSTANCE_OF = 77"
| "exn_op_no I_OP_AWAIT = 78"
| "exn_op_no I_MAKE_INTERFACE = 79"
| "exn_op_no I_MAKE_CLASS = 80"
| "exn_op_no I_BREAKPOINT = 81"
| "exn_op_no I_LINE = 82"
| "exn_op_no I_HAS_GLOBAL = 83"

primrec ext_op_no :: "ext_op \<Rightarrow> nat" where
  "ext_op_no I_LOAD_GLOBAL_SLOT = 84"
| "ext_op_no I_STORE_GLOBAL_SLOT = 85"
| "ext_op_no I_LOOP_LESS_EQ_LOCAL = 86"
| "ext_op_no I_LOOP_GREATER_EQ_LOCAL = 87"
| "ext_op_no I_INTERCEPTED_STORE_PROPERTY = 88"
| "ext_op_no I_RATELIMIT_CHECK = 89"
| "ext_op_no I_GET_CACHED_RESULT = 90"
| "ext_op_no I_STORE_CACHED_RESULT = 91"
| "ext_op_no I_LOAD_LOCAL_W = 92"
| "ext_op_no I_STORE_LOCAL_W = 93"
| "ext_op_no I_MEMBER_IN = 94"
| "ext_op_no I_ADD_LOCAL_LOCAL = 95"
| "ext_op_no I_SUB_LOCAL_LOCAL = 96"
| "ext_op_no I_INC_LOCAL_BY = 97"
| "ext_op_no I_ADD_GLOBAL_LOCAL = 98"
| "ext_op_no I_PRINT_STR = 99"
| "ext_op_no I_INVOKE_METHOD = 100"
| "ext_op_no I_END = 101"

text \<open>\<open>static_cast<uint8_t>(op)\<close> and back.\<close>

primrec opcodeNo :: "opcode \<Rightarrow> nat" where
  "opcodeNo (OVar k) = var_op_no k"
| "opcodeNo (OCalc k) = calc_op_no k"
| "opcodeNo (OFlow k) = flow_op_no k"
| "opcodeNo (OData k) = data_op_no k"
| "opcodeNo (OExn k) = exn_op_no k"
| "opcodeNo (OExt k) = ext_op_no k"

definition opcodeByte :: "opcode \<Rightarrow> byte" where
  "opcodeByte k = word_of_nat (opcodeNo k)"

definition allOps :: "opcode list" where
  "allOps = [
      OP_LOAD_CONST , OP_LOAD_LOCAL , OP_STORE_LOCAL , OP_LOAD_UPVALUE , OP_STORE_UPVALUE
    , OP_LOAD_GLOBAL , OP_STORE_GLOBAL , OP_LOAD_PROPERTY , OP_STORE_PROPERTY , OP_POP , OP_DUP
    , OP_DUP2 , OP_LOAD_NIL , OP_LOAD_TRUE , OP_LOAD_FALSE , OP_LOAD_ZERO , OP_LOAD_ONE
    , OP_LOAD_EMPTY_STR , OP_INC_LOCAL , OP_DEC_LOCAL , OP_ADD , OP_SUB , OP_MUL , OP_DIV
    , OP_MOD , OP_POW , OP_NEGATE , OP_BIT_AND , OP_BIT_OR , OP_BIT_XOR , OP_BIT_NOT
    , OP_SHIFT_LEFT , OP_SHIFT_RIGHT , OP_EQUAL , OP_NOT_EQUAL , OP_LESS , OP_LESS_EQ
    , OP_GREATER , OP_GREATER_EQ , OP_NOT , OP_JUMP , OP_JUMP_IF_FALSE , OP_JUMP_IF_TRUE
    , OP_JUMP_IF_NIL , OP_JUMP_IF_NOT_NIL , OP_LOOP , OP_CALL , OP_TAIL_CALL , OP_CALL_KW
    , OP_RETURN , OP_CLOSURE , OP_CLOSE_UPVALUE , OP_MAKE_ARRAY , OP_BUILD_TUPLE , OP_MAKE_DICT
    , OP_INDEX_GET , OP_INDEX_SET , OP_ARRAY_APPEND , OP_ARRAY_EXTEND , OP_CALL_SPREAD
    , OP_NEW_INSTANCE , OP_GET_METHOD , OP_SUPER , OP_SUPER_CALL , OP_GET_ITER
    , OP_GET_DICT_ITER , OP_ITER_NEXT , OP_ITER_HAS_NEXT , OP_TRY_START , OP_TRY_END , OP_THROW
    , OP_FINALLY_START , OP_FINALLY_END , OP_TO_STRING , OP_PRINT , OP_CLOCK , OP_TYPE_OF
    , OP_IS_INSTANCE_OF , OP_OP_AWAIT , OP_MAKE_INTERFACE , OP_MAKE_CLASS , OP_BREAKPOINT
    , OP_LINE , OP_HAS_GLOBAL , OP_LOAD_GLOBAL_SLOT , OP_STORE_GLOBAL_SLOT
    , OP_LOOP_LESS_EQ_LOCAL , OP_LOOP_GREATER_EQ_LOCAL , OP_INTERCEPTED_STORE_PROPERTY
    , OP_RATELIMIT_CHECK , OP_GET_CACHED_RESULT , OP_STORE_CACHED_RESULT , OP_LOAD_LOCAL_W
    , OP_STORE_LOCAL_W , OP_MEMBER_IN , OP_ADD_LOCAL_LOCAL , OP_SUB_LOCAL_LOCAL
    , OP_INC_LOCAL_BY , OP_ADD_GLOBAL_LOCAL , OP_PRINT_STR , OP_INVOKE_METHOD , OP_END]"

definition decodeOp :: "byte \<Rightarrow> opcode option" where
  "decodeOp b = (if unat b < length allOps then Some (allOps ! unat b) else None)"

lemma length_allOps [simp]: "length allOps = 102"
  by (simp add: allOps_def)

lemma allOps_nth: "opcodeNo k < length allOps \<and> allOps ! opcodeNo k = k"
proof (cases k)
  case (OVar i)
  then show ?thesis by (cases i) (simp_all add: allOps_def)
next
  case (OCalc i)
  then show ?thesis by (cases i) (simp_all add: allOps_def)
next
  case (OFlow i)
  then show ?thesis by (cases i) (simp_all add: allOps_def)
next
  case (OData i)
  then show ?thesis by (cases i) (simp_all add: allOps_def)
next
  case (OExn i)
  then show ?thesis by (cases i) (simp_all add: allOps_def)
next
  case (OExt i)
  then show ?thesis by (cases i) (simp_all add: allOps_def)
qed

lemma opcodeNo_less: "opcodeNo k < 256"
  using allOps_nth [of k] by simp

lemma decodeOp_opcodeByte [simp]: "decodeOp (opcodeByte k) = Some k"
proof -
  have "unat (opcodeByte k) = opcodeNo k"
    using opcodeNo_less [of k] by (simp add: opcodeByte_def unat_of_nat take_bit_nat_eq_self)
  then show ?thesis using allOps_nth [of k] by (simp add: decodeOp_def)
qed

end
