(* ===== verification/Bytecode.thy ===== *)
theory Bytecode
  imports Opcode Cxx_Double
begin

text \<open>
  Bytecode chunks and functions, from \<open>src/bytecode/Bytecode.h\<close> and
  \<open>src/bytecode/Bytecode.cpp\<close>: constants, the chunk and its emitters (jumps are patched
  big-endian), the constant pool, and the table of call sites.
\<close>

subsection \<open>Constants\<close>

text \<open>
  \<open>FUNCTION\<close> and \<open>MODEL\<close> constants carry a raw pointer that nothing in the bytecode reads
  (the serializer writes no payload for them).
\<close>

datatype const_val =
    CNil
  | CBool bool
  | CInt i64
  | CDouble dbl
  | CString string
  | CFunction
  | CModel
  | CArray "nat list"

text \<open>The test of \<open>Chunk::addConstant\<close>: C++ \<open>==\<close> on the payloads of the deduplicated types.\<close>

fun sameConstant :: "const_val \<Rightarrow> const_val \<Rightarrow> bool" where
  "sameConstant (CInt a) (CInt b) = (a = b)"
| "sameConstant (CDouble a) (CDouble b) = deq a b"
| "sameConstant (CString a) (CString b) = (a = b)"
| "sameConstant (CBool a) (CBool b) = (a = b)"
| "sameConstant CNil CNil = True"
| "sameConstant _ _ = False"

fun findConstant :: "const_val list \<Rightarrow> const_val \<Rightarrow> nat \<Rightarrow> nat option" where
  "findConstant [] c i = None"
| "findConstant (d # ds) c i = (if sameConstant d c then Some i else findConstant ds c (i + 1))"

subsection \<open>Chunks\<close>

record chunk =
  code :: "byte list"
  constants :: "const_val list"
  clines :: "nat list"

definition emptyChunk :: chunk where
  "emptyChunk = \<lparr>code = [], constants = [], clines = []\<rparr>"

definition addConstant :: "chunk \<Rightarrow> const_val \<Rightarrow> nat \<times> chunk" where
  "addConstant ch c =
     (case findConstant (constants ch) c 0 of
        Some i \<Rightarrow> (i, ch)
      | None \<Rightarrow> (length (constants ch), ch\<lparr>constants := constants ch @ [c]\<rparr>))"

definition writeByte :: "byte \<Rightarrow> nat \<Rightarrow> chunk \<Rightarrow> chunk" where
  "writeByte b lineNum ch = ch\<lparr>code := code ch @ [b], clines := clines ch @ [lineNum]\<rparr>"

definition writeOp :: "opcode \<Rightarrow> nat \<Rightarrow> chunk \<Rightarrow> chunk" where
  "writeOp k lineNum = writeByte (opcodeByte k) lineNum"

fun writeBytes :: "byte list \<Rightarrow> nat \<Rightarrow> chunk \<Rightarrow> chunk" where
  "writeBytes [] lineNum ch = ch"
| "writeBytes (b # bs) lineNum ch = writeBytes bs lineNum (writeByte b lineNum ch)"

text \<open>The four operand bytes of a jump, most significant first.\<close>

definition be4 :: "nat \<Rightarrow> byte list" where
  "be4 n = [word_of_nat (n div 2 ^ 24), word_of_nat (n div 2 ^ 16), word_of_nat (n div 2 ^ 8), word_of_nat n]"

definition un_be :: "byte list \<Rightarrow> nat" where
  "un_be bs = foldl (\<lambda>v b. 256 * v + unat b) 0 bs"

definition writeJump :: "opcode \<Rightarrow> nat \<Rightarrow> chunk \<Rightarrow> chunk" where
  "writeJump k lineNum ch = writeBytes [0xFF, 0xFF, 0xFF, 0xFF] lineNum (writeOp k lineNum ch)"

text \<open>\<open>patchJump\<close>: \<open>None\<close> is a write outside the code vector; a jump that does not fit is
  reported and left unpatched.\<close>

definition patchJump :: "nat \<Rightarrow> chunk \<Rightarrow> chunk option" where
  "patchJump offset ch =
     (if length (code ch) < offset + 4 then None
      else let jump = length (code ch) - offset - 4 in
        if jump > 0xFFFFFFFF then Some ch
        else Some (ch\<lparr>code := take offset (code ch) @ be4 jump @ drop (offset + 4) (code ch)\<rparr>))"

definition writeLoop :: "nat \<Rightarrow> nat \<Rightarrow> chunk \<Rightarrow> chunk" where
  "writeLoop loopStart lineNum ch0 =
     (let ch = writeOp OP_LOOP lineNum ch0 in
      if length (code ch) < loopStart then ch
      else let offset = length (code ch) - loopStart + 4 in
        if offset > 0xFFFFFFFF then ch else writeBytes (be4 offset) lineNum ch)"

definition getConstant :: "chunk \<Rightarrow> nat \<Rightarrow> const_val" where
  "getConstant ch idx = (if idx \<ge> length (constants ch) then CNil else constants ch ! idx)"

subsection \<open>Functions\<close>

datatype upvalueType = UpLocal | UpUpvalue

record upvalue =
  upType :: upvalueType
  upIndex :: nat

record localVarInfo =
  lvName :: string
  lvSlot :: nat
  lvStart :: nat
  lvEnd :: nat

record callSite =
  csOffset :: u32
  csName :: string

record fn_header =
  fnName :: string
  fnFile :: string
  fnClass :: string
  fnParams :: "string list"
  fnArity :: nat
  fnVariadic :: bool
  fnAsync :: bool
  fnMethod :: bool
  fnCached :: bool
  fnUpvalues :: "upvalue list"
  fnUpvalueCount :: nat
  fnLocalCount :: nat
  fnLocalVars :: "localVarInfo list"
  fnCallSites :: "callSite list"
  fnDefaults :: nat
  fnGlobalSlots :: nat

datatype bfunction =
  BFunction (header: fn_header) (chunk_of: chunk) (nested: "bfunction list")

text \<open>The constructor \<open>BytecodeFunction(name, arity)\<close>.\<close>

definition newHeader :: "string \<Rightarrow> nat \<Rightarrow> fn_header" where
  "newHeader name arity = \<lparr>fnName = name, fnFile = [], fnClass = [], fnParams = [],
     fnArity = arity, fnVariadic = False, fnAsync = False, fnMethod = False, fnCached = False,
     fnUpvalues = [], fnUpvalueCount = 0, fnLocalCount = 0, fnLocalVars = [], fnCallSites = [],
     fnDefaults = 0, fnGlobalSlots = 0\<rparr>"

text \<open>\<open>calleeNameAt\<close>: binary search in the table sorted by offset.\<close>

function siteSearch :: "callSite list \<Rightarrow> u32 \<Rightarrow> nat \<Rightarrow> nat \<Rightarrow> nat" where
  "siteSearch cs offset low high =
     (if low < high then
        let mid = low + (high - low) div 2 in
        if csOffset (cs ! mid) < offset then siteSearch cs offset (mid + 1) high
        else siteSearch cs offset low mid
      else low)"
  by pat_completeness auto
termination by (relation "measure (\<lambda>(cs, off, low, high). high - low)") auto

declare siteSearch.simps [simp del]

definition calleeNameAt :: "callSite list \<Rightarrow> u32 \<Rightarrow> string option" where
  "calleeNameAt cs offset =
     (let low = siteSearch cs offset 0 (length cs) in
      if low < length cs \<and> csOffset (cs ! low) = offset then Some (csName (cs ! low)) else None)"

subsection \<open>Jumps land where they were patched to\<close>

lemma length_be4 [simp]: "length (be4 n) = 4"
  by (simp add: be4_def)

lemma un_be_be4: "n \<le> 0xFFFFFFFF \<Longrightarrow> un_be (be4 n) = n"
proof -
  assume "n \<le> 0xFFFFFFFF"
  then have "n div 2 ^ 24 < 256" by (simp add: div_less_iff_less_mult)
  then have m: "n div 2 ^ 24 mod 256 = n div 2 ^ 24" by simp
  have d: "n div 2 ^ 24 = n div 2 ^ 16 div 256" "n div 2 ^ 16 = n div 2 ^ 8 div 256" "n div 2 ^ 8 = n div 256"
    by (simp_all add: div_mult2_eq [symmetric])
  have "256 * (256 * (256 * (n div 2 ^ 24) + n div 2 ^ 16 mod 256) + n div 2 ^ 8 mod 256) + n mod 256 = n"
    unfolding d mult_div_mod_eq ..
  then show ?thesis
    using m by (simp add: un_be_def be4_def unat_of_nat take_bit_eq_mod)
qed

lemma writeBytes_eq:
  "writeBytes bs l ch = ch\<lparr>code := code ch @ bs, clines := clines ch @ replicate (length bs) l\<rparr>"
  by (induction bs arbitrary: ch) (simp_all add: writeByte_def)

lemma code_writers [simp]:
  "code (writeByte b l ch) = code ch @ [b]"
  "code (writeOp k l ch) = code ch @ [opcodeByte k]"
  "code (writeBytes bs l ch) = code ch @ bs"
  "code (writeJump k l ch) = code ch @ opcodeByte k # [0xFF, 0xFF, 0xFF, 0xFF]"
  by (simp_all add: writeByte_def writeOp_def writeBytes_eq writeJump_def)

text \<open>Every emitter keeps one line per code byte.\<close>

definition chunk_inv :: "chunk \<Rightarrow> bool" where
  "chunk_inv ch \<longleftrightarrow> length (clines ch) = length (code ch)"

lemma chunk_inv_writers:
  assumes "chunk_inv ch"
  shows "chunk_inv (writeByte b l ch)" "chunk_inv (writeOp k l ch)" "chunk_inv (writeBytes bs l ch)"
    "chunk_inv (writeJump k l ch)" "chunk_inv (writeLoop n l ch)"
    "patchJump n ch = Some ch' \<Longrightarrow> chunk_inv ch'" "chunk_inv (snd (addConstant ch c))"
  using assms
  by (auto simp: chunk_inv_def writeByte_def writeOp_def writeBytes_eq writeJump_def writeLoop_def
      patchJump_def addConstant_def Let_def split: option.splits if_splits)

text \<open>C23. Jumps land where they were aimed: after \<open>writeJump\<close>, any code, and \<open>patchJump\<close>, the
  machine's reading of the operand (big-endian, relative to the byte after it) gives the end
  of the code at patching time; \<open>writeLoop\<close> gives back \<open>loopStart\<close>. The opcode and every other
  byte are untouched.\<close>

theorem jumps_land:
  assumes "code ch = pre @ opcodeByte k # [0xFF, 0xFF, 0xFF, 0xFF] @ body"
    and "length body \<le> 0xFFFFFFFF"
    and "loopStart \<le> length pre" "length pre + 5 - loopStart \<le> 0xFFFFFFFF"
  shows "\<exists>ch'. patchJump (length pre + 1) ch = Some ch'
           \<and> code ch' = pre @ opcodeByte k # be4 (length body) @ body
           \<and> (length pre + 5) + un_be (take 4 (drop (length pre + 1) (code ch'))) = length (code ch)
     \<and> (let code' = code (writeLoop loopStart l (ch\<lparr>code := pre\<rparr>)) in
          (length pre + 5) - un_be (take 4 (drop (length pre + 1) code')) = loopStart)"
proof -
  have p: "patchJump (length pre + 1) ch = Some (ch\<lparr>code := pre @ opcodeByte k # be4 (length body) @ body\<rparr>)"
    using assms by (simp add: patchJump_def Let_def)
  have l: "code (writeLoop loopStart l (ch\<lparr>code := pre\<rparr>)) = pre @ opcodeByte OP_LOOP # be4 (length pre + 5 - loopStart)"
  proof -
    have "length pre + 1 - loopStart + 4 = length pre + 5 - loopStart" using assms(3) by simp
    then show ?thesis using assms(3,4) by (simp add: writeLoop_def Let_def)
  qed
  show ?thesis
    using assms p by (simp add: l un_be_be4)
qed

theorem jumps_land_witness:
  "\<exists>ch'. patchJump 1 \<lparr>code = [opcodeByte OP_JUMP, 0xFF, 0xFF, 0xFF, 0xFF, 7, 8], constants = [], clines = []\<rparr> = Some ch'
     \<and> code ch' = [opcodeByte OP_JUMP] @ be4 2 @ [7, 8]"
  using jumps_land [of "\<lparr>code = [opcodeByte OP_JUMP, 0xFF, 0xFF, 0xFF, 0xFF, 7, 8], constants = [], clines = []\<rparr>"
      "[]" OP_JUMP "[7, 8]" 0 0] by (auto simp: numeral_2_eq_2)

subsection \<open>The constant pool\<close>

lemma findConstant_Some:
  "findConstant ds c i = Some j \<Longrightarrow> i \<le> j \<and> j < i + length ds \<and> sameConstant (ds ! (j - i)) c"
proof (induction ds arbitrary: i)
  case (Cons d ds)
  show ?case
  proof (cases "sameConstant d c")
    case True then show ?thesis using Cons.prems by simp
  next
    case False
    then have "findConstant ds c (i + 1) = Some j" using Cons.prems by simp
    from Cons.IH [OF this] show ?thesis by (auto simp: nth_Cons' Suc_diff_le split: if_splits)
  qed
qed simp

lemma findConstant_None: "findConstant ds c i = None \<longleftrightarrow> (\<forall>d\<in>set ds. \<not> sameConstant d c)"
  by (induction ds arbitrary: i) auto

text \<open>The pools \<open>addConstant\<close> builds: no entry is the same as an earlier one.\<close>

definition pool_distinct :: "const_val list \<Rightarrow> bool" where
  "pool_distinct cs \<longleftrightarrow> sorted_wrt (\<lambda>d c. \<not> sameConstant d c) cs"

text \<open>\<open>addConstant\<close> returns an index that reads back the constant (up to C++ \<open>==\<close>), never
  moves an existing constant, and keeps the pool free of duplicates.\<close>

theorem addConstant_correct:
  assumes "addConstant ch c = (i, ch')"
  shows "i < length (constants ch') \<and> (getConstant ch' i = c \<or> sameConstant (getConstant ch' i) c)
     \<and> (\<forall>j. j < length (constants ch) \<longrightarrow> getConstant ch' j = getConstant ch j)
     \<and> (pool_distinct (constants ch) \<longrightarrow> pool_distinct (constants ch'))"
proof (cases "findConstant (constants ch) c 0")
  case None
  then have e: "i = length (constants ch)" "ch' = ch\<lparr>constants := constants ch @ [c]\<rparr>"
    using assms by (simp_all add: addConstant_def)
  from None have "\<forall>d\<in>set (constants ch). \<not> sameConstant d c" by (simp add: findConstant_None)
  then show ?thesis
    by (simp add: e getConstant_def pool_distinct_def sorted_wrt_append nth_append)
next
  case (Some j)
  then show ?thesis
    using assms findConstant_Some [OF Some] by (auto simp: addConstant_def getConstant_def)
qed

theorem addConstant_correct_witness:
  "addConstant (emptyChunk\<lparr>constants := [CInt 4, CString ''x'']\<rparr>) (CString ''x'') =
     (1, emptyChunk\<lparr>constants := [CInt 4, CString ''x'']\<rparr>)
   \<and> getConstant (emptyChunk\<lparr>constants := [CInt 4, CString ''x'']\<rparr>) 0 = CInt 4"
  using addConstant_correct [of "emptyChunk\<lparr>constants := [CInt 4, CString ''x'']\<rparr>" "CString ''x''" 1
      "emptyChunk\<lparr>constants := [CInt 4, CString ''x'']\<rparr>"]
  by (simp add: addConstant_def getConstant_def)

subsection \<open>Call sites\<close>

lemma siteSearch_spec:
  assumes "sorted_wrt (<) (map csOffset cs)" "low \<le> high" "high \<le> length cs"
    and "\<forall>i. i < low \<longrightarrow> csOffset (cs ! i) < offset" "\<forall>i. high \<le> i \<and> i < length cs \<longrightarrow> offset \<le> csOffset (cs ! i)"
  shows "siteSearch cs offset low high \<le> length cs
    \<and> (\<forall>i. i < siteSearch cs offset low high \<longrightarrow> csOffset (cs ! i) < offset)
    \<and> (\<forall>i. siteSearch cs offset low high \<le> i \<and> i < length cs \<longrightarrow> offset \<le> csOffset (cs ! i))"
  using assms
proof (induction cs offset low high rule: siteSearch.induct)
  case (1 cs offset low high)
  show ?case
  proof (cases "low < high")
    case False
    then have "siteSearch cs offset low high = low" by (subst siteSearch.simps) simp
    then show ?thesis using 1(4-7) False by auto
  next
    case True
    let ?mid = "low + (high - low) div 2"
    have mid: "low \<le> ?mid" "?mid < high" using True by auto
    have mono: "i < j \<Longrightarrow> j < length cs \<Longrightarrow> csOffset (cs ! i) < csOffset (cs ! j)" for i j
      using sorted_wrt_nth_less [OF 1(3), of i j] by simp
    note prems = 1(3-7)
    show ?thesis
    proof (cases "csOffset (cs ! ?mid) < offset")
      case less: True
      have a: "\<forall>i. i < ?mid + 1 \<longrightarrow> csOffset (cs ! i) < offset"
      proof (intro allI impI)
        fix i assume "i < ?mid + 1"
        then consider "i = ?mid" | "i < ?mid" by linarith
        then show "csOffset (cs ! i) < offset"
          by cases (use less mono [of i ?mid] mid prems(3) less_trans in \<open>auto intro: less_trans\<close>)
      qed
      have "siteSearch cs offset low high = siteSearch cs offset (?mid + 1) high"
        using True less by (subst siteSearch.simps) (simp add: Let_def)
      moreover have "?mid + 1 \<le> high" using mid by simp
      ultimately show ?thesis
        using 1(1) [OF True refl less prems(1) _ prems(3) a prems(5)] by simp
    next
      case ge: False
      have a: "\<forall>i. ?mid \<le> i \<and> i < length cs \<longrightarrow> offset \<le> csOffset (cs ! i)"
      proof (intro allI impI)
        fix i assume i: "?mid \<le> i \<and> i < length cs"
        then consider "i = ?mid" | "?mid < i" by linarith
        then show "offset \<le> csOffset (cs ! i)"
        proof cases
          case 2
          then have "csOffset (cs ! ?mid) < csOffset (cs ! i)" using mono i by blast
          then show ?thesis using ge by (meson linorder_not_le order.strict_trans1 less_imp_le)
        qed (use ge in simp)
      qed
      have "siteSearch cs offset low high = siteSearch cs offset low ?mid"
        using True ge by (subst siteSearch.simps) (simp add: Let_def)
      moreover have "?mid \<le> length cs" using mid prems(3) by simp
      ultimately show ?thesis
        using 1(2) [OF True refl ge prems(1) mid(1) _ prems(4) a] by simp
    qed
  qed
qed

text \<open>An entry of a sorted table is found under its own offset.\<close>

lemma calleeNameAt_member:
  assumes sorted: "sorted_wrt (<) (map csOffset cs)" and x: "x \<in> set cs"
  shows "calleeNameAt cs (csOffset x) = Some (csName x)"
proof -
  let ?low = "siteSearch cs (csOffset x) 0 (length cs)"
  have spec: "\<forall>i. i < ?low \<longrightarrow> csOffset (cs ! i) < csOffset x"
      "\<forall>i. ?low \<le> i \<and> i < length cs \<longrightarrow> csOffset x \<le> csOffset (cs ! i)"
    using siteSearch_spec [OF sorted, of 0 "length cs" "csOffset x"] by fastforce+
  obtain i where i: "i < length cs" "cs ! i = x" using x by (auto simp: in_set_conv_nth)
  then have le: "?low \<le> i" using spec(1) by (metis less_irrefl not_le)
  have "?low = i"
  proof (rule ccontr)
    assume "?low \<noteq> i"
    then have "csOffset (cs ! ?low) < csOffset (cs ! i)"
      using sorted le i by (auto simp: sorted_wrt_iff_nth_less)
    then show False using spec(2) le i by (metis le_less_trans le_refl not_le)
  qed
  then show ?thesis using i by (simp add: calleeNameAt_def)
qed

text \<open>On a table sorted by offset, as the compiler emits it, the binary search finds exactly
  the recorded name.\<close>

theorem calleeNameAt_correct:
  assumes "sorted_wrt (<) (map csOffset cs)"
  shows "calleeNameAt cs offset = map_of (map (\<lambda>s. (csOffset s, csName s)) cs) offset"
proof -
  let ?low = "siteSearch cs offset 0 (length cs)"
  let ?m = "map (\<lambda>s. (csOffset s, csName s)) cs"
  have v: "\<forall>i. length cs \<le> i \<and> i < length cs \<longrightarrow> offset \<le> csOffset (cs ! i)" by auto
  have s: "?low \<le> length cs" "\<forall>i. i < ?low \<longrightarrow> csOffset (cs ! i) < offset"
    "\<forall>i. ?low \<le> i \<and> i < length cs \<longrightarrow> offset \<le> csOffset (cs ! i)"
    using siteSearch_spec [OF assms _ _ _ v, of 0] by simp_all
  have d: "distinct (map fst ?m)"
    using assms by (simp add: strict_sorted_iff comp_def)
  show ?thesis
  proof (cases "offset \<in> csOffset ` set cs")
    case True
    then obtain i where i: "i < length cs" "csOffset (cs ! i) = offset" by (auto simp: in_set_conv_nth)
    have "?low \<le> i" using s(2) i by (metis linorder_not_le less_irrefl)
    moreover have "\<not> ?low < i"
    proof
      assume "?low < i"
      then have "csOffset (cs ! ?low) < offset"
        using sorted_wrt_nth_less [OF assms, of ?low i] i by simp
      then show False using s(3) i \<open>?low < i\<close> by (metis le_refl linorder_not_le dual_order.strict_trans)
    qed
    ultimately have e: "?low = i" by simp
    have "(offset, csName (cs ! i)) \<in> set ?m" using i by force
    then have "map_of ?m offset = Some (csName (cs ! i))" using d map_of_is_SomeI by metis
    then show ?thesis using e i by (simp add: calleeNameAt_def)
  next
    case False
    then have "map_of ?m offset = None" by (simp add: map_of_eq_None_iff image_image)
    moreover have "\<not> (?low < length cs \<and> csOffset (cs ! ?low) = offset)"
      using False by (metis image_eqI nth_mem)
    ultimately show ?thesis by (simp add: calleeNameAt_def Let_def)
  qed
qed

theorem calleeNameAt_correct_witness:
  "calleeNameAt [\<lparr>csOffset = 4, csName = ''f''\<rparr>, \<lparr>csOffset = 9, csName = ''g''\<rparr>] 9 = Some ''g''"
  using calleeNameAt_correct [of "[\<lparr>csOffset = 4, csName = ''f''\<rparr>, \<lparr>csOffset = 9, csName = ''g''\<rparr>]" 9]
  by simp

end
