(* ===== verification/Serializer.thy ===== *)
theory Serializer
  imports Bytecode
begin

text \<open>
  The \<open>.ezc\<close> format, from \<open>src/bytecode/serializer/BytecodeSerializer.cpp\<close>. A stream is its
  remaining bytes; writers produce bytes (little-endian, as \<open>out.write\<close> of a native object on
  the supported platforms), readers return a value and the rest or throw
  \<open>std::runtime_error\<close>. The locale \<open>codec\<close> states what a writer and its reader owe each other:
  the round trip, and that a stream cut anywhere inside is refused, never read as something
  else. It is interpreted on every component of the format.
\<close>

subsection \<open>Reading\<close>

type_synonym 'a reader = "string \<Rightarrow> cxx_exn + 'a \<times> string"

definition corrupt :: "string \<Rightarrow> cxx_exn" where
  "corrupt what = CxxRuntimeError (''Corrupt bytecode: '' @ what)"

definition rret :: "'a \<Rightarrow> 'a reader" where
  "rret x s = Inr (x, s)"

definition rbind :: "'a reader \<Rightarrow> ('a \<Rightarrow> 'b reader) \<Rightarrow> 'b reader" where
  "rbind m f s = res_bind (m s) (\<lambda>(a, s'). f a s')"

definition rfail :: "cxx_exn \<Rightarrow> 'a reader" where
  "rfail e s = Inl e"

text \<open>\<open>readExact\<close>; \<open>readPod\<close> reads the bytes of a number.\<close>

definition readExact :: "nat \<Rightarrow> string \<Rightarrow> string reader" where
  "readExact n what s =
     (if length s < n then Inl (corrupt (''truncated '' @ what)) else Inr (take n s, drop n s))"

fun leBytes :: "nat \<Rightarrow> nat \<Rightarrow> string" where
  "leBytes 0 n = []"
| "leBytes (Suc k) n = char_of n # leBytes k (n div 256)"

fun unLe :: "string \<Rightarrow> nat" where
  "unLe [] = 0"
| "unLe (c # cs) = uc c + 256 * unLe cs"

definition readPod :: "nat \<Rightarrow> string \<Rightarrow> nat reader" where
  "readPod k what = rbind (readExact k what) (\<lambda>bs. rret (unLe bs))"

definition ezc_max_count :: nat where
  "ezc_max_count = 64 * 1024 * 1024"

definition readCount :: "string \<Rightarrow> nat reader" where
  "readCount what = rbind (readPod 4 what)
     (\<lambda>n. if n > ezc_max_count then rfail (corrupt (''implausible '' @ what)) else rret n)"

fun readTimes :: "nat \<Rightarrow> 'a reader \<Rightarrow> 'a list reader" where
  "readTimes 0 r = rret []"
| "readTimes (Suc n) r = rbind r (\<lambda>x. rbind (readTimes n r) (\<lambda>xs. rret (x # xs)))"

definition readList :: "string \<Rightarrow> 'a reader \<Rightarrow> 'a list reader" where
  "readList what r = rbind (readCount what) (\<lambda>n. readTimes n r)"

definition writeList :: "('a \<Rightarrow> string) \<Rightarrow> 'a list \<Rightarrow> string" where
  "writeList w xs = leBytes 4 (length xs) @ concat (map w xs)"

subsection \<open>The interface of a writer and its reader\<close>

locale codec =
  fixes put :: "'a \<Rightarrow> string" and get :: "'a reader" and ok :: "'a \<Rightarrow> bool"
  assumes get_put: "ok x \<Longrightarrow> get (put x @ rest) = Inr (x, rest)"
    and get_cut: "ok x \<Longrightarrow> put x = p @ q \<Longrightarrow> q \<noteq> [] \<Longrightarrow> \<exists>e. get p = Inl e"
begin

lemma get_put_exact: "ok x \<Longrightarrow> get (put x) = Inr (x, [])"
  using get_put [of x "[]"] by simp

lemma put_inj: "ok x \<Longrightarrow> ok y \<Longrightarrow> put x = put y \<Longrightarrow> x = y"
  by (metis Inr_inject Pair_inject get_put_exact)

lemma times_put:
  "list_all ok xs \<Longrightarrow> readTimes (length xs) get (concat (map put xs) @ rest) = Inr (xs, rest)"
  by (induction xs) (simp_all add: rret_def rbind_def get_put)

lemma times_cut:
  "list_all ok xs \<Longrightarrow> concat (map put xs) = p @ q \<Longrightarrow> q \<noteq> [] \<Longrightarrow>
   \<exists>e. readTimes (length xs) get p = Inl e"
proof (induction xs arbitrary: p)
  case (Cons x xs)
  from Cons.prems(2) have "(\<exists>r. put x @ r = p \<and> concat (map put xs) = r @ q) \<or>
      (\<exists>r. put x = p @ r \<and> r \<noteq> [])"
    by (auto simp: append_eq_append_conv2)
  then show ?case
  proof (elim disjE exE conjE)
    fix r assume r: "put x @ r = p" "concat (map put xs) = r @ q"
    then have "\<exists>e. readTimes (length xs) get r = Inl e" using Cons by auto
    then show ?thesis using r(1) Cons.prems(1) get_put [of x r] by (auto simp: rbind_def)
  next
    fix r assume "put x = p @ r" "r \<noteq> []"
    then show ?thesis using get_cut [of x p r] Cons.prems(1) by (auto simp: rbind_def)
  qed
qed simp

end

subsection \<open>Numbers\<close>

lemma length_leBytes [simp]: "length (leBytes k n) = k"
  by (induction k arbitrary: n) simp_all

lemma unLe_leBytes: "unLe (leBytes k n) = n mod 256 ^ k"
  by (induction k arbitrary: n) (simp_all add: mod_mult2_eq)

lemma readExact_put: "length b = n \<Longrightarrow> readExact n what (b @ rest) = Inr (b, rest)"
  by (simp add: readExact_def)

lemma readExact_cut: "length p < n \<Longrightarrow> \<exists>e. readExact n what p = Inl e"
  by (simp add: readExact_def)

lemma cut_length: "b = p @ q \<Longrightarrow> q \<noteq> [] \<Longrightarrow> length p < length b"
  by simp

interpretation pod: codec "leBytes k" "readPod k what" "\<lambda>n. n < 256 ^ k" for k what
proof
  show "n < 256 ^ k \<Longrightarrow> readPod k what (leBytes k n @ rest) = Inr (n, rest)" for n rest
    by (simp add: readPod_def rbind_def rret_def readExact_put unLe_leBytes)
  show "\<exists>e. readPod k what p = Inl e" if "leBytes k n = p @ q" "q \<noteq> []" for n p q
    using readExact_cut [of p k what] cut_length [OF that] by (auto simp: readPod_def rbind_def)
qed

lemma readCount_put: "n \<le> ezc_max_count \<Longrightarrow> readCount what (leBytes 4 n @ rest) = Inr (n, rest)"
  using pod.get_put [of n 4 what rest] by (simp add: readCount_def rbind_def rret_def ezc_max_count_def)

lemma readCount_cut:
  assumes "leBytes 4 n = p @ q" "q \<noteq> []"
  shows "\<exists>e. readCount what p = Inl e"
proof -
  have "length p < 4" using cut_length [OF assms] by simp
  then show ?thesis using readExact_cut [of p 4 what] by (auto simp: readCount_def rbind_def readPod_def)
qed

interpretation cnt: codec "leBytes 4" "readCount what" "\<lambda>n. n \<le> ezc_max_count" for what
  by unfold_locales (auto simp: readCount_put intro: readCount_cut)

text \<open>Sequencing two codecs, and a counted list of items.\<close>

lemma codec_seq_put:
  "m (a @ b) = Inr (x, b) \<Longrightarrow> rbind m f (a @ b) = f x b"
  by (simp add: rbind_def)

lemma split_append:
  "a @ b = p @ q \<Longrightarrow> q \<noteq> [] \<Longrightarrow> (\<exists>r. a @ r = p \<and> b = r @ q) \<or> (\<exists>r. a = p @ r \<and> r \<noteq> [])"
  by (auto simp: append_eq_append_conv2)

text \<open>The step of a cut: inside the first part, or after it.\<close>

lemma rbind_cut:
  assumes "a @ b = p @ q" "q \<noteq> []"
    and "\<And>r. a = p @ r \<Longrightarrow> r \<noteq> [] \<Longrightarrow> \<exists>e. m p = Inl e"
    and "\<And>r. p = a @ r \<Longrightarrow> b = r @ q \<Longrightarrow> m p = Inr (x, r) \<and> (\<exists>e. f x r = Inl e)"
  shows "\<exists>e. rbind m f p = Inl e"
  using split_append [OF assms(1,2)] assms(3,4) by (fastforce simp: rbind_def)

context codec begin

lemma bind_put: "ok x \<Longrightarrow> rbind get f (put x @ rest) = f x rest"
  by (simp add: rbind_def get_put)

lemma bind_cut:
  assumes "put x @ b = p @ q" "q \<noteq> []" "ok x"
    and "\<And>r. b = r @ q \<Longrightarrow> q \<noteq> [] \<Longrightarrow> \<exists>e. f x r = Inl e"
  shows "\<exists>e. rbind get f p = Inl e"
  using assms(1,2)
proof (rule rbind_cut)
  show "\<exists>e. get p = Inl e" if "put x = p @ r" "r \<noteq> []" for r
    using get_cut [OF assms(3) that] .
  show "get p = Inr (x, r) \<and> (\<exists>e. f x r = Inl e)" if "p = put x @ r" "b = r @ q" for r
    using get_put [OF assms(3)] assms(2,4) that by blast
qed

lemma bind_cut_last:
  assumes "put x = p @ q" "q \<noteq> []" "ok x"
  shows "\<exists>e. rbind get f p = Inl e"
  using get_cut [OF assms(3,1,2)] by (auto simp: rbind_def)

end

lemma codec_list:
  assumes "codec put get ok"
  shows "codec (writeList put) (readList what get)
           (\<lambda>xs. length xs \<le> ezc_max_count \<and> list_all ok xs)"
proof -
  from assms have tp: "list_all ok xs \<Longrightarrow> readTimes (length xs) get (concat (map put xs) @ rest) = Inr (xs, rest)"
    and tc: "list_all ok xs \<Longrightarrow> concat (map put xs) = p @ q \<Longrightarrow> q \<noteq> [] \<Longrightarrow> \<exists>e. readTimes (length xs) get p = Inl e"
    for xs rest p q by (auto simp: codec.times_put codec.times_cut)
  show ?thesis
  proof
    show "readList what get (writeList put xs @ rest) = Inr (xs, rest)"
      if "length xs \<le> ezc_max_count \<and> list_all ok xs" for xs rest
      using that tp by (simp add: readList_def writeList_def cnt.bind_put)
    show "\<exists>e. readList what get p = Inl e"
      if "length xs \<le> ezc_max_count \<and> list_all ok xs" "writeList put xs = p @ q" "q \<noteq> []" for xs p q
      using that tc unfolding readList_def writeList_def by (auto elim!: cnt.bind_cut)
  qed
qed

lemma codec_iso:
  assumes "codec put get ok" "\<And>y. ok' y \<Longrightarrow> ok (f y) \<and> g (f y) = y"
  shows "codec (\<lambda>y. put (f y)) (rbind get (\<lambda>x. rret (g x))) ok'"
proof
  show "ok' y \<Longrightarrow> rbind get (\<lambda>x. rret (g x)) (put (f y) @ rest) = Inr (y, rest)" for y rest
    using assms(2) [of y] by (simp add: rret_def codec.bind_put [OF assms(1)])
  show "\<exists>e. rbind get (\<lambda>x. rret (g x)) p = Inl e" if "ok' y" "put (f y) = p @ q" "q \<noteq> []" for y p q
    using codec.bind_cut_last [OF assms(1) that(2,3)] assms(2) that(1) by blast
qed

subsection \<open>Strings and bytes\<close>

interpretation exact: codec "\<lambda>s. s" "readExact n what" "\<lambda>s. length s = n" for n what
  by unfold_locales (auto simp: readExact_def)

definition writeString :: "string \<Rightarrow> string" where
  "writeString str = (let len = length str mod 2 ^ 32 in leBytes 4 len @ take len str)"

definition readString :: "string reader" where
  "readString = rbind (readCount ''string length'')
     (\<lambda>len. if len = 0 then rret [] else readExact len ''string data'')"

definition str_ok :: "string \<Rightarrow> bool" where
  "str_ok s \<longleftrightarrow> length s \<le> ezc_max_count"

lemma writeString_ok: "str_ok s \<Longrightarrow> writeString s = leBytes 4 (length s) @ s"
  by (simp add: writeString_def str_ok_def ezc_max_count_def Let_def)

interpretation str: codec writeString readString str_ok
proof
  show "str_ok s \<Longrightarrow> readString (writeString s @ rest) = Inr (s, rest)" for s rest
    by (simp add: writeString_ok readString_def cnt.bind_put str_ok_def rret_def exact.get_put)
  show "\<exists>e. readString p = Inl e" if "str_ok s" "writeString s = p @ q" "q \<noteq> []" for s p q
    using that unfolding readString_def writeString_ok [OF that(1)]
    by (auto elim!: cnt.bind_cut simp: str_ok_def readExact_def)
qed

text \<open>A word of 8 bytes, and a flag of one byte.\<close>

interpretation word8: codec "\<lambda>w :: 64 word. leBytes 8 (unat w)"
  "rbind (readPod 8 what) (\<lambda>n. rret (word_of_nat n))" "\<lambda>_. True" for what
  by (rule codec_iso [OF pod.codec_axioms]) (use unsigned_less [where 'b = 64 and 'a = nat] in simp)

definition boolNo :: "bool \<Rightarrow> nat" where
  "boolNo b = (if b then 1 else 0)"

interpretation flag: codec "\<lambda>b. leBytes 1 (boolNo b)"
  "rbind (readPod 1 what) (\<lambda>n. rret (n \<noteq> 0))" "\<lambda>_. True" for what
  by (rule codec_iso [OF pod.codec_axioms]) (simp add: boolNo_def)

text \<open>A block of \<open>size_t\<close> values, read in one piece.\<close>

definition writeSizes :: "nat list \<Rightarrow> string" where
  "writeSizes ns = concat (map (leBytes 8) ns)"

fun unSizes :: "nat \<Rightarrow> string \<Rightarrow> nat list" where
  "unSizes 0 bs = []"
| "unSizes (Suc n) bs = unLe (take 8 bs) # unSizes n (drop 8 bs)"

definition readSizes :: "nat \<Rightarrow> string \<Rightarrow> nat list reader" where
  "readSizes n what = rbind (readExact (n * 8) what) (\<lambda>bs. rret (unSizes n bs))"

lemma length_writeSizes [simp]: "length (writeSizes ns) = length ns * 8"
  by (induction ns) (simp_all add: writeSizes_def)

lemma unSizes_writeSizes: "list_all (\<lambda>n. n < 2 ^ 64) ns \<Longrightarrow> unSizes (length ns) (writeSizes ns) = ns"
  by (induction ns) (simp_all add: writeSizes_def unLe_leBytes)

interpretation sizes: codec writeSizes "readSizes n what" "\<lambda>ns. length ns = n \<and> list_all (\<lambda>n. n < 2 ^ 64) ns"
  for n what
proof
  show "length ns = n \<and> list_all (\<lambda>n. n < 2 ^ 64) ns \<Longrightarrow>
      readSizes n what (writeSizes ns @ rest) = Inr (ns, rest)" for ns rest
    using unSizes_writeSizes by (auto simp: readSizes_def rret_def exact.bind_put)
  show "\<exists>e. readSizes n what p = Inl e"
    if "length ns = n \<and> list_all (\<lambda>n. n < 2 ^ 64) ns" "writeSizes ns = p @ q" "q \<noteq> []" for ns p q
    unfolding readSizes_def by (rule exact.bind_cut_last [OF that(2,3)]) (use that(1) in simp)
qed

subsection \<open>Constants and chunks\<close>

primrec constTag :: "const_val \<Rightarrow> nat" where
  "constTag CNil = 0"
| "constTag (CBool b) = 1"
| "constTag (CInt i) = 2"
| "constTag (CDouble d) = 3"
| "constTag (CString s) = 4"
| "constTag CFunction = 5"
| "constTag CModel = 6"
| "constTag (CArray xs) = 7"

primrec writePayload :: "const_val \<Rightarrow> string" where
  "writePayload CNil = []"
| "writePayload (CBool b) = leBytes 1 (boolNo b)"
| "writePayload (CInt i) = leBytes 8 (unat i)"
| "writePayload (CDouble d) = leBytes 8 (unat d)"
| "writePayload (CString s) = writeString s"
| "writePayload CFunction = []"
| "writePayload CModel = []"
| "writePayload (CArray xs) = leBytes 4 (length xs) @ writeSizes xs"

definition writeConst :: "const_val \<Rightarrow> string" where
  "writeConst c = leBytes 1 (constTag c) @ writePayload c"

definition readConst :: "const_val reader" where
  "readConst = rbind (readPod 1 ''constant tag'') (\<lambda>t.
     if t = 0 then rret CNil
     else if t = 5 then rret CFunction
     else if t = 6 then rret CModel
     else if t = 1 then rbind (rbind (readPod 1 ''bool constant'') (\<lambda>n. rret (n \<noteq> 0))) (\<lambda>b. rret (CBool b))
     else if t = 2 then rbind (rbind (readPod 8 ''int constant'') (\<lambda>n. rret (word_of_nat n))) (\<lambda>w. rret (CInt w))
     else if t = 3 then rbind (rbind (readPod 8 ''double constant'') (\<lambda>n. rret (word_of_nat n))) (\<lambda>w. rret (CDouble w))
     else if t = 4 then rbind readString (\<lambda>s. rret (CString s))
     else if t = 7 then rbind (readCount ''array constant length'')
            (\<lambda>len. rbind (readSizes len ''array constant'') (\<lambda>xs. rret (CArray xs)))
     else rfail (corrupt ''unknown constant type tag''))"

primrec const_ok :: "const_val \<Rightarrow> bool" where
  "const_ok CNil = True"
| "const_ok (CBool b) = True"
| "const_ok (CInt i) = True"
| "const_ok (CDouble d) = True"
| "const_ok (CString s) = str_ok s"
| "const_ok CFunction = True"
| "const_ok CModel = True"
| "const_ok (CArray xs) = (length xs \<le> ezc_max_count \<and> list_all (\<lambda>n. n < 2 ^ 64) xs)"

interpretation const: codec writeConst readConst const_ok
proof
  have t: "constTag c < 256 ^ 1" for c by (cases c) simp_all
  show "const_ok c \<Longrightarrow> readConst (writeConst c @ rest) = Inr (c, rest)" for c rest
    unfolding readConst_def writeConst_def append_assoc pod.bind_put [OF t]
    by (cases c) (simp_all add: rret_def flag.bind_put word8.bind_put str.bind_put cnt.bind_put sizes.bind_put
        del: leBytes.simps One_nat_def neq0_conv)
  show "\<exists>e. readConst p = Inl e" if ok: "const_ok c" and w: "writeConst c = p @ q" "q \<noteq> []" for c p q
    using w(1)[unfolded writeConst_def] w(2) t [of c] unfolding readConst_def
  proof (rule pod.bind_cut)
    fix r assume r: "writePayload c = r @ q" "q \<noteq> []"
    show "\<exists>e. (if constTag c = 0 then rret CNil
     else if constTag c = 5 then rret CFunction
     else if constTag c = 6 then rret CModel
     else if constTag c = 1 then rbind (rbind (readPod 1 ''bool constant'') (\<lambda>n. rret (n \<noteq> 0))) (\<lambda>b. rret (CBool b))
     else if constTag c = 2 then rbind (rbind (readPod 8 ''int constant'') (\<lambda>n. rret (word_of_nat n))) (\<lambda>w. rret (CInt w))
     else if constTag c = 3 then rbind (rbind (readPod 8 ''double constant'') (\<lambda>n. rret (word_of_nat n))) (\<lambda>w. rret (CDouble w))
     else if constTag c = 4 then rbind readString (\<lambda>s. rret (CString s))
     else if constTag c = 7 then rbind (readCount ''array constant length'')
            (\<lambda>len. rbind (readSizes len ''array constant'') (\<lambda>xs. rret (CArray xs)))
     else rfail (corrupt ''unknown constant type tag'')) r = Inl e"
    proof (cases c)
      case (CBool b)
      then show ?thesis using flag.bind_cut_last [of b r q] r by simp
    next
      case (CInt i)
      then show ?thesis using word8.bind_cut_last [of i r q] r by simp
    next
      case (CDouble d)
      then show ?thesis using word8.bind_cut_last [of d r q] r by simp
    next
      case (CString s)
      then show ?thesis using str.bind_cut_last [of s r q] r ok by simp
    next
      case (CArray xs)
      then show ?thesis
        using r ok cnt.bind_cut [of "length xs" "writeSizes xs" r q] sizes.bind_cut_last [of xs _ q "length xs"]
        by (fastforce intro: cnt.bind_cut [of "length xs" "writeSizes xs" r q])
    qed (use r in simp_all)
  qed
qed

definition addAll :: "const_val list \<Rightarrow> chunk \<Rightarrow> chunk" where
  "addAll cs ch = fold (\<lambda>c k. snd (addConstant k c)) cs ch"

lemma addAll_distinct:
  "pool_distinct (ds @ cs) \<Longrightarrow> constants ch = ds \<Longrightarrow> addAll cs ch = ch\<lparr>constants := ds @ cs\<rparr>"
proof (induction cs arbitrary: ds ch)
  case (Cons c cs)
  then have "\<forall>d\<in>set ds. \<not> sameConstant d c" by (simp add: pool_distinct_def sorted_wrt_append)
  then have "findConstant ds c 0 = None" by (simp add: findConstant_None)
  then have "snd (addConstant ch c) = ch\<lparr>constants := ds @ [c]\<rparr>" using Cons.prems by (simp add: addConstant_def)
  then show ?case
    using Cons.IH [of "ds @ [c]" "ch\<lparr>constants := ds @ [c]\<rparr>"] Cons.prems by (simp add: addAll_def)
qed (simp add: addAll_def)

definition codeBytes :: "byte list \<Rightarrow> string" where
  "codeBytes bs = map char_of_byte bs"

definition writeChunk :: "chunk \<Rightarrow> string" where
  "writeChunk ch =
     leBytes 4 (length (code ch))
     @ (if length (code ch) mod 2 ^ 32 > 0
        then codeBytes (code ch) @ writeSizes (take (length (code ch)) (clines ch)) else [])
     @ writeList writeConst (constants ch)"

definition readChunk :: "chunk reader" where
  "readChunk = rbind (readCount ''code size'') (\<lambda>codeSize.
     rbind (if codeSize > 0
            then rbind (readExact codeSize ''code'') (\<lambda>bs.
                 rbind (readSizes codeSize ''line table'') (\<lambda>ls. rret (map byte_of_char bs, ls)))
            else rret ([], []))
       (\<lambda>(bs, ls). rbind (readList ''constant count'' readConst)
          (\<lambda>cs. rret (addAll cs \<lparr>code = bs, constants = [], clines = ls\<rparr>))))"

definition chunk_ok :: "chunk \<Rightarrow> bool" where
  "chunk_ok ch \<longleftrightarrow> chunk_inv ch \<and> length (code ch) \<le> ezc_max_count
     \<and> list_all (\<lambda>n. n < 2 ^ 64) (clines ch)
     \<and> length (constants ch) \<le> ezc_max_count \<and> list_all const_ok (constants ch)
     \<and> pool_distinct (constants ch)"

lemmas constList = codec_list [OF const.codec_axioms]
interpretation constL: codec "writeList writeConst" "readList what readConst"
  "\<lambda>xs. length xs \<le> ezc_max_count \<and> list_all const_ok xs" for what
  by (rule constList)

lemma codeBytes_back [simp]: "map byte_of_char (codeBytes bs) = bs" "length (codeBytes bs) = length bs"
  by (simp_all add: codeBytes_def comp_def)

lemma rbind_assoc: "rbind (rbind m f) g = rbind m (\<lambda>x. rbind (f x) g)"
  by (rule ext) (auto simp: rbind_def res_bind_assoc split_def intro: res_bind_cong)

lemma rbind_rret [simp]: "rbind (rret x) f = f x"
  by (rule ext) (simp add: rbind_def rret_def)

lemma writeChunk_ok:
  "chunk_ok ch \<Longrightarrow> writeChunk ch = leBytes 4 (length (code ch))
     @ (if code ch \<noteq> [] then codeBytes (code ch) @ writeSizes (clines ch) else [])
     @ writeList writeConst (constants ch)"
  by (auto simp: writeChunk_def chunk_ok_def chunk_inv_def ezc_max_count_def)

lemma chunk_rebuilt:
  "chunk_ok ch \<Longrightarrow> addAll (constants ch) \<lparr>code = code ch, constants = [], clines = clines ch\<rparr> = ch"
  using addAll_distinct [of "[]" "constants ch"] by (simp add: chunk_ok_def)

interpretation chunk: codec writeChunk readChunk chunk_ok
proof
  show "readChunk (writeChunk ch @ rest) = Inr (ch, rest)" if "chunk_ok ch" for ch rest
  proof (cases "code ch = []")
    case True
    then have "clines ch = []" using that by (simp add: chunk_ok_def chunk_inv_def)
    then show ?thesis using that True chunk_rebuilt [OF that]
      by (simp add: readChunk_def writeChunk_ok cnt.bind_put constL.bind_put chunk_ok_def rret_def)
  next
    case False
    then show ?thesis using that chunk_rebuilt [OF that]
      by (simp add: readChunk_def writeChunk_ok cnt.bind_put rbind_assoc exact.bind_put
          sizes.bind_put constL.bind_put chunk_ok_def chunk_inv_def rret_def)
  qed
  show "\<exists>e. readChunk p = Inl e" if ok: "chunk_ok ch" and w: "writeChunk ch = p @ q" "q \<noteq> []" for ch p q
    using w(1)[unfolded writeChunk_ok [OF ok]] w(2) unfolding readChunk_def
  proof (rule cnt.bind_cut)
    show "length (code ch) \<le> ezc_max_count" using ok by (simp add: chunk_ok_def)
    have last: "\<exists>e. rbind (readList ''constant count'' readConst) f r = Inl e"
      if "writeList writeConst (constants ch) = r @ q" for r and f :: "const_val list \<Rightarrow> chunk reader"
      using constL.bind_cut_last [OF that w(2)] ok by (simp add: chunk_ok_def)
    fix r assume r: "(if code ch \<noteq> [] then codeBytes (code ch) @ writeSizes (clines ch) else [])
        @ writeList writeConst (constants ch) = r @ q" "q \<noteq> []"
    show "\<exists>e. rbind (if length (code ch) > 0
            then rbind (readExact (length (code ch)) ''code'') (\<lambda>bs.
                 rbind (readSizes (length (code ch)) ''line table'') (\<lambda>ls. rret (map byte_of_char bs, ls)))
            else rret ([], []))
       (\<lambda>(bs, ls). rbind (readList ''constant count'' readConst)
          (\<lambda>cs. rret (addAll cs \<lparr>code = bs, constants = [], clines = ls\<rparr>))) r = Inl e"
    proof (cases "code ch = []")
      case True
      then show ?thesis using r last by simp
    next
      case False
      then have "codeBytes (code ch) @ writeSizes (clines ch) @ writeList writeConst (constants ch) = r @ q"
        using r by simp
      then show ?thesis using False w(2) ok
        by (auto simp: rbind_assoc chunk_ok_def chunk_inv_def elim!: exact.bind_cut sizes.bind_cut intro!: last)
    qed
  qed
qed

subsection \<open>Functions\<close>

definition upTypeNo :: "upvalueType \<Rightarrow> nat" where
  "upTypeNo t = (case t of UpLocal \<Rightarrow> 0 | UpUpvalue \<Rightarrow> 1)"

definition writeUpvalue :: "upvalue \<Rightarrow> string" where
  "writeUpvalue u = leBytes 1 (upTypeNo (upType u)) @ leBytes 4 (upIndex u)"

definition readUpvalue :: "upvalue reader" where
  "readUpvalue = rbind (readPod 1 ''upvalue kind'') (\<lambda>t.
     rbind (readPod 4 ''upvalue index'') (\<lambda>i.
       rret \<lparr>upType = (if t = 0 then UpLocal else UpUpvalue), upIndex = i\<rparr>))"

definition upvalue_ok :: "upvalue \<Rightarrow> bool" where
  "upvalue_ok u \<longleftrightarrow> upIndex u < 256 ^ 4"

lemma upTypeNo_less: "upTypeNo t < 256 ^ 1"
  by (simp add: upTypeNo_def split: upvalueType.splits)

lemma upTypeNo_back: "(if upTypeNo t = 0 then UpLocal else UpUpvalue) = t"
  by (simp add: upTypeNo_def split: upvalueType.splits)

interpretation up: codec writeUpvalue readUpvalue upvalue_ok
proof
  show "upvalue_ok u \<Longrightarrow> readUpvalue (writeUpvalue u @ rest) = Inr (u, rest)" for u rest
    by (simp add: readUpvalue_def writeUpvalue_def upvalue_ok_def pod.bind_put [OF upTypeNo_less] pod.bind_put
        upTypeNo_back rret_def del: leBytes.simps One_nat_def neq0_conv)
  show "\<exists>e. readUpvalue p = Inl e" if "upvalue_ok u" "writeUpvalue u = p @ q" "q \<noteq> []" for u p q
    using that(2,3) unfolding readUpvalue_def writeUpvalue_def
    by (elim pod.bind_cut pod.bind_cut_last) (use that(1) upTypeNo_less in \<open>simp_all add: upvalue_ok_def\<close>)
qed

definition writeLocalVar :: "localVarInfo \<Rightarrow> string" where
  "writeLocalVar v = writeString (lvName v) @ leBytes 4 (lvSlot v) @ leBytes 4 (lvStart v) @ leBytes 4 (lvEnd v)"

definition readLocalVar :: "localVarInfo reader" where
  "readLocalVar = rbind readString (\<lambda>n. rbind (readPod 4 ''local slot'') (\<lambda>a.
     rbind (readPod 4 ''local startPC'') (\<lambda>b. rbind (readPod 4 ''local endPC'') (\<lambda>c.
       rret \<lparr>lvName = n, lvSlot = a, lvStart = b, lvEnd = c\<rparr>))))"

definition localVar_ok :: "localVarInfo \<Rightarrow> bool" where
  "localVar_ok v \<longleftrightarrow> str_ok (lvName v) \<and> lvSlot v < 256 ^ 4 \<and> lvStart v < 256 ^ 4 \<and> lvEnd v < 256 ^ 4"

interpretation lv: codec writeLocalVar readLocalVar localVar_ok
proof
  show "localVar_ok v \<Longrightarrow> readLocalVar (writeLocalVar v @ rest) = Inr (v, rest)" for v rest
    by (simp add: readLocalVar_def writeLocalVar_def localVar_ok_def pod.bind_put str.bind_put rret_def)
  show "\<exists>e. readLocalVar p = Inl e" if "localVar_ok v" "writeLocalVar v = p @ q" "q \<noteq> []" for v p q
    using that(2,3) unfolding readLocalVar_def writeLocalVar_def
    by (elim str.bind_cut pod.bind_cut pod.bind_cut_last) (use that(1) in \<open>simp_all add: localVar_ok_def\<close>)
qed

definition writeCallSite :: "callSite \<Rightarrow> string" where
  "writeCallSite c = leBytes 4 (unat (csOffset c)) @ writeString (csName c)"

definition readCallSite :: "callSite reader" where
  "readCallSite = rbind (readPod 4 ''call-site offset'') (\<lambda>a. rbind readString (\<lambda>n.
     rret \<lparr>csOffset = word_of_nat a, csName = n\<rparr>))"

definition callSite_ok :: "callSite \<Rightarrow> bool" where
  "callSite_ok c \<longleftrightarrow> str_ok (csName c)"

lemma unat_u32: "unat (w :: u32) < 256 ^ 4"
  using unsigned_less [of w] by simp

interpretation cs: codec writeCallSite readCallSite callSite_ok
proof
  show "callSite_ok c \<Longrightarrow> readCallSite (writeCallSite c @ rest) = Inr (c, rest)" for c rest
    by (simp add: readCallSite_def writeCallSite_def callSite_ok_def pod.bind_put [OF unat_u32]
        str.bind_put rret_def)
  show "\<exists>e. readCallSite p = Inl e" if "callSite_ok c" "writeCallSite c = p @ q" "q \<noteq> []" for c p q
    using that(2,3) unfolding readCallSite_def writeCallSite_def
    by (elim pod.bind_cut str.bind_cut_last) (use that(1) unat_u32 in \<open>simp_all add: callSite_ok_def\<close>)
qed

interpretation upL: codec "writeList writeUpvalue" "readList what readUpvalue"
  "\<lambda>xs. length xs \<le> ezc_max_count \<and> list_all upvalue_ok xs" for what
  by (rule codec_list [OF up.codec_axioms])
interpretation lvL: codec "writeList writeLocalVar" "readList what readLocalVar"
  "\<lambda>xs. length xs \<le> ezc_max_count \<and> list_all localVar_ok xs" for what
  by (rule codec_list [OF lv.codec_axioms])
interpretation csL: codec "writeList writeCallSite" "readList what readCallSite"
  "\<lambda>xs. length xs \<le> ezc_max_count \<and> list_all callSite_ok xs" for what
  by (rule codec_list [OF cs.codec_axioms])
interpretation strL: codec "writeList writeString" "readList what readString"
  "\<lambda>xs. length xs \<le> ezc_max_count \<and> list_all str_ok xs" for what
  by (rule codec_list [OF str.codec_axioms])

text \<open>The fields \<open>writeFunction\<close> puts before the chunk, in its order.\<close>

definition writeHeader :: "fn_header \<Rightarrow> string" where
  "writeHeader h =
     writeString (fnName h) @ writeString (fnFile h)
     @ leBytes 4 (fnArity h)
     @ leBytes 1 (boolNo (fnVariadic h)) @ leBytes 1 (boolNo (fnAsync h)) @ leBytes 1 (boolNo (fnMethod h))
     @ leBytes 4 (fnUpvalueCount h) @ leBytes 4 (fnLocalCount h)
     @ writeList writeUpvalue (fnUpvalues h)
     @ writeList writeLocalVar (fnLocalVars h)
     @ writeList writeString (fnParams h)
     @ writeList writeCallSite (fnCallSites h)"

definition readFlag :: "bool reader" where
  "readFlag = rbind (readPod 1 ''function flags'') (\<lambda>n. rret (n \<noteq> 0))"

definition readHeader :: "fn_header reader" where
  "readHeader = rbind readString (\<lambda>name. rbind readString (\<lambda>file.
     rbind (readPod 4 ''arity'') (\<lambda>arity.
     rbind readFlag (\<lambda>v. rbind readFlag (\<lambda>a. rbind readFlag (\<lambda>m.
     rbind (readPod 4 ''upvalue count'') (\<lambda>uc. rbind (readPod 4 ''local count'') (\<lambda>lc.
     rbind (readList ''upvalue table size'' readUpvalue) (\<lambda>ups.
     rbind (readList ''local-var table size'' readLocalVar) (\<lambda>lvs.
     rbind (readList ''parameter-name count'' readString) (\<lambda>ps.
     rbind (readList ''call-site table size'' readCallSite) (\<lambda>css.
       rret ((newHeader name arity)\<lparr>fnFile := file, fnVariadic := v, fnAsync := a, fnMethod := m,
               fnUpvalueCount := uc, fnLocalCount := lc, fnUpvalues := ups, fnLocalVars := lvs,
               fnParams := ps, fnCallSites := css\<rparr>)))))))))))))"

definition header_ok :: "fn_header \<Rightarrow> bool" where
  "header_ok h \<longleftrightarrow> str_ok (fnName h) \<and> str_ok (fnFile h) \<and> fnArity h < 256 ^ 4
     \<and> fnUpvalueCount h < 256 ^ 4 \<and> fnLocalCount h < 256 ^ 4
     \<and> (length (fnUpvalues h) \<le> ezc_max_count \<and> list_all upvalue_ok (fnUpvalues h))
     \<and> (length (fnLocalVars h) \<le> ezc_max_count \<and> list_all localVar_ok (fnLocalVars h))
     \<and> (length (fnParams h) \<le> ezc_max_count \<and> list_all str_ok (fnParams h))
     \<and> (length (fnCallSites h) \<le> ezc_max_count \<and> list_all callSite_ok (fnCallSites h))"

text \<open>What the format does not carry: the class name, the cached mark, the number of default
  parameters and of global slots come back as the constructor's values.\<close>

definition lossyHeader :: "fn_header \<Rightarrow> fn_header" where
  "lossyHeader h = h\<lparr>fnClass := [], fnCached := False, fnDefaults := 0, fnGlobalSlots := 0\<rparr>"

lemma readHeader_put: "header_ok h \<Longrightarrow> readHeader (writeHeader h @ rest) = Inr (lossyHeader h, rest)"
  unfolding readHeader_def writeHeader_def header_ok_def readFlag_def append_assoc
  by (simp add: str.bind_put pod.bind_put flag.bind_put upL.bind_put lvL.bind_put strL.bind_put
      csL.bind_put rret_def newHeader_def lossyHeader_def del: leBytes.simps One_nat_def neq0_conv)

lemma readHeader_bind: "header_ok h \<Longrightarrow> rbind readHeader g (writeHeader h @ rest) = g (lossyHeader h) rest"
  by (simp add: rbind_def readHeader_put)

lemma readHeader_cut:
  assumes "header_ok h" "writeHeader h = p @ q" "q \<noteq> []"
  shows "\<exists>e. readHeader p = Inl e"
  using assms(2,3) unfolding readHeader_def writeHeader_def readFlag_def
  by (elim str.bind_cut pod.bind_cut flag.bind_cut upL.bind_cut lvL.bind_cut strL.bind_cut csL.bind_cut_last)
     (use assms(1) in \<open>simp_all add: header_ok_def\<close>)

interpretation hdr: codec "\<lambda>h. writeHeader h" readHeader "\<lambda>h. header_ok h \<and> lossyHeader h = h"
  by unfold_locales (metis readHeader_put, metis readHeader_cut)

text \<open>
  \<open>readFunction(in, depth)\<close> throws beyond \<open>EZC_MAX_NEST_DEPTH\<close>; the argument here is what is
  left, \<open>EZC_MAX_NEST_DEPTH + 1 - depth\<close>, so that its running out is the source's exception.
\<close>

definition ezc_max_nest_depth :: nat where
  "ezc_max_nest_depth = 512"

fun writeFunction :: "bfunction \<Rightarrow> string" where
  "writeFunction (BFunction h c ns) =
     writeHeader h @ writeChunk c @ leBytes 4 (length ns) @ concat (map writeFunction ns)"

fun readFunction :: "nat \<Rightarrow> bfunction reader" where
  "readFunction 0 = rfail (corrupt ''nested-function recursion too deep'')"
| "readFunction (Suc left) = rbind readHeader (\<lambda>h. rbind readChunk (\<lambda>c.
     rbind (readCount ''nested-function count'') (\<lambda>n.
     rbind (readTimes n (readFunction left)) (\<lambda>ns. rret (BFunction h c ns)))))"

definition serialize :: "bfunction \<Rightarrow> string list \<Rightarrow> string" where
  "serialize f names = ''EZC3'' @ writeList writeString names @ writeFunction f"

definition deserialize :: "(string list \<times> bfunction) reader" where
  "deserialize s =
     (if length s < 4 then Inl (CxxRuntimeError ''Invalid EZC file format: the file is too short to be bytecode'')
      else let tag = take 4 s in
        if tag = ''EZC1'' \<or> tag = ''EZC2'' then
          Inl (CxxRuntimeError (''This .ezc was produced by an older interpreter (format '' @ tag @
            ''; this one reads EZC3) and cannot be run by it. Recompile it from the .ez source.''))
        else if tag \<noteq> ''EZC3'' then
          Inl (CxxRuntimeError ''Invalid EZC file format: expected an EZC3 header'')
        else rbind (readList ''global slot count'' readString) (\<lambda>names.
               rbind (readFunction (ezc_max_nest_depth + 1)) (\<lambda>f. rret (names, f))) (drop 4 s))"

text \<open>Functions the format can carry: bounded counts, nesting of less than \<open>left\<close> levels.\<close>

fun fn_ok :: "nat \<Rightarrow> bfunction \<Rightarrow> bool" where
  "fn_ok 0 f = False"
| "fn_ok (Suc left) (BFunction h c ns) =
     (header_ok h \<and> chunk_ok c \<and> length ns \<le> ezc_max_count \<and> list_all (fn_ok left) ns)"

fun lossy :: "bfunction \<Rightarrow> bfunction" where
  "lossy (BFunction h c ns) = BFunction (lossyHeader h) c (map lossy ns)"

lemma readFunction_put:
  "fn_ok left f \<Longrightarrow> readFunction left (writeFunction f @ rest) = Inr (lossy f, rest)"
proof (induction left arbitrary: f rest)
  case (Suc left)
  obtain h c ns where f: "f = BFunction h c ns" by (cases f)
  have ok: "header_ok h" "chunk_ok c" "length ns \<le> ezc_max_count" "list_all (fn_ok left) ns"
    using Suc.prems by (simp_all add: f)
  have n: "readTimes (length xs) (readFunction left) (concat (map writeFunction xs) @ r) = Inr (map lossy xs, r)"
    if "list_all (fn_ok left) xs" for xs r
    using that by (induction xs) (simp_all add: rret_def rbind_def Suc.IH)
  show ?case
    unfolding f writeFunction.simps readFunction.simps append_assoc readHeader_bind [OF ok(1)]
      chunk.bind_put [OF ok(2)] cnt.bind_put [OF ok(3)]
    by (simp add: rbind_def n [OF ok(4)] rret_def)
qed simp

lemma readFunction_cut:
  "fn_ok left f \<Longrightarrow> writeFunction f = p @ q \<Longrightarrow> q \<noteq> [] \<Longrightarrow> \<exists>e. readFunction left p = Inl e"
proof (induction left arbitrary: f p q)
  case (Suc left)
  obtain h c ns where f: "f = BFunction h c ns" by (cases f)
  have ok: "header_ok h" "chunk_ok c" "length ns \<le> ezc_max_count" "list_all (fn_ok left) ns"
    using Suc.prems(1) by (simp_all add: f)
  have times: "\<exists>e. readTimes (length xs) (readFunction left) r = Inl e"
    if "list_all (fn_ok left) xs" "concat (map writeFunction xs) = r @ q" for xs r
    using that
  proof (induction xs arbitrary: r)
    case Nil then show ?case using Suc.prems(3) by simp
  next
    case (Cons x xs)
    have "writeFunction x @ concat (map writeFunction xs) = r @ q" using Cons.prems(2) by simp
    from split_append [OF this Suc.prems(3)] show ?case
    proof (elim disjE exE conjE)
      fix u assume u: "writeFunction x @ u = r" "concat (map writeFunction xs) = u @ q"
      then show ?thesis using Cons readFunction_put [of left x u] by (auto simp: rbind_def)
    next
      fix u assume "writeFunction x = r @ u" "u \<noteq> []"
      then have "\<exists>e. readFunction left r = Inl e"
        using Suc.IH [of x r u] Cons.prems(1) by simp
      then show ?thesis by (auto simp: rbind_def)
    qed
  qed
  have "writeHeader h @ writeChunk c @ leBytes 4 (length ns) @ concat (map writeFunction ns) = p @ q"
    using Suc.prems(2) by (simp add: f)
  then show ?case using Suc.prems(3) unfolding readFunction.simps
  proof (rule rbind_cut)
    show "\<exists>e. readHeader p = Inl e" if "writeHeader h = p @ r" "r \<noteq> []" for r
      using readHeader_cut [OF ok(1) that] .
    fix r assume r: "p = writeHeader h @ r"
      "writeChunk c @ leBytes 4 (length ns) @ concat (map writeFunction ns) = r @ q"
    have "\<exists>e. rbind readChunk (\<lambda>c. rbind (readCount ''nested-function count'') (\<lambda>n.
        rbind (readTimes n (readFunction left)) (\<lambda>ns. rret (BFunction (lossyHeader h) c ns)))) r = Inl e"
      using r(2) Suc.prems(3) ok(2)
    proof (rule chunk.bind_cut)
      fix u assume "leBytes 4 (length ns) @ concat (map writeFunction ns) = u @ q"
      then show "\<exists>e. rbind (readCount ''nested-function count'') (\<lambda>n.
        rbind (readTimes n (readFunction left)) (\<lambda>ns. rret (BFunction (lossyHeader h) c ns))) u = Inl e"
        using Suc.prems(3) ok(3)
      proof (rule cnt.bind_cut)
        fix v assume "concat (map writeFunction ns) = v @ q"
        from times [OF ok(4) this]
        show "\<exists>e. rbind (readTimes (length ns) (readFunction left)) (\<lambda>ns. rret (BFunction (lossyHeader h) c ns)) v = Inl e"
          by (auto simp: rbind_def)
      qed
    qed
    then show "readHeader p = Inr (lossyHeader h, r) \<and> (\<exists>e. rbind readChunk (\<lambda>c.
        rbind (readCount ''nested-function count'') (\<lambda>n.
        rbind (readTimes n (readFunction left)) (\<lambda>ns. rret (BFunction (lossyHeader h) c ns)))) r = Inl e)"
      using readHeader_put [OF ok(1), of r] r(1) by simp
  qed
qed simp

definition file_ok :: "bfunction \<Rightarrow> string list \<Rightarrow> bool" where
  "file_ok f names \<longleftrightarrow> fn_ok (ezc_max_nest_depth + 1) f \<and> length names \<le> ezc_max_count \<and> list_all str_ok names"

text \<open>C10. The format round trips: a serialized program reads back as itself, except for the four
  header fields the format leaves out (class name, cached mark, number of default parameters,
  global slot count), in every function at every nesting level.\<close>

theorem deserialize_serialize:
  assumes "file_ok f names"
  shows "deserialize (serialize f names @ rest) = Inr ((names, lossy f), rest)"
proof -
  have "rbind (readFunction (ezc_max_nest_depth + 1)) (\<lambda>f. rret (names, f)) (writeFunction f @ rest)
      = Inr ((names, lossy f), rest)"
    using readFunction_put [of "ezc_max_nest_depth + 1" f rest] assms by (simp add: file_ok_def rbind_def rret_def)
  moreover have "length names \<le> ezc_max_count \<and> list_all str_ok names" using assms by (simp add: file_ok_def)
  ultimately show ?thesis
    by (simp add: deserialize_def serialize_def Let_def strL.bind_put)
qed

definition sampleFunction :: bfunction where
  "sampleFunction = BFunction ((newHeader ''greet'' 2)\<lparr>fnDefaults := 1\<rparr>)
     \<lparr>code = [opcodeByte OP_LOAD_CONST, 0, 0, opcodeByte OP_RETURN], constants = [CString ''hi'', CInt 3],
      clines = [1, 1, 1, 2]\<rparr> []"

lemma sample_ok: "file_ok sampleFunction [''print'']"
  by (simp add: file_ok_def sampleFunction_def header_ok_def newHeader_def
      str_ok_def ezc_max_count_def chunk_ok_def chunk_inv_def pool_distinct_def)

text \<open>In particular the default parameter of the sample is lost.\<close>

theorem deserialize_serialize_witness:
  "\<exists>f. deserialize (serialize sampleFunction [''print'']) = Inr (([''print''], f), [])
     \<and> fnDefaults (header sampleFunction) = 1 \<and> fnDefaults (header f) = 0"
  using deserialize_serialize [OF sample_ok, of "[]"]
  by (simp add: sampleFunction_def lossyHeader_def newHeader_def)

text \<open>C26. A truncated file is refused: no proper prefix of a serialized program is read as a
  program, at whatever byte it was cut.\<close>

theorem deserialize_refuses_truncation:
  assumes "file_ok f names" "serialize f names = p @ q" "q \<noteq> []"
  shows "\<exists>e. deserialize p = Inl e"
proof (cases "length p < 4")
  case False
  have "''EZC3'' @ (writeList writeString names @ writeFunction f) = p @ q"
    using assms(2) by (simp add: serialize_def)
  then have "take 4 (p @ q) = ''EZC3''" "drop 4 (p @ q) = writeList writeString names @ writeFunction f"
    by (simp_all flip: \<open>''EZC3'' @ (writeList writeString names @ writeFunction f) = p @ q\<close>)
  then have "take 4 p = ''EZC3''" "writeList writeString names @ writeFunction f = drop 4 p @ q"
    using False by simp_all
  have names: "length names \<le> ezc_max_count \<and> list_all str_ok names" using assms(1) by (simp add: file_ok_def)
  have "\<exists>e. rbind (readList ''global slot count'' readString) (\<lambda>names.
               rbind (readFunction (ezc_max_nest_depth + 1)) (\<lambda>f. rret (names, f))) (drop 4 p) = Inl e"
    using \<open>writeList writeString names @ writeFunction f = drop 4 p @ q\<close> assms(3) names
  proof (rule strL.bind_cut)
    fix r assume "writeFunction f = r @ q"
    then have "\<exists>e. readFunction (ezc_max_nest_depth + 1) r = Inl e"
      using readFunction_cut [of "ezc_max_nest_depth + 1" f r q] assms by (simp add: file_ok_def)
    then show "\<exists>e. rbind (readFunction (ezc_max_nest_depth + 1)) (\<lambda>f. rret (names, f)) r = Inl e"
      by (auto simp: rbind_def)
  qed
  then show ?thesis using False \<open>take 4 p = ''EZC3''\<close> by (simp add: deserialize_def Let_def)
qed (simp add: deserialize_def)

theorem deserialize_refuses_truncation_witness:
  "\<exists>e. deserialize (butlast (serialize sampleFunction [''print''])) = Inl e"
proof -
  have "serialize sampleFunction [''print''] \<noteq> []" by (simp add: serialize_def)
  then have "serialize sampleFunction [''print''] =
      butlast (serialize sampleFunction [''print'']) @ [last (serialize sampleFunction [''print''])]" by simp
  from deserialize_refuses_truncation [OF sample_ok this] show ?thesis by simp
qed

end
