(* ===== verification/Ez_Value.thy ===== *)
theory Ez_Value
  imports Cxx_Double
begin

text \<open>
  Runtime values, from \<open>src/runtime/Value.h\<close> and \<open>src/runtime/objects/ValueImpl.h\<close>: the
  variant, its type tests and accessors, lazy string concatenation, printing, and structural
  equality. A \<open>shared_ptr\<close> to a container is an address into the heap, a list of objects; a
  string node is immutable, so it is held by value (interning is a memory optimisation that
  no operation observes). The memo of a flattened concatenation is a field of its node.
\<close>

subsection \<open>The variant and the heap\<close>

type_synonym addr = nat

datatype val =
    VNil
  | VBool bool
  | VNumber dbl
  | VString string
  | VShortString string
  | VConcat (cleft: val) (cright: val) (clength: nat) (cflattened: "string option")
  | VArray addr
  | VFunction addr
  | VNativeFunction addr
  | VClass addr
  | VInstance addr
  | VDictionary addr
  | VFuture addr
  | VSuper addr
  | VInteger i64
  | VBuffer addr
  | VMutex addr
  | VBoundMethod addr
  | VClosure addr
  | VInterface addr
  | VAtomic addr
  | VTuple addr
  | VChannel addr

text \<open>
  Heap objects. A dictionary is an association list with distinct keys in the iteration order
  of the \<open>unordered_map\<close>; an instance lists its properties in slot order after the address of
  its class; a class has a name, a parent and its methods; a native function a name and an
  arity; a closure names its function and its captured upvalues by index. Objects whose contents no modelled operation reads are opaque.
\<close>

datatype obj =
    OArray "val list"
  | OTuple "val list"
  | ODict "(string \<times> val) list"
  | OBuffer "byte list"
  | OClass string "addr option" "(string \<times> val) list"
  | OInstance addr "(string \<times> val) list"
  | OBoundMethod val val
  | ONative string int
  | OClosure nat "nat list"
  | OInterface string
  | OFuture
  | OOpaque

type_synonym heap = "obj list"

definition hget :: "heap \<Rightarrow> addr \<Rightarrow> obj" where
  "hget h a = (if a < length h then h ! a else OOpaque)"

definition halloc :: "heap \<Rightarrow> obj \<Rightarrow> heap \<times> addr" where
  "halloc h x = (h @ [x], length h)"

fun elements :: "obj \<Rightarrow> val list" where
  "elements (OArray xs) = xs"
| "elements (OTuple xs) = xs"
| "elements _ = []"

fun dictMap :: "obj \<Rightarrow> (string \<times> val) list" where
  "dictMap (ODict kvs) = kvs"
| "dictMap _ = []"

fun bytesOf :: "obj \<Rightarrow> byte list" where
  "bytesOf (OBuffer bs) = bs"
| "bytesOf _ = []"

subsection \<open>Construction and type tests\<close>

text \<open>\<open>Value(const std::string\&)\<close>: up to 13 bytes are stored inline.\<close>

definition mkString :: "string \<Rightarrow> val" where
  "mkString s = (if length s < 14 then VShortString s else VString s)"

fun isTruthy :: "val \<Rightarrow> bool" where
  "isTruthy VNil = False"
| "isTruthy (VBool b) = b"
| "isTruthy _ = True"

definition isInteger :: "val \<Rightarrow> bool" where
  "isInteger v = (case v of VInteger _ \<Rightarrow> True | _ \<Rightarrow> False)"

definition isFloat :: "val \<Rightarrow> bool" where
  "isFloat v = (case v of VNumber _ \<Rightarrow> True | _ \<Rightarrow> False)"

definition isNumber :: "val \<Rightarrow> bool" where
  "isNumber v \<longleftrightarrow> isInteger v \<or> isFloat v"

definition isString :: "val \<Rightarrow> bool" where
  "isString v = (case v of VString _ \<Rightarrow> True | VShortString _ \<Rightarrow> True | VConcat _ _ _ _ \<Rightarrow> True
     | _ \<Rightarrow> False)"

definition isBool :: "val \<Rightarrow> bool" where
  "isBool v = (case v of VBool _ \<Rightarrow> True | _ \<Rightarrow> False)"

definition isArray :: "val \<Rightarrow> bool" where
  "isArray v = (case v of VArray _ \<Rightarrow> True | _ \<Rightarrow> False)"

text \<open>\<open>asFloat\<close> and \<open>asInteger\<close>: any other alternative is \<open>bad_variant_access\<close>.\<close>

fun asFloat :: "val \<Rightarrow> cxx_exn + dbl" where
  "asFloat (VInteger i) = Inr (d_of_i64 i)"
| "asFloat (VNumber d) = Inr d"
| "asFloat _ = Inl BadVariantAccess"

fun asInteger :: "val \<Rightarrow> cxx_exn + i64" where
  "asInteger (VInteger i) = Inr i"
| "asInteger (VNumber d) = (case i64_of_d d of Some i \<Rightarrow> Inr i
     | None \<Rightarrow> Inl (Undefined ''float to integer out of range''))"
| "asInteger _ = Inl BadVariantAccess"

text \<open>\<open>typeName\<close>.\<close>

fun typeName :: "val \<Rightarrow> string" where
  "typeName VNil = ''nil''"
| "typeName (VBool _) = ''bool''"
| "typeName (VInteger _) = ''integer''"
| "typeName (VNumber _) = ''float''"
| "typeName (VString _) = ''string''"
| "typeName (VShortString _) = ''string''"
| "typeName (VConcat _ _ _ _) = ''string''"
| "typeName (VArray _) = ''array''"
| "typeName (VTuple _) = ''tuple''"
| "typeName (VFunction _) = ''function''"
| "typeName (VNativeFunction _) = ''function''"
| "typeName (VClass _) = ''model''"
| "typeName (VInstance _) = ''instance''"
| "typeName (VDictionary _) = ''dictionary''"
| "typeName (VFuture _) = ''future''"
| "typeName (VBuffer _) = ''buffer''"
| "typeName (VMutex _) = ''mutex''"
| "typeName (VBoundMethod _) = ''function''"
| "typeName (VSuper _) = ''super''"
| "typeName (VClosure _) = ''function''"
| "typeName (VInterface _) = ''interface''"
| "typeName (VChannel _) = ''channel''"
| "typeName (VAtomic _) = ''atomic''"

subsection \<open>Lazy concatenation\<close>

definition overrun :: cxx_exn where
  "overrun = CxxRuntimeError ''EZConcatString length invariant violated (flatten overrun)''"

text \<open>
  The explicit-stack walk of \<open>flattenConcatString\<close>: \<open>out\<close> holds the bytes already copied, so
  \<open>offset\<close> is its length; \<open>size\<close> is the size the buffer was given up front.
\<close>

definition copyOut :: "nat \<Rightarrow> string \<Rightarrow> string \<Rightarrow> cxx_exn + string" where
  "copyOut sz out s = (if length out + length s > sz then Inl overrun else Inr (out @ s))"

function flattenLoop :: "nat \<Rightarrow> val list \<Rightarrow> string \<Rightarrow> cxx_exn + string" where
  "flattenLoop sz [] out = Inr out"
| "flattenLoop sz (v # st) out =
     (case v of
        VConcat l r n f \<Rightarrow>
          (case f of
             Some s \<Rightarrow> res_bind (copyOut sz out s) (flattenLoop sz st)
           | None \<Rightarrow> flattenLoop sz (l # r # st) out)
      | VString s \<Rightarrow> res_bind (copyOut sz out s) (flattenLoop sz st)
      | VShortString s \<Rightarrow> res_bind (copyOut sz out s) (flattenLoop sz st)
      | _ \<Rightarrow> flattenLoop sz st out)"
  by pat_completeness auto
termination
  by (relation "measure (\<lambda>(n, st, out). sum_list (map (\<lambda>v. 2 * size v + 1) st))") auto

declare flattenLoop.simps [simp del]

text \<open>
  \<open>flattenConcatString\<close>: the buffer is zero-filled to the recorded length before the walk.
\<close>

fun flattenConcatString :: "val \<Rightarrow> cxx_exn + string" where
  "flattenConcatString (VConcat l r n (Some s)) = Inr s"
| "flattenConcatString (VConcat l r n None) =
     res_bind (flattenLoop n [VConcat l r n None] [])
       (\<lambda>out. Inr (out @ replicate (n - length out) (CHR 0x00)))"
| "flattenConcatString _ = Inl BadVariantAccess"

fun asString :: "val \<Rightarrow> cxx_exn + string" where
  "asString (VString s) = Inr s"
| "asString (VShortString s) = Inr s"
| "asString (VConcat l r n f) = flattenConcatString (VConcat l r n f)"
| "asString _ = Inl (CxxRuntimeError ''Not a string'')"

fun stringLength :: "val \<Rightarrow> cxx_exn + nat" where
  "stringLength (VString s) = Inr (length s)"
| "stringLength (VShortString s) = Inr (length s)"
| "stringLength (VConcat l r n f) = Inr n"
| "stringLength _ = Inl (CxxRuntimeError ''Not a string'')"

text \<open>The node with its memo filled, as \<open>flattenConcatString\<close> leaves it.\<close>

fun flattened :: "val \<Rightarrow> val" where
  "flattened (VConcat l r n None) =
     (case flattenConcatString (VConcat l r n None) of
        Inr s \<Rightarrow> VConcat l r n (Some s) | Inl _ \<Rightarrow> VConcat l r n None)"
| "flattened v = v"

text \<open>The text a string value stands for, and the invariant of a concatenation node.\<close>

fun textOf :: "val \<Rightarrow> string" where
  "textOf (VString s) = s"
| "textOf (VShortString s) = s"
| "textOf (VConcat l r n f) = textOf l @ textOf r"
| "textOf _ = []"

fun wfString :: "val \<Rightarrow> bool" where
  "wfString (VString s) = True"
| "wfString (VShortString s) = (length s < 14)"
| "wfString (VConcat l r n f) \<longleftrightarrow> wfString l \<and> wfString r \<and> isString l \<and> isString r
     \<and> n = length (textOf l) + length (textOf r) \<and> f \<in> {None, Some (textOf l @ textOf r)}"
| "wfString _ = True"

lemma flattenLoop_wf:
  "list_all wfString st \<Longrightarrow> length out + length (concat (map textOf st)) \<le> sz
   \<Longrightarrow> flattenLoop sz st out = Inr (out @ concat (map textOf st))"
proof (induction sz st out rule: flattenLoop.induct)
  case (1 sz out)
  then show ?case by (simp add: flattenLoop.simps)
next
  case (2 sz v st out)
  show ?case
  proof (cases v)
    case (VConcat l r n f)
    then show ?thesis
      using 2 by (cases f) (auto simp: flattenLoop.simps copyOut_def)
  qed (use 2 in \<open>auto simp: flattenLoop.simps copyOut_def\<close>)
qed

lemma asString_wf: "isString v \<Longrightarrow> wfString v \<Longrightarrow> asString v = Inr (textOf v)"
  by (cases v) (auto simp: isString_def flattenLoop_wf)

lemma stringLength_wf: "isString v \<Longrightarrow> wfString v \<Longrightarrow> stringLength v = Inr (length (textOf v))"
  by (cases v) (auto simp: isString_def)

lemma mkString_props [simp]: "isString (mkString s)" "wfString (mkString s)" "textOf (mkString s) = s"
  by (auto simp: mkString_def isString_def)

lemma flattened_wf: "wfString v \<Longrightarrow> wfString (flattened v) \<and> textOf (flattened v) = textOf v"
  by (induction v rule: flattened.induct) (auto simp: flattenLoop_wf)


subsection \<open>Numerals\<close>

text \<open>\<open>std::to_string(long long)\<close>.\<close>

definition showInt :: "int \<Rightarrow> string" where
  "showInt i = (if i < 0 then CHR ''-'' # showNat (nat (- i)) else showNat (nat i))"

definition pow10 :: "int \<Rightarrow> rat" where
  "pow10 e = (if e \<ge> 0 then 10 ^ nat e else 1 / 10 ^ nat (- e))"

text \<open>The decimal exponent of a positive rational.\<close>

definition flog10 :: "rat \<Rightarrow> int" where
  "flog10 r = (case quotient_of r of (p, q) \<Rightarrow>
     let e = int (length (showNat (nat p))) - int (length (showNat (nat q))) in
     if pow10 e \<le> r then e else e - 1)"

text \<open>Six significant digits and the exponent, after rounding.\<close>

definition sci6 :: "rat \<Rightarrow> nat \<times> int" where
  "sci6 r = (let e = flog10 r; m = rnd_even (r / pow10 (e - 5)) in
     if m = 10 ^ 6 then (10 ^ 5, e + 1) else (nat m, e))"

definition dropZeros :: "string \<Rightarrow> string" where
  "dropZeros s = rev (dropWhile (\<lambda>c. c = CHR ''0'') (rev s))"

definition withFraction :: "string \<Rightarrow> string \<Rightarrow> string" where
  "withFraction ip fp = (if dropZeros fp = [] then ip else ip @ ''.'' @ dropZeros fp)"

definition showExp :: "int \<Rightarrow> string" where
  "showExp e = (let n = showNat (nat \<bar>e\<bar>) in
     (if e < 0 then ''e-'' else ''e+'') @ (if length n < 2 then CHR ''0'' # n else n))"

text \<open>\<open>std::ostream\<close>'s default formatting of a double: \<open>%g\<close> with six digits.\<close>

definition showG :: "rat \<Rightarrow> string" where
  "showG r = (if r = 0 then ''0'' else case sci6 r of (m, e) \<Rightarrow>
     let ds = showNat m in
     if e < - 4 \<or> e \<ge> 6 then withFraction (take 1 ds) (drop 1 ds) @ showExp e
     else if e \<ge> 0 then withFraction (take (nat e + 1) ds) (drop (nat e + 1) ds)
     else withFraction ''0'' (replicate (nat (- e) - 1) (CHR ''0'') @ ds))"

definition showDouble :: "dbl \<Rightarrow> string" where
  "showDouble d = (case dval_of d of
       DNaN \<Rightarrow> (if dsign d then ''-nan'' else ''nan'')
     | DInf s \<Rightarrow> (if s then ''-inf'' else ''inf'')
     | DFin s r \<Rightarrow> (if s then CHR ''-'' # showG r else showG r))"

text \<open>
  \<open>toString\<close> of a float: the range test admits \<open>2^63\<close> itself (\<open>LLONG_MAX\<close> rounds up to it as a
  double), and the cast of that value is undefined.
\<close>

definition numberToString :: "dbl \<Rightarrow> cxx_exn + string" where
  "numberToString d =
     (if dle (dneg 0x43E0000000000000) d \<and> dle d 0x43E0000000000000 then
        (case i64_of_d d of
           None \<Rightarrow> Inl (Undefined ''float to integer out of range'')
         | Some i \<Rightarrow> if deq d (d_of_i64 i) then Inr (showInt (sint i)) else Inr (showDouble d))
      else Inr (showDouble d))"

subsection \<open>Printing\<close>

definition maxPrintDepth :: nat where
  "maxPrintDepth = 512"

text \<open>\<open>EZToStringFrame\<close>: a container is not entered below 512 active ones, or again.\<close>

definition blocked :: "addr list \<Rightarrow> addr \<Rightarrow> bool" where
  "blocked path a \<longleftrightarrow> length path \<ge> maxPrintDepth \<or> a \<in> set path"

fun resMap :: "('a \<Rightarrow> 'e + 'b) \<Rightarrow> 'a list \<Rightarrow> 'e + 'b list" where
  "resMap f [] = Inr []"
| "resMap f (x # xs) = res_bind (f x) (\<lambda>y. res_bind (resMap f xs) (\<lambda>ys. Inr (y # ys)))"

lemma resMap_cong [fundef_cong]:
  "xs = ys \<Longrightarrow> (\<And>x. x \<in> set ys \<Longrightarrow> f x = g x) \<Longrightarrow> resMap f xs = resMap g ys"
  by (induction ys arbitrary: xs) (auto intro!: res_bind_cong)

definition joinComma :: "string list \<Rightarrow> string" where
  "joinComma ss = concat (case ss of [] \<Rightarrow> [] | s # r \<Rightarrow> s # map (\<lambda>x. '', '' @ x) r)"

definition quoted :: "val \<Rightarrow> string \<Rightarrow> string" where
  "quoted v s = (if isString v then ''\"'' @ s @ ''\"'' else s)"

fun interfaceName :: "obj \<Rightarrow> string" where
  "interfaceName (OInterface n) = n"
| "interfaceName _ = []"

function toStringP :: "heap \<Rightarrow> addr list \<Rightarrow> val \<Rightarrow> cxx_exn + string" where
  "toStringP h path v = (case v of
       VNil \<Rightarrow> Inr ''nil''
     | VBool b \<Rightarrow> Inr (if b then ''true'' else ''false'')
     | VInteger i \<Rightarrow> Inr (showInt (sint i))
     | VNumber d \<Rightarrow> numberToString d
     | VString s \<Rightarrow> asString v
     | VShortString s \<Rightarrow> asString v
     | VConcat l r n f \<Rightarrow> asString v
     | VArray a \<Rightarrow>
         (if blocked path a then Inr ''[...]''
          else res_bind (resMap (\<lambda>e. res_bind (toStringP h (path @ [a]) e)
                  (\<lambda>s. Inr (quoted e s))) (elements (hget h a)))
            (\<lambda>ss. Inr (''['' @ joinComma ss @ '']'')))
     | VTuple a \<Rightarrow>
         (if blocked path a then Inr ''(...)''
          else res_bind (resMap (\<lambda>e. res_bind (toStringP h (path @ [a]) e)
                  (\<lambda>s. Inr (quoted e s))) (elements (hget h a)))
            (\<lambda>ss. Inr (''('' @ joinComma ss @ '')'')))
     | VDictionary a \<Rightarrow>
         (if blocked path a then Inr ''{...}''
          else res_bind (resMap (\<lambda>e. res_bind (toStringP h (path @ [a]) (snd e))
                  (\<lambda>s. Inr (''\"'' @ fst e @ ''\": '' @ quoted (snd e) s))) (dictMap (hget h a)))
            (\<lambda>ss. Inr (''{'' @ joinComma ss @ ''}'')))
     | VFunction _ \<Rightarrow> Inr ''<function>''
     | VNativeFunction _ \<Rightarrow> Inr ''<native fn>''
     | VClass _ \<Rightarrow> Inr ''<model>''
     | VInstance _ \<Rightarrow> Inr ''<instance>''
     | VFuture _ \<Rightarrow> Inr ''<future>''
     | VBoundMethod _ \<Rightarrow> Inr ''<bound method>''
     | VClosure _ \<Rightarrow> Inr ''<function>''
     | VInterface a \<Rightarrow> Inr (''<interface '' @ interfaceName (hget h a) @ ''>'')
     | VMutex _ \<Rightarrow> Inr ''<mutex>''
     | VChannel _ \<Rightarrow> Inr ''<channel>''
     | VBuffer _ \<Rightarrow> Inr ''<unknown>''
     | VSuper _ \<Rightarrow> Inr ''<unknown>''
     | VAtomic _ \<Rightarrow> Inr ''<unknown>'')"
  by pat_completeness auto
termination
  by (relation "measure (\<lambda>(h, path, v). maxPrintDepth - length path)") (auto simp: blocked_def)

declare toStringP.simps [simp del]

definition toString :: "heap \<Rightarrow> val \<Rightarrow> cxx_exn + string" where
  "toString h v = toStringP h [] v"

subsection \<open>Well-formed heaps\<close>

text \<open>
  A container value points at an object of its kind, and concatenation
  nodes record their lengths.
\<close>

fun wfVal :: "heap \<Rightarrow> val \<Rightarrow> bool" where
  "wfVal h (VArray a) = (case hget h a of OArray _ \<Rightarrow> True | _ \<Rightarrow> False)"
| "wfVal h (VTuple a) = (case hget h a of OTuple _ \<Rightarrow> True | _ \<Rightarrow> False)"
| "wfVal h (VDictionary a) = (case hget h a of ODict _ \<Rightarrow> True | _ \<Rightarrow> False)"
| "wfVal h v = wfString v"

definition wfHeap :: "heap \<Rightarrow> bool" where
  "wfHeap h \<longleftrightarrow> list_all (\<lambda>x. list_all (wfVal h) (elements x) \<and> list_all (wfVal h) (map snd (dictMap x))) h"



text \<open>A value that prints: its string nodes are sound and it is not the float \<open>2^63\<close>.\<close>

fun printable :: "val \<Rightarrow> bool" where
  "printable (VNumber d) = (\<not> deq d 0x43E0000000000000)"
| "printable v = wfString v"

lemma numberToString_total:
  assumes "\<not> deq d 0x43E0000000000000"
  shows "\<exists>s. numberToString d = Inr s"
proof (cases "dle (dneg 0x43E0000000000000) d \<and> dle d 0x43E0000000000000")
  case True
  have v: "dval_of 0x43E0000000000000 = DFin False (2 ^ 63)" "dval_of (dneg 0x43E0000000000000) = DFin True (2 ^ 63)"
    by (simp_all add: dval_of_def dexp_def dfrac_def dsign_def pow2_def dneg_def)
  obtain s a where d: "dval_of d = DFin s a"
    using True v by (cases "dval_of d") (auto simp: dle_def dlt_def deq_def split: if_splits)
  have a: "0 \<le> a"
    using d by (auto simp: dval_of_def pow2_def split: if_splits intro!: mult_nonneg_nonneg simp: dfrac_def)
  have "- (2 ^ 63) \<le> dsigned s a" "dsigned s a < 2 ^ 63"
    using True assms d v by (auto simp: dle_def dlt_def deq_def dsigned_def)
  then have "\<exists>i. i64_of_d d = Some i"
    using a d by (auto simp: i64_of_d_def dsigned_def Let_def split: if_splits) linarith+
  then show ?thesis
    using True by (auto simp: numberToString_def)
qed (auto simp: numberToString_def)

lemma resMap_total: "(\<And>x. x \<in> set xs \<Longrightarrow> \<exists>y. f x = Inr y) \<Longrightarrow> \<exists>ys. resMap f xs = Inr ys"
  by (induction xs) (simp, fastforce)

definition printableHeap :: "heap \<Rightarrow> bool" where
  "printableHeap h \<longleftrightarrow> list_all (\<lambda>x. list_all printable (elements x) \<and> list_all (printable \<circ> snd) (dictMap x)) h"

lemma printable_parts:
  assumes "printableHeap h"
  shows "x \<in> set (elements (hget h a)) \<Longrightarrow> printable x" "e \<in> set (dictMap (hget h a)) \<Longrightarrow> printable (snd e)"
  using assms by (auto simp: printableHeap_def hget_def list_all_iff split: if_splits)

lemmas toStringP_array = toStringP.simps [where v = "VArray a" for a, unfolded val.case]
lemmas toStringP_tuple = toStringP.simps [where v = "VTuple a" for a, unfolded val.case]
lemmas toStringP_dictionary = toStringP.simps [where v = "VDictionary a" for a, unfolded val.case]

lemma resMap_then_total:
  "(\<And>x. x \<in> set xs \<Longrightarrow> \<exists>y. f x = Inr y) \<Longrightarrow> \<exists>s. res_bind (resMap f xs) (\<lambda>ss. Inr (g ss)) = Inr s"
  using resMap_total [of xs f] by fastforce

lemma toStringP_total: "printableHeap h \<Longrightarrow> printable v \<Longrightarrow> \<exists>s. toStringP h path v = Inr s"
proof (induction h path v rule: toStringP.induct)
  case (1 h path v)
  have str: "isString v \<Longrightarrow> wfString v \<Longrightarrow> \<exists>s. asString v = Inr s"
    using asString_wf by blast
  show ?case
  proof (cases v)
    case (VNumber d)
    then show ?thesis using 1 numberToString_total by (simp add: toStringP.simps)
  next
    case (VArray a)
    have "\<exists>s. res_bind (toStringP h (path @ [a]) e) (\<lambda>s. Inr (quoted e s)) = Inr s"
      if "\<not> blocked path a" "e \<in> set (elements (hget h a))" for e
      using 1(1) [OF VArray that] 1(4) printable_parts(1) [OF 1(4) that(2)] by auto
    then have "\<not> blocked path a \<Longrightarrow> \<exists>s. toStringP h path (VArray a) = Inr s"
      unfolding toStringP_array by (simp only: if_False, rule resMap_then_total, simp)
    then show ?thesis using VArray by (cases "blocked path a") (auto simp: toStringP_array)
  next
    case (VTuple a)
    have "\<exists>s. res_bind (toStringP h (path @ [a]) e) (\<lambda>s. Inr (quoted e s)) = Inr s"
      if "\<not> blocked path a" "e \<in> set (elements (hget h a))" for e
      using 1(3) [OF VTuple that] 1(4) printable_parts(1) [OF 1(4) that(2)] by auto
    then have "\<not> blocked path a \<Longrightarrow> \<exists>s. toStringP h path (VTuple a) = Inr s"
      unfolding toStringP_tuple by (simp only: if_False, rule resMap_then_total, simp)
    then show ?thesis using VTuple by (cases "blocked path a") (auto simp: toStringP_tuple)
  next
    case (VDictionary a)
    have "\<exists>s. res_bind (toStringP h (path @ [a]) (snd e))
        (\<lambda>s. Inr (''\"'' @ fst e @ ''\": '' @ quoted (snd e) s)) = Inr s"
      if "\<not> blocked path a" "e \<in> set (dictMap (hget h a))" for e
      using 1(2) [OF VDictionary that] 1(4) printable_parts(2) [OF 1(4) that(2)] by auto
    then have "\<not> blocked path a \<Longrightarrow> \<exists>s. toStringP h path (VDictionary a) = Inr s"
      unfolding toStringP_dictionary by (simp only: if_False, rule resMap_then_total, simp)
    then show ?thesis using VDictionary by (cases "blocked path a") (auto simp: toStringP_dictionary)
  qed (use 1 str in \<open>auto simp: toStringP.simps isString_def\<close>)
qed

text \<open>
  C31. Printing always ends in a text: on any heap, cyclic or arbitrarily deep, whose string
  nodes are sound, \<open>toString\<close> returns a string for every value, except that the float \<open>2^63\<close>
  passes the range test in front of the integer cast and makes that cast undefined.
\<close>

theorem toString_total:
  "(printableHeap h \<longrightarrow> printable v \<longrightarrow> (\<exists>s. toString h v = Inr s))
   \<and> toString h (VNumber 0x43E0000000000000) = Inl (Undefined ''float to integer out of range'')"
proof -
  have "toString h (VNumber 0x43E0000000000000) = Inl (Undefined ''float to integer out of range'')"
    by (simp add: toString_def toStringP.simps numberToString_def dle_def dlt_def deq_def dneg_def
        i64_of_d_def dval_of_def dexp_def dfrac_def dsign_def pow2_def dsigned_def)
  then show ?thesis using toStringP_total by (simp add: toString_def)
qed

lemma showInt_5: "showInt 5 = ''5''"
  by code_simp

lemma toString_total_witness:
  "(\<exists>s. toString [OArray [VArray 0, VInteger 5]] (VArray 0) = Inr s)
   \<and> toString [OArray [VArray 0, VInteger 5]] (VArray 0) = Inr ''[[...], 5]''"
  using toString_total [of "[OArray [VArray 0, VInteger 5]]" "VArray 0"]
  by (simp add: printableHeap_def toString_def toStringP.simps hget_def blocked_def maxPrintDepth_def
      joinComma_def quoted_def isString_def showInt_5)

end
