(* ===== verification/Ez_Equals.thy ===== *)
theory Ez_Equals
  imports Ez_Value
begin

text \<open>
  Structural equality of runtime values: \<open>Value::equals\<close> of
  \<open>src/runtime/objects/ValueImpl.h\<close> with its memo of compared pairs, and the proof that it
  decides the greatest bisimulation on the heap, cyclic values included.
\<close>

subsection \<open>Structural equality\<close>

datatype valueType =
    TyNil | TyBool | TyNumber | TyString | TyShortString | TyConcatString | TyArray | TyFunction
  | TyNativeFunction | TyClass | TyInstance | TyDictionary | TyFuture | TySuper | TyInteger
  | TyBuffer | TyMutex | TyBoundMethod | TyClosure | TyInterface | TyAtomic | TyTuple | TyChannel

fun typ_of :: "val \<Rightarrow> valueType" where
  "typ_of VNil = TyNil"
| "typ_of (VBool _) = TyBool"
| "typ_of (VNumber _) = TyNumber"
| "typ_of (VString _) = TyString"
| "typ_of (VShortString _) = TyShortString"
| "typ_of (VConcat _ _ _ _) = TyConcatString"
| "typ_of (VArray _) = TyArray"
| "typ_of (VFunction _) = TyFunction"
| "typ_of (VNativeFunction _) = TyNativeFunction"
| "typ_of (VClass _) = TyClass"
| "typ_of (VInstance _) = TyInstance"
| "typ_of (VDictionary _) = TyDictionary"
| "typ_of (VFuture _) = TyFuture"
| "typ_of (VSuper _) = TySuper"
| "typ_of (VInteger _) = TyInteger"
| "typ_of (VBuffer _) = TyBuffer"
| "typ_of (VMutex _) = TyMutex"
| "typ_of (VBoundMethod _) = TyBoundMethod"
| "typ_of (VClosure _) = TyClosure"
| "typ_of (VInterface _) = TyInterface"
| "typ_of (VAtomic _) = TyAtomic"
| "typ_of (VTuple _) = TyTuple"
| "typ_of (VChannel _) = TyChannel"

text \<open>The identities \<open>idA\<close> and \<open>idB\<close> of \<open>equals\<close>: containers only.\<close>

fun containerId :: "val \<Rightarrow> addr option" where
  "containerId (VArray a) = Some a"
| "containerId (VTuple a) = Some a"
| "containerId (VDictionary a) = Some a"
| "containerId _ = None"

definition asNumber :: "val \<Rightarrow> dbl" where
  "asNumber v = (case v of VInteger i \<Rightarrow> d_of_i64 i | VNumber d \<Rightarrow> d | _ \<Rightarrow> dnan)"

definition stringsEqual :: "val \<Rightarrow> val \<Rightarrow> cxx_exn + bool" where
  "stringsEqual a b = res_bind (stringLength a) (\<lambda>la. res_bind (stringLength b) (\<lambda>lb.
     if la \<noteq> lb then Inr False
     else res_bind (asString a) (\<lambda>x. res_bind (asString b) (\<lambda>y. Inr (x = y)))))"

definition elemsOf :: "heap \<Rightarrow> val \<Rightarrow> val list" where
  "elemsOf h v = elements (hget h (the (containerId v)))"

definition entriesOf :: "heap \<Rightarrow> val \<Rightarrow> (string \<times> val) list" where
  "entriesOf h v = dictMap (hget h (the (containerId v)))"

definition idPair :: "val \<Rightarrow> val \<Rightarrow> addr \<times> addr" where
  "idPair a b = (the (containerId a), the (containerId b))"

type_synonym memo = "(addr \<times> addr) list"

text \<open>
  The comparisons \<open>equals\<close> settles without walking a container: numbers, strings, different
  types, the same container, a pair already in the memo, and pointer or nil/bool equality.
  \<open>Inr None\<close> asks for the walk.
\<close>

definition equalsHead :: "memo \<Rightarrow> val \<Rightarrow> val \<Rightarrow> cxx_exn + bool option" where
  "equalsHead m a b =
     (if isNumber a \<and> isNumber b then Inr (Some (deq (asNumber a) (asNumber b)))
      else if isString a \<and> isString b then res_bind (stringsEqual a b) (\<lambda>r. Inr (Some r))
      else if typ_of a \<noteq> typ_of b then Inr (Some False)
      else case (containerId a, containerId b) of
        (Some i, Some j) \<Rightarrow> (if i = j \<or> (i, j) \<in> set m then Inr (Some True) else Inr None)
      | _ \<Rightarrow> Inr (Some (a = b)))"

text \<open>
  \<open>equals\<close>, with the memo of the pairs assumed equal threaded through the walk; the result is
  the answer and the memo. Dictionaries look every key of the first up in the second.
\<close>

function (sequential) equalsM :: "heap \<Rightarrow> memo \<Rightarrow> val \<Rightarrow> val \<Rightarrow> cxx_exn + bool \<times> memo"
  and eqElems :: "heap \<Rightarrow> memo \<Rightarrow> val list \<Rightarrow> val list \<Rightarrow> cxx_exn + bool \<times> memo"
  and eqEntries :: "heap \<Rightarrow> memo \<Rightarrow> (string \<times> val) list \<Rightarrow> (string \<times> val) list \<Rightarrow> cxx_exn + bool \<times> memo"
where
  "equalsM h m a b =
     (case equalsHead m a b of
        Inl e \<Rightarrow> Inl e
      | Inr (Some r) \<Rightarrow> Inr (r, m)
      | Inr None \<Rightarrow>
          (if typ_of a = TyDictionary then
            (if length (entriesOf h a) \<noteq> length (entriesOf h b) then Inr (False, idPair a b # m)
             else eqEntries h (idPair a b # m) (entriesOf h a) (entriesOf h b))
           else
            (if length (elemsOf h a) \<noteq> length (elemsOf h b) then Inr (False, idPair a b # m)
             else eqElems h (idPair a b # m) (elemsOf h a) (elemsOf h b))))"
| "eqElems h m (x # xs) (y # ys) =
     (case equalsM h m x y of
        Inl e \<Rightarrow> Inl e
      | Inr (r, m') \<Rightarrow> if r then eqElems h m' xs ys else Inr (False, m'))"
| "eqElems h m _ _ = Inr (True, m)"
| "eqEntries h m ((k, x) # d1) d2 =
     (case map_of d2 k of
        None \<Rightarrow> Inr (False, m)
      | Some y \<Rightarrow>
          (case equalsM h m x y of
             Inl e \<Rightarrow> Inl e
           | Inr (r, m') \<Rightarrow> if r then eqEntries h m' d1 d2 else Inr (False, m')))"
| "eqEntries h m [] d2 = Inr (True, m)"
  by pat_completeness auto

lemma equalsM_memo_grows:
  "equalsM_eqElems_eqEntries_dom (Inl (h, m, a, b)) \<Longrightarrow> equalsM h m a b = Inr (r, m') \<Longrightarrow> set m \<subseteq> set m'"
  "equalsM_eqElems_eqEntries_dom (Inr (Inl (h, m, xs, ys))) \<Longrightarrow> eqElems h m xs ys = Inr (r, m') \<Longrightarrow> set m \<subseteq> set m'"
  "equalsM_eqElems_eqEntries_dom (Inr (Inr (h, m, d1, d2))) \<Longrightarrow> eqEntries h m d1 d2 = Inr (r, m') \<Longrightarrow> set m \<subseteq> set m'"
proof (induction h m a b and h m xs ys and h m d1 d2 arbitrary: r m' and r m' and r m'
    rule: equalsM_eqElems_eqEntries.pinduct)
  case (1 h m a b)
  then show ?case
    by (auto simp: equalsM.psimps split: sum.splits option.splits if_splits)
next
  case (2 h m x xs y ys)
  then show ?case
    by (fastforce simp: eqElems.psimps split: sum.splits prod.splits if_splits)
next
  case (4 h m k x d1 d2)
  then show ?case
    by (fastforce simp: eqEntries.psimps split: sum.splits prod.splits if_splits option.splits)
qed (auto simp: eqElems.psimps eqEntries.psimps)

text \<open>
  The walk ends: entering a pair of non-empty containers uses up one of the finitely many
  pairs of addresses that are not in the memo yet.
\<close>

definition pairsLeft :: "heap \<Rightarrow> memo \<Rightarrow> nat" where
  "pairsLeft h m = card ({..<length h} \<times> {..<length h} - set m)"

lemma pairsLeft_mono: "set m \<subseteq> set m' \<Longrightarrow> pairsLeft h m' \<le> pairsLeft h m"
  unfolding pairsLeft_def by (rule card_mono) auto

lemma pairsLeft_less:
  "(i, j) \<notin> set m \<Longrightarrow> i < length h \<Longrightarrow> j < length h \<Longrightarrow> pairsLeft h ((i, j) # m) < pairsLeft h m"
  unfolding pairsLeft_def by (rule psubset_card_mono) auto

lemma hget_range: "elements (hget h i) \<noteq> [] \<Longrightarrow> i < length h" "dictMap (hget h i) \<noteq> [] \<Longrightarrow> i < length h"
  by (auto simp: hget_def split: if_splits)

lemma equalsHead_NoneD:
  assumes "equalsHead m a b = Inr None"
  shows "idPair a b \<notin> set m \<and> typ_of a = typ_of b
    \<and> (\<exists>i j. containerId a = Some i \<and> containerId b = Some j \<and> i \<noteq> j)"
  using assms by (auto simp: equalsHead_def idPair_def res_bind_Inr_iff split: if_splits option.splits)

fun walkOrder ::
  "(heap \<times> memo \<times> val \<times> val) + ((heap \<times> memo \<times> val list \<times> val list)
    + (heap \<times> memo \<times> (string \<times> val) list \<times> (string \<times> val) list)) \<Rightarrow> nat \<times> nat" where
  "walkOrder (Inl (h, m, a, b)) = (pairsLeft h m, 1)"
| "walkOrder (Inr (Inl (h, m, xs, ys))) = (pairsLeft h m, if xs = [] then 0 else length xs + 1)"
| "walkOrder (Inr (Inr (h, m, d1, d2))) = (pairsLeft h m, if d1 = [] then 0 else length d1 + 1)"

lemma walk_descends:
  assumes "equalsHead m a b = Inr None"
    and "xs \<noteq> [] \<longrightarrow> fst (idPair a b) < length h \<and> snd (idPair a b) < length h"
  shows "pairsLeft h (idPair a b # m) < pairsLeft h m
    \<or> pairsLeft h (idPair a b # m) = pairsLeft h m \<and> xs = []"
proof (cases "xs = []")
  case True
  have "pairsLeft h (idPair a b # m) \<le> pairsLeft h m"
    by (rule pairsLeft_mono) auto
  then show ?thesis using True by linarith
next
  case False
  then show ?thesis
    using assms equalsHead_NoneD [OF assms(1)] pairsLeft_less by (cases "idPair a b") auto
qed

lemma ranges:
  "length (elemsOf h a) = length (elemsOf h b) \<Longrightarrow>
     elemsOf h a \<noteq> [] \<longrightarrow> fst (idPair a b) < length h \<and> snd (idPair a b) < length h"
  "length (entriesOf h a) = length (entriesOf h b) \<Longrightarrow>
     entriesOf h a \<noteq> [] \<longrightarrow> fst (idPair a b) < length h \<and> snd (idPair a b) < length h"
  by (auto simp: elemsOf_def entriesOf_def idPair_def dest: length_0_conv [THEN iffD2]
      intro: hget_range(1) hget_range(2) simp flip: length_greater_0_conv)

termination equalsM
proof (relation "inv_image (less_than <*lex*> less_than) walkOrder", goal_cases)
  case 1
  show ?case by (intro wf_inv_image wf_lex_prod wf_less_than)
next
  case (2 h m a b)
  then show ?case using walk_descends [OF _ ranges(2)] by fastforce
next
  case (3 h m a b)
  then show ?case using walk_descends [OF _ ranges(1)] by fastforce
next
  case (4 h m x xs y ys)
  then show ?case by simp
next
  case (5 h m x xs y ys)
  then show ?case by (auto dest!: equalsM_memo_grows pairsLeft_mono [of _ _ h])
next
  case (6 h m k x d1 d2 y)
  then show ?case by simp
next
  case (7 h m k x d1 d2 y)
  then show ?case by (auto dest!: equalsM_memo_grows pairsLeft_mono [of _ _ h])
qed

declare equalsM.simps [simp del]

definition equals :: "heap \<Rightarrow> val \<Rightarrow> val \<Rightarrow> cxx_exn + bool" where
  "equals h a b = (case equalsM h [] a b of Inl e \<Rightarrow> Inl e | Inr (r, m) \<Rightarrow> Inr r)"

subsection \<open>What equality means\<close>

text \<open>
  One step of similarity: numbers by value (an integer against a float through \<open>double\<close>),
  strings by text, containers by identity or by their parts, everything else by identity.
\<close>

definition partsRelated :: "heap \<Rightarrow> (val \<Rightarrow> val \<Rightarrow> bool) \<Rightarrow> val \<Rightarrow> val \<Rightarrow> bool" where
  "partsRelated h R a b \<longleftrightarrow>
     (if typ_of a = TyDictionary then
        length (entriesOf h a) = length (entriesOf h b)
        \<and> list_all (\<lambda>(k, x). case map_of (entriesOf h b) k of None \<Rightarrow> False | Some y \<Rightarrow> R x y) (entriesOf h a)
      else list_all2 R (elemsOf h a) (elemsOf h b))"

definition simStep :: "heap \<Rightarrow> (val \<Rightarrow> val \<Rightarrow> bool) \<Rightarrow> val \<Rightarrow> val \<Rightarrow> bool" where
  "simStep h R a b \<longleftrightarrow>
     (if isNumber a \<and> isNumber b then deq (asNumber a) (asNumber b)
      else if isString a \<and> isString b then textOf a = textOf b
      else typ_of a = typ_of b \<and>
        (case containerId a of
           Some i \<Rightarrow> containerId b = Some i \<or> partsRelated h R a b
         | None \<Rightarrow> a = b))"

text \<open>The greatest relation closed under \<open>simStep\<close>.\<close>

definition similar :: "heap \<Rightarrow> val \<Rightarrow> val \<Rightarrow> bool" where
  "similar h a b \<longleftrightarrow> (\<exists>R. R a b \<and> (\<forall>x y. R x y \<longrightarrow> simStep h R x y))"

lemma partsRelated_mono:
  "partsRelated h R a b \<Longrightarrow> (\<And>x y. R x y \<Longrightarrow> S x y) \<Longrightarrow> partsRelated h S a b"
  by (auto simp: partsRelated_def list_all_iff split: if_splits option.splits elim: list_all2_mono)

lemma simStep_mono:
  assumes "simStep h R a b" and "\<And>x y. R x y \<Longrightarrow> S x y"
  shows "simStep h S a b"
proof -
  have "partsRelated h R a b \<Longrightarrow> partsRelated h S a b"
    using partsRelated_mono [of h R a b S] assms(2) by simp
  then show ?thesis
    using assms(1) by (auto simp: simStep_def split: if_splits option.splits)
qed

lemma similar_unfold: "similar h a b \<Longrightarrow> simStep h (similar h) a b"
proof -
  assume "similar h a b"
  then obtain R where R: "R a b" "\<And>x y. R x y \<Longrightarrow> simStep h R x y"
    unfolding similar_def by blast
  have "R x y \<Longrightarrow> similar h x y" for x y
    unfolding similar_def using R(2) by blast
  then show "simStep h (similar h) a b"
    using simStep_mono [OF R(2) [OF R(1)]] by blast
qed

lemma typ_of_container:
  "typ_of a = typ_of b \<Longrightarrow> (containerId a = None) = (containerId b = None)"
  by (cases a; cases b; simp)

lemma wf_contents:
  assumes "wfHeap h"
  shows "list_all (wfVal h) (elemsOf h a)" "list_all (wfVal h) (map snd (entriesOf h a))"
  using assms by (auto simp: wfHeap_def elemsOf_def entriesOf_def hget_def list_all_length)

lemma stringsEqual_wf:
  assumes "wfVal h a" "wfVal h b" "isString a" "isString b"
  shows "stringsEqual a b = Inr (textOf a = textOf b)"
proof -
  have wf: "wfVal h v \<Longrightarrow> isString v \<Longrightarrow> wfString v" for v
    by (cases v) (auto simp: isString_def)
  have "wfString a" "wfString b"
    using assms wf by auto
  then show ?thesis
    using assms by (auto simp: stringsEqual_def asString_wf stringLength_wf)
qed

text \<open>What a memo stands for: the relation that treats its pairs as related.\<close>

definition memoRel :: "heap \<Rightarrow> memo \<Rightarrow> val \<Rightarrow> val \<Rightarrow> bool" where
  "memoRel h m a b \<longleftrightarrow> wfVal h a \<and> wfVal h b \<and>
     (if isNumber a \<and> isNumber b then deq (asNumber a) (asNumber b)
      else if isString a \<and> isString b then textOf a = textOf b
      else typ_of a = typ_of b \<and>
        (case containerId a of
           Some i \<Rightarrow> containerId b = Some i \<or> idPair a b \<in> set m
         | None \<Rightarrow> a = b))"

definition pairOk :: "heap \<Rightarrow> (val \<Rightarrow> val \<Rightarrow> bool) \<Rightarrow> addr \<times> addr \<Rightarrow> bool" where
  "pairOk h R p \<longleftrightarrow> (\<forall>a b. idPair a b = p \<longrightarrow> containerId a \<noteq> None \<longrightarrow> containerId b \<noteq> None \<longrightarrow>
     typ_of a = typ_of b \<longrightarrow> wfVal h a \<longrightarrow> wfVal h b \<longrightarrow> partsRelated h R a b)"

lemma memoRel_mono: "memoRel h m a b \<Longrightarrow> set m \<subseteq> set m' \<Longrightarrow> memoRel h m' a b"
  by (auto simp: memoRel_def split: if_splits option.splits)

lemma pairOk_mono: "pairOk h R p \<Longrightarrow> (\<And>x y. R x y \<Longrightarrow> S x y) \<Longrightarrow> pairOk h S p"
  using partsRelated_mono [of h R _ _ S] by (simp add: pairOk_def)

text \<open>Pairs added between two memos are consistent with the later one.\<close>

definition grownOk :: "heap \<Rightarrow> memo \<Rightarrow> memo \<Rightarrow> bool" where
  "grownOk h m m' \<longleftrightarrow> set m \<subseteq> set m' \<and> (\<forall>p \<in> set m' - set m. pairOk h (memoRel h m') p)"

lemma grownOk_refl [simp]: "grownOk h m m"
  by (simp add: grownOk_def)

lemma grownOk_trans: "grownOk h m m' \<Longrightarrow> grownOk h m' m'' \<Longrightarrow> grownOk h m m''"
proof -
  assume a: "grownOk h m m'" and b: "grownOk h m' m''"
  have up: "pairOk h (memoRel h m'') p" if "pairOk h (memoRel h m') p" for p
    using that by (rule pairOk_mono) (use b memoRel_mono in \<open>simp add: grownOk_def\<close>)
  have "pairOk h (memoRel h m'') p" if "p \<in> set m''" "p \<notin> set m" for p
    using a b that up by (cases "p \<in> set m'") (simp_all add: grownOk_def)
  then show "grownOk h m m''"
    using a b by (auto simp: grownOk_def)
qed

lemma bisimulation_memo:
  assumes "grownOk h [] m"
  shows "memoRel h m a b \<Longrightarrow> simStep h (memoRel h m) a b"
  using assms typ_of_container [of a b]
  by (auto simp: memoRel_def simStep_def grownOk_def pairOk_def split: if_splits option.splits)

lemma equalsHead_cases:
  assumes "wfVal h a" "wfVal h b"
  obtains (yes) "equalsHead m a b = Inr (Some True)" "memoRel h m a b"
    | (no) "equalsHead m a b = Inr (Some False)" "\<And>R. \<not> simStep h R a b"
    | (walk) "equalsHead m a b = Inr None" "typ_of a = typ_of b" "\<not> (isNumber a \<and> isNumber b)"
        "\<not> (isString a \<and> isString b)" "containerId a \<noteq> None" "containerId b \<noteq> None"
        "containerId a \<noteq> containerId b"
proof -
  consider "isNumber a \<and> isNumber b" | "\<not> (isNumber a \<and> isNumber b)" "isString a \<and> isString b"
    | "\<not> (isNumber a \<and> isNumber b)" "\<not> (isString a \<and> isString b)"
    by blast
  then show thesis
  proof cases
    case 1
    then show ?thesis
      using assms yes no by (cases "deq (asNumber a) (asNumber b)") (auto simp: equalsHead_def memoRel_def simStep_def)
  next
    case 2
    then show ?thesis
      using assms yes no by (cases "textOf a = textOf b")
        (auto simp: equalsHead_def memoRel_def simStep_def stringsEqual_wf)
  next
    case 3
    show ?thesis
    proof (cases "typ_of a = typ_of b")
      case False
      then show ?thesis using 3 no by (auto simp: equalsHead_def simStep_def)
    next
      case True
      show ?thesis
      proof (cases "containerId a")
        case None
        then have "containerId b = None" using True typ_of_container by blast
        then show ?thesis
          using None True 3 assms yes no by (cases "a = b") (auto simp: equalsHead_def memoRel_def simStep_def)
      next
        case (Some i)
        then obtain j where j: "containerId b = Some j"
          using typ_of_container [OF True] by (cases "containerId b") auto
        then show ?thesis
          using Some j True 3 assms yes walk
          by (cases "i = j \<or> (i, j) \<in> set m") (auto simp: equalsHead_def memoRel_def idPair_def)
      qed
    qed
  qed
qed

lemma wfVal_container_inj:
  "containerId a = containerId b \<Longrightarrow> containerId a \<noteq> None \<Longrightarrow> wfVal h a \<Longrightarrow> wfVal h b \<Longrightarrow> a = b"
  by (cases a; cases b) (auto split: obj.splits)

lemma idPair_inj:
  assumes "idPair x y = idPair a b" "containerId x \<noteq> None" "containerId y \<noteq> None"
    "containerId a \<noteq> None" "containerId b \<noteq> None" "wfVal h x" "wfVal h y" "wfVal h a" "wfVal h b"
  shows "x = a \<and> y = b"
  using assms wfVal_container_inj [of x a h] wfVal_container_inj [of y b h]
  by (auto simp: idPair_def)

lemma pairOk_idPair:
  assumes "partsRelated h R a b" "wfVal h a" "wfVal h b" "containerId a \<noteq> None" "containerId b \<noteq> None"
  shows "pairOk h R (idPair a b)"
  using assms idPair_inj [of _ _ a b h] unfolding pairOk_def by metis

definition walked :: "heap \<Rightarrow> memo \<Rightarrow> ((val \<Rightarrow> val \<Rightarrow> bool) \<Rightarrow> bool) \<Rightarrow> cxx_exn + bool \<times> memo \<Rightarrow> bool" where
  "walked h m P res \<longleftrightarrow> (case res of Inl e \<Rightarrow> False
     | Inr (r, m') \<Rightarrow> set m \<subseteq> set m' \<and> (if r then P (memoRel h m') \<and> grownOk h m m' else \<not> P (similar h)))"

lemma walk_container:
  assumes wf: "wfVal h a" "wfVal h b"
    and head: "containerId a \<noteq> None" "containerId b \<noteq> None" "containerId a \<noteq> containerId b"
      "typ_of a = typ_of b" "\<not> (isNumber a \<and> isNumber b)" "\<not> (isString a \<and> isString b)"
    and res: "walked h (idPair a b # m) (\<lambda>R. partsRelated h R a b) res"
  shows "walked h m (\<lambda>R. R a b) res"
proof -
  obtain r m' where r: "res = Inr (r, m')"
    using res by (cases res) (auto simp: walked_def)
  show ?thesis
  proof (cases r)
    case True
    then have parts: "partsRelated h (memoRel h m') a b" and grown: "grownOk h (idPair a b # m) m'"
      using res r by (auto simp: walked_def)
    have "memoRel h m' a b"
      using wf head grown by (auto simp: memoRel_def grownOk_def)
    moreover have "grownOk h m m'"
      using grown pairOk_idPair [OF parts wf head(1,2)] by (auto simp: grownOk_def)
    ultimately show ?thesis
      using r True by (auto simp: walked_def grownOk_def)
  next
    case False
    then have "\<not> simStep h (similar h) a b"
      using res r head by (auto simp: walked_def simStep_def)
    then show ?thesis
      using res r False similar_unfold by (auto simp: walked_def)
  qed
qed

definition entriesRelated ::
  "(val \<Rightarrow> val \<Rightarrow> bool) \<Rightarrow> (string \<times> val) list \<Rightarrow> (string \<times> val) list \<Rightarrow> bool" where
  "entriesRelated R d1 d2 \<longleftrightarrow>
     list_all (\<lambda>(k, x). case map_of d2 k of None \<Rightarrow> False | Some y \<Rightarrow> R x y) d1"

lemma walked_Cons:
  assumes "walked h m (\<lambda>R. R x y) (Inr (True, m'))" and "walked h m' P res"
  shows "walked h m (\<lambda>R. R x y \<and> P R) res"
proof -
  have 1: "memoRel h m' x y" "grownOk h m m'" "set m \<subseteq> set m'"
    using assms(1) by (auto simp: walked_def)
  obtain r m'' where r: "res = Inr (r, m'')"
    using assms(2) by (cases res) (auto simp: walked_def)
  have 2: "set m' \<subseteq> set m''" using assms(2) r by (simp add: walked_def)
  show ?thesis
    using assms(2) r 1 2 memoRel_mono [OF 1(1) 2] grownOk_trans [OF 1(2)]
    by (simp add: walked_def split: if_splits; blast)
qed

lemma walked_False:
  "walked h m P (Inr (False, m')) \<Longrightarrow> (Q (similar h) \<Longrightarrow> P (similar h)) \<Longrightarrow> walked h m Q (Inr (False, m'))"
  by (auto simp: walked_def)

lemma equalsM_walked:
  "wfHeap h \<Longrightarrow> wfVal h a \<Longrightarrow> wfVal h b \<Longrightarrow> walked h m (\<lambda>R. R a b) (equalsM h m a b)"
  "wfHeap h \<Longrightarrow> list_all (wfVal h) xs \<Longrightarrow> list_all (wfVal h) ys \<Longrightarrow> length xs = length ys
     \<Longrightarrow> walked h m (\<lambda>R. list_all2 R xs ys) (eqElems h m xs ys)"
  "wfHeap h \<Longrightarrow> list_all (wfVal h) (map snd d1) \<Longrightarrow> list_all (wfVal h) (map snd d2)
     \<Longrightarrow> walked h m (\<lambda>R. entriesRelated R d1 d2) (eqEntries h m d1 d2)"
proof (induction h m a b and h m xs ys and h m d1 d2 rule: equalsM_eqElems_eqEntries.induct)
  case (1 h m a b)
  from \<open>wfVal h a\<close> \<open>wfVal h b\<close> show ?case
  proof (cases rule: equalsHead_cases [where m = m])
    case yes
    then show ?thesis by (simp add: equalsM.simps walked_def)
  next
    case no
    then show ?thesis using similar_unfold by (auto simp: equalsM.simps walked_def)
  next
    case walk
    show ?thesis
    proof (rule walk_container [OF \<open>wfVal h a\<close> \<open>wfVal h b\<close> walk(5,6,7,2,3,4)])
      show "walked h (idPair a b # m) (\<lambda>R. partsRelated h R a b) (equalsM h m a b)"
        using walk(1) 1 wf_contents [OF \<open>wfHeap h\<close>]
        by (auto simp: equalsM.simps partsRelated_def entriesRelated_def walked_def [of h _ _ "Inr (False, _)"]
            dest: list_all2_lengthD)
    qed
  qed
next
  case (2 h m x xs y ys)
  show ?case
  proof (cases "equalsM h m x y")
    case (Inl e)
    then show ?thesis using 2 by (simp add: walked_def)
  next
    case (Inr p)
    then obtain r m' where p: "equalsM h m x y = Inr (r, m')" by (cases p) auto
    have one: "walked h m (\<lambda>R. R x y) (Inr (r, m'))" using 2 p by simp
    show ?thesis
    proof (cases r)
      case True
      have "walked h m' (\<lambda>R. list_all2 R xs ys) (eqElems h m' xs ys)"
        using 2 p True by simp
      then show ?thesis
        using walked_Cons [of h m x y m' "\<lambda>R. list_all2 R xs ys"] one p True by simp
    next
      case False
      then show ?thesis using one p by (auto intro: walked_False)
    qed
  qed
next
  case (4 h m k x d1 d2)
  show ?case
  proof (cases "map_of d2 k")
    case None
    then show ?thesis by (simp add: walked_def entriesRelated_def)
  next
    case (Some y)
    then have y: "wfVal h y" using "4.prems" by (auto simp: list_all_iff dest!: map_of_SomeD)
    show ?thesis
    proof (cases "equalsM h m x y")
      case (Inl e)
      then show ?thesis using 4 Some y by (simp add: walked_def)
    next
      case (Inr p)
      then obtain r m' where p: "equalsM h m x y = Inr (r, m')" by (cases p) auto
      have one: "walked h m (\<lambda>R. R x y) (Inr (r, m'))" using 4 Some y p by simp
      show ?thesis
      proof (cases r)
        case True
        have "walked h m' (\<lambda>R. entriesRelated R d1 d2) (eqEntries h m' d1 d2)"
          using 4 Some p True by simp
        then show ?thesis
          using walked_Cons [of h m x y m' "\<lambda>R. entriesRelated R d1 d2"] one p True Some
          by (auto simp: entriesRelated_def)
      next
        case False
        then show ?thesis using one p Some by (auto simp: entriesRelated_def intro: walked_False)
      qed
    qed
  qed
qed (auto simp: walked_def entriesRelated_def)

lemma equals_decides:
  assumes "wfHeap h" "wfVal h a" "wfVal h b"
  shows "equals h a b = Inr (similar h a b)"
proof -
  from equalsM_walked(1) [OF assms, of "[]"] obtain r m where r: "equalsM h [] a b = Inr (r, m)"
    and res: "if r then memoRel h m a b \<and> grownOk h [] m else \<not> similar h a b"
    by (auto simp: walked_def split: sum.splits prod.splits)
  have "similar h a b" if r
    unfolding similar_def using that res bisimulation_memo by (intro exI [of _ "memoRel h m"]) simp
  then show ?thesis using r res by (auto simp: equals_def split: if_splits)
qed

text \<open>
  C11. Equality decides the greatest bisimulation: on a well-formed heap, cyclic or shared
  values included, \<open>equals\<close> raises nothing and answers true exactly when the two values can be
  related by a relation closed under comparing numbers by value, strings by text, containers
  by identity or part by part, and everything else by identity. The memo that assumes
  repeated pairs equal therefore never changes the answer.
\<close>

theorem equals_correct:
  assumes "wfHeap h" "wfVal h a" "wfVal h b"
  shows "equals h a b = Inr (similar h a b)"
  using assms by (rule equals_decides)

lemma equals_correct_witness:
  "equals [OArray [VArray 1], OArray [VArray 0]] (VArray 0) (VArray 1) = Inr True
   \<and> similar [OArray [VArray 1], OArray [VArray 0]] (VArray 0) (VArray 1)"
proof -
  let ?h = "[OArray [VArray 1], OArray [VArray 0]]"
  have "equals ?h (VArray 0) (VArray 1) = Inr True"
    by (simp add: equals_def equalsM.simps equalsHead_def elemsOf_def idPair_def hget_def
        isNumber_def isInteger_def isFloat_def isString_def)
  moreover have "equals ?h (VArray 0) (VArray 1) = Inr (similar ?h (VArray 0) (VArray 1))"
    by (rule equals_correct) (simp_all add: wfHeap_def hget_def)
  ultimately show ?thesis by simp
qed

end
