(* ===== verification/Vm_State.thy ===== *)
theory Vm_State
  imports Ez_Value Bytecode Wrap_Arith
begin

text \<open>
  The state of the virtual machine (\<open>src/vm/BytecodeVM.h\<close>) and the operations every handler
  uses: the operand stack, faults, frames and upvalues.

  The operand stack is a memory of \<open>stackMax\<close> slots and pointers into it are indices. The loop
  of \<open>run\<close> keeps the stack pointer and the instruction pointer in local variables (\<open>top\<close>,
  \<open>ip\<close>) and copies them to the member \<open>this->stackTop\<close> (\<open>mtop\<close>) and to the frame (\<open>fip\<close>) only at
  \<open>SYNC_IP\<close>; both copies are part of the state. Functions are numbered by their place in the table
  \<open>program\<close> (a \<open>shared_ptr<BytecodeFunction>\<close> is such a number), upvalue objects by their
  place in \<open>upvals\<close>. \<open>frames.back()\<close> is the last element of \<open>frames\<close>. Everything here runs
  inside the dispatch loop, where a fault is recorded and never thrown.
\<close>

subsection \<open>State\<close>

record code_unit =
  cuHeader :: fn_header
  cuChunk :: chunk
  cuNested :: "nat list"

record callFrame =
  ffun :: nat
  fip :: nat
  fslots :: nat
  flocalCount :: nat
  fline :: nat
  fsuperCalled :: bool

record tryBlock =
  tbFrame :: nat
  tbCatch :: nat
  tbTop :: nat

text \<open>An upvalue object: \<open>Some i\<close> while it points at stack slot \<open>i\<close>, \<open>None\<close> once closed.\<close>

record upvalueObj =
  upLoc :: "nat option"
  upClosed :: val

record vm =
  mem :: "nat \<Rightarrow> val"
  stackMax :: nat
  mtop :: nat
  top :: nat
  ip :: nat
  frames :: "callFrame list"
  frameUpvalues :: "nat list list"
  upvals :: "upvalueObj list"
  openUpvalues :: "nat list"
  tryStack :: "tryBlock list"
  pendingException :: val
  running :: bool
  isAsyncTask :: bool
  vmHeap :: heap
  program :: "code_unit list"
  globals :: "(string \<times> val) list"
  globalSlots :: "val list"
  maxFrames :: nat
  instructionCount :: nat
  maxInstructions :: nat
  cxxFrameDepth :: nat
  startFrames :: nat
  pushedTasks :: "(val \<times> val list) list"
  printed :: "string list"

text \<open>
  A computation of a handler: it returns, or it stops with a C++ throw or at a point where
  control passes to code outside the model, in either case with the state it left.
\<close>

datatype stop = Thrown cxx_exn | External string | OutOfFuel

type_synonym 'a act = "vm \<Rightarrow> (stop \<times> vm) + ('a \<times> vm)"

definition bnd :: "'a act \<Rightarrow> ('a \<Rightarrow> 'b act) \<Rightarrow> 'b act" where
  "bnd m f s = (case m s of Inl e \<Rightarrow> Inl e | Inr (a, t) \<Rightarrow> f a t)"

definition thn :: "'a act \<Rightarrow> 'b act \<Rightarrow> 'b act" where
  "thn m n = bnd m (\<lambda>_. n)"

definition act_ret :: "'a \<Rightarrow> 'a act" where
  "act_ret a s = Inr (a, s)"

definition act_stop :: "stop \<Rightarrow> 'a act" where
  "act_stop e s = Inl (e, s)"

definition act_upd :: "(vm \<Rightarrow> vm) \<Rightarrow> unit act" where
  "act_upd f s = Inr ((), f s)"

definition act_get :: "vm act" where
  "act_get s = Inr (s, s)"

definition act_lift :: "cxx_exn + 'a \<Rightarrow> 'a act" where
  "act_lift r s = (case r of Inl e \<Rightarrow> Inl (Thrown e, s) | Inr a \<Rightarrow> Inr (a, s))"

lemma bnd_ret [simp]: "bnd (act_ret a) f = f a"
  by (rule ext) (simp add: bnd_def act_ret_def)

lemma bnd_assoc: "bnd (bnd m f) g = bnd m (\<lambda>a. bnd (f a) g)"
  by (rule ext) (simp add: bnd_def split: sum.splits prod.splits)

text \<open>
  What the machine relies on outside \<open>src/vm\<close>: the functions registered as natives (an error
  message, or a new heap and a result) and \<open>std::pow\<close>.
\<close>

record vm_env =
  nativeFn :: "string \<Rightarrow> val list \<Rightarrow> heap \<Rightarrow> string + (heap \<times> val)"
  powFn :: "dbl \<Rightarrow> dbl \<Rightarrow> dbl"

subsection \<open>Faults\<close>

text \<open>
  \<open>runtimeError\<close> inside the dispatch: the first message becomes the pending exception and
  \<open>running\<close> is cleared; the report it prints when no handler exists is not modelled.
\<close>

definition runtimeError :: "string \<Rightarrow> vm \<Rightarrow> vm" where
  "runtimeError msg s = s\<lparr>
     pendingException := (if pendingException s = VNil then mkString msg else pendingException s),
     running := False\<rparr>"

text \<open>\<open>throwException\<close>: an instance of the named class, when the globals hold that class.\<close>

definition getGlobal :: "vm \<Rightarrow> string \<Rightarrow> val" where
  "getGlobal s name = (case map_of (globals s) name of Some v \<Rightarrow> v | None \<Rightarrow> VNil)"

definition throwException :: "string \<Rightarrow> string \<Rightarrow> vm \<Rightarrow> vm" where
  "throwException cls msg s = (case getGlobal s cls of
       VClass c \<Rightarrow>
         (case halloc (vmHeap s) (OInstance c [(''message'', mkString msg)]) of (h, a) \<Rightarrow>
           let s' = s\<lparr>vmHeap := h,
                 pendingException := (if pendingException s = VNil then VInstance a else pendingException s)\<rparr> in
           if tryStack s' = [] \<and> \<not> isAsyncTask s' then runtimeError msg s'
           else s'\<lparr>running := False\<rparr>)
     | _ \<Rightarrow> runtimeError msg s)"

definition fault :: "string \<Rightarrow> unit act" where
  "fault msg = act_upd (runtimeError msg)"

definition raise :: "string \<Rightarrow> string \<Rightarrow> unit act" where
  "raise cls msg = act_upd (throwException cls msg)"

subsection \<open>Operand stack\<close>

text \<open>
  \<open>push\<close>, \<open>pop\<close> and \<open>peek\<close> work on the member pointer; the first two check their bounds and a
  popped slot is reset.
\<close>

definition badStack :: stop where
  "badStack = Thrown (Undefined ''operand stack accessed out of its bounds'')"

definition push :: "val \<Rightarrow> unit act" where
  "push v s = (if mtop s \<ge> stackMax s
     then Inl (Thrown (CxxRuntimeError ''Stack overflow''), runtimeError ''Stack overflow'' s)
     else Inr ((), s\<lparr>mem := (mem s)(mtop s := v), mtop := mtop s + 1\<rparr>))"

definition pop :: "val act" where
  "pop s = (if mtop s = 0
     then Inl (Thrown (CxxRuntimeError ''Stack underflow''), runtimeError ''Stack underflow'' s)
     else Inr (mem s (mtop s - 1), s\<lparr>mem := (mem s)(mtop s - 1 := VNil), mtop := mtop s - 1\<rparr>))"

definition peek :: "nat \<Rightarrow> val act" where
  "peek d s = (if d < mtop s then Inr (mem s (mtop s - 1 - d), s) else Inl (badStack, s))"

text \<open>The handlers' own accesses through the local pointer are unchecked.\<close>

definition rawPush :: "val \<Rightarrow> unit act" where
  "rawPush v s = (if top s < stackMax s
     then Inr ((), s\<lparr>mem := (mem s)(top s := v), top := top s + 1\<rparr>) else Inl (badStack, s))"

definition rawPop :: "val act" where
  "rawPop s = (if top s = 0 then Inl (badStack, s)
     else Inr (mem s (top s - 1), s\<lparr>top := top s - 1\<rparr>))"

definition rawPeek :: "nat \<Rightarrow> val act" where
  "rawPeek d s = (if d < top s then Inr (mem s (top s - 1 - d), s) else Inl (badStack, s))"

definition getSlot :: "nat \<Rightarrow> val act" where
  "getSlot i s = (if i < stackMax s then Inr (mem s i, s) else Inl (badStack, s))"

definition setSlot :: "nat \<Rightarrow> val \<Rightarrow> unit act" where
  "setSlot i v s = (if i < stackMax s then Inr ((), s\<lparr>mem := (mem s)(i := v)\<rparr>) else Inl (badStack, s))"

text \<open>\<open>clearStackSlots\<close>.\<close>

definition clearSlots :: "nat \<Rightarrow> nat \<Rightarrow> vm \<Rightarrow> vm" where
  "clearSlots lo hi s = s\<lparr>mem := (\<lambda>i. if lo \<le> i \<and> i < hi then VNil else mem s i)\<rparr>"

definition hasStackHeadroom :: "nat \<Rightarrow> vm \<Rightarrow> bool" where
  "hasStackHeadroom extra s \<longleftrightarrow> mtop s + extra \<le> stackMax s"

definition stackHeadroom :: nat where
  "stackHeadroom = 1024"

subsection \<open>Upvalues\<close>

definition upAt :: "vm \<Rightarrow> nat \<Rightarrow> upvalueObj" where
  "upAt s u = upvals s ! u"

definition upPos :: "vm \<Rightarrow> nat \<Rightarrow> nat" where
  "upPos s u = (case upLoc (upAt s u) of Some i \<Rightarrow> i | None \<Rightarrow> 0)"

text \<open>\<open>captureUpvalue\<close>: the open list is kept sorted, highest slot first.\<close>

definition captureUpvalue :: "nat \<Rightarrow> vm \<Rightarrow> nat \<times> vm" where
  "captureUpvalue local s =
     (let above = takeWhile (\<lambda>u. upPos s u > local) (openUpvalues s);
          rest = dropWhile (\<lambda>u. upPos s u > local) (openUpvalues s);
          fresh = length (upvals s);
          new = s\<lparr>upvals := upvals s @ [\<lparr>upLoc = Some local, upClosed = VNil\<rparr>],
                  openUpvalues := above @ fresh # rest\<rparr>
      in case rest of
           u # us \<Rightarrow> if upPos s u = local then (u, s) else (fresh, new)
         | [] \<Rightarrow> (fresh, new))"

text \<open>\<open>closeUpvalues\<close>: every open upvalue at or above the slot takes its value along.\<close>

definition closeOne :: "nat \<Rightarrow> vm \<Rightarrow> vm" where
  "closeOne u s = s\<lparr>upvals := (upvals s)[u := \<lparr>upLoc = None, upClosed = mem s (upPos s u)\<rparr>]\<rparr>"

fun closeLoop :: "nat \<Rightarrow> nat list \<Rightarrow> vm \<Rightarrow> vm" where
  "closeLoop lo [] s = s\<lparr>openUpvalues := []\<rparr>"
| "closeLoop lo (u # us) s =
     (if upPos s u \<ge> lo then closeLoop lo us (closeOne u s) else s\<lparr>openUpvalues := u # us\<rparr>)"

definition closeUpvalues :: "nat \<Rightarrow> vm \<Rightarrow> vm" where
  "closeUpvalues lo s = closeLoop lo (openUpvalues s) s"

subsection \<open>Frames\<close>

definition curFrame :: "vm \<Rightarrow> callFrame" where
  "curFrame s = last (frames s)"

definition updFrame :: "(callFrame \<Rightarrow> callFrame) \<Rightarrow> vm \<Rightarrow> vm" where
  "updFrame f s = (if frames s = [] then s else s\<lparr>frames := butlast (frames s) @ [f (curFrame s)]\<rparr>)"

text \<open>The macros \<open>SYNC_IP\<close> and \<open>LOAD_FRAME\<close>.\<close>

definition syncIp :: "vm \<Rightarrow> vm" where
  "syncIp s = updFrame (\<lambda>f. f\<lparr>fip := ip s\<rparr>) (s\<lparr>mtop := top s\<rparr>)"

definition loadFrame :: "vm \<Rightarrow> vm" where
  "loadFrame s = s\<lparr>ip := fip (curFrame s), top := mtop s\<rparr>"

definition unitOf :: "vm \<Rightarrow> nat \<Rightarrow> code_unit" where
  "unitOf s f = program s ! f"

definition curUnit :: "vm \<Rightarrow> code_unit" where
  "curUnit s = unitOf s (ffun (curFrame s))"

text \<open>\<open>Chunk::resolveConstants\<close>.\<close>

fun resolveConstant :: "const_val \<Rightarrow> val" where
  "resolveConstant CNil = VNil"
| "resolveConstant (CBool b) = VBool b"
| "resolveConstant (CInt i) = VInteger i"
| "resolveConstant (CDouble d) = VNumber d"
| "resolveConstant (CString t) = mkString t"
| "resolveConstant CFunction = VNil"
| "resolveConstant CModel = VNil"
| "resolveConstant (CArray _) = VNil"

definition resolvedConstants :: "chunk \<Rightarrow> val list" where
  "resolvedConstants c = map resolveConstant (constants c)"

text \<open>
  \<open>pushCallFrame\<close>: the depth limit, the headroom, nil for missing parameters, and nil for the
  remaining local slots.
\<close>

definition maxDepthMessage :: "nat \<Rightarrow> string" where
  "maxDepthMessage n = ''maximum call depth of '' @ showNat n @ '' exceeded'' @ [CHR 0x0A] @
     ''  Hint: usually a recursive task with no base case, or one whose'' @ [CHR 0x0A] @
     ''  base case is never reached.''"

definition enterFrame :: "nat \<Rightarrow> nat \<Rightarrow> nat list \<Rightarrow> vm \<Rightarrow> vm" where
  "enterFrame f argCount cs s =
     (let hd = cuHeader (unitOf s f);
          args = max argCount (fnArity hd);
          slots = mtop s - argCount;
          newTop = slots + max args (fnLocalCount hd);
          s' = clearSlots (mtop s) newTop s
      in s'\<lparr>mtop := newTop,
           frames := frames s @ [\<lparr>ffun = f, fip = 0, fslots = slots,
             flocalCount = fnLocalCount hd, fline = 0, fsuperCalled = False\<rparr>],
           frameUpvalues := frameUpvalues s @ [cs]\<rparr>)"

text \<open>The counter of the padding loop is a byte: past 255 parameters the loop has no end.\<close>

definition pushCallFrame :: "nat \<Rightarrow> nat \<Rightarrow> nat list \<Rightarrow> unit act" where
  "pushCallFrame f argCount cs s =
     (if length (frames s) \<ge> maxFrames s
        then Inr ((), throwException ''RecursionError'' (maxDepthMessage (maxFrames s)) s)
      else if \<not> hasStackHeadroom (fnLocalCount (cuHeader (unitOf s f)) + stackHeadroom) s
        then Inr ((), runtimeError ''Stack overflow: operand stack exhausted'' s)
      else if fnArity (cuHeader (unitOf s f)) > 255 then Inl (Thrown (Undefined ''argument counter wraps''), s)
      else Inr ((), enterFrame f argCount cs s))"

text \<open>\<open>checkBounds\<close>.\<close>

definition boundsMessage :: "i64 \<Rightarrow> nat \<Rightarrow> string \<Rightarrow> string" where
  "boundsMessage i n what =
     what @ '' index '' @ showInt (sint i) @ '' is out of range'' @
     (if n = 0 then '': it is empty''
      else '': valid indices are 0 to '' @ showNat (n - 1) @ '' (length '' @ showNat n @ '')'') @
     (if sint i < 0 then [CHR 0x0A] @
        ''  Hint: EZ has no negative indexing -- use x[len(x) - 1] for the last element.''
      else '''')"

definition inBounds :: "i64 \<Rightarrow> nat \<Rightarrow> bool" where
  "inBounds i n \<longleftrightarrow> 0 \<le> sint i \<and> sint i < int n"

subsection \<open>Instances\<close>

text \<open>\<open>EZClass\<close> lookup along the parents, and \<open>EZInstance::getProperty\<close>.\<close>

fun findMethod :: "nat \<Rightarrow> heap \<Rightarrow> addr \<Rightarrow> string \<Rightarrow> val option" where
  "findMethod 0 h c name = None"
| "findMethod (Suc n) h c name = (case hget h c of
      OClass _ parent methods \<Rightarrow>
        (case map_of methods name of
           Some m \<Rightarrow> Some m
         | None \<Rightarrow> (case parent of Some p \<Rightarrow> findMethod n h p name | None \<Rightarrow> None))
    | _ \<Rightarrow> None)"

fun getProperty :: "heap \<Rightarrow> val \<Rightarrow> string \<Rightarrow> val" where
  "getProperty h (VInstance a) name = (case hget h a of
      OInstance c props \<Rightarrow>
        if name = ''__class__'' then VClass c
        else (case map_of props name of
           Some v \<Rightarrow> v
         | None \<Rightarrow> (case findMethod (length h) h c name of Some m \<Rightarrow> m | None \<Rightarrow> VNil))
    | _ \<Rightarrow> VNil)"
| "getProperty h v name = VNil"

fun isCallable :: "val \<Rightarrow> bool" where
  "isCallable (VFunction _) = True"
| "isCallable (VNativeFunction _) = True"
| "isCallable (VClass _) = True"
| "isCallable (VBoundMethod _) = True"
| "isCallable (VClosure _) = True"
| "isCallable _ = False"

end
