(* ===== verification/Vm_Arith.thy ===== *)
theory Vm_Arith
  imports Vm_State Ez_Equals Utf8
begin

text \<open>
  The operators of the machine on values: the \<open>do...\<close> helpers of
  \<open>src/vm/BytecodeVMExecute.cpp\<close>. Each operator is a function of the heap and the operand
  values; the result says what is pushed or which fault is recorded. The last part wraps them
  as operations on the machine.
\<close>

subsection \<open>Results\<close>

datatype opRes =
    Push val
  | PushHeap heap val
  | Stringify
  | Error string
  | Throw string string
  | Exn cxx_exn

definition pushInt :: "i64 \<Rightarrow> opRes" where
  "pushInt i = Push (VInteger i)"

definition pushBool :: "bool \<Rightarrow> opRes" where
  "pushBool b = Push (VBool b)"

definition pushNum :: "dbl \<Rightarrow> opRes" where
  "pushNum d = Push (VNumber d)"

fun onInts :: "(i64 \<Rightarrow> i64 \<Rightarrow> opRes) \<Rightarrow> val \<Rightarrow> val \<Rightarrow> opRes" where
  "onInts f a b = (case asInteger a of
      Inl e \<Rightarrow> Exn e
    | Inr x \<Rightarrow> (case asInteger b of Inl e \<Rightarrow> Exn e | Inr y \<Rightarrow> f x y))"

subsection \<open>Arithmetic\<close>

definition maxStringBytes :: nat where
  "maxStringBytes = 2 ^ 32"

definition concatStrings :: "val \<Rightarrow> val \<Rightarrow> opRes" where
  "concatStrings a b = (case (stringLength a, stringLength b) of
      (Inr la, Inr lb) \<Rightarrow>
        if lb > maxStringBytes \<or> la > maxStringBytes - lb
        then Error ''String concatenation result too large''
        else Push (VConcat a b (la + lb) None)
    | (Inl e, _) \<Rightarrow> Exn e
    | (_, Inl e) \<Rightarrow> Exn e)"

definition opError :: "string \<Rightarrow> string \<Rightarrow> opRes" where
  "opError opn what = Error (CHR 0x27 # opn @ CHR 0x27 # what)"

definition addValues :: "heap \<Rightarrow> val \<Rightarrow> val \<Rightarrow> opRes" where
  "addValues h a b =
     (if isInteger a \<and> isInteger b then onInts (\<lambda>x y. pushInt (wrapAdd x y)) a b
      else if isNumber a \<and> isNumber b then pushNum (dadd (asNumber a) (asNumber b))
      else if isString a \<and> isString b then concatStrings a b
      else if isString a \<or> isString b then Stringify
      else if isArray a \<and> isArray b then
        (case halloc h (OArray (elemsOf h a @ elemsOf h b)) of (h', k) \<Rightarrow> PushHeap h' (VArray k))
      else opError ''+'' '' operands must be numbers, strings, or arrays'')"

definition subValues :: "val \<Rightarrow> val \<Rightarrow> opRes" where
  "subValues a b =
     (if isInteger a \<and> isInteger b then onInts (\<lambda>x y. pushInt (wrapSub x y)) a b
      else if isNumber a \<and> isNumber b then pushNum (dsub (asNumber a) (asNumber b))
      else opError ''-'' '' operands must be numbers'')"

text \<open>Repetition refuses negative counts and results above 64 MiB.\<close>

definition maxRepeatBytes :: int where
  "maxRepeatBytes = 64 * 1024 * 1024"

definition repeatString :: "val \<Rightarrow> i64 \<Rightarrow> opRes" where
  "repeatString a count =
     (if sint count < 0 then Error ''String repeat count must not be negative''
      else case stringLength a of
        Inl e \<Rightarrow> Exn e
      | Inr unit \<Rightarrow>
          if unit > 0 \<and> sint count > maxRepeatBytes div int unit
          then Error ''String repeat result too large''
          else (case asString a of
              Inl e \<Rightarrow> Exn e
            | Inr t \<Rightarrow> Push (mkString (concat (replicate (if unit = 0 then 0 else nat (sint count)) t)))))"

definition mulValues :: "val \<Rightarrow> val \<Rightarrow> opRes" where
  "mulValues a b =
     (if isInteger a \<and> isInteger b then onInts (\<lambda>x y. pushInt (wrapMul x y)) a b
      else if isNumber a \<and> isNumber b then pushNum (dmul (asNumber a) (asNumber b))
      else (case b of
          VInteger count \<Rightarrow>
            if isString a then repeatString a count else opError ''*'' '' operands must be numbers''
        | _ \<Rightarrow> opError ''*'' '' operands must be numbers''))"

text \<open>\<open>%\<close> on \<open>LLONG_MIN\<close> and \<open>-1\<close> is undefined in C++, as is the division.\<close>

definition divInts :: "i64 \<Rightarrow> i64 \<Rightarrow> opRes" where
  "divInts x y =
     (if divIsUB x y then Exn (Undefined ''integer division overflow'')
      else if divIsExact x y then pushInt (cdiv x y)
      else pushNum (ddiv (d_of_i64 x) (d_of_i64 y)))"

definition modInts :: "i64 \<Rightarrow> i64 \<Rightarrow> opRes" where
  "modInts x y =
     (if divIsUB x y then Exn (Undefined ''integer division overflow'') else pushInt (cmod x y))"

definition zeroDivision :: "string \<Rightarrow> opRes" where
  "zeroDivision msg = Throw ''ZeroDivisionError'' msg"

definition divValues :: "val \<Rightarrow> val \<Rightarrow> opRes" where
  "divValues a b =
     (if b = VInteger 0 then zeroDivision ''division by zero''
      else if isFloat b \<and> deq (asNumber b) 0 then zeroDivision ''division by zero''
      else if isInteger a \<and> isInteger b then onInts divInts a b
      else if isNumber a \<and> isNumber b then pushNum (ddiv (asNumber a) (asNumber b))
      else opError ''/'' '' operands must be numbers'')"

definition modValues :: "val \<Rightarrow> val \<Rightarrow> opRes" where
  "modValues a b =
     (if isInteger a \<and> isInteger b then
        (if b = VInteger 0 then zeroDivision ''modulo by zero'' else onInts modInts a b)
      else if isNumber a \<and> isNumber b then pushNum (dfmod (asNumber a) (asNumber b))
      else opError ''%'' '' operands must be numbers'')"

text \<open>Square and multiply, wrapping.\<close>

fun powLoop :: "i64 \<Rightarrow> i64 \<Rightarrow> nat \<Rightarrow> i64" where
  "powLoop res base e =
     (if e = 0 then res
      else powLoop (if e mod 2 = 1 then wrapMul res base else res)
        (if e div 2 > 0 then wrapMul base base else base) (e div 2))"

declare powLoop.simps [simp del]

definition powValues :: "vm_env \<Rightarrow> val \<Rightarrow> val \<Rightarrow> opRes" where
  "powValues env a b =
     (if isInteger a \<and> (case b of VInteger y \<Rightarrow> sint y \<ge> 0 | _ \<Rightarrow> False) then
        onInts (\<lambda>x y. pushInt (powLoop 1 x (nat (sint y)))) a b
      else if isNumber a \<and> isNumber b then pushNum (powFn env (asNumber a) (asNumber b))
      else opError ''**'' '' operands must be numbers'')"

definition negValue :: "val \<Rightarrow> opRes" where
  "negValue a = (case a of
      VInteger x \<Rightarrow> pushInt (wrapNeg x)
    | VNumber d \<Rightarrow> pushNum (dneg d)
    | _ \<Rightarrow> Error ''Negation operand must be a number'')"

subsection \<open>Bits\<close>

definition bitValues :: "string \<Rightarrow> (i64 \<Rightarrow> i64 \<Rightarrow> i64) \<Rightarrow> val \<Rightarrow> val \<Rightarrow> opRes" where
  "bitValues opn f a b =
     (if isNumber a \<and> isNumber b then onInts (\<lambda>x y. pushInt (f x y)) a b
      else opError opn '' operands must be numbers'')"

definition bitAndValues :: "val \<Rightarrow> val \<Rightarrow> opRes" where
  "bitAndValues = bitValues ''&'' (AND)"

definition bitOrValues :: "val \<Rightarrow> val \<Rightarrow> opRes" where
  "bitOrValues = bitValues ''|'' (OR)"

definition bitXorValues :: "val \<Rightarrow> val \<Rightarrow> opRes" where
  "bitXorValues = bitValues ''^'' (XOR)"

definition bitNotValue :: "val \<Rightarrow> opRes" where
  "bitNotValue a =
     (if isNumber a then (case asInteger a of Inl e \<Rightarrow> Exn e | Inr x \<Rightarrow> pushInt (NOT x))
      else opError ''~'' '' operand must be a number'')"

definition shiftValues :: "string \<Rightarrow> (nat \<Rightarrow> i64 \<Rightarrow> i64) \<Rightarrow> val \<Rightarrow> val \<Rightarrow> opRes" where
  "shiftValues opn f a b =
     (if isNumber a \<and> isNumber b then
        (case asInteger b of
           Inl e \<Rightarrow> Exn e
         | Inr y \<Rightarrow>
             if sint y < 0 \<or> sint y > 63
             then Throw ''ValueError'' ''a shift amount must be between 0 and 63''
             else (case asInteger a of Inl e \<Rightarrow> Exn e | Inr x \<Rightarrow> pushInt (f (nat (sint y)) x)))
      else opError opn '' operands must be numbers'')"

definition shiftLeftValues :: "val \<Rightarrow> val \<Rightarrow> opRes" where
  "shiftLeftValues = shiftValues ''<<'' push_bit"

definition shiftRightValues :: "val \<Rightarrow> val \<Rightarrow> opRes" where
  "shiftRightValues = shiftValues ''>>'' signed_drop_bit"

subsection \<open>Comparisons\<close>

definition equalValues :: "heap \<Rightarrow> val \<Rightarrow> val \<Rightarrow> opRes" where
  "equalValues h a b = (case equals h a b of Inl e \<Rightarrow> Exn e | Inr r \<Rightarrow> pushBool r)"

definition notEqualValues :: "heap \<Rightarrow> val \<Rightarrow> val \<Rightarrow> opRes" where
  "notEqualValues h a b = (case equals h a b of Inl e \<Rightarrow> Exn e | Inr r \<Rightarrow> pushBool (\<not> r))"

text \<open>\<open>std::string\<close> compares by unsigned bytes.\<close>

fun strLess :: "string \<Rightarrow> string \<Rightarrow> bool" where
  "strLess s [] = False"
| "strLess [] (y # ys) = True"
| "strLess (x # xs) (y # ys) = (uc x < uc y \<or> x = y \<and> strLess xs ys)"

definition compareValues ::
  "string \<Rightarrow> (i64 \<Rightarrow> i64 \<Rightarrow> bool) \<Rightarrow> (dbl \<Rightarrow> dbl \<Rightarrow> bool) \<Rightarrow> (string \<Rightarrow> string \<Rightarrow> bool)
     \<Rightarrow> val \<Rightarrow> val \<Rightarrow> opRes" where
  "compareValues opn fi fd fs a b =
     (if isInteger a \<and> isInteger b then onInts (\<lambda>x y. pushBool (fi x y)) a b
      else if isNumber a \<and> isNumber b then pushBool (fd (asNumber a) (asNumber b))
      else if isString a \<and> isString b then
        (case (asString a, asString b) of
           (Inr x, Inr y) \<Rightarrow> pushBool (fs x y)
         | (Inl e, _) \<Rightarrow> Exn e
         | (_, Inl e) \<Rightarrow> Exn e)
      else opError opn '' operands must be numbers or strings'')"

definition lessValues :: "val \<Rightarrow> val \<Rightarrow> opRes" where
  "lessValues = compareValues ''<'' (\<lambda>x y. x <s y) dlt strLess"

definition lessEqValues :: "val \<Rightarrow> val \<Rightarrow> opRes" where
  "lessEqValues = compareValues ''<='' (\<lambda>x y. x \<le>s y) dle (\<lambda>x y. \<not> strLess y x)"

definition greaterValues :: "val \<Rightarrow> val \<Rightarrow> opRes" where
  "greaterValues = compareValues ''>'' (\<lambda>x y. y <s x) (\<lambda>x y. dlt y x) (\<lambda>x y. strLess y x)"

definition greaterEqValues :: "val \<Rightarrow> val \<Rightarrow> opRes" where
  "greaterEqValues = compareValues ''>='' (\<lambda>x y. y \<le>s x) (\<lambda>x y. dle y x) (\<lambda>x y. \<not> strLess x y)"

definition notValue :: "val \<Rightarrow> opRes" where
  "notValue a = pushBool (\<not> isTruthy a)"

subsection \<open>Indexing\<close>

definition boundsError :: "i64 \<Rightarrow> nat \<Rightarrow> string \<Rightarrow> opRes" where
  "boundsError i n what = Throw ''IndexError'' (boundsMessage i n what)"

text \<open>A checked element access; \<open>asInteger\<close> of a float index may be undefined.\<close>

definition atIndex :: "val \<Rightarrow> nat \<Rightarrow> string \<Rightarrow> (nat \<Rightarrow> opRes) \<Rightarrow> opRes" where
  "atIndex idx n what f = (case asInteger idx of
      Inl e \<Rightarrow> Exn e
    | Inr i \<Rightarrow> if inBounds i n then f (nat (sint i)) else boundsError i n what)"

definition charAt :: "string \<Rightarrow> nat \<Rightarrow> string" where
  "charAt s i =
     (let off = charOffsetToByteOffset s i;
          n = seqLen (s ! off)
      in substr s off (if validAt s off n then n else 1))"

fun dictGet :: "(string \<times> val) list \<Rightarrow> string \<Rightarrow> val" where
  "dictGet kvs k = (case map_of kvs k of Some v \<Rightarrow> v | None \<Rightarrow> VNil)"

fun dictSet :: "(string \<times> val) list \<Rightarrow> string \<Rightarrow> val \<Rightarrow> (string \<times> val) list" where
  "dictSet [] k v = [(k, v)]"
| "dictSet ((k', v') # kvs) k v = (if k' = k then (k, v) # kvs else (k', v') # dictSet kvs k v)"

definition isKey :: "val \<Rightarrow> bool" where
  "isKey v \<longleftrightarrow> isString v \<or> isNumber v \<or> isBool v"

definition keyError :: "val \<Rightarrow> string" where
  "keyError idx = ''Dictionary key must be a string, number, or bool, got '' @ typeName idx"

definition indexTypeError :: "val \<Rightarrow> opRes" where
  "indexTypeError idx =
     Throw ''TypeError'' (''an array index must be a number, got a '' @ typeName idx @ '' value'')"

definition isSequence :: "val \<Rightarrow> bool" where
  "isSequence obj \<longleftrightarrow> isString obj \<or> (case obj of VArray _ \<Rightarrow> True | VTuple _ \<Rightarrow> True | VBuffer _ \<Rightarrow> True | _ \<Rightarrow> False)"

definition notIndexable :: "val \<Rightarrow> opRes" where
  "notIndexable obj = Throw ''TypeError'' (''a '' @ typeName obj @ '' value cannot be indexed'' @ [CHR 0x0A] @
     ''  Hint: [] works on arrays, dictionaries, strings and buffers.'')"

definition indexGet :: "heap \<Rightarrow> val \<Rightarrow> val \<Rightarrow> opRes" where
  "indexGet h obj idx =
     (if isSequence obj \<and> \<not> isNumber idx then indexTypeError idx
      else if isString obj then
        (case asString obj of
           Inl e \<Rightarrow> Exn e
         | Inr s \<Rightarrow> atIndex idx (lengthChars s) ''string'' (\<lambda>i. Push (mkString (charAt s i))))
      else (case obj of
          VArray a \<Rightarrow> atIndex idx (length (elements (hget h a))) ''array'' (\<lambda>i. Push (elements (hget h a) ! i))
        | VTuple a \<Rightarrow> atIndex idx (length (elements (hget h a))) ''tuple'' (\<lambda>i. Push (elements (hget h a) ! i))
        | VDictionary a \<Rightarrow>
            if \<not> isKey idx then Throw ''TypeError'' (keyError idx)
            else (case toString h idx of
                Inl e \<Rightarrow> Exn e
              | Inr k \<Rightarrow> Push (dictGet (dictMap (hget h a)) k))
        | VBuffer a \<Rightarrow> atIndex idx (length (bytesOf (hget h a))) ''buffer''
            (\<lambda>i. pushInt (ucast (bytesOf (hget h a) ! i)))
        | _ \<Rightarrow> notIndexable obj))"

text \<open>Assigning past the end of an array grows it with nils, up to 64 Mi elements.\<close>

definition maxGrow :: int where
  "maxGrow = 64 * 1024 * 1024"

definition growSet :: "val list \<Rightarrow> nat \<Rightarrow> val \<Rightarrow> val list" where
  "growSet xs i v = (xs @ replicate (i + 1 - length xs) VNil)[i := v]"

definition hset :: "heap \<Rightarrow> addr \<Rightarrow> obj \<Rightarrow> heap" where
  "hset h a x = h[a := x]"

definition indexSet :: "heap \<Rightarrow> val \<Rightarrow> val \<Rightarrow> val \<Rightarrow> opRes" where
  "indexSet h obj idx v =
     (case obj of
        VArray a \<Rightarrow>
          if \<not> isNumber idx then indexTypeError idx
          else (case asInteger idx of
              Inl e \<Rightarrow> Exn e
            | Inr i \<Rightarrow>
                if sint i < 0 then Error ''Array index out of bounds''
                else if sint i \<ge> maxGrow then Error ''Array index too large''
                else PushHeap (hset h a (OArray (growSet (elements (hget h a)) (nat (sint i)) v))) v)
      | VDictionary a \<Rightarrow>
          if \<not> isKey idx then Error (keyError idx)
          else (case toString h idx of
              Inl e \<Rightarrow> Exn e
            | Inr k \<Rightarrow> PushHeap (hset h a (ODict (dictSet (dictMap (hget h a)) k v))) v)
      | VBuffer a \<Rightarrow>
          if \<not> isNumber idx then indexTypeError idx
          else atIndex idx (length (bytesOf (hget h a))) ''buffer'' (\<lambda>i.
            if \<not> isNumber v then Error (''Buffer value must be a number, got '' @ typeName v)
            else (case asInteger v of
                Inl e \<Rightarrow> Exn e
              | Inr x \<Rightarrow> PushHeap (hset h a (OBuffer ((bytesOf (hget h a))[i := ucast x]))) v))
      | _ \<Rightarrow> Error (''Cannot set index on '' @ typeName obj))"

subsection \<open>The helpers on the machine\<close>

text \<open>
  \<open>callF\<close> is the re-entrant call of an EZ function (\<open>callFunction\<close>); \<open>stringify\<close> uses it for an
  instance with a \<open>toString\<close> method, passing the instance unless the method is a property.
\<close>

type_synonym reenter = "val \<Rightarrow> val list \<Rightarrow> val act"

fun hasProperty :: "heap \<Rightarrow> val \<Rightarrow> string \<Rightarrow> bool" where
  "hasProperty h (VInstance a) name = (case hget h a of
      OInstance c props \<Rightarrow> name \<in> fst ` set props | _ \<Rightarrow> False)"
| "hasProperty h v name = False"

definition textValue :: "val \<Rightarrow> string act" where
  "textValue v s = act_lift (toString (vmHeap s) v) s"

definition stringify :: "reenter \<Rightarrow> val \<Rightarrow> string act" where
  "stringify callF v s =
     (let m = getProperty (vmHeap s) v ''toString'' in
      if isCallable m
      then bnd (callF m (if hasProperty (vmHeap s) v ''toString'' then [] else [v])) textValue s
      else textValue v s)"

definition deliver :: "reenter \<Rightarrow> val \<Rightarrow> val \<Rightarrow> opRes \<Rightarrow> unit act" where
  "deliver callF a b r = (case r of
      Push v \<Rightarrow> push v
    | PushHeap h v \<Rightarrow> bnd (act_upd (\<lambda>s. s\<lparr>vmHeap := h\<rparr>)) (\<lambda>_. push v)
    | Stringify \<Rightarrow> bnd (stringify callF a) (\<lambda>x.
        bnd (stringify callF b) (\<lambda>y. push (mkString (x @ y))))
    | Error msg \<Rightarrow> fault msg
    | Throw cls msg \<Rightarrow> raise cls msg
    | Exn e \<Rightarrow> act_stop (Thrown e))"

definition binaryOp :: "reenter \<Rightarrow> (heap \<Rightarrow> val \<Rightarrow> val \<Rightarrow> opRes) \<Rightarrow> unit act" where
  "binaryOp callF f = bnd pop (\<lambda>b. bnd pop (\<lambda>a. \<lambda>s. deliver callF a b (f (vmHeap s) a b) s))"

definition unaryOp :: "reenter \<Rightarrow> (val \<Rightarrow> opRes) \<Rightarrow> unit act" where
  "unaryOp callF f = bnd pop (\<lambda>a. deliver callF a a (f a))"

definition doAdd :: "reenter \<Rightarrow> unit act" where
  "doAdd callF = binaryOp callF addValues"

definition doSubtract :: "reenter \<Rightarrow> unit act" where
  "doSubtract callF = binaryOp callF (\<lambda>h. subValues)"

definition doMultiply :: "reenter \<Rightarrow> unit act" where
  "doMultiply callF = binaryOp callF (\<lambda>h. mulValues)"

definition doDivide :: "reenter \<Rightarrow> unit act" where
  "doDivide callF = binaryOp callF (\<lambda>h. divValues)"

definition doModulo :: "reenter \<Rightarrow> unit act" where
  "doModulo callF = binaryOp callF (\<lambda>h. modValues)"

definition doPower :: "vm_env \<Rightarrow> reenter \<Rightarrow> unit act" where
  "doPower env callF = binaryOp callF (\<lambda>h. powValues env)"

definition doNegate :: "reenter \<Rightarrow> unit act" where
  "doNegate callF = unaryOp callF negValue"

definition doIndexGet :: "reenter \<Rightarrow> unit act" where
  "doIndexGet callF = binaryOp callF indexGet"

definition doIndexSet :: "reenter \<Rightarrow> unit act" where
  "doIndexSet callF = bnd pop (\<lambda>v. bnd pop (\<lambda>idx. bnd pop (\<lambda>obj. \<lambda>s.
     deliver callF obj idx (indexSet (vmHeap s) obj idx v) s)))"

text \<open>
  \<open>guardedHelper\<close>: a C++ exception of the helper becomes a recorded fault; undefined behaviour
  is not an exception and stops the model.
\<close>

fun exnText :: "cxx_exn \<Rightarrow> string" where
  "exnText BadVariantAccess = ''std::get: wrong index for variant''"
| "exnText (OutOfRange m) = m"
| "exnText (InvalidArgument m) = m"
| "exnText (CxxRuntimeError m) = m"
| "exnText (Undefined m) = m"

fun isUB :: "cxx_exn \<Rightarrow> bool" where
  "isUB (Undefined _) = True"
| "isUB _ = False"

definition guardedHelper :: "unit act \<Rightarrow> unit act" where
  "guardedHelper m s = (case m s of
      Inl (Thrown e, t) \<Rightarrow>
        if isUB e then Inl (Thrown e, t)
        else Inr ((), t\<lparr>pendingException := (if pendingException t = VNil then mkString (exnText e) else pendingException t),
                        running := False\<rparr>)
    | r \<Rightarrow> r)"

end
