(* ===== verification/Vm_Call.thy ===== *)
theory Vm_Call
  imports Vm_Arith
begin

text \<open>
  Calls and unwinding, from \<open>src/vm/BytecodeVMExecute.cpp\<close>: \<open>dispatchCall\<close> for natives, bound
  methods, closures and models, the return of a frame, tail calls, and the delivery of a fault to
  the handler that owns it. The innermost try block is the head of \<open>tryStack\<close>.
\<close>

subsection \<open>Unwinding\<close>

definition ownsTryBlock :: "vm \<Rightarrow> bool" where
  "ownsTryBlock s = (case tryStack s of [] \<Rightarrow> False | tb # _ \<Rightarrow> tbFrame tb + 1 \<ge> startFrames s)"

definition popFrame :: "vm \<Rightarrow> vm" where
  "popFrame s = s\<lparr>frames := butlast (frames s), frameUpvalues := butlast (frameUpvalues s)\<rparr>"

text \<open>The frames above the handler's go, their captured locals are closed first.\<close>

function unwindFrames :: "nat \<Rightarrow> vm \<Rightarrow> vm" where
  "unwindFrames idx s =
     (if length (frames s) > idx + 1
      then unwindFrames idx (popFrame (closeUpvalues (fslots (curFrame s)) s)) else s)"
  by pat_completeness auto

lemma frames_closeLoop [simp]: "frames (closeLoop lo us s) = frames s"
  by (induction lo us s rule: closeLoop.induct) (simp_all add: closeOne_def)

lemma frames_closeUpvalues [simp]: "frames (closeUpvalues lo s) = frames s"
  by (simp add: closeUpvalues_def)

termination unwindFrames
  by (relation "measure (\<lambda>(idx, s). length (frames s))") (auto simp: popFrame_def)

declare unwindFrames.simps [simp del]

text \<open>
  Entering a handler. The assignment of the try block's stack pointer precedes \<open>LOAD_FRAME\<close>,
  which reloads the local pointer from the member.
\<close>

definition enterHandler :: "tryBlock \<Rightarrow> val \<Rightarrow> unit act" where
  "enterHandler tb exc s =
     (let s1 = unwindFrames (tbFrame tb) (s\<lparr>tryStack := tl (tryStack s)\<rparr>);
          s2 = loadFrame (s1\<lparr>top := tbTop tb\<rparr>)
      in rawPush exc (s2\<lparr>ip := tbCatch tb\<rparr>))"

text \<open>What a handler of the loop asks for: the next dispatch, the fault label, or a return.\<close>

datatype flow = FNext | FFault | FReturn

definition next_op :: "unit act \<Rightarrow> flow act" where
  "next_op m = thn m (act_ret FNext)"

text \<open>The label \<open>handle_vm_fault\<close>.\<close>

definition handleFault :: "flow act" where
  "handleFault s =
     (if pendingException s = VNil then Inr (FNext, s\<lparr>running := True\<rparr>)
      else if ownsTryBlock s then
        thn (enterHandler (hd (tryStack s)) (pendingException s))
          (thn (act_upd (\<lambda>t. t\<lparr>pendingException := VNil\<rparr>)) (act_ret FNext)) (s\<lparr>running := True\<rparr>)
      else Inr (FReturn, syncIp s))"

subsection \<open>Calls\<close>

text \<open>\<open>calleeNameAtCallSite\<close>: the pointer just past the call, when a call opcode made it.\<close>

definition calleeNameAtCallSite :: "nat option \<Rightarrow> vm \<Rightarrow> string" where
  "calleeNameAtCallSite site s = (case site of
      None \<Rightarrow> []
    | Some p \<Rightarrow>
        let u = curUnit s in
        if frames s = [] \<or> fnCallSites (cuHeader u) = [] \<or> code (cuChunk u) = []
          \<or> p > length (code (cuChunk u)) then []
        else (case calleeNameAt (fnCallSites (cuHeader u)) (word_of_nat p) of
            Some name \<Rightarrow> name | None \<Rightarrow> []))"

definition notCallable :: "val \<Rightarrow> string \<Rightarrow> string" where
  "notCallable callee what =
     (if what = [] then ''cannot call a '' @ typeName callee @ '' value''
      else if callee = VNil then
        sq what @ '' is nil, so it cannot be called'' @
        (if CHR ''.'' \<in> set what
         then [CHR 0x0A] @ ''  Hint: check the spelling, and that the object has that method.''
         else [CHR 0x0A] @ ''  Hint: '' @ sq what @
           '' is not defined, or was assigned a non-function value that replaced it.'')
      else sq what @ '' is a '' @ typeName callee @ '', not a function'')"

text \<open>The arity test of a bytecode function, with the signature it reports.\<close>

definition minArity :: "fn_header \<Rightarrow> nat" where
  "minArity fh = fnArity fh - fnDefaults fh"

definition signature :: "fn_header \<Rightarrow> string" where
  "signature fh =
     (let start = (if fnMethod fh then 1 else 0);
          item = (\<lambda>i. (if i > start then '', '' else []) @ fnParams fh ! i @
                   (if i \<ge> fnArity fh - fnDefaults fh then '' = ...'' else []))
      in fnName fh @ ''('' @ concat (map item [start ..< length (fnParams fh)]) @ '')'')"

definition arityMessage :: "fn_header \<Rightarrow> string \<Rightarrow> nat \<Rightarrow> nat \<Rightarrow> string" where
  "arityMessage fh verb wanted got =
     sq (fnName fh) @ verb @ showNat wanted @ (if wanted = 1 then '' argument'' else '' arguments'') @
     '', got '' @ showNat got @
     (if fnParams fh = [] then [] else [CHR 0x0A] @ ''  Signature: '' @ signature fh)"

definition withoutSelf :: "fn_header \<Rightarrow> nat \<Rightarrow> nat" where
  "withoutSelf fh n = (if fnMethod fh \<and> n > 0 then n - 1 else n)"

definition arityError :: "fn_header \<Rightarrow> nat \<Rightarrow> string option" where
  "arityError fh argc =
     (if argc < minArity fh
      then Some (arityMessage fh '' needs '' (withoutSelf fh (minArity fh)) (withoutSelf fh argc))
      else if argc > fnArity fh
      then Some (arityMessage fh '' takes at most '' (withoutSelf fh (fnArity fh)) (withoutSelf fh argc))
      else None)"

definition argsOnStack :: "nat \<Rightarrow> vm \<Rightarrow> val list" where
  "argsOnStack argc s = map (mem s) [mtop s - argc ..< mtop s]"

text \<open>The rest parameter: the surplus arguments move into a fresh array.\<close>

definition gatherRest :: "fn_header \<Rightarrow> nat \<Rightarrow> nat act" where
  "gatherRest fh argc s =
     (let rest = fnArity fh - 1;
          extra = (if argc \<ge> fnArity fh then drop rest (argsOnStack argc s) else []);
          kept = (if argc \<ge> fnArity fh then rest else argc);
          base = mtop s - argc + kept;
          (h, a) = halloc (vmHeap s) (OArray extra);
          newTop = mtop s - argc + max kept rest + 1
      in if newTop > stackMax s then Inl (badStack, s)
         else let t = clearSlots base (newTop - 1) s in
           Inr (max kept rest + 1, t\<lparr>mem := (mem t)(newTop - 1 := VArray a), mtop := newTop, vmHeap := h\<rparr>))"

definition callNative :: "vm_env \<Rightarrow> string \<Rightarrow> int \<Rightarrow> nat \<Rightarrow> bool act" where
  "callNative env name arity argc s =
     (if arity \<ge> 0 \<and> int argc < arity then
        Inr (False, runtimeError (name @ ''() expected '' @ showInt arity @ '' argument(s), got '' @ showNat argc) s)
      else if mtop s < argc + 1 then Inl (badStack, s)
      else (case nativeFn env name (argsOnStack argc s) (vmHeap s) of
          Inl msg \<Rightarrow> Inr (False, runtimeError msg s)
        | Inr (h, v) \<Rightarrow>
            let t = s\<lparr>vmHeap := h\<rparr> in
            if pendingException t \<noteq> VNil then Inr (False, t)
            else thn (push v) (act_ret True)
              (clearSlots (mtop s - (argc + 1)) (mtop s) (t\<lparr>mtop := mtop s - (argc + 1)\<rparr>))))"

text \<open>Entering a frame, or starting a task: an async function leaves a future on the stack.\<close>

definition startTask :: "val \<Rightarrow> nat \<Rightarrow> bool act" where
  "startTask callee argc s =
     (if mtop s < argc + 1 then Inl (badStack, s)
      else let (h, a) = halloc (vmHeap s) OFuture in
        thn (push (VFuture a)) (act_ret False)
          (s\<lparr>pushedTasks := pushedTasks s @ [(callee, argsOnStack argc s)],
             vmHeap := h, mtop := mtop s - (argc + 1)\<rparr>))"

definition enterCall :: "val \<Rightarrow> nat \<Rightarrow> nat list \<Rightarrow> bool \<Rightarrow> nat \<Rightarrow> bool act" where
  "enterCall callee f ups bypassAsync argc s =
     (if fnAsync (cuHeader (unitOf s f)) \<and> \<not> bypassAsync then startTask callee argc s
      else thn (pushCallFrame f argc ups) (act_ret True) s)"

definition callBytecode :: "val \<Rightarrow> nat \<Rightarrow> nat list \<Rightarrow> nat \<Rightarrow> bool \<Rightarrow> bool act" where
  "callBytecode callee f ups argc bypassAsync s =
     (let fh = cuHeader (unitOf s f); enter = enterCall callee f ups bypassAsync in
      if mtop s < argc then Inl (badStack, s)
      else if fnVariadic fh then bnd (gatherRest fh argc) enter s
      else (case arityError fh argc of
          Some msg \<Rightarrow> Inr (False, throwException ''TypeError'' msg s)
        | None \<Rightarrow> enter argc s))"

text \<open>Inserting the receiver below the arguments of a bound method.\<close>

definition insertReceiver :: "val \<Rightarrow> val \<Rightarrow> nat \<Rightarrow> unit act" where
  "insertReceiver method receiver argc s =
     (if mtop s < argc + 2 then Inl (badStack, s)
      else let c = mtop s - argc - 2 in
        Inr ((), s\<lparr>mem := (\<lambda>i. if i = c then method else if i = c + 1 then receiver
              else if c + 1 < i \<and> i < mtop s then mem s (i - 1) else mem s i)\<rparr>))"

text \<open>\<open>instantiate\<close>: the first \<open>init\<close> along the parents runs on the new instance.\<close>

definition instantiate :: "reenter \<Rightarrow> addr \<Rightarrow> val list \<Rightarrow> val act" where
  "instantiate callF c args s =
     (let (h, a) = halloc (vmHeap s) (OInstance c []) in
      case findMethod (length h) h c ''init'' of
        Some init \<Rightarrow> (if init = VNil then Inr (VInstance a, s\<lparr>vmHeap := h\<rparr>)
          else thn (callF init (VInstance a # args)) (act_ret (VInstance a)) (s\<lparr>vmHeap := h\<rparr>))
      | None \<Rightarrow> Inr (VInstance a, s\<lparr>vmHeap := h\<rparr>))"

text \<open>
  \<open>dispatchCall\<close>: \<open>True\<close> when a frame was entered or a result pushed. The counter bounds the
  nesting of bound methods; super objects and uncompiled functions are left to their own code.
\<close>

fun dispatchCall :: "nat \<Rightarrow> vm_env \<Rightarrow> reenter \<Rightarrow> val \<Rightarrow> nat \<Rightarrow> bool \<Rightarrow> nat option \<Rightarrow> bool act" where
  "dispatchCall 0 env callF callee argc bypass site s = Inl (External ''bound method nesting'', s)"
| "dispatchCall (Suc n) env callF callee argc bypass site s =
     (case callee of
        VNativeFunction a \<Rightarrow>
          (case hget (vmHeap s) a of
             ONative name arity \<Rightarrow> callNative env name arity argc s
           | _ \<Rightarrow> Inl (External ''native function'', s))
      | VBoundMethod a \<Rightarrow>
          (case hget (vmHeap s) a of
             OBoundMethod receiver method \<Rightarrow>
               thn (push VNil) (\<lambda>s'.
                 if argc \<ge> 255
                 then Inr (False, runtimeError ''Too many arguments to method call (max 254)'' s')
                 else thn (insertReceiver method receiver argc)
                   (dispatchCall n env callF method (argc + 1) False None) s') s
           | _ \<Rightarrow> Inl (External ''bound method'', s))
      | VClosure a \<Rightarrow>
          (case hget (vmHeap s) a of
             OClosure f ups \<Rightarrow> callBytecode callee f ups argc bypass s
           | _ \<Rightarrow> Inl (External ''closure'', s))
      | VFunction a \<Rightarrow> Inl (External ''compileEZFunction'', s)
      | VSuper a \<Rightarrow> Inl (External ''super'', s)
      | VClass c \<Rightarrow>
          (if mtop s < argc + 1 then Inl (badStack, s)
           else bnd (instantiate callF c (argsOnStack argc s))
             (\<lambda>v. thn (act_upd (\<lambda>t. t\<lparr>mtop := mtop t - (argc + 1)\<rparr>)) (thn (push v) (act_ret True))) s)
      | _ \<Rightarrow> Inr (False, throwException ''TypeError'' (notCallable callee (calleeNameAtCallSite site s)) s))"

definition dispatch_call :: "vm_env \<Rightarrow> reenter \<Rightarrow> val \<Rightarrow> nat \<Rightarrow> nat option \<Rightarrow> bool act" where
  "dispatch_call env callF callee argc site s =
     dispatchCall (length (vmHeap s) + 2) env callF callee argc False site s"

subsection \<open>Returning\<close>

text \<open>\<open>RETURN\<close>: the try blocks of the frame go with it, the result replaces the callee.\<close>

definition dropTryBlocks :: "nat \<Rightarrow> vm \<Rightarrow> vm" where
  "dropTryBlocks frameNo s = s\<lparr>tryStack := dropWhile (\<lambda>tb. tbFrame tb \<ge> frameNo) (tryStack s)\<rparr>"

definition returnOp :: "flow act" where
  "returnOp s =
     (let oldTop = top s in
      bnd rawPop (\<lambda>res s1.
        let base = fslots (curFrame s1);
            s2 = closeUpvalues base (syncIp s1);
            s3 = popFrame (dropTryBlocks (length (frames s2) - 1) s2)
        in if base = 0 then Inl (badStack, s3)
           else if frames s3 = [] \<or> length (frames s3) < startFrames s3 then
             Inr (FReturn, clearSlots base oldTop (s3\<lparr>mem := (mem s3)(base - 1 := res), mtop := base\<rparr>))
           else let s4 = loadFrame s3 in
             Inr (FNext, clearSlots base oldTop (s4\<lparr>mem := (mem s4)(base - 1 := res), top := base\<rparr>))) s)"

text \<open>
  \<open>TAIL_CALL\<close> back into the running function reuses the frame: no arity test, no rest array.
\<close>

definition tailArgs :: "nat \<Rightarrow> nat \<Rightarrow> vm \<Rightarrow> vm" where
  "tailArgs base argc s =
     foldl (\<lambda>t i. t\<lparr>mem := (mem t)(base + i := mem t (top s - argc + i))\<rparr>) s [0 ..< argc]"

definition selfTailCall :: "nat list \<Rightarrow> nat \<Rightarrow> vm \<Rightarrow> vm" where
  "selfTailCall ups argc s =
     (let base = fslots (curFrame s);
          lc = fnLocalCount (cuHeader (curUnit s));
          s1 = closeUpvalues base s;
          s2 = s1\<lparr>frameUpvalues := butlast (frameUpvalues s1) @ [ups]\<rparr>;
          s3 = clearSlots (base + argc) (base + lc) (tailArgs base argc s2)
      in clearSlots (base + lc) (top s) (s3\<lparr>top := base + lc, ip := 0\<rparr>))"

definition callSiteOp :: "vm_env \<Rightarrow> reenter \<Rightarrow> val \<Rightarrow> nat \<Rightarrow> flow act" where
  "callSiteOp env callF callee argc s =
     bnd (\<lambda>t. dispatch_call env callF callee argc (Some (ip s)) t)
       (\<lambda>ok. if ok then next_op (act_upd loadFrame) else next_op (act_upd (\<lambda>t. t\<lparr>top := mtop t\<rparr>)))
       (syncIp s)"

definition tailCallOp :: "vm_env \<Rightarrow> reenter \<Rightarrow> nat \<Rightarrow> flow act" where
  "tailCallOp env callF argc =
     bnd (rawPeek argc) (\<lambda>callee s.
       case callee of
         VClosure a \<Rightarrow>
           (case hget (vmHeap s) a of
              OClosure f ups \<Rightarrow>
                if f = ffun (curFrame s) then Inr (FNext, selfTailCall ups argc s)
                else callSiteOp env callF callee argc s
            | _ \<Rightarrow> Inl (External ''closure'', s))
       | VFunction a \<Rightarrow> Inl (External ''compiledFunctionCache'', s)
       | _ \<Rightarrow> callSiteOp env callF callee argc s)"

text \<open>
  \<open>CALL\<close>: \<open>str(x)\<close> of an instance with a \<open>toString\<close> method and a callable instance come first.
\<close>

definition isStrCall :: "heap \<Rightarrow> val \<Rightarrow> nat \<Rightarrow> bool" where
  "isStrCall h callee argc = (case callee of
      VNativeFunction a \<Rightarrow> argc = 1 \<and> (case hget h a of ONative name _ \<Rightarrow> name = ''str'' | _ \<Rightarrow> False)
    | _ \<Rightarrow> False)"

definition strOfInstance :: "reenter \<Rightarrow> val \<Rightarrow> flow act" where
  "strOfInstance callF arg s =
     (let m = getProperty (vmHeap s) arg ''toString'' in
      bnd (callF m (if hasProperty (vmHeap s) arg ''toString'' then [] else [arg]))
        (\<lambda>r. bnd (textValue r) (\<lambda>txt.
          thn (act_upd loadFrame) (thn rawPop (thn rawPop (thn (rawPush (mkString txt))
            (thn (act_upd (\<lambda>t. t\<lparr>mtop := top t\<rparr>)) (act_ret FNext)))))))
        (syncIp s))"

definition callOp :: "vm_env \<Rightarrow> reenter \<Rightarrow> nat \<Rightarrow> flow act" where
  "callOp env callF argc =
     bnd (rawPeek argc) (\<lambda>callee. bnd (rawPeek 0) (\<lambda>lastArg s.
       let h = vmHeap s;
           m = getProperty h lastArg ''toString'';
           cm = getProperty h callee ''__call__''
       in if isStrCall h callee argc \<and> isCallable m then strOfInstance callF lastArg s
          else if isCallable cm then
            (let (h', b) = halloc h (OBoundMethod callee cm) in
             thn (setSlot (top s - argc - 1) (VBoundMethod b))
               (callSiteOp env callF (VBoundMethod b) argc) (s\<lparr>vmHeap := h'\<rparr>))
          else callSiteOp env callF callee argc s))"

end
