(* ===== verification/Vm_Step.thy ===== *)
theory Vm_Step
  imports Vm_Call Name_Distance
begin

text \<open>
  The dispatch loop \<open>BytecodeVM::run\<close> of \<open>src/vm/BytecodeVMExecute.cpp\<close>: operand decoding, the
  handlers of the instructions, one dispatch, and the loop with a step budget. The handlers
  follow the groups of the instruction set. Property access, iterators, keyword and spread calls,
  interfaces, awaiting and the decorator instructions are not modelled: they stop the machine at
  \<open>External\<close> with their state.
\<close>

subsection \<open>Operands\<close>

definition codeBytes :: "vm \<Rightarrow> byte list" where
  "codeBytes s = code (cuChunk (curUnit s))"

definition readByte :: "nat act" where
  "readByte s = (if frames s \<noteq> [] \<and> ip s < length (codeBytes s)
     then Inr (unat (codeBytes s ! ip s), s\<lparr>ip := ip s + 1\<rparr>)
     else Inl (Thrown (Undefined ''read past the code''), s))"

definition readShort :: "nat act" where
  "readShort = bnd readByte (\<lambda>a. bnd readByte (\<lambda>b. act_ret (256 * a + b)))"

definition readInt :: "nat act" where
  "readInt = bnd readShort (\<lambda>a. bnd readShort (\<lambda>b. act_ret (65536 * a + b)))"

definition jumpBy :: "nat \<Rightarrow> unit act" where
  "jumpBy n = act_upd (\<lambda>s. s\<lparr>ip := ip s + n\<rparr>)"

text \<open>A name operand: the constant must hold a string.\<close>

definition nameAt :: "nat \<Rightarrow> string act" where
  "nameAt idx s = (case getConstant (cuChunk (curUnit s)) idx of
      CString t \<Rightarrow> Inr (t, s) | _ \<Rightarrow> Inl (Thrown BadVariantAccess, s))"

definition readName :: "string act" where
  "readName = bnd readShort nameAt"

definition localPos :: "nat \<Rightarrow> nat act" where
  "localPos slot s = Inr (fslots (curFrame s) + slot, s)"

definition loadSlot :: "nat \<Rightarrow> val act" where
  "loadSlot slot = bnd (localPos slot) getSlot"

definition storeSlot :: "nat \<Rightarrow> val \<Rightarrow> unit act" where
  "storeSlot slot v = bnd (localPos slot) (\<lambda>i. setSlot i v)"

text \<open>A fault raised by a handler: \<open>SYNC_IP\<close>, the report, and \<open>RAISE_FAULT\<close>.\<close>

definition failWith :: "unit act \<Rightarrow> flow act" where
  "failWith m = thn (act_upd syncIp) (thn m (act_ret FFault))"

text \<open>A helper call: the member pointer is set, the helper runs, the local one follows it.\<close>

definition viaHelper :: "unit act \<Rightarrow> flow act" where
  "viaHelper m = thn (act_upd syncIp) (thn (guardedHelper m) (next_op (act_upd loadFrame)))"

subsection \<open>Variables and constants\<close>

definition loadUpvalue :: "nat \<Rightarrow> val act" where
  "loadUpvalue slot s =
     (let ups = last (frameUpvalues s) in
      if slot < length ups
      then Inr (case upLoc (upAt s (ups ! slot)) of
          Some i \<Rightarrow> mem s i | None \<Rightarrow> upClosed (upAt s (ups ! slot)), s)
      else Inr (VNil, s))"

definition storeUpvalue :: "nat \<Rightarrow> val \<Rightarrow> vm \<Rightarrow> vm" where
  "storeUpvalue slot v s =
     (let ups = last (frameUpvalues s) in
      if slot < length ups
      then (case upLoc (upAt s (ups ! slot)) of
          Some i \<Rightarrow> s\<lparr>mem := (mem s)(i := v)\<rparr>
        | None \<Rightarrow> s\<lparr>upvals := (upvals s)[ups ! slot := (upAt s (ups ! slot))\<lparr>upClosed := v\<rparr>]\<rparr>)
      else s)"

fun assocSet :: "string \<Rightarrow> val \<Rightarrow> (string \<times> val) list \<Rightarrow> (string \<times> val) list" where
  "assocSet k v [] = [(k, v)]"
| "assocSet k v ((k', v') # kvs) = (if k' = k then (k, v) # kvs else (k', v') # assocSet k v kvs)"

definition loadConst :: "nat \<Rightarrow> flow act" where
  "loadConst idx s =
     (let cs = resolvedConstants (cuChunk (curUnit s)) in
      if idx \<ge> length cs
      then failWith (fault ''Invalid bytecode: constant index out of range'') s
      else next_op (rawPush (cs ! idx)) s)"

definition loadGlobal :: "string \<Rightarrow> flow act" where
  "loadGlobal name s = (case map_of (globals s) name of
      Some v \<Rightarrow> next_op (rawPush v) s
    | None \<Rightarrow> failWith (fault (''Undefined variable '' @ sq name @
        ezDidYouMean name (map fst (globals s)))) s)"

text \<open>\<open>INC_LOCAL\<close> and \<open>DEC_LOCAL\<close>: plain signed arithmetic on integers.\<close>

definition bumpValue :: "int \<Rightarrow> dbl \<Rightarrow> val \<Rightarrow> cxx_exn + val" where
  "bumpValue di dd v = (case v of
      VInteger i \<Rightarrow>
        if - (2 ^ 63) \<le> sint i + di \<and> sint i + di < 2 ^ 63 then Inr (VInteger (i + word_of_int di))
        else Inl (Undefined ''signed overflow'')
    | VNumber d \<Rightarrow> Inr (VNumber (dadd d dd))
    | _ \<Rightarrow> Inl BadVariantAccess)"

definition bumpLocal :: "int \<Rightarrow> dbl \<Rightarrow> unit act" where
  "bumpLocal di dd = bnd readByte (\<lambda>slot. bnd (loadSlot slot) (\<lambda>v.
     bnd (act_lift (bumpValue di dd v)) (storeSlot slot)))"

definition d_one :: dbl where "d_one = 0x3FF0000000000000"
definition d_minus_one :: dbl where "d_minus_one = 0xBFF0000000000000"

fun handleVar :: "var_op \<Rightarrow> flow act" where
  "handleVar I_LOAD_CONST = bnd readShort loadConst"
| "handleVar I_LOAD_LOCAL = next_op (bnd readByte (\<lambda>slot. bnd (loadSlot slot) rawPush))"
| "handleVar I_STORE_LOCAL = next_op (bnd readByte (\<lambda>slot. bnd (rawPeek 0) (storeSlot slot)))"
| "handleVar I_LOAD_UPVALUE = next_op (bnd readByte (\<lambda>slot. bnd (loadUpvalue slot) rawPush))"
| "handleVar I_STORE_UPVALUE = next_op (bnd readByte (\<lambda>slot. bnd (rawPeek 0) (\<lambda>v. act_upd (storeUpvalue slot v))))"
| "handleVar I_LOAD_GLOBAL = bnd readName loadGlobal"
| "handleVar I_STORE_GLOBAL = next_op (bnd readName (\<lambda>name. bnd (rawPeek 0) (\<lambda>v.
     act_upd (\<lambda>s. s\<lparr>globals := assocSet name v (globals s)\<rparr>))))"
| "handleVar I_LOAD_PROPERTY = act_stop (External ''LOAD_PROPERTY'')"
| "handleVar I_STORE_PROPERTY = act_stop (External ''STORE_PROPERTY'')"
| "handleVar I_POP = next_op (thn rawPop (act_upd (\<lambda>s. s\<lparr>mem := (mem s)(top s := VNil)\<rparr>)))"
| "handleVar I_DUP = next_op (bnd (rawPeek 0) rawPush)"
| "handleVar I_DUP2 = next_op (bnd (rawPeek 0) (\<lambda>b. bnd (rawPeek 1) (\<lambda>a. thn (rawPush a) (rawPush b))))"
| "handleVar I_LOAD_NIL = next_op (rawPush VNil)"
| "handleVar I_LOAD_TRUE = next_op (rawPush (VBool True))"
| "handleVar I_LOAD_FALSE = next_op (rawPush (VBool False))"
| "handleVar I_LOAD_ZERO = next_op (rawPush (VInteger 0))"
| "handleVar I_LOAD_ONE = next_op (rawPush (VInteger 1))"
| "handleVar I_LOAD_EMPTY_STR = next_op (rawPush (VShortString []))"
| "handleVar I_INC_LOCAL = next_op (bumpLocal 1 d_one)"
| "handleVar I_DEC_LOCAL = next_op (bumpLocal (- 1) d_minus_one)"

subsection \<open>Operators\<close>

text \<open>The result of a fast path takes the place of the two operands; a fault leaves them.\<close>

definition replaceTwo :: "opRes \<Rightarrow> flow act" where
  "replaceTwo r = (case r of
      Push v \<Rightarrow> thn rawPop (thn rawPop (next_op (rawPush v)))
    | Throw cls msg \<Rightarrow> failWith (raise cls msg)
    | Exn e \<Rightarrow> act_stop (Thrown e)
    | _ \<Rightarrow> act_stop (External ''fast path''))"

type_synonym fastPath = "val \<Rightarrow> val \<Rightarrow> opRes option"

definition fastNums :: "(i64 \<Rightarrow> i64 \<Rightarrow> opRes) \<Rightarrow> (dbl \<Rightarrow> dbl \<Rightarrow> opRes) \<Rightarrow> fastPath" where
  "fastNums fi fd a b =
     (case (a, b) of
        (VInteger x, VInteger y) \<Rightarrow> Some (fi x y)
      | (VInteger x, VNumber y) \<Rightarrow> Some (fd (d_of_i64 x) y)
      | (VNumber x, VInteger y) \<Rightarrow> Some (fd x (d_of_i64 y))
      | (VNumber x, VNumber y) \<Rightarrow> Some (fd x y)
      | _ \<Rightarrow> None)"

definition fastAdd :: fastPath where
  "fastAdd = fastNums (\<lambda>x y. pushInt (wrapAdd x y)) (\<lambda>x y. pushNum (dadd x y))"

definition fastSub :: fastPath where
  "fastSub = fastNums (\<lambda>x y. pushInt (wrapSub x y)) (\<lambda>x y. pushNum (dsub x y))"

definition fastMul :: fastPath where
  "fastMul = fastNums (\<lambda>x y. pushInt (wrapMul x y)) (\<lambda>x y. pushNum (dmul x y))"

definition fastCompare :: "(i64 \<Rightarrow> i64 \<Rightarrow> bool) \<Rightarrow> (dbl \<Rightarrow> dbl \<Rightarrow> bool) \<Rightarrow> fastPath" where
  "fastCompare fi fd = fastNums (\<lambda>x y. pushBool (fi x y)) (\<lambda>x y. pushBool (fd x y))"

definition fastDiv :: fastPath where
  "fastDiv = fastNums
     (\<lambda>x y. if y = 0 then zeroDivision ''division by zero'' else divInts x y)
     (\<lambda>x y. if deq y 0 then zeroDivision ''division by zero'' else pushNum (ddiv x y))"

definition fastMod :: fastPath where
  "fastMod a b = (case (a, b) of
      (VInteger x, VInteger y) \<Rightarrow>
        Some (if y = 0 then zeroDivision ''modulo by zero'' else modInts x y)
    | _ \<Rightarrow> None)"

definition fastEqual :: "bool \<Rightarrow> fastPath" where
  "fastEqual want a b = (case (a, b) of
      (VInteger x, VInteger y) \<Rightarrow> Some (pushBool ((x = y) = want))
    | (VNumber x, VNumber y) \<Rightarrow> Some (pushBool (deq x y = want))
    | (VBool x, VBool y) \<Rightarrow> Some (pushBool ((x = y) = want))
    | (VNil, VNil) \<Rightarrow> Some (pushBool want)
    | _ \<Rightarrow> None)"

text \<open>
  An callOperator operator: the operand slot becomes a bound method and is called. When the call
  could not be made, \<open>run\<close> is left at once.
\<close>

definition callOperator :: "vm_env \<Rightarrow> reenter \<Rightarrow> val \<Rightarrow> val \<Rightarrow> nat \<Rightarrow> flow act" where
  "callOperator env callF a m argc s =
     (let (h, b) = halloc (vmHeap s) (OBoundMethod a m) in
      thn (setSlot (top s - (argc + 1)) (VBoundMethod b))
        (bnd (dispatch_call env callF (VBoundMethod b) argc None) (\<lambda>ok.
          if ok then next_op (act_upd loadFrame) else act_ret FReturn))
        (syncIp (s\<lparr>vmHeap := h\<rparr>)))"

definition binaryHandler :: "vm_env \<Rightarrow> reenter \<Rightarrow> fastPath \<Rightarrow> string \<Rightarrow> unit act \<Rightarrow> flow act" where
  "binaryHandler env callF fast name helper =
     bnd (rawPeek 0) (\<lambda>b. bnd (rawPeek 1) (\<lambda>a s.
       case fast a b of
         Some r \<Rightarrow> replaceTwo r s
       | None \<Rightarrow>
           let m = getProperty (vmHeap s) a name in
           if isCallable m then callOperator env callF a m 1 s else viaHelper helper s))"

definition compareHandler ::
  "vm_env \<Rightarrow> reenter \<Rightarrow> string \<Rightarrow> (i64 \<Rightarrow> i64 \<Rightarrow> bool) \<Rightarrow> (dbl \<Rightarrow> dbl \<Rightarrow> bool) \<Rightarrow> (val \<Rightarrow> val \<Rightarrow> opRes) \<Rightarrow> flow act" where
  "compareHandler env callF name fi fd f =
     binaryHandler env callF (fastCompare fi fd) name
       (binaryOp callF (\<lambda>h. f))"

definition negHandler :: "vm_env \<Rightarrow> reenter \<Rightarrow> flow act" where
  "negHandler env callF =
     bnd (rawPeek 0) (\<lambda>v s.
       case v of
         VInteger x \<Rightarrow>
           if x = llong_min then Inl (Thrown (Undefined ''signed overflow''), s)
           else next_op (setSlot (top s - 1) (VInteger (- x))) s
       | VNumber d \<Rightarrow> next_op (setSlot (top s - 1) (VNumber (dneg d))) s
       | _ \<Rightarrow>
           let m = getProperty (vmHeap s) v ''neg'' in
           if isCallable m then callOperator env callF v m 0 s else viaHelper (doNegate callF) s)"

text \<open>Equality and \<open>not\<close> run their helper without the guard.\<close>

definition viaBareHelper :: "unit act \<Rightarrow> flow act" where
  "viaBareHelper m = thn (act_upd syncIp) (thn m (next_op (act_upd loadFrame)))"

definition equalHandler :: "vm_env \<Rightarrow> reenter \<Rightarrow> bool \<Rightarrow> string \<Rightarrow> flow act" where
  "equalHandler env callF want name =
     bnd (rawPeek 0) (\<lambda>b. bnd (rawPeek 1) (\<lambda>a s.
       case fastEqual want a b of
         Some r \<Rightarrow> replaceTwo r s
       | None \<Rightarrow>
           let m = getProperty (vmHeap s) a name in
           if isCallable m then callOperator env callF a m 1 s
           else viaBareHelper (binaryOp callF (if want then equalValues else notEqualValues)) s))"

fun handleCalc :: "vm_env \<Rightarrow> reenter \<Rightarrow> calc_op \<Rightarrow> flow act" where
  "handleCalc env callF I_ADD = binaryHandler env callF fastAdd ''+'' (doAdd callF)"
| "handleCalc env callF I_SUB = binaryHandler env callF fastSub ''-'' (doSubtract callF)"
| "handleCalc env callF I_MUL = binaryHandler env callF fastMul ''*'' (doMultiply callF)"
| "handleCalc env callF I_DIV = binaryHandler env callF fastDiv ''/'' (doDivide callF)"
| "handleCalc env callF I_MOD =
     bnd (rawPeek 0) (\<lambda>b. bnd (rawPeek 1) (\<lambda>a.
       case fastMod a b of Some r \<Rightarrow> replaceTwo r | None \<Rightarrow> viaHelper (doModulo callF)))"
| "handleCalc env callF I_POW = viaHelper (doPower env callF)"
| "handleCalc env callF I_NEGATE = negHandler env callF"
| "handleCalc env callF I_BIT_AND = viaHelper (binaryOp callF (\<lambda>h. bitAndValues))"
| "handleCalc env callF I_BIT_OR = viaHelper (binaryOp callF (\<lambda>h. bitOrValues))"
| "handleCalc env callF I_BIT_XOR = viaHelper (binaryOp callF (\<lambda>h. bitXorValues))"
| "handleCalc env callF I_BIT_NOT = viaHelper (unaryOp callF bitNotValue)"
| "handleCalc env callF I_SHIFT_LEFT = viaHelper (binaryOp callF (\<lambda>h. shiftLeftValues))"
| "handleCalc env callF I_SHIFT_RIGHT = viaHelper (binaryOp callF (\<lambda>h. shiftRightValues))"
| "handleCalc env callF I_EQUAL = equalHandler env callF True ''==''"
| "handleCalc env callF I_NOT_EQUAL = equalHandler env callF False ''!=''"
| "handleCalc env callF I_LESS =
     compareHandler env callF ''<'' (\<lambda>x y. x <s y) dlt lessValues"
| "handleCalc env callF I_LESS_EQ =
     compareHandler env callF ''<='' (\<lambda>x y. x \<le>s y) dle lessEqValues"
| "handleCalc env callF I_GREATER =
     compareHandler env callF ''>'' (\<lambda>x y. y <s x) (\<lambda>x y. dlt y x) greaterValues"
| "handleCalc env callF I_GREATER_EQ =
     compareHandler env callF ''>='' (\<lambda>x y. y \<le>s x) (\<lambda>x y. dle y x) greaterEqValues"
| "handleCalc env callF I_NOT = viaBareHelper (unaryOp callF notValue)"

subsection \<open>Jumps and calls\<close>

definition jumpIf :: "(val \<Rightarrow> bool) \<Rightarrow> flow act" where
  "jumpIf p = next_op (bnd readInt (\<lambda>off. bnd rawPop (\<lambda>v. if p v then jumpBy off else act_ret ())))"

text \<open>The garbage collector's safepoint at a backward jump is not modelled.\<close>

definition loopOp :: "flow act" where
  "loopOp = next_op (bnd readInt (\<lambda>off s.
     if off \<le> ip s then Inr ((), s\<lparr>ip := ip s - off\<rparr>)
     else Inl (Thrown (Undefined ''jump before the code''), s)))"

text \<open>The captures of a closure: locals of this frame, or upvalues of the running closure.\<close>

fun readCaptures :: "nat \<Rightarrow> nat list act" where
  "readCaptures 0 = act_ret []"
| "readCaptures (Suc n) =
     bnd readByte (\<lambda>isLocal. bnd readShort (\<lambda>index.
       bnd (\<lambda>s. if isLocal \<noteq> 0 then (case captureUpvalue (fslots (curFrame s) + index) s of (u, t) \<Rightarrow> Inr (u, t))
                else if index < length (last (frameUpvalues s)) then Inr (last (frameUpvalues s) ! index, s)
                else Inl (Thrown (Undefined ''upvalue index''), s))
         (\<lambda>u. bnd (readCaptures n) (\<lambda>us. act_ret (u # us)))))"

definition closureOp :: "flow act" where
  "closureOp = bnd readShort (\<lambda>idx s.
     if idx \<ge> length (cuNested (curUnit s)) then Inl (Thrown (Undefined ''nested function index''), s)
     else let f = cuNested (curUnit s) ! idx in
       bnd (readCaptures (length (fnUpvalues (cuHeader (unitOf s f))))) (\<lambda>us t.
         let (h, a) = halloc (vmHeap t) (OClosure f us) in
         next_op (rawPush (VClosure a)) (t\<lparr>vmHeap := h\<rparr>)) s)"

fun handleFlow :: "vm_env \<Rightarrow> reenter \<Rightarrow> flow_op \<Rightarrow> flow act" where
  "handleFlow env callF I_JUMP = next_op (bnd readInt jumpBy)"
| "handleFlow env callF I_JUMP_IF_FALSE = jumpIf (\<lambda>v. \<not> isTruthy v)"
| "handleFlow env callF I_JUMP_IF_TRUE = jumpIf isTruthy"
| "handleFlow env callF I_JUMP_IF_NIL = jumpIf (\<lambda>v. v = VNil)"
| "handleFlow env callF I_JUMP_IF_NOT_NIL = jumpIf (\<lambda>v. v \<noteq> VNil)"
| "handleFlow env callF I_LOOP = loopOp"
| "handleFlow env callF I_CALL = bnd readByte (callOp env callF)"
| "handleFlow env callF I_TAIL_CALL = bnd readByte (tailCallOp env callF)"
| "handleFlow env callF I_CALL_KW = act_stop (External ''CALL_KW'')"
| "handleFlow env callF I_RETURN = returnOp"
| "handleFlow env callF I_CLOSURE = closureOp"
| "handleFlow env callF I_CLOSE_UPVALUE = next_op (bnd readByte (\<lambda>slot.
     act_upd (\<lambda>s. closeUpvalues (fslots (curFrame s) + slot) (s\<lparr>mtop := top s\<rparr>))))"

subsection \<open>Data\<close>

definition popMany :: "nat \<Rightarrow> val list act" where
  "popMany n s = (if top s < n then Inl (badStack, s)
     else Inr (map (mem s) [top s - n ..< top s], s\<lparr>top := top s - n\<rparr>))"

definition makeSequence :: "(val list \<Rightarrow> obj) \<Rightarrow> (addr \<Rightarrow> val) \<Rightarrow> nat \<Rightarrow> unit act" where
  "makeSequence mk ref n s =
     bnd (popMany n) (\<lambda>xs t.
       let (h, a) = halloc (vmHeap t) (mk xs) in
       thn (rawPush (ref a)) (act_upd (\<lambda>u. clearSlots (top u) (top s) u)) (t\<lparr>vmHeap := h\<rparr>)) s"

text \<open>Pairs are taken from the top, so of two equal keys the first in the source wins.\<close>

fun dictPairs :: "nat \<Rightarrow> (string \<times> val) list \<Rightarrow> (string \<times> val) list act" where
  "dictPairs 0 kvs = act_ret kvs"
| "dictPairs (Suc n) kvs =
     bnd rawPop (\<lambda>v. bnd rawPop (\<lambda>k. bnd (textValue k) (\<lambda>key. dictPairs n (dictSet kvs key v))))"

definition makeDict :: "nat \<Rightarrow> unit act" where
  "makeDict n s =
     bnd (dictPairs n []) (\<lambda>kvs t.
       let (h, a) = halloc (vmHeap t) (ODict kvs) in
       thn (rawPush (VDictionary a)) (act_upd (\<lambda>u. clearSlots (top u) (top s) u)) (t\<lparr>vmHeap := h\<rparr>)) s"

text \<open>\<open>INDEX_GET\<close> and \<open>INDEX_SET\<close> do not reload the frame.\<close>

definition viaIndexHelper :: "unit act \<Rightarrow> flow act" where
  "viaIndexHelper m = thn (act_upd syncIp) (thn (guardedHelper m) (next_op (act_upd (\<lambda>s. s\<lparr>top := mtop s\<rparr>))))"

fun handleData :: "vm_env \<Rightarrow> reenter \<Rightarrow> data_op \<Rightarrow> flow act" where
  "handleData env callF I_MAKE_ARRAY = next_op (bnd readByte (makeSequence OArray VArray))"
| "handleData env callF I_BUILD_TUPLE = next_op (bnd readByte (makeSequence OTuple VTuple))"
| "handleData env callF I_MAKE_DICT = next_op (bnd readByte makeDict)"
| "handleData env callF I_INDEX_GET = viaIndexHelper (doIndexGet callF)"
| "handleData env callF I_INDEX_SET = viaIndexHelper (doIndexSet callF)"
| "handleData env callF k = act_stop (External ''data instruction'')"

subsection \<open>Exceptions\<close>

definition tryStart :: "unit act" where
  "tryStart = bnd readInt (\<lambda>off. act_upd (\<lambda>s. s\<lparr>tryStack :=
     \<lparr>tbFrame = length (frames s) - 1, tbCatch = ip s + off, tbTop = top s\<rparr> # tryStack s\<rparr>))"

text \<open>The stack trace stored into a thrown dictionary that has the key.\<close>

definition frameLine :: "vm \<Rightarrow> callFrame \<Rightarrow> nat" where
  "frameLine s f =
     (let ls = clines (cuChunk (unitOf s (ffun f))); off = fip f - 1 in
      if off < length ls then ls ! off else fline f)"

definition traceLine :: "vm \<Rightarrow> callFrame \<Rightarrow> string" where
  "traceLine s f =
     (let h = cuHeader (unitOf s (ffun f)) in
      ''  File '' @ [CHR 0x22] @ (if fnFile h = [] then ''<unknown>'' else fnFile h) @ [CHR 0x22] @
      '', line '' @ showNat (frameLine s f) @ '', in '' @
      (if fnName h = [] then ''<script>'' else fnName h) @ [CHR 0x0A])"

definition addTrace :: "val \<Rightarrow> vm \<Rightarrow> vm" where
  "addTrace exc s = (case exc of
      VDictionary a \<Rightarrow>
        if ''stackTrace'' \<in> fst ` set (dictMap (hget (vmHeap s) a))
        then s\<lparr>vmHeap := hset (vmHeap s) a (ODict (dictSet (dictMap (hget (vmHeap s) a)) ''stackTrace''
               (mkString (concat (map (traceLine s) (rev (frames s)))))))\<rparr>
        else s
    | _ \<Rightarrow> s)"

definition describeException :: "val \<Rightarrow> string act" where
  "describeException exc s =
     (case exc of
        VDictionary a \<Rightarrow>
          (case map_of (dictMap (hget (vmHeap s) a)) ''message'' of
             Some m \<Rightarrow> textValue m s | None \<Rightarrow> textValue exc s)
      | VInstance a \<Rightarrow>
          if hasProperty (vmHeap s) exc ''message''
          then textValue (getProperty (vmHeap s) exc ''message'') s else textValue exc s
      | _ \<Rightarrow> textValue exc s)"

text \<open>
  Delivering a thrown value: the handler of this run, or back to the run that owns it, or the
  uncaught report.
\<close>

definition deliverThrow :: "val \<Rightarrow> flow act" where
  "deliverThrow exc s =
     (if ownsTryBlock s then
        thn (enterHandler (hd (tryStack s)) exc)
          (next_op (act_upd (\<lambda>t. t\<lparr>pendingException := VNil\<rparr>))) s
      else if tryStack s \<noteq> [] then Inr (FReturn, syncIp (s\<lparr>pendingException := exc\<rparr>))
      else bnd (describeException exc) (\<lambda>msg.
        thn (act_upd (runtimeError (''Uncaught exception: '' @ msg))) (act_ret FReturn)) (syncIp s))"

definition throwOp :: "flow act" where
  "throwOp = bnd rawPop (\<lambda>exc s. deliverThrow exc ((addTrace exc s)\<lparr>pendingException := exc\<rparr>))"

definition finallyEnd :: "flow act" where
  "finallyEnd s =
     (if pendingException s = VNil then Inr (FNext, s)
      else deliverThrow (pendingException s) (s\<lparr>pendingException := VNil\<rparr>))"

fun handleExn :: "vm_env \<Rightarrow> reenter \<Rightarrow> exn_op \<Rightarrow> flow act" where
  "handleExn env callF I_TRY_START = next_op tryStart"
| "handleExn env callF I_TRY_END = next_op (act_upd (\<lambda>s. s\<lparr>tryStack := tl (tryStack s)\<rparr>))"
| "handleExn env callF I_THROW = throwOp"
| "handleExn env callF I_FINALLY_START = act_ret FNext"
| "handleExn env callF I_FINALLY_END = finallyEnd"
| "handleExn env callF I_BREAKPOINT = next_op (act_upd syncIp)"
| "handleExn env callF I_LINE = next_op (bnd readShort (\<lambda>n. act_upd (updFrame (\<lambda>f. f\<lparr>fline := n\<rparr>))))"
| "handleExn env callF I_HAS_GLOBAL = next_op (bnd readName (\<lambda>name s.
     rawPush (VBool (name \<in> fst ` set (globals s))) s))"
| "handleExn env callF k = act_stop (External ''runtime instruction'')"

subsection \<open>Membership and the fused instructions\<close>

fun anyEqual :: "heap \<Rightarrow> val list \<Rightarrow> val \<Rightarrow> cxx_exn + bool" where
  "anyEqual h [] v = Inr False"
| "anyEqual h (x # xs) v = res_bind (equals h x v) (\<lambda>r. if r then Inr True else anyEqual h xs v)"

fun occursIn :: "string \<Rightarrow> string \<Rightarrow> bool" where
  "occursIn n [] = (n = [])"
| "occursIn n (c # t) = (take (length n) (c # t) = n \<or> occursIn n t)"

definition memberIn :: "flow act" where
  "memberIn = bnd rawPop (\<lambda>hay. bnd rawPop (\<lambda>needle s.
     let h = vmHeap s;
         found = (\<lambda>r. next_op (bnd (act_lift r) (\<lambda>b. rawPush (VBool b))) s)
     in case hay of
          VArray a \<Rightarrow> found (anyEqual h (elements (hget h a)) needle)
        | VTuple a \<Rightarrow> found (anyEqual h (elements (hget h a)) needle)
        | VDictionary a \<Rightarrow> found (res_bind (toString h needle) (\<lambda>k. Inr (k \<in> fst ` set (dictMap (hget h a)))))
        | _ \<Rightarrow>
            if isString hay then
              (if \<not> isString needle then
                 failWith (raise ''TypeError'' (sq ''in'' @
                   '' on a string expects a string on the left, got '' @ typeName needle)) s
               else found (res_bind (asString hay) (\<lambda>t. res_bind (asString needle) (\<lambda>n. Inr (occursIn n t)))))
            else failWith (raise ''TypeError'' (sq ''in'' @
              '' expects an array, tuple, dictionary or string on the right, got '' @ typeName hay)) s))"

text \<open>The loop tests: leave the loop when the counter has passed the end.\<close>

definition loopPast :: "(i64 \<Rightarrow> i64 \<Rightarrow> bool) \<Rightarrow> (dbl \<Rightarrow> dbl \<Rightarrow> bool) \<Rightarrow> val \<Rightarrow> val \<Rightarrow> bool option" where
  "loopPast fi fd lv ev =
     (case (lv, ev) of
        (VInteger x, VInteger y) \<Rightarrow> Some (fi x y)
      | _ \<Rightarrow> if isNumber lv \<and> isNumber ev then Some (fd (asNumber lv) (asNumber ev)) else None)"

definition loopTest :: "(i64 \<Rightarrow> i64 \<Rightarrow> bool) \<Rightarrow> (dbl \<Rightarrow> dbl \<Rightarrow> bool) \<Rightarrow> flow act" where
  "loopTest fi fd =
     bnd readByte (\<lambda>loopS. bnd readByte (\<lambda>endS. bnd readInt (\<lambda>off.
       bnd (loadSlot loopS) (\<lambda>lv. bnd (loadSlot endS) (\<lambda>ev.
         case loopPast fi fd lv ev of
           Some past \<Rightarrow> next_op (if past then jumpBy off else act_ret ())
         | None \<Rightarrow> failWith (fault (''repeat loop variable must be numeric, got: '' @ typeName lv)))))))"

text \<open>
  The accumulator instructions: a fast result for numbers (and strings), the overloaded operator
  run to completion, or the plain helper on the stack.
\<close>

datatype place = LocalSlot nat | GlobalSlot nat

definition putPlace :: "place \<Rightarrow> val \<Rightarrow> unit act" where
  "putPlace p v = (case p of
      LocalSlot i \<Rightarrow> storeSlot i v
    | GlobalSlot i \<Rightarrow> act_upd (\<lambda>s. s\<lparr>globalSlots := (globalSlots s)[i := v]\<rparr>))"

definition accFast :: "bool \<Rightarrow> (i64 \<Rightarrow> i64 \<Rightarrow> i64) \<Rightarrow> (dbl \<Rightarrow> dbl \<Rightarrow> dbl) \<Rightarrow> val \<Rightarrow> val \<Rightarrow> (cxx_exn + val) option" where
  "accFast strings fi fd a b =
     (case (a, b) of
        (VInteger x, VInteger y) \<Rightarrow> Some (Inr (VInteger (fi x y)))
      | (VNumber x, VNumber y) \<Rightarrow> Some (Inr (VNumber (fd x y)))
      | (VInteger x, VNumber y) \<Rightarrow> Some (Inr (VNumber (fd (d_of_i64 x) y)))
      | (VNumber x, VInteger y) \<Rightarrow> Some (Inr (VNumber (fd x (d_of_i64 y))))
      | _ \<Rightarrow>
          if strings \<and> isString a \<and> isString b
          then Some (res_bind (asString a) (\<lambda>x. res_bind (asString b) (\<lambda>y. Inr (mkString (x @ y)))))
          else None)"

definition viaStack :: "place \<Rightarrow> val \<Rightarrow> val \<Rightarrow> unit act \<Rightarrow> flow act" where
  "viaStack p a b helper =
     thn (rawPush a) (thn (rawPush b) (thn (act_upd syncIp) (thn helper (\<lambda>s.
       if \<not> running s then Inr (FFault, s)
       else thn (act_upd loadFrame) (next_op (bnd rawPop (putPlace p))) s))))"

definition accumulate ::
  "reenter \<Rightarrow> place \<Rightarrow> (cxx_exn + val) option \<Rightarrow> string \<Rightarrow> unit act \<Rightarrow> val \<Rightarrow> val \<Rightarrow> flow act" where
  "accumulate callF p fast name helper a b s =
     (case fast of
        Some r \<Rightarrow> next_op (bnd (act_lift r) (putPlace p)) s
      | None \<Rightarrow>
          let m = getProperty (vmHeap s) a name in
          if isCallable m then
            (let (h, k) = halloc (vmHeap s) (OBoundMethod a m) in
             bnd (callF (VBoundMethod k) [b]) (\<lambda>r.
               thn (act_upd loadFrame) (next_op (putPlace p r))) (syncIp (s\<lparr>vmHeap := h\<rparr>)))
          else viaStack p a b helper s)"

definition localLocal ::
  "reenter \<Rightarrow> bool \<Rightarrow> (i64 \<Rightarrow> i64 \<Rightarrow> i64) \<Rightarrow> (dbl \<Rightarrow> dbl \<Rightarrow> dbl) \<Rightarrow> string \<Rightarrow> unit act \<Rightarrow> flow act" where
  "localLocal callF strings fi fd name helper =
     bnd readByte (\<lambda>dst. bnd readByte (\<lambda>src. bnd (loadSlot dst) (\<lambda>a. bnd (loadSlot src) (\<lambda>b.
       accumulate callF (LocalSlot dst) (accFast strings fi fd a b) name helper a b))))"

definition signedByte :: "nat \<Rightarrow> i64" where
  "signedByte n = (if n < 128 then word_of_nat n else word_of_nat n - 256)"

definition incLocalBy :: "reenter \<Rightarrow> flow act" where
  "incLocalBy callF =
     bnd readByte (\<lambda>dst. bnd readByte (\<lambda>n. bnd (loadSlot dst) (\<lambda>a.
       case a of
         VInteger x \<Rightarrow> next_op (storeSlot dst (VInteger (wrapAdd x (signedByte n))))
       | VNumber d \<Rightarrow> next_op (storeSlot dst (VNumber (dadd d (d_of_i64 (signedByte n)))))
       | _ \<Rightarrow> viaStack (LocalSlot dst) a (VInteger (signedByte n)) (doAdd callF))))"

definition addGlobalLocal :: "reenter \<Rightarrow> flow act" where
  "addGlobalLocal callF =
     bnd readShort (\<lambda>g. bnd readByte (\<lambda>src s.
       if g < length (globalSlots s) then
         bnd (loadSlot src) (\<lambda>b. accumulate callF (GlobalSlot g)
           (accFast True wrapAdd dadd (globalSlots s ! g) b) ''+'' (doAdd callF) (globalSlots s ! g) b) s
       else Inr (FNext, s)))"

definition printLine :: "string \<Rightarrow> unit act" where
  "printLine t = act_upd (\<lambda>s. s\<lparr>printed := printed s @ [t]\<rparr>)"

definition printStr :: "reenter \<Rightarrow> flow act" where
  "printStr callF =
     bnd rawPop (\<lambda>v s.
       case v of
         VInteger i \<Rightarrow> next_op (printLine (showInt (sint i))) s
       | VNumber d \<Rightarrow> next_op (printLine (showDouble d)) s
       | VInstance a \<Rightarrow>
           let m = getProperty (vmHeap s) v ''toString'' in
           if isCallable m then
             bnd (callF m (if hasProperty (vmHeap s) v ''toString'' then [] else [v])) (\<lambda>r.
               thn (act_upd loadFrame) (next_op (bnd (textValue r) printLine))) (syncIp s)
           else next_op (bnd (textValue v) printLine) s
       | _ \<Rightarrow> next_op (bnd (textValue v) printLine) s)"

fun handleExt :: "vm_env \<Rightarrow> reenter \<Rightarrow> ext_op \<Rightarrow> flow act" where
  "handleExt env callF I_LOAD_GLOBAL_SLOT = next_op (bnd readShort (\<lambda>g s.
     rawPush (if g < length (globalSlots s) then globalSlots s ! g else VNil) s))"
| "handleExt env callF I_STORE_GLOBAL_SLOT = next_op (bnd readShort (\<lambda>g. bnd (rawPeek 0) (\<lambda>v.
     act_upd (\<lambda>s. s\<lparr>globalSlots := (globalSlots s)[g := v]\<rparr>))))"
| "handleExt env callF I_LOOP_LESS_EQ_LOCAL = loopTest (\<lambda>x y. y <s x) (\<lambda>x y. dlt y x)"
| "handleExt env callF I_LOOP_GREATER_EQ_LOCAL = loopTest (\<lambda>x y. x <s y) dlt"
| "handleExt env callF I_LOAD_LOCAL_W = next_op (bnd readShort (\<lambda>slot. bnd (loadSlot slot) rawPush))"
| "handleExt env callF I_STORE_LOCAL_W = next_op (bnd readShort (\<lambda>slot. bnd (rawPeek 0) (storeSlot slot)))"
| "handleExt env callF I_MEMBER_IN = memberIn"
| "handleExt env callF I_ADD_LOCAL_LOCAL = localLocal callF True wrapAdd dadd ''+'' (doAdd callF)"
| "handleExt env callF I_SUB_LOCAL_LOCAL = localLocal callF False wrapSub dsub ''-'' (doSubtract callF)"
| "handleExt env callF I_INC_LOCAL_BY = incLocalBy callF"
| "handleExt env callF I_ADD_GLOBAL_LOCAL = addGlobalLocal callF"
| "handleExt env callF I_PRINT_STR = printStr callF"
| "handleExt env callF I_END = (\<lambda>s. Inr (FReturn, syncIp (s\<lparr>running := False\<rparr>)))"
| "handleExt env callF k = act_stop (External ''decorator or method instruction'')"

subsection \<open>The loop\<close>

fun handle :: "vm_env \<Rightarrow> reenter \<Rightarrow> opcode \<Rightarrow> flow act" where
  "handle env callF (OVar k) = handleVar k"
| "handle env callF (OCalc k) = handleCalc env callF k"
| "handle env callF (OFlow k) = handleFlow env callF k"
| "handle env callF (OData k) = handleData env callF k"
| "handle env callF (OExn k) = handleExn env callF k"
| "handle env callF (OExt k) = handleExt env callF k"

datatype outcome = Next vm | Exit vm | Stuck stop vm

text \<open>
  A C++ exception of a handler reaches the \<open>catch\<close> around the loop, which delivers its text.
\<close>

definition catchStd :: "cxx_exn \<Rightarrow> flow act" where
  "catchStd e s =
     (if tryStack s \<noteq> [] \<and> \<not> ownsTryBlock s
      then Inr (FReturn, syncIp (s\<lparr>pendingException := mkString (exnText e)\<rparr>))
      else case tryStack s of
        tb # tbs \<Rightarrow>
          let s1 = unwindFrames (tbFrame tb) (s\<lparr>tryStack := tbs\<rparr>);
              s2 = loadFrame (s1\<lparr>mtop := tbTop tb\<rparr>)
          in thn (rawPush (mkString (exnText e)))
               (next_op (act_upd (\<lambda>t. t\<lparr>pendingException := VNil, running := True\<rparr>)))
               (s2\<lparr>ip := tbCatch tb\<rparr>)
      | [] \<Rightarrow> Inr (FReturn, syncIp (s\<lparr>pendingException := mkString (exnText e), running := False\<rparr>)))"

definition finish :: "(stop \<times> vm) + (flow \<times> vm) \<Rightarrow> outcome" where
  "finish r = (case r of
      Inr (FNext, t) \<Rightarrow> Next t
    | Inr (FReturn, t) \<Rightarrow> Exit t
    | Inr (FFault, t) \<Rightarrow> Stuck (External ''fault label'') t
    | Inl (e, t) \<Rightarrow> Stuck e t)"

text \<open>The fault label after a handler that jumps to it, and the catch after one that throws.\<close>

definition settle :: "(stop \<times> vm) + (flow \<times> vm) \<Rightarrow> outcome" where
  "settle r = (case r of
      Inr (FFault, t) \<Rightarrow> finish (handleFault t)
    | Inl (Thrown e, t) \<Rightarrow> if isUB e then Stuck (Thrown e) t else finish (catchStd e t)
    | _ \<Rightarrow> finish r)"

definition fetch :: "opcode act" where
  "fetch = bnd readByte (\<lambda>b s. case decodeOp (word_of_nat b) of
      Some k \<Rightarrow> Inr (k, s) | None \<Rightarrow> Inl (Thrown (Undefined ''opcode out of range''), s))"

text \<open>\<open>DISPATCH\<close>: count the instruction, check the budget and \<open>running\<close>, run one handler.\<close>

definition dispatch :: "vm_env \<Rightarrow> reenter \<Rightarrow> vm \<Rightarrow> outcome" where
  "dispatch env callF s =
     (let s1 = s\<lparr>instructionCount := instructionCount s + 1\<rparr> in
      if maxInstructions s > 0 \<and> instructionCount s1 \<ge> maxInstructions s then
        finish (handleFault (throwException ''SecurityError''
          ''Instruction limit exceeded (CPU budget exhausted)'' (s1\<lparr>maxInstructions := 0\<rparr>)))
      else if \<not> running s1 then finish (handleFault s1)
      else settle (bnd fetch (handle env callF) s1))"

text \<open>
  \<open>callFunction\<close>: a native is called directly, anything else through \<open>dispatchCall\<close> and a nested
  run down to the present depth; then the stack pointer and the frames are put back.
\<close>

definition restoreCall :: "vm \<Rightarrow> vm \<Rightarrow> vm" where
  "restoreCall s t = t\<lparr>mtop := mtop s, frames := take (length (frames s)) (frames t),
     running := running s, ip := ip s, top := top s, startFrames := startFrames s,
     cxxFrameDepth := cxxFrameDepth s\<rparr>"

fun pushAll :: "val list \<Rightarrow> unit act" where
  "pushAll [] = act_ret ()"
| "pushAll (v # vs) = thn (push v) (pushAll vs)"

definition enterRun :: "vm \<Rightarrow> vm" where
  "enterRun s = (loadFrame s)\<lparr>startFrames := length (frames s)\<rparr>"

definition runCallee :: "vm_env \<Rightarrow> reenter \<Rightarrow> (vm \<Rightarrow> outcome) \<Rightarrow> val \<Rightarrow> nat \<Rightarrow> vm \<Rightarrow> val act" where
  "runCallee env callF runLoop callee argc s t0 =
     (case dispatch_call env callF callee (argc mod 256) None t0 of
        Inl (e, t) \<Rightarrow> Inl (e, restoreCall s t)
      | Inr (False, t) \<Rightarrow> Inr (VNil, restoreCall s t)
      | Inr (True, t) \<Rightarrow>
          (case runLoop (enterRun t) of
             Exit u \<Rightarrow>
               if pendingException u \<noteq> VNil
               then Inr (VNil, (restoreCall s u)\<lparr>running := False\<rparr>)
               else Inr (if mtop u > mtop s then mem u (mtop u - 1) else VNil, restoreCall s u)
           | Stuck e u \<Rightarrow> Inl (e, u)
           | Next u \<Rightarrow> Inl (OutOfFuel, u)))"

definition nestedCall :: "vm_env \<Rightarrow> reenter \<Rightarrow> (vm \<Rightarrow> outcome) \<Rightarrow> reenter" where
  "nestedCall env callF runLoop callee args s =
     (case thn (push callee) (pushAll args)
         (s\<lparr>running := True, cxxFrameDepth := cxxFrameDepth s + (if running s then 1 else 0)\<rparr>) of
        Inl (e, t) \<Rightarrow> Inl (e, t\<lparr>cxxFrameDepth := cxxFrameDepth s\<rparr>)
      | Inr (_, t0) \<Rightarrow> runCallee env callF runLoop callee (length args) s t0)"

definition callFunction :: "vm_env \<Rightarrow> reenter \<Rightarrow> (vm \<Rightarrow> outcome) \<Rightarrow> reenter" where
  "callFunction env callF runLoop callee args s =
     (if cxxFrameDepth s \<ge> 200
      then Inr (VNil, runtimeError ''RecursionError: maximum C++ call depth exceeded'' s)
      else if pendingException s \<noteq> VNil then Inr (VNil, s)
      else case callee of
        VNativeFunction a \<Rightarrow>
          (case hget (vmHeap s) a of
             ONative name arity \<Rightarrow>
               if arity \<ge> 0 \<and> int (length args) < arity then
                 Inr (VNil, runtimeError (name @ ''() expected '' @ showInt arity @
                   '' argument(s), got '' @ showNat (length args)) s)
               else (case nativeFn env name args (vmHeap s) of
                   Inl msg \<Rightarrow> Inr (VNil, runtimeError msg s)
                 | Inr (h, v) \<Rightarrow> Inr (v, s\<lparr>vmHeap := h\<rparr>))
           | _ \<Rightarrow> Inl (External ''native function'', s))
      | _ \<Rightarrow> nestedCall env callF runLoop callee args s)"

text \<open>
  The loop and the re-entrant calls, bounded by a budget of dispatches; \<open>Next\<close> at the end means
  the budget ran out.
\<close>

fun runN :: "nat \<Rightarrow> vm_env \<Rightarrow> vm \<Rightarrow> outcome"
  and callN :: "nat \<Rightarrow> vm_env \<Rightarrow> reenter" where
  "runN 0 env s = Next s"
| "runN (Suc n) env s =
     (case dispatch env (callN n env) s of Next t \<Rightarrow> runN n env t | r \<Rightarrow> r)"
| "callN 0 env callee args s = Inl (OutOfFuel, s)"
| "callN (Suc n) env callee args s = callFunction env (callN n env) (runN n env) callee args s"

text \<open>\<open>run\<close>: nothing without a frame; otherwise down to the given depth, 0 meaning all frames.\<close>

definition run :: "nat \<Rightarrow> vm_env \<Rightarrow> nat \<Rightarrow> vm \<Rightarrow> outcome" where
  "run fuel env target s =
     (if frames s = [] then Exit s
      else runN fuel env ((loadFrame s)\<lparr>startFrames := (if target > 0 then target else 1)\<rparr>))"

end
