(* ===== verification/Double_Facts.thy ===== *)
theory Double_Facts
  imports Cxx_Double
begin

text \<open>
  Facts about the double arithmetic of \<open>Cxx_Double\<close>: rounding keeps an integer apart from zero,
  and equal doubles other than the two zeros have the same bits.
\<close>

lemma flog2_nonneg:
  assumes "1 \<le> r"
  shows "0 \<le> flog2 r"
proof -
  obtain p q where pq: "quotient_of r = (p, q)" by force
  have q: "q > 0" using quotient_of_denom_pos [OF pq] .
  have "r = of_int p / of_int q" using quotient_of_div [OF pq] .
  then have "(of_int q :: rat) \<le> of_int p" using assms q by (simp add: pos_le_divide_eq)
  then have "q \<le> p" by (simp only: of_int_le_iff)
  then have "floorlog 2 (nat q) \<le> floorlog 2 (nat p)"
    using q by (intro floorlog_mono) auto
  then show ?thesis
    using assms pq by (cases "floorlog 2 (nat p) = floorlog 2 (nat q)") (auto simp: flog2_def pow2_def Let_def)
qed

lemma rnd_even_nonneg: "0 \<le> r \<Longrightarrow> 0 \<le> rnd_even r"
  by (auto simp: rnd_even_def Let_def)

lemma pow2_pos: "0 < pow2 e"
  by (simp add: pow2_def)

lemma mag_bits_ge_one:
  assumes "1 \<le> r"
  shows "1022 * 2 ^ 52 \<le> mag_bits r"
proof -
  have "- 52 \<le> quantum r" using flog2_nonneg [OF assms] by (simp add: quantum_def)
  moreover have "0 \<le> rnd_even (r / pow2 (quantum r))"
    using assms pow2_pos by (intro rnd_even_nonneg) (simp add: less_imp_le)
  ultimately show ?thesis using assms by (simp add: mag_bits_def)
qed

lemma uint_with_sign:
  assumes "uint x < 2 ^ 63"
  shows "uint (with_sign neg x) = uint x + (if neg then 2 ^ 63 else 0)"
  using assms by (simp add: with_sign_def uint_word_ariths take_bit_int_eq_self_iff flip: take_bit_eq_mod)

lemma dround_nonzero:
  assumes "1 \<le> r"
  shows "\<not> deq (dround neg r) 0"
proof -
  let ?m = "mag_bits r"
  define x where "x = (if ?m \<ge> uint dinf then dinf else word_of_int ?m)"
  have m: "1022 * 2 ^ 52 \<le> ?m" by (rule mag_bits_ge_one [OF assms])
  have inf: "uint dinf = 0x7FF0000000000000" by (simp add: dinf_def)
  have ux: "1022 * 2 ^ 52 \<le> uint x" "uint x < 2 ^ 63"
    using m inf by (auto simp: x_def uint_word_of_int)
  have less: "uint x div 2 ^ 52 < 2 ^ 11"
    using ux by (simp add: div_less_iff_less_mult)
  have "uint (dround neg r) = uint x + (if neg then 2 ^ 63 else 0)"
    using uint_with_sign [OF ux(2)] by (simp add: dround_def x_def)
  then have e: "dexp (dround neg r) = uint x div 2 ^ 52"
    using less ux div_mult_self1 [of "2 ^ 52" "uint x" 2048] by (cases neg) (simp_all add: dexp_def)
  have "1022 \<le> uint x div 2 ^ 52"
    using ux zdiv_mono1 [of "1022 * 2 ^ 52" "uint x" "2 ^ 52"] by simp
  then have pos: "dexp (dround neg r) \<noteq> 0" using e by simp
  have "0 \<le> dfrac (dround neg r)" by (simp add: dfrac_def)
  then have "(2 :: int) ^ 52 + dfrac (dround neg r) > 0" by (simp add: add_pos_nonneg)
  then have "(2 :: int) ^ 52 + dfrac (dround neg r) \<noteq> 0" by simp
  then have "of_int (2 ^ 52 + dfrac (dround neg r)) \<noteq> (0 :: rat)"
    using of_int_eq_0_iff by blast
  then show ?thesis
    using pos pow2_pos [of "dexp (dround neg r) - 1075"]
    by (auto simp: deq_def dval_of_def dsigned_def dexp_def [of 0] dfrac_def [of 0])
qed

lemma d_of_i64_zero_iff: "deq (d_of_i64 n) 0 \<longleftrightarrow> n = 0"
proof (cases "n = 0")
  case True
  then show ?thesis
    by (simp add: d_of_i64_def dof_rat_def with_sign_def deq_def dval_of_def dexp_def dfrac_def)
next
  case False
  then have "sint n \<noteq> 0" using signed_eq_0_iff [of n] by blast
  then have "1 \<le> \<bar>(of_int (sint n) :: rat)\<bar>"
    by (metis of_int_abs of_int_1_le_iff abs_ge_self int_one_le_iff_zero_less zero_less_abs_iff)
  then show ?thesis
    using False \<open>sint n \<noteq> 0\<close> dround_nonzero
    by (simp only: d_of_i64_def dof_rat_def of_int_eq_0_iff if_False simp_thms)
qed

text \<open>Evaluation of conversions on numerals.\<close>

lemma floor_numeral_divide: "\<lfloor>numeral a / (numeral b :: rat)\<rfloor> = numeral a div numeral b"
  using floor_divide_of_int_eq [of "numeral a" "numeral b", where 'a = rat] by simp

lemmas double_eval = d_of_i64_def dof_rat_def dround_def mag_bits_def quantum_def flog2_def
  quotient_of_int pow2_def compute_floorlog with_sign_def dinf_def rnd_even_def Let_def
  floor_numeral_divide

lemmas double_read = dval_of_def dexp_def dfrac_def dsign_def pow2_def dsigned_def

subsection \<open>Equal doubles\<close>

text \<open>Only the two zeros are equal with different bits.\<close>

definition dmant :: "dbl \<Rightarrow> int" where
  "dmant x = (if dexp x = 0 then dfrac x else (2 ^ 52 + dfrac x) * 2 ^ nat (dexp x - 1))"

lemma dparts: "0 \<le> dexp x" "dexp x < 2048" "0 \<le> dfrac x" "dfrac x < 2 ^ 52"
  by (simp_all add: dexp_def dfrac_def)

lemma uint_dparts: "uint x = (if dsign x then 2 ^ 63 else 0) + dexp x * 2 ^ 52 + dfrac x"
proof -
  have less: "uint x < 2 ^ 64" using uint_bounded [of x] by simp
  have "uint x = uint x div 2 ^ 52 * 2 ^ 52 + dfrac x" by (simp add: dfrac_def)
  moreover have "uint x div 2 ^ 52 = uint x div 2 ^ 52 div 2 ^ 11 * 2 ^ 11 + dexp x"
    unfolding dexp_def by (rule div_mult_mod_eq [symmetric])
  moreover have "uint x div 2 ^ 52 div 2 ^ 11 = uint x div 2 ^ 63"
    by (simp add: zdiv_zmult2_eq [symmetric])
  moreover have "uint x div 2 ^ 63 = (if dsign x then 1 else 0)"
  proof -
    have "(uint x - 2 ^ 63 + 1 * 2 ^ 63) div 2 ^ 63 = 1 + (uint x - 2 ^ 63) div 2 ^ 63"
      by (rule div_mult_self1) simp
    then show ?thesis using less by (auto simp: dsign_def div_pos_pos_trivial not_le)
  qed
  ultimately show ?thesis by (simp add: algebra_simps)
qed

lemma dval_dmant:
  assumes "dval_of x = DFin s r"
  shows "s = dsign x" and "r = of_int (dmant x) * pow2 (- 1074)"
proof -
  have "pow2 (dexp x - 1075) = 2 ^ nat (dexp x - 1) * pow2 (- 1074)" if "dexp x \<noteq> 0"
  proof (cases "1075 \<le> dexp x")
    case True
    then have "nat (dexp x - 1) = nat (dexp x - 1075) + 1074" by simp
    then show ?thesis using True by (simp add: pow2_def power_add)
  next
    case False
    then have "1074 = nat (1075 - dexp x) + nat (dexp x - 1)" using that dparts(1) [of x] by simp
    then have "(2 :: rat) ^ 1074 = 2 ^ nat (1075 - dexp x) * 2 ^ nat (dexp x - 1)"
      by (metis power_add)
    then show ?thesis using False by (simp add: pow2_def field_simps del: power_numeral)
  qed
  then show "s = dsign x" "r = of_int (dmant x) * pow2 (- 1074)"
    using assms by (auto simp: dval_of_def dmant_def split: if_splits)
qed

lemma dmant_between:
  assumes "dexp x \<noteq> 0"
  shows "2 ^ 51 * 2 ^ nat (dexp x) \<le> dmant x" and "dmant x < 2 ^ 52 * 2 ^ nat (dexp x)"
proof -
  have "nat (dexp x) = Suc (nat (dexp x - 1))" using assms dparts(1) [of x] by simp
  then show "2 ^ 51 * 2 ^ nat (dexp x) \<le> dmant x" "dmant x < 2 ^ 52 * 2 ^ nat (dexp x)"
    using dparts(3,4) [of x] assms by (simp_all add: dmant_def)
qed

lemma dmant_less: "dexp x < dexp y \<Longrightarrow> dmant x < dmant y"
proof -
  assume less: "dexp x < dexp y"
  then have y: "2 ^ 51 * 2 ^ nat (dexp y) \<le> dmant y" using dparts(1) [of x] by (intro dmant_between) simp
  have "dmant x < 2 ^ 52 * 2 ^ nat (dexp x)"
    using dmant_between(2) [of x] dparts(4) [of x] by (cases "dexp x = 0") (simp_all add: dmant_def)
  also have "\<dots> = 2 ^ 51 * 2 ^ Suc (nat (dexp x))" by simp
  also have "\<dots> \<le> (2 ^ 51 * 2 ^ nat (dexp y) :: int)"
    using less dparts(1) [of x] by (intro mult_left_mono power_increasing) auto
  finally show ?thesis using y by simp
qed

lemma dmant_inj: "dmant x = dmant y \<Longrightarrow> dexp x = dexp y \<and> dfrac x = dfrac y"
proof -
  assume eq: "dmant x = dmant y"
  then have "dexp x = dexp y" using dmant_less [of x y] dmant_less [of y x] by linarith
  with eq show ?thesis by (auto simp: dmant_def split: if_splits)
qed

lemma deq_same:
  assumes "deq x y" and "\<not> deq y 0"
  shows "x = y"
proof -
  have parts: "x = y" if "dsign x = dsign y" "dexp x = dexp y" "dfrac x = dfrac y"
    using that uint_dparts [of x] uint_dparts [of y] by (simp add: word_uint_eq_iff)
  show ?thesis
  proof (cases "dval_of x")
    case (DInf s)
    then have "dval_of y = DInf s" using assms(1) by (cases "dval_of y") (simp_all add: deq_def)
    with DInf show ?thesis by (intro parts) (auto simp: dval_of_def split: if_splits)
  next
    case x: (DFin s r)
    then obtain t q where y: "dval_of y = DFin t q" and same: "dsigned s r = dsigned t q"
      using assms(1) by (cases "dval_of y") (simp_all add: deq_def)
    have "dval_of 0 = DFin False 0" by (simp add: dval_of_def dexp_def dfrac_def dsign_def)
    then have q: "q \<noteq> 0" using assms(2) y by (cases t) (auto simp: deq_def dsigned_def)
    have m: "0 \<le> dmant x" "0 \<le> dmant y"
      using dparts [of x] dparts [of y] by (simp_all add: dmant_def)
    have "0 \<le> r" "0 \<le> q" using dval_dmant(2) [OF x] dval_dmant(2) [OF y] m pow2_pos [of "- 1074"]
      by (simp_all add: less_imp_le)
    then have "s = t" "r = q" using same q by (auto simp: dsigned_def split: if_splits)
    then have "dmant x = dmant y" "dsign x = dsign y"
      using dval_dmant [OF x] dval_dmant [OF y] pow2_pos [of "- 1074"] by auto
    then show ?thesis using dmant_inj parts by blast
  qed (use assms(1) in \<open>simp add: deq_def\<close>)
qed

end
