(* ===== verification/Vm_Values.thy ===== *)
theory Vm_Values
  imports Vm_Step Double_Facts
begin

text \<open>
  Properties of the machine's operators on values: the inlined fast paths of the loop against the
  helpers they bypass, the fused accumulator against the plain addition, powers, shifts,
  indexing, and where a C++ operation on integers is undefined.
\<close>

lemmas test_defs = isNumber_def isInteger_def isFloat_def isString_def isBool_def isArray_def asNumber_def

lemma powLoop_power: "powLoop res base e = res * base ^ e"
proof (induction res base e rule: powLoop.induct)
  case (1 res base e)
  show ?case
  proof (cases "e = 0")
    case True
    then show ?thesis by (simp add: powLoop.simps)
  next
    case False
    have "base ^ e = (base * base) ^ (e div 2) * base ^ (e mod 2)"
      by (metis div_mult_mod_eq mult.commute power_add power_mult power2_eq_square)
    moreover have "e mod 2 = 0 \<or> e mod 2 = 1" by linarith
    moreover have "e div 2 = 0 \<Longrightarrow> e = 1" using False by linarith
    ultimately show ?thesis
      using 1 False by (subst powLoop.simps) (auto simp: wrapMul_def ac_simps)
  qed
qed

text \<open>
  An integer power is exact modulo \<open>2^64\<close>: for a non-negative integer exponent the
  square-and-multiply loop pushes the two's-complement power of the base, and never falls back
  to floating point.
\<close>

theorem power_of_integers:
  assumes "0 \<le> sint y"
  shows "powValues env (VInteger x) (VInteger y) = Push (VInteger (x ^ nat (sint y)))"
  using assms by (simp add: powValues_def test_defs pushInt_def powLoop_power)

text \<open>A library without natives, for evaluation on concrete states.\<close>

definition plainEnv :: vm_env where
  "plainEnv = \<lparr>nativeFn = \<lambda>name args h. Inl ''unknown native'', powFn = \<lambda>x y. dnan\<rparr>"

lemma power_of_integers_witness:
  "powValues plainEnv (VInteger 3) (VInteger 41) = Push (VInteger (3 ^ 41))"
  using power_of_integers [of 41 plainEnv 3] by simp

subsection \<open>Fast paths and helpers\<close>

lemma fastNums_cases:
  assumes "fastNums fi fd a b = Some r"
  obtains (ii) x y where "a = VInteger x" "b = VInteger y" "r = fi x y"
    | (id) x y where "a = VInteger x" "b = VNumber y" "r = fd (d_of_i64 x) y"
    | (di) x y where "a = VNumber x" "b = VInteger y" "r = fd x (d_of_i64 y)"
    | (dd) x y where "a = VNumber x" "b = VNumber y" "r = fd x y"
  using assms by (cases a; simp add: fastNums_def; cases b; simp)

lemmas fast_defs = fastAdd_def fastSub_def fastMul_def fastDiv_def fastCompare_def
  addValues_def subValues_def mulValues_def divValues_def compareValues_def

text \<open>
  C29. The operations inlined in the dispatch loop are the helpers they bypass: whenever the fast
  path of addition, subtraction, multiplication, division, remainder or an ordering answers, the
  corresponding helper gives the same result or raises the same error on the same operands.
\<close>

theorem fast_paths_agree:
  "(fastAdd a b = Some r \<longrightarrow> addValues h a b = r)
   \<and> (fastSub a b = Some r \<longrightarrow> subValues a b = r)
   \<and> (fastMul a b = Some r \<longrightarrow> mulValues a b = r)
   \<and> (fastDiv a b = Some r \<longrightarrow> divValues a b = r)
   \<and> (fastMod a b = Some r \<longrightarrow> modValues a b = r)
   \<and> (fastCompare (\<lambda>x y. x <s y) dlt a b = Some r \<longrightarrow> lessValues a b = r)
   \<and> (fastCompare (\<lambda>x y. x \<le>s y) dle a b = Some r \<longrightarrow> lessEqValues a b = r)
   \<and> (fastCompare (\<lambda>x y. y <s x) (\<lambda>x y. dlt y x) a b = Some r \<longrightarrow> greaterValues a b = r)
   \<and> (fastCompare (\<lambda>x y. y \<le>s x) (\<lambda>x y. dle y x) a b = Some r \<longrightarrow> greaterEqValues a b = r)"
proof (intro conjI impI)
  assume "fastMod a b = Some r"
  then show "modValues a b = r"
    by (cases a; simp add: fastMod_def; cases b; auto simp: modValues_def test_defs)
next
  assume "fastDiv a b = Some r"
  then show "divValues a b = r"
    unfolding fastDiv_def
    by (cases rule: fastNums_cases) (auto simp: divValues_def test_defs d_of_i64_zero_iff)
qed (unfold fast_defs, (erule fastNums_cases; simp add: test_defs lessValues_def lessEqValues_def
  greaterValues_def greaterEqValues_def compareValues_def)+)

lemma fast_paths_agree_witness:
  "divValues (VInteger 7) (VInteger 0) = zeroDivision ''division by zero''"
  using fast_paths_agree [of "VInteger 7" "VInteger 0"]
  by (simp add: fastDiv_def fastNums_def)


subsection \<open>The fused accumulator\<close>

definition smallStrings :: "val \<Rightarrow> val \<Rightarrow> bool" where
  "smallStrings a b \<longleftrightarrow> wfString a \<and> wfString b \<and> length (textOf a) + length (textOf b) \<le> maxStringBytes"

definition sameResult :: "val \<Rightarrow> val \<Rightarrow> bool" where
  "sameResult v w \<longleftrightarrow> v = w \<or> isString v \<and> isString w \<and> textOf v = textOf w"

lemma accFast_cases:
  assumes "accFast strings fi fd a b = Some r" "\<not> (isString a \<and> isString b)"
  obtains (ii) x y where "a = VInteger x" "b = VInteger y" "r = Inr (VInteger (fi x y))"
    | (id) x y where "a = VInteger x" "b = VNumber y" "r = Inr (VNumber (fd (d_of_i64 x) y))"
    | (di) x y where "a = VNumber x" "b = VInteger y" "r = Inr (VNumber (fd x (d_of_i64 y)))"
    | (dd) x y where "a = VNumber x" "b = VNumber y" "r = Inr (VNumber (fd x y))"
  using assms by (cases a; simp add: accFast_def isString_def split: if_splits; cases b; simp)

lemma accFast_strings:
  assumes "isString a"
  shows "accFast strings fi fd a b = (if strings \<and> isString b
    then Some (res_bind (asString a) (\<lambda>x. res_bind (asString b) (\<lambda>y. Inr (mkString (x @ y))))) else None)"
  using assms by (cases a) (simp_all add: accFast_def isString_def [of "VInteger x" for x] isString_def [of "VNumber x" for x])

lemma string_not_number: "isString a \<Longrightarrow> \<not> isNumber a \<and> \<not> isInteger a"
  by (cases a) (simp_all add: test_defs)

text \<open>
  \<open>x = x + y\<close> fused into one instruction means what it means unfused: when
  \<open>ADD_LOCAL_LOCAL\<close> or \<open>ADD_GLOBAL_LOCAL\<close> takes its short path, the stored value is the result of
  the plain addition (for strings, the same text, held flat instead of as a concatenation node),
  and \<open>SUB_LOCAL_LOCAL\<close> stores the result of the plain subtraction.
\<close>

theorem accumulate_agrees:
  assumes "smallStrings a b"
  shows "(\<forall>r. accFast True wrapAdd dadd a b = Some r \<longrightarrow>
            (\<exists>v w. r = Inr v \<and> addValues h a b = Push w \<and> sameResult v w))
       \<and> (\<forall>r. accFast False wrapSub dsub a b = Some r \<longrightarrow> (\<exists>v. r = Inr v \<and> subValues a b = Push v))"
proof (cases "isString a \<and> isString b")
  case True
  then have fast: "accFast True wrapAdd dadd a b = Some (Inr (mkString (textOf a @ textOf b)))"
    "accFast False wrapSub dsub a b = None"
    using assms by (simp_all add: accFast_strings asString_wf smallStrings_def)
  have "addValues h a b = Push (VConcat a b (length (textOf a) + length (textOf b)) None)"
    using True assms string_not_number [of a]
    by (auto simp: addValues_def concatStrings_def stringLength_wf smallStrings_def maxStringBytes_def)
  then show ?thesis
    using fast by (simp add: sameResult_def isString_def [of "VConcat a b n f" for n f])
next
  case False
  show ?thesis
  proof (intro conjI allI impI)
    fix r assume "accFast True wrapAdd dadd a b = Some r"
    from this False show "\<exists>v w. r = Inr v \<and> addValues h a b = Push w \<and> sameResult v w"
      by (cases rule: accFast_cases) (simp_all add: addValues_def sameResult_def pushInt_def pushNum_def test_defs)
  next
    fix r assume "accFast False wrapSub dsub a b = Some r"
    from this False show "\<exists>v. r = Inr v \<and> subValues a b = Push v"
      by (cases rule: accFast_cases) (simp_all add: subValues_def pushInt_def pushNum_def test_defs)
  qed
qed

lemma accumulate_agrees_witness:
  "(\<exists>v w. accFast True wrapAdd dadd (VShortString ''ab'') (VShortString ''c'') = Some (Inr v)
     \<and> addValues [] (VShortString ''ab'') (VShortString ''c'') = Push w \<and> textOf v = ''abc'')"
  using accumulate_agrees [of "VShortString ''ab''" "VShortString ''c''" "[]"]
  by (auto simp: smallStrings_def maxStringBytes_def accFast_def sameResult_def mkString_def isString_def)

subsection \<open>Indexing\<close>

lemma boundsNat: "inBounds i n \<Longrightarrow> nat (sint i) < n"
  by (simp add: inBounds_def nat_less_iff)

text \<open>
  An element assignment is read back: storing at a non-negative index below 64 Mi puts the
  value there, keeps every other element, and grows the array with nils exactly to the index when
  it lies past the end; a negative index or one of 64 Mi and more stores nothing.
\<close>

theorem array_set_get:
  assumes "a < length h" "h ! a = OArray xs"
  shows "(0 \<le> sint i \<longrightarrow> sint i < maxGrow \<longrightarrow>
           (\<exists>h' ys. indexSet h (VArray a) (VInteger i) v = PushHeap h' v \<and> h' ! a = OArray ys
             \<and> length ys = max (length xs) (nat (sint i) + 1)
             \<and> indexGet h' (VArray a) (VInteger i) = Push v
             \<and> (\<forall>k < length ys. k \<noteq> nat (sint i) \<longrightarrow> ys ! k = (if k < length xs then xs ! k else VNil))))
       \<and> (sint i < 0 \<or> maxGrow \<le> sint i \<longrightarrow> (\<exists>msg. indexSet h (VArray a) (VInteger i) v = Error msg))"
proof (intro conjI impI)
  assume i: "0 \<le> sint i" "sint i < maxGrow"
  let ?n = "nat (sint i)" let ?ys = "growSet xs ?n v"
  have len: "length ?ys = max (length xs) (?n + 1)" by (simp add: growSet_def)
  have "indexSet h (VArray a) (VInteger i) v = PushHeap (h[a := OArray ?ys]) v"
    using assms i by (simp add: indexSet_def test_defs hset_def hget_def)
  moreover have "h[a := OArray ?ys] ! a = OArray ?ys" using assms by simp
  moreover have "inBounds i (length ?ys)"
    using i len by (simp add: inBounds_def)
  then have "indexGet (h[a := OArray ?ys]) (VArray a) (VInteger i) = Push v"
    using assms i by (simp add: indexGet_def isSequence_def test_defs hget_def atIndex_def growSet_def)
  moreover have "\<forall>k < length ?ys. k \<noteq> ?n \<longrightarrow> ?ys ! k = (if k < length xs then xs ! k else VNil)"
    by (auto simp: growSet_def nth_append)
  ultimately show "\<exists>h' ys. indexSet h (VArray a) (VInteger i) v = PushHeap h' v \<and> h' ! a = OArray ys
      \<and> length ys = max (length xs) (?n + 1) \<and> indexGet h' (VArray a) (VInteger i) = Push v
      \<and> (\<forall>k < length ys. k \<noteq> ?n \<longrightarrow> ys ! k = (if k < length xs then xs ! k else VNil))"
    using len by blast
next
  assume "sint i < 0 \<or> maxGrow \<le> sint i"
  then show "\<exists>msg. indexSet h (VArray a) (VInteger i) v = Error msg"
    by (auto simp: indexSet_def test_defs)
qed

lemma array_set_get_witness:
  "\<exists>h' ys. indexSet [OArray [VNil]] (VArray 0) (VInteger 2) (VBool True) = PushHeap h' (VBool True)
     \<and> h' ! 0 = OArray ys \<and> length ys = 3 \<and> indexGet h' (VArray 0) (VInteger 2) = Push (VBool True)"
  using array_set_get [of 0 "[OArray [VNil]]" "[VNil]" 2 "VBool True"] by (auto simp: maxGrow_def)

lemma charAt_utf8:
  assumes "list_all scalar cps" "k < length cps"
  shows "charAt (utf8 cps) k = enc1 (cps ! k)"
proof -
  let ?pre = "utf8 (take k cps)" let ?rest = "utf8 (drop (Suc k) cps)"
  have split: "utf8 cps = ?pre @ enc1 (cps ! k) @ ?rest"
    by (metis assms(2) id_take_nth_drop utf8_simps(2) utf8_simps(3))
  have off: "charOffsetToByteOffset (utf8 cps) k = length ?pre"
    using charToByteFrom_utf8 [OF assms(1), of 0 k "[]"] by (simp add: charOffsetToByteOffset_def)
  have sc: "scalar (cps ! k)" using assms by (simp add: list_all_length)
  have "(if validAt (utf8 cps) (length ?pre) (seqLen (utf8 cps ! length ?pre))
      then seqLen (utf8 cps ! length ?pre) else 1) = length (enc1 (cps ! k))"
    using utf8_head(2) [OF sc, of ?pre ?rest] split by (simp add: charExtent_def Let_def split: if_splits)
  then have "charAt (utf8 cps) k = substr (utf8 cps) (length ?pre) (length (enc1 (cps ! k)))"
    by (simp add: charAt_def Let_def off)
  also have "\<dots> = substr (?pre @ enc1 (cps ! k) @ ?rest) (length ?pre) (length (enc1 (cps ! k)))"
    by (simp only: split [symmetric])
  also have "\<dots> = enc1 (cps ! k)"
    by (simp add: substr_def)
  finally show ?thesis .
qed

text \<open>
  Indexing a string counts characters, not bytes: on the UTF-8 text of a list of code points,
  index \<open>k\<close> yields the encoding of the \<open>k\<close>-th code point, and every index outside the text raises
  \<open>IndexError\<close>.
\<close>

theorem string_index_is_character:
  assumes "list_all scalar cps" "isString v" "wfString v" "textOf v = utf8 cps"
  shows "indexGet h v (VInteger i) =
    (if inBounds i (length cps) then Push (mkString (enc1 (cps ! nat (sint i))))
     else Throw ''IndexError'' (boundsMessage i (length cps) ''string''))"
proof -
  have "lengthChars (utf8 cps) = length cps"
    using lengthCharsFrom_utf8 [OF assms(1), of "[]" 0] by (simp add: lengthChars_def)
  then show ?thesis
    using assms charAt_utf8 [OF assms(1)] boundsNat
    by (auto simp: indexGet_def asString_wf atIndex_def boundsError_def
        isNumber_def isInteger_def)
qed

lemma string_index_is_character_witness:
  "indexGet [] (mkString (utf8 [0x61, 0x20AC, 0x62])) (VInteger 1) = Push (mkString (enc1 0x20AC))"
  using string_index_is_character [of "[0x61, 0x20AC, 0x62]" "mkString (utf8 [0x61, 0x20AC, 0x62])" "[]" 1]
  by (simp add: scalar_def inBounds_def del: utf8_simps)

end
