(* ===== verification/Vm_Inv.thy ===== *)
theory Vm_Inv
  imports Vm_Values
begin

text \<open>
  The machine invariant of \<open>src/vm\<close>: stack pointers inside the operand stack, every frame's slots
  inside it, the call depth at its limit at most, one capture list per frame, and an open-upvalue
  list that is sorted, duplicate-free and really open. This theory defines it and shows that the
  operations that do not re-enter the machine keep it.
\<close>

subsection \<open>The invariant\<close>

text \<open>The open list, strictly downwards, of upvalues that point at the stack.\<close>

definition openOk :: "upvalueObj list \<Rightarrow> nat list \<Rightarrow> bool" where
  "openOk ups os \<longleftrightarrow>
     sorted_wrt (\<lambda>u w. the (upLoc (ups ! w)) < the (upLoc (ups ! u))) os \<and>
     (\<forall>u\<in>set os. u < length ups \<and> upLoc (ups ! u) \<noteq> None)"

definition frameFits :: "nat \<Rightarrow> code_unit list \<Rightarrow> callFrame \<Rightarrow> bool" where
  "frameFits n prog f \<longleftrightarrow> fslots f + fnLocalCount (cuHeader (prog ! ffun f)) \<le> n"

definition vmInv :: "nat \<Rightarrow> nat \<Rightarrow> code_unit list \<Rightarrow> vm \<Rightarrow> bool" where
  "vmInv n depth prog s \<longleftrightarrow>
     stackMax s = n \<and> maxFrames s = depth \<and> program s = prog \<and>
     top s \<le> n \<and> mtop s \<le> n \<and>
     length (frames s) \<le> depth \<and> length (frames s) \<le> length (frameUpvalues s) \<and>
     (\<forall>f\<in>set (frames s). frameFits n prog f) \<and>
     (\<forall>tb\<in>set (tryStack s). tbTop tb \<le> n) \<and>
     openOk (upvals s) (openUpvalues s)"

lemma vmInv_irrelevant [simp]:
  "vmInv n d p (s\<lparr>mem := a1\<rparr>) = vmInv n d p s"
  "vmInv n d p (s\<lparr>ip := a2\<rparr>) = vmInv n d p s"
  "vmInv n d p (s\<lparr>pendingException := a3\<rparr>) = vmInv n d p s"
  "vmInv n d p (s\<lparr>running := a4\<rparr>) = vmInv n d p s"
  "vmInv n d p (s\<lparr>vmHeap := a6\<rparr>) = vmInv n d p s"
  "vmInv n d p (s\<lparr>globals := a7\<rparr>) = vmInv n d p s"
  "vmInv n d p (s\<lparr>globalSlots := a8\<rparr>) = vmInv n d p s"
  "vmInv n d p (s\<lparr>instructionCount := a9\<rparr>) = vmInv n d p s"
  "vmInv n d p (s\<lparr>maxInstructions := b1\<rparr>) = vmInv n d p s"
  "vmInv n d p (s\<lparr>cxxFrameDepth := b2\<rparr>) = vmInv n d p s"
  "vmInv n d p (s\<lparr>startFrames := b3\<rparr>) = vmInv n d p s"
  "vmInv n d p (s\<lparr>pushedTasks := b4\<rparr>) = vmInv n d p s"
  "vmInv n d p (s\<lparr>printed := b5\<rparr>) = vmInv n d p s"
  by (simp_all add: vmInv_def)

lemma vmInv_top [simp]: "vmInv n d p s \<Longrightarrow> vmInv n d p (s\<lparr>top := x\<rparr>) = (x \<le> n)"
  by (simp add: vmInv_def)

lemma vmInv_mtop [simp]: "vmInv n d p s \<Longrightarrow> vmInv n d p (s\<lparr>mtop := x\<rparr>) = (x \<le> n)"
  by (simp add: vmInv_def)

lemma vmInv_tryStack [simp]:
  "vmInv n d p s \<Longrightarrow> vmInv n d p (s\<lparr>tryStack := x\<rparr>) = (\<forall>tb\<in>set x. tbTop tb \<le> n)"
  by (simp add: vmInv_def)

lemma vmInv_frameUpvalues [simp]:
  "vmInv n d p s \<Longrightarrow> vmInv n d p (s\<lparr>frameUpvalues := x\<rparr>) = (length (frames s) \<le> length x)"
  by (simp add: vmInv_def)

lemma vmInvD:
  assumes "vmInv n d p s"
  shows "stackMax s = n" "maxFrames s = d" "program s = p" "top s \<le> n" "mtop s \<le> n"
    "length (frames s) \<le> d" "length (frames s) \<le> length (frameUpvalues s)"
    "\<And>f. f \<in> set (frames s) \<Longrightarrow> frameFits n p f"
    "\<And>tb. tb \<in> set (tryStack s) \<Longrightarrow> tbTop tb \<le> n"
    "openOk (upvals s) (openUpvalues s)"
  using assms by (auto simp: vmInv_def)

subsection \<open>Results that keep a predicate\<close>

text \<open>A result keeps \<open>P\<close> when its state satisfies it, returned or stopped.\<close>

fun resState :: "(stop \<times> vm) + ('a \<times> vm) \<Rightarrow> vm" where
  "resState (Inl (e, t)) = t"
| "resState (Inr (a, t)) = t"

definition keeps :: "(vm \<Rightarrow> bool) \<Rightarrow> 'a act \<Rightarrow> bool" where
  "keeps P m \<longleftrightarrow> (\<forall>s. P s \<longrightarrow> P (resState (m s)))"

named_theorems keeping

lemma keepsI: "(\<And>s. P s \<Longrightarrow> P (resState (m s))) \<Longrightarrow> keeps P m"
  by (simp add: keeps_def)

lemma keepsD: "keeps P m \<Longrightarrow> P s \<Longrightarrow> P (resState (m s))"
  by (simp add: keeps_def)

lemma keeps_bndI:
  assumes "P (resState (m s))" and "\<And>a t. m s = Inr (a, t) \<Longrightarrow> P t \<Longrightarrow> P (resState (f a t))"
  shows "P (resState (bnd m f s))"
proof (cases "m s")
  case (Inl x)
  then show ?thesis using assms(1) by (cases x) (simp add: bnd_def)
next
  case (Inr x)
  then show ?thesis using assms by (cases x) (simp add: bnd_def)
qed

lemma keeps_bnd [keeping]: "keeps P m \<Longrightarrow> (\<And>a. keeps P (f a)) \<Longrightarrow> keeps P (bnd m f)"
  by (rule keepsI, rule keeps_bndI) (simp_all add: keeps_def)

lemma keeps_thn [keeping]: "keeps P m \<Longrightarrow> keeps P k \<Longrightarrow> keeps P (thn m k)"
  unfolding thn_def by (rule keeps_bnd)

lemma keeps_ret [keeping]: "keeps P (act_ret a)"
  by (simp add: keeps_def act_ret_def)

lemma keeps_stop [keeping]: "keeps P (act_stop e)"
  by (simp add: keeps_def act_stop_def)

lemma keeps_lift [keeping]: "keeps P (act_lift r)"
  by (simp add: keeps_def act_lift_def split: sum.splits)

lemma keeps_upd: "(\<And>s. P s \<Longrightarrow> P (f s)) \<Longrightarrow> keeps P (act_upd f)"
  by (simp add: keeps_def act_upd_def)

lemma keeps_next_op [keeping]: "keeps P m \<Longrightarrow> keeps P (next_op m)"
  unfolding next_op_def by (intro keeping)

lemma keeps_if [keeping]: "(b \<Longrightarrow> keeps P m) \<Longrightarrow> (\<not> b \<Longrightarrow> keeps P k) \<Longrightarrow> keeps P (if b then m else k)"
  by simp

lemma keeps_option [keeping]:
  "keeps P m \<Longrightarrow> (\<And>a. keeps P (f a)) \<Longrightarrow> keeps P (case x of None \<Rightarrow> m | Some a \<Rightarrow> f a)"
  by (cases x) simp_all

lemma keeps_at: "(\<And>s. keeps P (f s)) \<Longrightarrow> keeps P (\<lambda>s. f s s)"
  by (simp add: keeps_def)

subsection \<open>The basic operations\<close>

lemma vmInv_runtimeError [simp]: "vmInv n d p (runtimeError msg s) = vmInv n d p s"
  by (simp add: runtimeError_def)

lemma vmInv_throwException [simp]: "vmInv n d p s \<Longrightarrow> vmInv n d p (throwException cls msg s)"
  by (cases "getGlobal s cls") (simp_all add: throwException_def Let_def split: prod.split)

lemma keeps_fault [keeping]: "keeps (vmInv n d p) (fault msg)"
  unfolding fault_def by (rule keeps_upd) simp

lemma keeps_raise [keeping]: "keeps (vmInv n d p) (raise cls msg)"
  unfolding raise_def by (rule keeps_upd) simp

lemma keeps_push [keeping]: "keeps (vmInv n d p) (push v)"
  by (rule keepsI) (simp add: push_def, auto simp: vmInv_def)

lemma keeps_pop [keeping]: "keeps (vmInv n d p) pop"
  by (rule keepsI) (simp add: pop_def, auto simp: vmInv_def)

lemma keeps_peek [keeping]: "keeps (vmInv n d p) (peek i)"
  by (rule keepsI) (simp add: peek_def)

lemma keeps_rawPush [keeping]: "keeps (vmInv n d p) (rawPush v)"
  by (rule keepsI) (simp add: rawPush_def, auto simp: vmInv_def)

lemma keeps_rawPop [keeping]: "keeps (vmInv n d p) rawPop"
  by (rule keepsI) (simp add: rawPop_def, auto simp: vmInv_def)

lemma keeps_rawPeek [keeping]: "keeps (vmInv n d p) (rawPeek i)"
  by (rule keepsI) (simp add: rawPeek_def)

lemma keeps_getSlot [keeping]: "keeps (vmInv n d p) (getSlot i)"
  by (rule keepsI) (simp add: getSlot_def)

lemma keeps_setSlot [keeping]: "keeps (vmInv n d p) (setSlot i v)"
  by (rule keepsI) (simp add: setSlot_def)

lemma vmInv_clearSlots [simp]: "vmInv n d p (clearSlots lo hi s) = vmInv n d p s"
  by (simp add: clearSlots_def)

lemma vmInv_updFrame:
  assumes "\<And>f. ffun (g f) = ffun f \<and> fslots (g f) = fslots f" and "vmInv n d p s"
  shows "vmInv n d p (updFrame g s)"
proof (cases "frames s = []")
  case True
  then show ?thesis using assms by (simp add: updFrame_def)
next
  case False
  then have split: "frames s = butlast (frames s) @ [curFrame s]"
    by (simp add: curFrame_def)
  have "frameFits n p (g (curFrame s))"
    using assms vmInvD(8) [OF assms(2), of "curFrame s"] False
    by (simp add: frameFits_def curFrame_def)
  moreover have "frameFits n p f" if "f \<in> set (butlast (frames s))" for f
    using vmInvD(8) [OF assms(2)] in_set_butlastD [OF that] by simp
  moreover have "Suc (length (butlast (frames s))) = length (frames s)"
    using False by simp
  ultimately show ?thesis
    using assms(2) False by (auto simp: updFrame_def vmInv_def)
qed

lemma vmInv_syncIp [simp]: "vmInv n d p s \<Longrightarrow> vmInv n d p (syncIp s)"
  unfolding syncIp_def by (rule vmInv_updFrame) (simp_all add: vmInvD(4))

lemma vmInv_loadFrame [simp]: "vmInv n d p s \<Longrightarrow> vmInv n d p (loadFrame s)"
  by (simp add: loadFrame_def vmInvD(5))

lemma keeps_syncIp [keeping]: "keeps (vmInv n d p) (act_upd syncIp)"
  by (rule keeps_upd) simp

lemma keeps_loadFrame [keeping]: "keeps (vmInv n d p) (act_upd loadFrame)"
  by (rule keeps_upd) simp

subsection \<open>Upvalues\<close>

lemma openOk_closeOne:
  assumes "openOk ups (u # os)"
  shows "openOk (ups[u := x]) os"
proof -
  have ne: "u \<noteq> w" if "w \<in> set os" for w
    using assms that by (auto simp: openOk_def)
  have "sorted_wrt (\<lambda>a b. the (upLoc (ups[u := x] ! b)) < the (upLoc (ups[u := x] ! a))) os"
  proof (rule sorted_wrt_mono_rel [of os "\<lambda>a b. the (upLoc (ups ! b)) < the (upLoc (ups ! a))"])
    show "sorted_wrt (\<lambda>a b. the (upLoc (ups ! b)) < the (upLoc (ups ! a))) os"
      using assms by (simp add: openOk_def)
  qed (simp add: ne)
  then show ?thesis
    using assms ne by (auto simp: openOk_def)
qed

lemma vmInv_closeLoop:
  "vmInv n d p (s\<lparr>openUpvalues := us\<rparr>) \<Longrightarrow> vmInv n d p (closeLoop lo us s)"
proof (induction lo us s rule: closeLoop.induct)
  case (2 lo u us s)
  have "vmInv n d p ((closeOne u s)\<lparr>openUpvalues := us\<rparr>)"
    using 2(2) openOk_closeOne [of "upvals s" u us] by (simp add: vmInv_def closeOne_def)
  then show ?case using 2 by simp
qed simp

lemma vmInv_closeUpvalues [simp]: "vmInv n d p s \<Longrightarrow> vmInv n d p (closeUpvalues lo s)"
  unfolding closeUpvalues_def by (rule vmInv_closeLoop) simp

text \<open>The sorted list around a slot: what lies above it, and at most one upvalue for it.\<close>

lemma upPos_open: "openOk (upvals s) os \<Longrightarrow> u \<in> set os \<Longrightarrow> upLoc (upvals s ! u) = Some (upPos s u)"
  by (auto simp: openOk_def upPos_def upAt_def split: option.split)

lemma openOk_alt:
  "openOk (upvals s) os \<longleftrightarrow>
     sorted_wrt (\<lambda>u w. upPos s w < upPos s u) os \<and>
     (\<forall>u\<in>set os. u < length (upvals s) \<and> upLoc (upvals s ! u) \<noteq> None)"
proof -
  have "sorted_wrt (\<lambda>u w. the (upLoc (upvals s ! w)) < the (upLoc (upvals s ! u))) os =
      sorted_wrt (\<lambda>u w. upPos s w < upPos s u) os"
    if "\<forall>u\<in>set os. upLoc (upvals s ! u) \<noteq> None"
  proof -
    have "the (upLoc (upvals s ! u)) = upPos s u" if "u \<in> set os" for u
      using \<open>\<forall>u\<in>set os. upLoc (upvals s ! u) \<noteq> None\<close> that
      by (auto simp: upPos_def upAt_def)
    then show ?thesis by (auto elim!: sorted_wrt_mono_rel [rotated])
  qed
  then show ?thesis unfolding openOk_def by blast
qed

lemma sorted_dropWhile_above:
  assumes "sorted_wrt (\<lambda>u w. f w < f u) xs" and "w \<in> set (dropWhile (\<lambda>u. (lo::nat) < f u) xs)"
  shows "f w \<le> lo"
  using assms by (induction xs) (auto split: if_splits)

lemma openOk_fresh:
  assumes "openOk ups (hi @ rest)"
    and "\<forall>u\<in>set hi. local < the (upLoc (ups ! u))"
    and "\<forall>u\<in>set rest. the (upLoc (ups ! u)) < local"
  shows "openOk (ups @ [\<lparr>upLoc = Some local, upClosed = v\<rparr>]) (hi @ length ups # rest)"
proof -
  let ?new = "ups @ [\<lparr>upLoc = Some local, upClosed = v\<rparr>]"
  have old: "?new ! u = ups ! u" if "u \<in> set hi \<union> set rest" for u
    using assms(1) that by (auto simp: openOk_def nth_append)
  have "sorted_wrt (\<lambda>u w. the (upLoc (?new ! w)) < the (upLoc (?new ! u))) (hi @ rest)"
  proof (rule sorted_wrt_mono_rel [of _ "\<lambda>u w. the (upLoc (ups ! w)) < the (upLoc (ups ! u))"])
    show "sorted_wrt (\<lambda>u w. the (upLoc (ups ! w)) < the (upLoc (ups ! u))) (hi @ rest)"
      using assms(1) by (simp add: openOk_def)
  qed (use old in auto)
  then show ?thesis
    using assms old by (auto simp: openOk_def sorted_wrt_append less_SucI)
qed

lemma captureUpvalue_open:
  assumes ok0: "openOk (upvals s) (openUpvalues s)" and capture: "captureUpvalue local s = (u, t)"
  shows "openOk (upvals t) (openUpvalues t) \<and> u \<in> set (openUpvalues t) \<and> upLoc (upAt t u) = Some local"
proof -
  let ?hi = "takeWhile (\<lambda>u. upPos s u > local) (openUpvalues s)"
  let ?rest = "dropWhile (\<lambda>u. upPos s u > local) (openUpvalues s)"
  have ok: "openOk (upvals s) (?hi @ ?rest)" using ok0 by simp
  have pos: "upLoc (upvals s ! u) = Some (upPos s u)" if "u \<in> set (openUpvalues s)" for u
    using upPos_open [OF ok0 that] .
  have sorted: "sorted_wrt (\<lambda>u w. upPos s w < upPos s u) (?hi @ ?rest)"
    using ok openOk_alt [of s] by simp
  have low: "upPos s u \<le> local" if "u \<in> set ?rest" for u
    using sorted_dropWhile_above [of "upPos s" "openUpvalues s"] that sorted by simp
  show ?thesis
  proof (cases "\<exists>w us. ?rest = w # us \<and> upPos s w = local")
    case True
    then obtain w us where w: "?rest = w # us" "upPos s w = local" by blast
    then have "u = w" "t = s" using capture by (auto simp: captureUpvalue_def)
    moreover have "w \<in> set (openUpvalues s)" using w(1) by (metis list.set_intros(1) set_dropWhileD)
    ultimately show ?thesis using ok0 pos w(2) by (simp add: upAt_def)
  next
    case False
    have below: "upPos s u < local" if "u \<in> set ?rest" for u
    proof (cases ?rest)
      case Nil
      show ?thesis using that unfolding Nil by simp
    next
      case (Cons w ws)
      have "upPos s w < local" using False Cons low [of w] by fastforce
      moreover have "upPos s u < upPos s w" if "u \<in> set ws"
      proof -
        have "sorted_wrt (\<lambda>u w. upPos s w < upPos s u) ?rest"
          using sorted by (simp only: sorted_wrt_append)
        then show ?thesis using that unfolding Cons by simp
      qed
      ultimately show ?thesis using that unfolding Cons by auto
    qed
    have "openOk (upvals s @ [\<lparr>upLoc = Some local, upClosed = VNil\<rparr>]) (?hi @ length (upvals s) # ?rest)"
    proof (rule openOk_fresh [OF ok])
      show "\<forall>u\<in>set ?hi. local < the (upLoc (upvals s ! u))"
        using pos by (auto dest: set_takeWhileD)
      have "the (upLoc (upvals s ! u)) < local" if "u \<in> set ?rest" for u
        using pos [OF set_dropWhileD [OF that]] below [OF that] by simp
      then show "\<forall>u\<in>set ?rest. the (upLoc (upvals s ! u)) < local" by blast
    qed
    moreover have "captureUpvalue local s = (length (upvals s),
        s\<lparr>upvals := upvals s @ [\<lparr>upLoc = Some local, upClosed = VNil\<rparr>],
          openUpvalues := ?hi @ length (upvals s) # ?rest\<rparr>)"
      using False by (auto simp: captureUpvalue_def Let_def split: list.split)
    ultimately show ?thesis using capture by (auto simp: upAt_def)
  qed
qed

lemma vmInv_captureUpvalue:
  assumes "vmInv n d p s"
  shows "vmInv n d p (snd (captureUpvalue local s))"
proof -
  obtain u t where capture: "captureUpvalue local s = (u, t)" by fastforce
  then have "openOk (upvals t) (openUpvalues t)"
    using captureUpvalue_open [OF vmInvD(10) [OF assms]] by blast
  moreover have "stackMax t = stackMax s" "maxFrames t = maxFrames s" "program t = program s"
    "top t = top s" "mtop t = mtop s" "frames t = frames s" "frameUpvalues t = frameUpvalues s"
    "tryStack t = tryStack s"
    using capture by (auto simp: captureUpvalue_def Let_def split: list.splits if_splits)
  ultimately have "vmInv n d p t" using assms by (simp add: vmInv_def)
  then show ?thesis using capture by simp
qed

subsection \<open>Frames and unwinding\<close>

lemma vmInv_popFrame [simp]: "vmInv n d p s \<Longrightarrow> vmInv n d p (popFrame s)"
  by (auto simp: vmInv_def popFrame_def dest: in_set_butlastD)

lemma vmInv_unwindFrames [simp]: "vmInv n d p s \<Longrightarrow> vmInv n d p (unwindFrames i s)"
  by (induction i s rule: unwindFrames.induct) (subst unwindFrames.simps, simp)

lemma vmInv_dropTryBlocks [simp]: "vmInv n d p s \<Longrightarrow> vmInv n d p (dropTryBlocks i s)"
  unfolding dropTryBlocks_def by (auto simp: vmInvD dest: set_dropWhileD)

lemma keeps_enterHandler:
  assumes "vmInv n d p s"
  shows "vmInv n d p (resState (enterHandler tb exc s))"
proof -
  have "vmInv n d p (s\<lparr>tryStack := tl (tryStack s)\<rparr>)"
    using assms by (cases "tryStack s") (auto simp: vmInv_def)
  then have u: "vmInv n d p (unwindFrames (tbFrame tb) (s\<lparr>tryStack := tl (tryStack s)\<rparr>))"
    by simp
  then have "vmInv n d p (loadFrame ((unwindFrames (tbFrame tb) (s\<lparr>tryStack := tl (tryStack s)\<rparr>))\<lparr>top := tbTop tb\<rparr>))"
    using vmInvD(5) [OF u] by (simp add: loadFrame_def)
  then show ?thesis
    unfolding enterHandler_def Let_def by (intro keepsD [OF keeps_rawPush]) simp
qed

lemma keeps_handleFault [keeping]: "keeps (vmInv n d p) handleFault"
proof (rule keepsI)
  fix s assume inv: "vmInv n d p s"
  have "vmInv n d p (resState (thn (enterHandler tb exc)
      (thn (act_upd (\<lambda>t. t\<lparr>pendingException := VNil\<rparr>)) (act_ret FNext)) (s\<lparr>running := True\<rparr>)))" for tb exc
    by (rule keepsD [of _ "thn _ _"], intro keeping keepsI keeps_enterHandler keeps_upd)
       (simp_all add: inv)
  then show "vmInv n d p (resState (handleFault s))"
    using inv by (simp add: handleFault_def)
qed

lemma vmInv_enterFrame:
  assumes inv: "vmInv n d p s" and depth: "length (frames s) < d"
    and room: "mtop s + fnLocalCount (cuHeader (unitOf s f)) + stackHeadroom \<le> n"
    and arity: "fnArity (cuHeader (unitOf s f)) \<le> 255" and argc: "argc \<le> mtop s"
  shows "vmInv n d p (enterFrame f argc cs s)"
proof -
  let ?lc = "fnLocalCount (cuHeader (unitOf s f))" and ?ar = "fnArity (cuHeader (unitOf s f))"
  have "mtop s - argc + max (max argc ?ar) ?lc \<le> n" "mtop s - argc + ?lc \<le> n"
    using room arity argc by (auto simp: stackHeadroom_def max_def)
  then show ?thesis
    using inv depth
    by (auto simp: enterFrame_def Let_def vmInv_def frameFits_def unitOf_def clearSlots_def)
qed

lemma keeps_pushCallFrame:
  assumes "vmInv n d p s" and "argc \<le> mtop s"
  shows "vmInv n d p (resState (pushCallFrame f argc cs s))"
  using assms vmInv_enterFrame [OF assms(1), of f argc cs]
  by (auto simp: pushCallFrame_def hasStackHeadroom_def vmInvD not_le)

subsection \<open>Calls and handlers that do not re-enter\<close>

lemma keeps_textValue [keeping]: "keeps P (textValue v)"
  by (rule keepsI) (simp add: textValue_def keepsD [OF keeps_lift])

lemma keeps_guardedHelper [keeping]: "keeps (vmInv n d p) m \<Longrightarrow> keeps (vmInv n d p) (guardedHelper m)"
proof (rule keepsI)
  fix s assume "keeps (vmInv n d p) m" "vmInv n d p s"
  then have "vmInv n d p (resState (m s))" by (rule keepsD)
  then show "vmInv n d p (resState (guardedHelper m s))"
    by (auto simp: guardedHelper_def split: sum.splits prod.splits stop.splits)
qed

lemma keeps_callNative [keeping]: "keeps (vmInv n d p) (callNative env name arity argc)"
proof (rule keepsI)
  fix s assume inv: "vmInv n d p s"
  have "vmInv n d p (resState (thn (push v) (act_ret True) (clearSlots lo hi (s\<lparr>vmHeap := h, mtop := x\<rparr>))))"
    if "x \<le> n" for v lo hi x h
    by (rule keepsD [OF keeps_thn [OF keeps_push keeps_ret]]) (simp add: inv that)
  moreover have "mtop s - (argc + 1) \<le> n" using vmInvD(5) [OF inv] by simp
  ultimately show "vmInv n d p (resState (callNative env name arity argc s))"
    using inv by (simp add: callNative_def Let_def split: sum.split prod.split)
qed

lemma gatherRest_keeps:
  assumes "vmInv n d p s"
  shows "vmInv n d p (resState (gatherRest fh argc s)) \<and>
    (\<forall>k t. gatherRest fh argc s = Inr (k, t) \<longrightarrow> k \<le> mtop t)"
  using assms by (auto simp: gatherRest_def Let_def vmInvD(1) clearSlots_def split: prod.split)

lemma keeps_insertReceiver [keeping]: "keeps (vmInv n d p) (insertReceiver m r argc)"
  by (rule keepsI) (simp add: insertReceiver_def Let_def)

lemma keeps_startTask [keeping]: "keeps (vmInv n d p) (startTask callee argc)"
proof (rule keepsI)
  fix s assume inv: "vmInv n d p s"
  have "vmInv n d p (resState (thn (push v) (act_ret False)
      (s\<lparr>pushedTasks := ts, vmHeap := h, mtop := mtop s - k\<rparr>)))" for v ts h k
    by (rule keepsD [OF keeps_thn [OF keeps_push keeps_ret]]) (use inv vmInvD(5) [OF inv] in simp)
  then show "vmInv n d p (resState (startTask callee argc s))"
    using inv by (simp add: startTask_def split: prod.split)
qed

lemma keeps_enterCall:
  assumes "vmInv n d p s" and "argc \<le> mtop s"
  shows "vmInv n d p (resState (enterCall callee f ups bypass argc s))"
  using keepsD [OF keeps_startTask assms(1)] keeps_pushCallFrame [OF assms]
  by (simp add: enterCall_def thn_def keeps_bndI act_ret_def)

lemma keeps_callBytecode [keeping]: "keeps (vmInv n d p) (callBytecode callee f ups argc bypass)"
proof (rule keepsI)
  fix s assume inv: "vmInv n d p s"
  let ?fh = "cuHeader (unitOf s f)"
  have "vmInv n d p (resState (bnd (gatherRest ?fh argc) (enterCall callee f ups bypass) s))"
  proof (rule keeps_bndI)
    show "vmInv n d p (resState (gatherRest ?fh argc s))"
      using gatherRest_keeps [OF inv] by blast
    show "vmInv n d p (resState (enterCall callee f ups bypass k t))"
      if "gatherRest ?fh argc s = Inr (k, t)" "vmInv n d p t" for k t
      using gatherRest_keeps [OF inv, of ?fh argc] that by (intro keeps_enterCall) blast+
  qed
  moreover have "vmInv n d p (resState (enterCall callee f ups bypass argc s))" if "argc \<le> mtop s"
    using keeps_enterCall inv that by blast
  ultimately show "vmInv n d p (resState (callBytecode callee f ups argc bypass s))"
    using inv by (simp add: callBytecode_def Let_def not_less split: option.split)
qed

lemma keeps_readByte [keeping]: "keeps (vmInv n d p) readByte"
  by (rule keepsI) (simp add: readByte_def)

lemma keeps_jumpBy [keeping]: "keeps (vmInv n d p) (jumpBy k)"
  unfolding jumpBy_def by (rule keeps_upd) simp

lemma keeps_readShort [keeping]: "keeps (vmInv n d p) readShort"
  unfolding readShort_def by (intro keeping)

lemma keeps_readInt [keeping]: "keeps (vmInv n d p) readInt"
  unfolding readInt_def by (intro keeping)

lemma keeps_nameAt [keeping]: "keeps (vmInv n d p) (nameAt i)"
  by (rule keepsI) (simp add: nameAt_def split: const_val.split)

lemma keeps_readName [keeping]: "keeps (vmInv n d p) readName"
  unfolding readName_def by (intro keeping)

lemma keeps_localPos [keeping]: "keeps (vmInv n d p) (localPos i)"
  by (rule keepsI) (simp add: localPos_def)

lemma keeps_loadSlot [keeping]: "keeps (vmInv n d p) (loadSlot i)"
  unfolding loadSlot_def by (intro keeping)

lemma keeps_storeSlot [keeping]: "keeps (vmInv n d p) (storeSlot i v)"
  unfolding storeSlot_def by (intro keeping)

lemma keeps_failWith [keeping]: "keeps (vmInv n d p) m \<Longrightarrow> keeps (vmInv n d p) (failWith m)"
  unfolding failWith_def by (intro keeping)

lemma keeps_viaHelper [keeping]: "keeps (vmInv n d p) m \<Longrightarrow> keeps (vmInv n d p) (viaHelper m)"
  unfolding viaHelper_def by (intro keeping)

lemma keeps_viaBareHelper [keeping]: "keeps (vmInv n d p) m \<Longrightarrow> keeps (vmInv n d p) (viaBareHelper m)"
  unfolding viaBareHelper_def by (intro keeping)

lemma keeps_topFromMember [keeping]: "keeps (vmInv n d p) (act_upd (\<lambda>s. s\<lparr>top := mtop s\<rparr>))"
  by (rule keeps_upd) (simp add: vmInvD(5))

lemma keeps_memberFromTop [keeping]: "keeps (vmInv n d p) (act_upd (\<lambda>s. s\<lparr>mtop := top s\<rparr>))"
  by (rule keeps_upd) (simp add: vmInvD(4))

lemma keeps_viaIndexHelper [keeping]: "keeps (vmInv n d p) m \<Longrightarrow> keeps (vmInv n d p) (viaIndexHelper m)"
  unfolding viaIndexHelper_def by (intro keeping)

lemma keeps_loadUpvalue [keeping]: "keeps (vmInv n d p) (loadUpvalue i)"
  by (rule keepsI) (simp add: loadUpvalue_def Let_def)

text \<open>A closed upvalue may take any value; an open one keeps its place.\<close>

lemma openOk_setClosed:
  "openOk ups os \<Longrightarrow> upLoc (ups ! u) = None \<Longrightarrow> openOk (ups[u := (ups ! u)\<lparr>upClosed := v\<rparr>]) os"
proof -
  assume ok: "openOk ups os" and closed: "upLoc (ups ! u) = None"
  have ne: "u \<noteq> w" if "w \<in> set os" for w
    using ok closed that by (auto simp: openOk_def)
  have "sorted_wrt (\<lambda>a b. the (upLoc (ups[u := (ups ! u)\<lparr>upClosed := v\<rparr>] ! b)) <
      the (upLoc (ups[u := (ups ! u)\<lparr>upClosed := v\<rparr>] ! a))) os"
  proof (rule sorted_wrt_mono_rel [of os "\<lambda>a b. the (upLoc (ups ! b)) < the (upLoc (ups ! a))"])
    show "sorted_wrt (\<lambda>a b. the (upLoc (ups ! b)) < the (upLoc (ups ! a))) os"
      using ok by (simp add: openOk_def)
  qed (simp add: ne)
  then show ?thesis using ok ne by (auto simp: openOk_def)
qed

lemma vmInv_storeUpvalue: "vmInv n d p s \<Longrightarrow> vmInv n d p (storeUpvalue i v s)"
  using openOk_setClosed [of "upvals s" "openUpvalues s" "last (frameUpvalues s) ! i" v]
  by (auto simp: storeUpvalue_def Let_def upAt_def vmInv_def split: option.split)

lemma keeps_storeUpvalue [keeping]: "keeps (vmInv n d p) (act_upd (storeUpvalue i v))"
  by (rule keeps_upd) (rule vmInv_storeUpvalue)

lemma keeps_loadConst [keeping]: "keeps (vmInv n d p) (loadConst i)"
proof (rule keepsI)
  fix s assume inv: "vmInv n d p s"
  have "keeps (vmInv n d p) (failWith (fault msg))" "keeps (vmInv n d p) (next_op (rawPush v))" for msg v
    by (intro keeping)+
  then show "vmInv n d p (resState (loadConst i s))"
    using inv by (simp add: loadConst_def Let_def keepsD)
qed

lemma keeps_loadGlobal [keeping]: "keeps (vmInv n d p) (loadGlobal name)"
proof (rule keepsI)
  fix s assume inv: "vmInv n d p s"
  have "keeps (vmInv n d p) (failWith (fault msg))" "keeps (vmInv n d p) (next_op (rawPush v))" for msg v
    by (intro keeping)+
  then show "vmInv n d p (resState (loadGlobal name s))"
    using inv by (simp add: loadGlobal_def keepsD split: option.split)
qed

lemma keeps_bumpLocal [keeping]: "keeps (vmInv n d p) (bumpLocal i x)"
  unfolding bumpLocal_def by (intro keeping)

lemma keeps_handleVar [keeping]: "keeps (vmInv n d p) (handleVar k)"
proof -
  have "keeps (vmInv n d p) (act_upd (\<lambda>s. s\<lparr>globals := g s\<rparr>))"
    "keeps (vmInv n d p) (act_upd (\<lambda>s. s\<lparr>mem := (mem s)(top s := VNil)\<rparr>))" for g
    by (simp_all add: keeps_upd)
  then show ?thesis
    by (cases k) (simp, (intro keeping; simp)?)+
qed

end
