(* ===== verification/Vm_Safe.thy ===== *)
theory Vm_Safe
  imports Vm_Inv
begin

text \<open>
  Every handler of the dispatch loop keeps the machine invariant. A handler may re-enter the
  machine; what it needs of that call is the interface \<open>reentrant\<close>, and the machine's own
  \<open>callFunction\<close> implements it at every budget, so the loop and the nested runs it starts stay in
  bounds together.
\<close>

subsection \<open>What a handler needs of a re-entrant call\<close>

lemma keeps_replaceTwo [keeping]: "keeps (vmInv n d p) (replaceTwo r)"
  by (cases r; simp add: replaceTwo_def; intro keeping)

locale reentrant =
  fixes n d :: nat and prog :: "code_unit list" and callF :: reenter
  assumes call_keeps [keeping]: "keeps (vmInv n d prog) (callF callee args)"
begin

lemma stringify_keeps [keeping]: "keeps (vmInv n d prog) (stringify callF v)"
proof (rule keepsI)
  fix s assume inv: "vmInv n d prog s"
  have "keeps (vmInv n d prog) (bnd (callF m args) textValue)" for m args by (intro keeping)
  then show "vmInv n d prog (resState (stringify callF v s))"
    using inv by (simp add: stringify_def Let_def keepsD [OF keeps_textValue] keepsD)
qed

lemma deliver_keeps [keeping]: "keeps (vmInv n d prog) (deliver callF a b r)"
proof -
  have "keeps (vmInv n d prog) (act_upd (\<lambda>s. s\<lparr>vmHeap := h\<rparr>))" for h
    by (rule keeps_upd) simp
  then show ?thesis by (cases r; simp add: deliver_def; intro keeping)
qed

lemma binaryOp_keeps [keeping]: "keeps (vmInv n d prog) (binaryOp callF f)"
  unfolding binaryOp_def by (intro keeping keepsI) (rule keepsD [OF deliver_keeps])

lemma unaryOp_keeps [keeping]: "keeps (vmInv n d prog) (unaryOp callF g)"
  unfolding unaryOp_def by (intro keeping)

lemma arith_keeps [keeping]:
  "keeps (vmInv n d prog) (doAdd callF)" "keeps (vmInv n d prog) (doSubtract callF)"
  "keeps (vmInv n d prog) (doMultiply callF)" "keeps (vmInv n d prog) (doDivide callF)"
  "keeps (vmInv n d prog) (doModulo callF)" "keeps (vmInv n d prog) (doPower env callF)"
  "keeps (vmInv n d prog) (doNegate callF)" "keeps (vmInv n d prog) (doIndexGet callF)"
  unfolding doAdd_def doSubtract_def doMultiply_def doDivide_def doModulo_def doPower_def
    doNegate_def doIndexGet_def by (intro keeping)+

lemma doIndexSet_keeps [keeping]: "keeps (vmInv n d prog) (doIndexSet callF)"
  unfolding doIndexSet_def by (intro keeping keepsI) (rule keepsD [OF deliver_keeps])

lemma instantiate_keeps [keeping]: "keeps (vmInv n d prog) (instantiate callF c args)"
proof (rule keepsI)
  fix s assume inv: "vmInv n d prog s"
  have k: "keeps (vmInv n d prog) (thn (callF m as) (act_ret (v :: val)))" for m as v by (intro keeping)
  have "vmInv n d prog (resState (thn (callF m as) (act_ret (v :: val)) (s\<lparr>vmHeap := h\<rparr>)))" for m as v h
    by (rule keepsD [OF k]) (simp add: inv)
  then show "vmInv n d prog (resState (instantiate callF c args s))"
    using inv by (simp add: instantiate_def split: prod.split option.split)
qed

lemma keeps_dropCallee [keeping]: "keeps (vmInv n d prog) (act_upd (\<lambda>t. t\<lparr>mtop := mtop t - k\<rparr>))"
  by (rule keeps_upd) (use vmInvD(5) in \<open>fastforce\<close>)

lemma dispatchCall_keeps [keeping]:
  "keeps (vmInv n d prog) (dispatchCall k env callF callee argc bypass site)"
proof (induction k arbitrary: callee argc bypass site)
  case 0
  then show ?case by (simp add: keeps_def)
next
  case (Suc k)
  show ?case
  proof (rule keepsI)
    fix s assume inv: "vmInv n d prog s"
    have bound: "keeps (vmInv n d prog) (thn (push VNil) (\<lambda>s'.
        if argc \<ge> 255 then Inr (False, runtimeError msg s')
        else thn (insertReceiver m r argc) (dispatchCall k env callF m (argc + 1) False None) s'))"
      for msg m r
    proof -
      have "keeps (vmInv n d prog) (thn (insertReceiver m r argc) (dispatchCall k env callF m (argc + 1) False None))"
        using Suc by (intro keeping)
      then show ?thesis by (intro keeping keepsI) (simp add: keepsD)
    qed
    have model: "keeps (vmInv n d prog) (bnd (instantiate callF c as)
        (\<lambda>v. thn (act_upd (\<lambda>t. t\<lparr>mtop := mtop t - (argc + 1)\<rparr>)) (thn (push v) (act_ret True))))" for c as
      by (intro keeping)
    show "vmInv n d prog (resState (dispatchCall (Suc k) env callF callee argc bypass site s))"
      using inv keepsD [OF bound inv] keepsD [OF model inv]
        keepsD [OF keeps_callNative inv] keepsD [OF keeps_callBytecode inv]
      by (cases callee) (simp_all split: obj.split)
  qed
qed

lemma dispatch_call_keeps [keeping]: "keeps (vmInv n d prog) (dispatch_call env callF callee argc site)"
  by (rule keepsI) (simp only: dispatch_call_def keepsD [OF dispatchCall_keeps])

lemma callOperator_keeps: 
  assumes inv: "vmInv n d prog s"
  shows "vmInv n d prog (resState (callOperator env callF a m argc s))"
proof -
  have "keeps (vmInv n d prog) (thn (setSlot i v) (bnd (dispatch_call env callF c argc None)
      (\<lambda>ok. if ok then next_op (act_upd loadFrame) else act_ret FReturn)))" for i v c
    by (intro keeping)
  then show ?thesis using inv by (simp add: callOperator_def keepsD split: prod.split)
qed

lemma binaryHandler_keeps [keeping]:
  assumes "keeps (vmInv n d prog) helper"
  shows "keeps (vmInv n d prog) (binaryHandler env callF fast name helper)"
  unfolding binaryHandler_def
  by (intro keeping keepsI)
     (auto simp: Let_def keepsD [OF keeps_replaceTwo] callOperator_keeps
        keepsD [OF keeps_viaHelper [OF assms]] split: option.split)

lemma equalHandler_keeps [keeping]: "keeps (vmInv n d prog) (equalHandler env callF want name)"
proof -
  have "keeps (vmInv n d prog) (viaBareHelper (binaryOp callF g))" for g by (intro keeping)
  then show ?thesis
    unfolding equalHandler_def
    by (intro keeping keepsI)
       (auto simp: Let_def keepsD [OF keeps_replaceTwo] callOperator_keeps keepsD split: option.split)
qed

lemma negHandler_keeps [keeping]: "keeps (vmInv n d prog) (negHandler env callF)"
proof -
  have "keeps (vmInv n d prog) (next_op (setSlot i v))" "keeps (vmInv n d prog) (viaHelper (doNegate callF))" for i v
    by (intro keeping)+
  then have "vmInv n d prog (resState (next_op (setSlot i v) s))"
    "vmInv n d prog (resState (viaHelper (doNegate callF) s))" if "vmInv n d prog s" for i v s
    using that by (auto simp: keepsD)
  then show ?thesis
    unfolding negHandler_def
    by (intro keeping keepsI) (auto simp: Let_def callOperator_keeps split: val.split)
qed

lemma handleCalc_keeps [keeping]: "keeps (vmInv n d prog) (handleCalc env callF k)"
proof -
  have "keeps (vmInv n d prog) (viaHelper (doModulo callF))" by (intro keeping)
  then show ?thesis
    by (cases k) (simp add: compareHandler_def; intro keeping keepsI;
      simp add: keepsD [OF keeps_replaceTwo] keepsD split: option.split)+
qed

end

subsection \<open>Returns, tail calls and data\<close>

lemma frame_fits_current:
  assumes "vmInv n d p s" and "frames s \<noteq> []"
  shows "fslots (curFrame s) + fnLocalCount (cuHeader (curUnit s)) \<le> n"
  using vmInvD(8) [OF assms(1), of "curFrame s"] vmInvD(3) [OF assms(1)] assms(2)
  by (simp add: frameFits_def curFrame_def curUnit_def unitOf_def)

lemma closeUpvalues_fields [simp]:
  "frameUpvalues (closeUpvalues lo s) = frameUpvalues s" "top (closeUpvalues lo s) = top s"
  "mtop (closeUpvalues lo s) = mtop s" "mem (closeUpvalues lo s) = mem s"
  "tryStack (closeUpvalues lo s) = tryStack s" "program (closeUpvalues lo s) = program s"
  "startFrames (closeUpvalues lo s) = startFrames s" "running (closeUpvalues lo s) = running s"
  "pendingException (closeUpvalues lo s) = pendingException s"
proof -
  have "frameUpvalues (closeLoop lo us s) = frameUpvalues s \<and> top (closeLoop lo us s) = top s \<and>
    mtop (closeLoop lo us s) = mtop s \<and> mem (closeLoop lo us s) = mem s \<and>
    tryStack (closeLoop lo us s) = tryStack s \<and> program (closeLoop lo us s) = program s \<and>
    startFrames (closeLoop lo us s) = startFrames s \<and> running (closeLoop lo us s) = running s \<and>
    pendingException (closeLoop lo us s) = pendingException s" for us
    by (induction lo us s rule: closeLoop.induct) (simp_all add: closeOne_def)
  then show
    "frameUpvalues (closeUpvalues lo s) = frameUpvalues s" "top (closeUpvalues lo s) = top s"
    "mtop (closeUpvalues lo s) = mtop s" "mem (closeUpvalues lo s) = mem s"
    "tryStack (closeUpvalues lo s) = tryStack s" "program (closeUpvalues lo s) = program s"
    "startFrames (closeUpvalues lo s) = startFrames s" "running (closeUpvalues lo s) = running s"
    "pendingException (closeUpvalues lo s) = pendingException s"
    by (simp_all add: closeUpvalues_def)
qed

lemma vmInv_foldl_mem [simp]: "vmInv n d p (foldl (\<lambda>t i. t\<lparr>mem := g t i\<rparr>) s xs) = vmInv n d p s"
  by (induction xs arbitrary: s) simp_all

lemma vmInv_selfTailCall:
  assumes inv: "vmInv n d p s" and ne: "frames s \<noteq> []"
  shows "vmInv n d p (selfTailCall ups argc s)"
proof -
  have args: "vmInv n d p (tailArgs base k t)" if "vmInv n d p t" for base k t
    unfolding tailArgs_def using that by simp
  have "vmInv n d p (closeUpvalues b s)" for b using inv by simp
  then have "vmInv n d p ((closeUpvalues b s)\<lparr>frameUpvalues := butlast (frameUpvalues s) @ [ups]\<rparr>)" for b
    using vmInvD(7) [OF inv] by simp
  then show ?thesis
    using args frame_fits_current [OF inv ne] by (simp add: selfTailCall_def Let_def)
qed

lemma returnOp_keeps:
  assumes inv: "vmInv n d p s" and ne: "frames s \<noteq> []"
  shows "vmInv n d p (resState (returnOp s))"
proof (cases "top s = 0")
  case True
  then show ?thesis using inv by (simp add: returnOp_def Let_def bnd_def rawPop_def)
next
  case False
  let ?s1 = "s\<lparr>top := top s - 1\<rparr>"
  let ?base = "fslots (curFrame s)"
  let ?s2 = "closeUpvalues ?base (syncIp ?s1)"
  let ?s3 = "popFrame (dropTryBlocks (length (frames ?s2) - 1) ?s2)"
  have inv3: "vmInv n d p ?s3"
    using inv vmInvD(4) [OF inv] by simp
  moreover have "?base \<le> n" using frame_fits_current [OF inv ne] by simp
  moreover have "top s - Suc 0 \<le> n" using vmInvD(4) [OF inv] by simp
  ultimately show ?thesis
    using inv False by (simp add: returnOp_def Let_def bnd_def rawPop_def curFrame_def)
qed

context reentrant
begin

lemma callSiteOp_keeps [keeping]: "keeps (vmInv n d prog) (callSiteOp env callF callee argc)"
proof (rule keepsI)
  fix s assume inv: "vmInv n d prog s"
  have "keeps (vmInv n d prog) (bnd (dispatch_call env callF callee argc site)
      (\<lambda>ok. if ok then next_op (act_upd loadFrame) else next_op (act_upd (\<lambda>t. t\<lparr>top := mtop t\<rparr>))))" for site
    by (intro keeping)
  then show "vmInv n d prog (resState (callSiteOp env callF callee argc s))"
    using inv by (simp add: callSiteOp_def keepsD)
qed

lemma tailCallOp_keeps:
  assumes inv: "vmInv n d prog s" and ne: "frames s \<noteq> []"
  shows "vmInv n d prog (resState (tailCallOp env callF argc s))"
proof (cases "argc < top s")
  case False
  then show ?thesis using inv by (simp add: tailCallOp_def bnd_def rawPeek_def)
next
  case True
  then show ?thesis
    using inv vmInv_selfTailCall [OF inv ne] keepsD [OF callSiteOp_keeps inv]
    by (cases "mem s (top s - 1 - argc)") (simp_all add: tailCallOp_def bnd_def rawPeek_def split: obj.split)
qed

lemma strOfInstance_keeps [keeping]: "keeps (vmInv n d prog) (strOfInstance callF arg)"
proof (rule keepsI)
  fix s assume inv: "vmInv n d prog s"
  have "keeps (vmInv n d prog) (bnd (callF m as) (\<lambda>r. bnd (textValue r) (\<lambda>txt.
      thn (act_upd loadFrame) (thn rawPop (thn rawPop (thn (rawPush (mkString txt))
        (thn (act_upd (\<lambda>t. t\<lparr>mtop := top t\<rparr>)) (act_ret FNext))))))))" for m as
    by (intro keeping)
  then show "vmInv n d prog (resState (strOfInstance callF arg s))"
    using inv by (simp add: strOfInstance_def Let_def keepsD)
qed

lemma callOp_keeps [keeping]: "keeps (vmInv n d prog) (callOp env callF argc)"
proof -
  have k: "keeps (vmInv n d prog) (thn (setSlot i v) (callSiteOp env callF c argc))" for i v c
    by (intro keeping)
  have "vmInv n d prog (resState (thn (setSlot i v) (callSiteOp env callF c argc) (s\<lparr>vmHeap := h\<rparr>)))"
    if "vmInv n d prog s" for i v c s h
    by (rule keepsD [OF k]) (simp add: that)
  then show ?thesis
    unfolding callOp_def
    by (intro keeping keepsI)
       (auto simp: Let_def keepsD [OF strOfInstance_keeps] keepsD [OF callSiteOp_keeps] split: prod.split)
qed

end

lemma keeps_jumpIf [keeping]: "keeps (vmInv n d p) (jumpIf q)"
  unfolding jumpIf_def by (intro keeping)

lemma keeps_loopOp [keeping]: "keeps (vmInv n d p) loopOp"
  unfolding loopOp_def by (intro keeping keepsI) simp

lemma keeps_readCaptures [keeping]: "keeps (vmInv n d p) (readCaptures k)"
proof (induction k)
  case 0
  then show ?case by (simp add: keeps_ret)
next
  case (Suc k)
  have capture: "keeps (vmInv n d p) (\<lambda>s. if isLocal \<noteq> 0
      then (case captureUpvalue (fslots (curFrame s) + index) s of (u, t) \<Rightarrow> Inr (u, t))
      else if index < length (last (frameUpvalues s)) then Inr (last (frameUpvalues s) ! index, s)
      else Inl (Thrown (Undefined ''upvalue index''), s))" for isLocal index
  proof (rule keepsI)
    fix s assume inv: "vmInv n d p s"
    obtain u t where "captureUpvalue (fslots (curFrame s) + index) s = (u, t)" by fastforce
    moreover then have "vmInv n d p t" using vmInv_captureUpvalue [OF inv] by (metis snd_conv)
    ultimately show "vmInv n d p (resState (if isLocal \<noteq> 0
      then (case captureUpvalue (fslots (curFrame s) + index) s of (u, t) \<Rightarrow> Inr (u, t))
      else if index < length (last (frameUpvalues s)) then Inr (last (frameUpvalues s) ! index, s)
      else Inl (Thrown (Undefined ''upvalue index''), s)))"
      using inv by simp
  qed
  show ?case unfolding readCaptures.simps by (intro keeping capture Suc.IH)
qed

lemma keeps_closureOp [keeping]: "keeps (vmInv n d p) closureOp"
proof -
  have k: "keeps (vmInv n d p) (next_op (rawPush v))" for v by (intro keeping)
  have "vmInv n d p (resState (next_op (rawPush v) (t\<lparr>vmHeap := h\<rparr>)))" if "vmInv n d p t" for v t h
    by (rule keepsD [OF k]) (simp add: that)
  then have "keeps (vmInv n d p) (\<lambda>t. let (h, a) = halloc (vmHeap t) (OClosure f us) in
         next_op (rawPush (VClosure a)) (t\<lparr>vmHeap := h\<rparr>))" for f us
    by (intro keepsI) (simp split: prod.split)
  then have "keeps (vmInv n d p) (bnd (readCaptures c) (\<lambda>us t. let (h, a) = halloc (vmHeap t) (OClosure f us) in
         next_op (rawPush (VClosure a)) (t\<lparr>vmHeap := h\<rparr>)))" for c f
    by (intro keeping)
  then show ?thesis
    unfolding closureOp_def by (intro keeping keepsI) (simp add: Let_def keepsD)
qed

lemma keeps_popMany [keeping]: "keeps (vmInv n d p) (popMany k)"
proof (rule keepsI)
  fix s assume inv: "vmInv n d p s"
  have "top s - k \<le> n" using vmInvD(4) [OF inv] by simp
  then show "vmInv n d p (resState (popMany k s))" using inv by (simp add: popMany_def)
qed

lemma keeps_clearAbove [keeping]: "keeps (vmInv n d p) (act_upd (\<lambda>u. clearSlots (top u) hi u))"
  by (rule keeps_upd) simp

lemma keeps_pushFresh:
  assumes "vmInv n d p t"
  shows "vmInv n d p (resState (thn (rawPush v) (act_upd (\<lambda>u. clearSlots (top u) hi u)) (t\<lparr>vmHeap := h\<rparr>)))"
  by (rule keepsD [OF keeps_thn [OF keeps_rawPush keeps_clearAbove]]) (simp add: assms)

lemma keeps_makeSequence [keeping]: "keeps (vmInv n d p) (makeSequence mk ref k)"
proof (rule keepsI)
  fix s assume inv: "vmInv n d p s"
  have "keeps (vmInv n d p) (bnd (popMany k) (\<lambda>xs t.
       let (h, a) = halloc (vmHeap t) (mk xs) in
       thn (rawPush (ref a)) (act_upd (\<lambda>u. clearSlots (top u) (top s) u)) (t\<lparr>vmHeap := h\<rparr>)))"
    by (intro keeping keepsI) (simp add: keeps_pushFresh split: prod.split)
  then show "vmInv n d p (resState (makeSequence mk ref k s))"
    using inv by (simp add: makeSequence_def keepsD)
qed

lemma keeps_dictPairs [keeping]: "keeps (vmInv n d p) (dictPairs k kvs)"
  by (induction k arbitrary: kvs) (simp, intro keeping, simp, intro keeping)

lemma keeps_makeDict [keeping]: "keeps (vmInv n d p) (makeDict k)"
proof (rule keepsI)
  fix s assume inv: "vmInv n d p s"
  have "keeps (vmInv n d p) (bnd (dictPairs k []) (\<lambda>kvs t.
       let (h, a) = halloc (vmHeap t) (ODict kvs) in
       thn (rawPush (VDictionary a)) (act_upd (\<lambda>u. clearSlots (top u) (top s) u)) (t\<lparr>vmHeap := h\<rparr>)))"
    by (intro keeping keepsI) (simp add: keeps_pushFresh split: prod.split)
  then show "vmInv n d p (resState (makeDict k s))"
    using inv by (simp add: makeDict_def keepsD)
qed

subsection \<open>Exceptions\<close>

lemma keeps_tryStart [keeping]: "keeps (vmInv n d p) tryStart"
  unfolding tryStart_def
  by (intro keeping keeps_upd) (auto simp: vmInvD(4) intro: vmInvD(9))

lemma vmInv_addTrace [simp]: "vmInv n d p (addTrace exc s) = vmInv n d p s"
  by (simp add: addTrace_def split: val.split)

lemma keeps_describeException [keeping]: "keeps P (describeException exc)"
  by (rule keepsI) (simp add: describeException_def keepsD [OF keeps_textValue] split: val.split option.split)

lemma keeps_clearPending [keeping]: "keeps (vmInv n d p) (act_upd (\<lambda>t. t\<lparr>pendingException := v\<rparr>))"
  by (rule keeps_upd) simp

lemma keeps_enterHandler_act [keeping]: "keeps (vmInv n d p) (enterHandler tb exc)"
  by (rule keepsI) (rule keeps_enterHandler)

lemma keeps_deliverThrow [keeping]: "keeps (vmInv n d p) (deliverThrow exc)"
proof (rule keepsI)
  fix s assume inv: "vmInv n d p s"
  have uncaught: "keeps (vmInv n d p) (act_upd (runtimeError msg))" for msg by (rule keeps_upd) simp
  have "keeps (vmInv n d p) (thn (enterHandler tb exc) (next_op (act_upd (\<lambda>t. t\<lparr>pendingException := VNil\<rparr>))))" for tb
    by (intro keeping)
  moreover have "keeps (vmInv n d p) (bnd (describeException exc) (\<lambda>msg.
        thn (act_upd (runtimeError (''Uncaught exception: '' @ msg))) (act_ret FReturn)))"
    by (intro keeping uncaught)
  ultimately show "vmInv n d p (resState (deliverThrow exc s))"
    using inv by (simp add: deliverThrow_def keepsD)
qed

lemma keeps_throwOp [keeping]: "keeps (vmInv n d p) throwOp"
  unfolding throwOp_def by (intro keeping keepsI) (rule keepsD [OF keeps_deliverThrow], simp)

lemma keeps_finallyEnd [keeping]: "keeps (vmInv n d p) finallyEnd"
proof (rule keepsI)
  fix s assume inv: "vmInv n d p s"
  have "vmInv n d p (resState (deliverThrow exc (s\<lparr>pendingException := VNil\<rparr>)))" for exc
    by (rule keepsD [OF keeps_deliverThrow]) (simp add: inv)
  then show "vmInv n d p (resState (finallyEnd s))"
    using inv by (simp add: finallyEnd_def)
qed

lemma keeps_tryEnd: "keeps (vmInv n d p) (act_upd (\<lambda>s. s\<lparr>tryStack := tl (tryStack s)\<rparr>))"
proof (rule keeps_upd)
  fix s assume "vmInv n d p s"
  then show "vmInv n d p (s\<lparr>tryStack := tl (tryStack s)\<rparr>)"
    by (cases "tryStack s") (simp_all add: vmInv_def)
qed

lemma keeps_line: "keeps (vmInv n d p) (act_upd (updFrame (\<lambda>f. f\<lparr>fline := k\<rparr>)))"
  by (rule keeps_upd) (rule vmInv_updFrame, simp_all)

lemma keeps_hasGlobal: "keeps (vmInv n d p) (\<lambda>s. rawPush (VBool (x \<in> fst ` set (globals s))) s)"
  by (rule keepsI) (rule keepsD [OF keeps_rawPush])

lemma keeps_handleExn [keeping]: "keeps (vmInv n d p) (handleExn env callF k)"
  by (cases k) (simp, (intro keeping keeps_tryEnd keeps_line keeps_hasGlobal)?)+

lemma keeps_memberIn [keeping]: "keeps (vmInv n d p) memberIn"
proof -
  have found: "keeps (vmInv n d p) (next_op (bnd (act_lift r) (\<lambda>b. rawPush (VBool b))))" for r by (intro keeping)
  have fails: "keeps (vmInv n d p) (failWith (raise c m))" for c m by (intro keeping)
  have body: "keeps (vmInv n d p) (\<lambda>s.
     let h = vmHeap s;
         found = (\<lambda>r. next_op (bnd (act_lift r) (\<lambda>b. rawPush (VBool b))) s)
     in f h found s)"
    if "\<And>h found s. (\<And>r. vmInv n d p (resState (found r))) \<Longrightarrow> vmInv n d p s \<Longrightarrow> vmInv n d p (resState (f h found s))"
    for f
    using that keepsD [OF found] by (simp add: keeps_def Let_def)
  show ?thesis
    unfolding memberIn_def
    by (intro keeping body)
       (rename_tac hay needle h f s, case_tac hay; simp add: isString_def keepsD [OF fails])
qed

lemma keeps_loopTest [keeping]: "keeps (vmInv n d p) (loopTest fi fd)"
  unfolding loopTest_def by (intro keeping)

lemma keeps_putPlace [keeping]: "keeps (vmInv n d p) (putPlace q v)"
  by (cases q) (simp_all add: putPlace_def keeping keeps_upd)

lemma keeps_printLine [keeping]: "keeps (vmInv n d p) (printLine t)"
  unfolding printLine_def by (rule keeps_upd) simp

lemma keeps_viaStack [keeping]:
  assumes "keeps (vmInv n d p) helper"
  shows "keeps (vmInv n d p) (viaStack q a b helper)"
proof -
  have fin: "keeps (vmInv n d p) (thn (act_upd loadFrame) (next_op (bnd rawPop (putPlace q))))" by (intro keeping)
  have "keeps (vmInv n d p) (\<lambda>s. if \<not> running s then Inr (FFault, s)
       else thn (act_upd loadFrame) (next_op (bnd rawPop (putPlace q))) s)"
    by (rule keepsI) (simp add: keepsD [OF fin])
  then show ?thesis unfolding viaStack_def by (intro keeping assms)
qed

lemma keeps_setGlobalSlot: "keeps (vmInv n d p) (act_upd (\<lambda>s. s\<lparr>globalSlots := (globalSlots s)[g := v]\<rparr>))"
  by (rule keeps_upd) simp

lemma keeps_loadGlobalSlot: "keeps (vmInv n d p) (\<lambda>s. rawPush (f s) s)"
  by (rule keepsI) (rule keepsD [OF keeps_rawPush])

lemma keeps_endOp: "keeps (vmInv n d p) (\<lambda>s. Inr (FReturn, syncIp (s\<lparr>running := False\<rparr>)))"
  by (rule keepsI) simp

context reentrant
begin

lemma handleFlow_keeps:
  assumes inv: "vmInv n d prog s" and ne: "frames s \<noteq> []"
  shows "vmInv n d prog (resState (handleFlow env callF k s))"
proof -
  have close: "keeps (vmInv n d prog) (act_upd (\<lambda>s. closeUpvalues (fslots (curFrame s) + slot) (s\<lparr>mtop := top s\<rparr>)))" for slot
    by (rule keeps_upd) (simp add: vmInvD(4))
  have tail: "vmInv n d prog (resState (bnd readByte (tailCallOp env callF) s))"
  proof (rule keeps_bndI)
    show "vmInv n d prog (resState (readByte s))" by (rule keepsD [OF keeps_readByte inv])
    show "vmInv n d prog (resState (tailCallOp env callF a t))"
      if "readByte s = Inr (a, t)" "vmInv n d prog t" for a t
      using that ne by (intro tailCallOp_keeps) (auto simp: readByte_def split: if_splits)
  qed
  have others: "keeps (vmInv n d prog) (handleFlow env callF k)" if "k \<noteq> I_RETURN" "k \<noteq> I_TAIL_CALL"
    using that by (cases k) (simp_all, (intro keeping close)+)
  show ?thesis
    using keepsD [OF others inv] returnOp_keeps [OF inv ne] tail
    by (cases "k = I_RETURN"; cases "k = I_TAIL_CALL") simp_all
qed

lemma handleData_keeps [keeping]: "keeps (vmInv n d prog) (handleData env callF k)"
  by (cases k) (simp, intro keeping)+

lemma accumulate_keeps [keeping]:
  assumes "keeps (vmInv n d prog) helper"
  shows "keeps (vmInv n d prog) (accumulate callF q fast name helper a b)"
proof (rule keepsI)
  fix s assume inv: "vmInv n d prog s"
  have put: "keeps (vmInv n d prog) (next_op (bnd (act_lift r) (putPlace q)))" for r by (intro keeping)
  have call: "keeps (vmInv n d prog) (bnd (callF m as) (\<lambda>r. thn (act_upd loadFrame) (next_op (putPlace q r))))" for m as
    by (intro keeping)
  show "vmInv n d prog (resState (accumulate callF q fast name helper a b s))"
    using inv by (simp add: accumulate_def Let_def keepsD [OF put] keepsD [OF call]
      keepsD [OF keeps_viaStack [OF assms]] split: option.split prod.split)
qed

lemma localLocal_keeps [keeping]:
  "keeps (vmInv n d prog) helper \<Longrightarrow> keeps (vmInv n d prog) (localLocal callF str fi fd name helper)"
  unfolding localLocal_def by (intro keeping)

lemma incLocalBy_keeps [keeping]: "keeps (vmInv n d prog) (incLocalBy callF)"
proof -
  have "keeps (vmInv n d prog) (case a of
         VInteger x \<Rightarrow> next_op (storeSlot dst (VInteger (wrapAdd x (signedByte k))))
       | VNumber d \<Rightarrow> next_op (storeSlot dst (VNumber (dadd d (d_of_i64 (signedByte k)))))
       | _ \<Rightarrow> viaStack (LocalSlot dst) a (VInteger (signedByte k)) (doAdd callF))" for a dst k
    by (cases a; simp; intro keeping)
  then show ?thesis unfolding incLocalBy_def by (intro keeping)
qed

lemma addGlobalLocal_keeps [keeping]: "keeps (vmInv n d prog) (addGlobalLocal callF)"
proof -
  have k: "keeps (vmInv n d prog) (bnd (loadSlot src) (\<lambda>b. accumulate callF q (fast b) name (doAdd callF) a b))"
    for src q fast name a
    by (intro keeping)
  show ?thesis
    unfolding addGlobalLocal_def by (intro keeping keepsI) (simp add: keepsD [OF k])
qed

lemma printStr_keeps [keeping]: "keeps (vmInv n d prog) (printStr callF)"
proof -
  have line: "keeps (vmInv n d prog) (next_op (printLine t))"
    "keeps (vmInv n d prog) (next_op (bnd (textValue v) printLine))"
    "keeps (vmInv n d prog) (bnd (callF m as) (\<lambda>r. thn (act_upd loadFrame) (next_op (bnd (textValue r) printLine))))"
    for t v m as by (intro keeping)+
  show ?thesis
    unfolding printStr_def
    by (intro keeping keepsI)
       (rename_tac v s, case_tac v;
        simp add: Let_def keepsD [OF line(1)] keepsD [OF line(2)] keepsD [OF line(3)])
qed

lemma handleExt_keeps [keeping]: "keeps (vmInv n d prog) (handleExt env callF k)"
  by (cases k) (simp, (intro keeping keeps_setGlobalSlot keeps_loadGlobalSlot keeps_endOp)?)+

lemma handle_keeps:
  assumes "vmInv n d prog s" and "frames s \<noteq> []"
  shows "vmInv n d prog (resState (handle env callF k s))"
  using handleFlow_keeps [OF assms] keepsD [OF keeps_handleVar assms(1)]
    keepsD [OF handleCalc_keeps assms(1)] keepsD [OF handleData_keeps assms(1)]
    keepsD [OF keeps_handleExn assms(1)] keepsD [OF handleExt_keeps assms(1)]
  by (cases k) (simp_all only: handle.simps)

end

subsection \<open>One dispatch, and the loop\<close>

fun outState :: "outcome \<Rightarrow> vm" where
  "outState (Next t) = t"
| "outState (Exit t) = t"
| "outState (Stuck e t) = t"

lemma outState_finish [simp]: "outState (finish r) = resState r"
  by (cases r rule: resState.cases) (simp_all add: finish_def split: flow.split)

lemma keeps_catchStd [keeping]: "keeps (vmInv n d p) (catchStd e)"
proof (rule keepsI)
  fix s assume inv: "vmInv n d p s"
  have fin: "keeps (vmInv n d p) (thn (rawPush v)
      (next_op (act_upd (\<lambda>t. t\<lparr>pendingException := VNil, running := True\<rparr>))))" for v
    by (intro keeping keeps_upd) simp
  have "vmInv n d p (resState (thn (rawPush v)
      (next_op (act_upd (\<lambda>t. t\<lparr>pendingException := VNil, running := True\<rparr>)))
      ((loadFrame ((unwindFrames i (s\<lparr>tryStack := tbs\<rparr>))\<lparr>mtop := tbTop tb\<rparr>))\<lparr>ip := j\<rparr>)))"
    if "tryStack s = tb # tbs" for v i j tb tbs
  proof (rule keepsD [OF fin])
    have "vmInv n d p (s\<lparr>tryStack := tbs\<rparr>)" "tbTop tb \<le> n"
      using inv that by (simp_all add: vmInv_def)
    then show "vmInv n d p ((loadFrame ((unwindFrames i (s\<lparr>tryStack := tbs\<rparr>))\<lparr>mtop := tbTop tb\<rparr>))\<lparr>ip := j\<rparr>)"
      by simp
  qed
  then show "vmInv n d p (resState (catchStd e s))"
    using inv by (simp add: catchStd_def Let_def split: list.split)
qed

lemma settle_keeps: "vmInv n d p (resState r) \<Longrightarrow> vmInv n d p (outState (settle r))"
  by (cases r rule: resState.cases)
     (auto simp: settle_def keepsD [OF keeps_catchStd] keepsD [OF keeps_handleFault]
       split: stop.split flow.split)

lemma fetch_frames: "fetch s = Inr (k, t) \<Longrightarrow> frames t \<noteq> []"
  by (auto simp: fetch_def bnd_def readByte_def split: if_splits option.splits)

lemma keeps_fetch [keeping]: "keeps (vmInv n d p) fetch"
  unfolding fetch_def by (intro keeping keepsI) (simp split: option.split)

lemma keeps_pushAll [keeping]: "keeps (vmInv n d p) (pushAll vs)"
  by (induction vs) (simp, intro keeping, simp, intro keeping)

lemma vmInv_restoreCall:
  assumes "vmInv n d p s" and "vmInv n d p t"
  shows "vmInv n d p (restoreCall s t)"
  using assms by (auto simp: restoreCall_def vmInv_def dest: in_set_takeD)

context reentrant
begin

lemma dispatch_keeps:
  assumes inv: "vmInv n d prog s"
  shows "vmInv n d prog (outState (dispatch env callF s))"
proof -
  let ?s1 = "s\<lparr>instructionCount := instructionCount s + 1\<rparr>"
  have inv1: "vmInv n d prog ?s1" using inv by simp
  have "vmInv n d prog (resState (bnd fetch (handle env callF) ?s1))"
  proof (rule keeps_bndI)
    show "vmInv n d prog (resState (fetch ?s1))" by (rule keepsD [OF keeps_fetch inv1])
    show "vmInv n d prog (resState (handle env callF k t))"
      if "fetch ?s1 = Inr (k, t)" "vmInv n d prog t" for k t
      by (rule handle_keeps [OF that(2) fetch_frames [OF that(1)]])
  qed
  moreover have "vmInv n d prog (resState (handleFault (throwException c m (?s1\<lparr>maxInstructions := 0\<rparr>))))" for c m
    using inv1 by (intro keepsD [OF keeps_handleFault] vmInv_throwException) simp
  ultimately show ?thesis
    using inv1 keepsD [OF keeps_handleFault inv1] settle_keeps by (simp add: dispatch_def Let_def)
qed

lemma runCallee_keeps:
  assumes loop: "\<And>s. vmInv n d prog s \<Longrightarrow> vmInv n d prog (outState (runLoop s))"
    and inv: "vmInv n d prog s" "vmInv n d prog t0"
  shows "vmInv n d prog (resState (runCallee env callF runLoop callee argc s t0))"
proof -
  have called: "vmInv n d prog (resState (dispatch_call env callF callee (argc mod 256) None t0))"
    by (rule keepsD [OF dispatch_call_keeps inv(2)])
  show ?thesis
  proof (cases "dispatch_call env callF callee (argc mod 256) None t0" rule: resState.cases)
    case (1 e t)
    then show ?thesis using called inv(1) by (simp add: runCallee_def vmInv_restoreCall)
  next
    case (2 ok t)
    then have t: "vmInv n d prog t" using called by simp
    then have "vmInv n d prog (outState (runLoop (enterRun t)))"
      by (intro loop) (simp add: enterRun_def)
    then show ?thesis
      using 2 t inv(1)
      by (cases ok; cases "runLoop (enterRun t)") (simp_all add: runCallee_def vmInv_restoreCall)
  qed
qed

lemma callFunction_keeps:
  assumes loop: "\<And>s. vmInv n d prog s \<Longrightarrow> vmInv n d prog (outState (runLoop s))"
  shows "keeps (vmInv n d prog) (callFunction env callF runLoop callee args)"
proof (rule keepsI)
  fix s assume inv: "vmInv n d prog s"
  let ?s0 = "s\<lparr>running := True, cxxFrameDepth := cxxFrameDepth s + (if running s then 1 else 0)\<rparr>"
  have "keeps (vmInv n d prog) (thn (push callee) (pushAll args))" by (intro keeping)
  then have "vmInv n d prog (resState (thn (push callee) (pushAll args) ?s0))"
    by (rule keepsD) (simp add: inv)
  then have nested: "vmInv n d prog (resState (nestedCall env callF runLoop callee args s))"
    using runCallee_keeps [OF loop inv]
    by (cases "thn (push callee) (pushAll args) ?s0" rule: resState.cases) (simp_all add: nestedCall_def)
  then show "vmInv n d prog (resState (callFunction env callF runLoop callee args s))"
    using inv by (cases callee) (simp_all add: callFunction_def split: obj.split sum.split prod.split)
qed

end

text \<open>The machine's own re-entrant call keeps the invariant, whatever the budget.\<close>

lemma machine_keeps:
  "(\<forall>s. vmInv n d p s \<longrightarrow> vmInv n d p (outState (runN k env s))) \<and>
   (\<forall>callee args. keeps (vmInv n d p) (callN k env callee args))"
proof (induction k)
  case 0
  then show ?case by (simp add: keeps_def)
next
  case (Suc k)
  then have r: "reentrant n d p (callN k env)" by unfold_locales blast
  have "vmInv n d p (outState (runN (Suc k) env s))" if "vmInv n d p s" for s
    using reentrant.dispatch_keeps [OF r that, of env] Suc
    by (cases "dispatch env (callN k env) s") simp_all
  moreover have "keeps (vmInv n d p) (callN (Suc k) env callee args)" for callee args
  proof -
    have "callN (Suc k) env callee args = callFunction env (callN k env) (runN k env) callee args"
      by (rule ext) simp
    then show ?thesis
      using reentrant.callFunction_keeps [OF r, of "runN k env" env callee args] Suc by simp
  qed
  ultimately show ?case by blast
qed

interpretation machine: reentrant n d prog "callN k env" for n d prog k env
  by unfold_locales (use machine_keeps in blast)


text \<open>A fresh machine about to run one function.\<close>

definition startState :: "code_unit list \<Rightarrow> heap \<Rightarrow> vm" where
  "startState prog h = \<lparr>mem = (\<lambda>i. VNil), stackMax = 2000, mtop = 1, top = 1, ip = 0,
     frames = [\<lparr>ffun = 0, fip = 0, fslots = 1, flocalCount = 0, fline = 0, fsuperCalled = False\<rparr>],
     frameUpvalues = [[]], upvals = [], openUpvalues = [], tryStack = [], pendingException = VNil,
     running = True, isAsyncTask = False, vmHeap = h, program = prog, globals = [],
     globalSlots = [], maxFrames = 4096, instructionCount = 0, maxInstructions = 0,
     cxxFrameDepth = 0, startFrames = 1, pushedTasks = [], printed = []\<rparr>"

definition plainUnit :: "byte list \<Rightarrow> nat list \<Rightarrow> code_unit" where
  "plainUnit bs subs = \<lparr>cuHeader = newHeader ''task'' 0, cuChunk = emptyChunk\<lparr>code := bs\<rparr>, cuNested = subs\<rparr>"


end
