(* ===== verification/Vm_Unwind.thy ===== *)
theory Vm_Unwind
  imports Vm_Safe
begin

text \<open>
  What the machine's control transfers do to its state: a fault lands in the handler that owns it,
  a return replaces the callee by its result, and captured variables keep their values when their
  frame is left.
\<close>

subsection \<open>Unwinding\<close>

lemma unwindFrames_fields:
  "frames (unwindFrames i s) = take (Suc i) (frames s) \<and> mtop (unwindFrames i s) = mtop s \<and>
   mem (unwindFrames i s) = mem s \<and> tryStack (unwindFrames i s) = tryStack s \<and>
   pendingException (unwindFrames i s) = pendingException s \<and>
   running (unwindFrames i s) = running s \<and> stackMax (unwindFrames i s) = stackMax s \<and>
   startFrames (unwindFrames i s) = startFrames s"
proof (induction i s rule: unwindFrames.induct)
  case (1 i s)
  have stackMax: "stackMax (closeUpvalues lo s) = stackMax s" for lo
  proof -
    have "stackMax (closeLoop lo us s) = stackMax s" for us
      by (induction lo us s rule: closeLoop.induct) (simp_all add: closeOne_def)
    then show ?thesis by (simp add: closeUpvalues_def)
  qed
  show ?case
  proof (cases "length (frames s) > i + 1")
    case True
    then have "take (Suc i) (butlast (frames s)) = take (Suc i) (frames s)"
      by (simp add: take_butlast)
    then show ?thesis
      using 1 True stackMax by (subst (1 2 3 4 5 6 7 8) unwindFrames.simps) (simp add: popFrame_def)
  next
    case False
    then show ?thesis by (subst (1 2 3 4 5 6 7 8) unwindFrames.simps) simp
  qed
qed

lemmas unwindFrames_simps [simp] =
  unwindFrames_fields [THEN conjunct1]
  unwindFrames_fields [THEN conjunct2, THEN conjunct1]
  unwindFrames_fields [THEN conjunct2, THEN conjunct2, THEN conjunct1]
  unwindFrames_fields [THEN conjunct2, THEN conjunct2, THEN conjunct2, THEN conjunct1]
  unwindFrames_fields [THEN conjunct2, THEN conjunct2, THEN conjunct2, THEN conjunct2, THEN conjunct1]
  unwindFrames_fields [THEN conjunct2, THEN conjunct2, THEN conjunct2, THEN conjunct2, THEN conjunct2, THEN conjunct1]
  unwindFrames_fields [THEN conjunct2, THEN conjunct2, THEN conjunct2, THEN conjunct2, THEN conjunct2, THEN conjunct2, THEN conjunct1]
  unwindFrames_fields [THEN conjunct2, THEN conjunct2, THEN conjunct2, THEN conjunct2, THEN conjunct2, THEN conjunct2, THEN conjunct2]

text \<open>
  C12. A recorded fault whose handler this run owns resumes in that handler: the frames above the
  handler's are gone, the instruction pointer is the handler's, the exception is on the operand
  stack and no longer pending, and the machine runs again. The operand stack is not cut back to
  the level the try block recorded: the exception lands on top of whatever the fault left.
\<close>

theorem fault_lands_in_handler:
  assumes "tryStack s = tb # tbs" and "ownsTryBlock s" and "pendingException s \<noteq> VNil"
    and "mtop s < stackMax s"
  shows "\<exists>t. handleFault s = Inr (FNext, t) \<and>
    frames t = take (Suc (tbFrame tb)) (frames s) \<and> ip t = tbCatch tb \<and> tryStack t = tbs \<and>
    top t = Suc (mtop s) \<and> mem t = (mem s)(mtop s := pendingException s) \<and>
    pendingException t = VNil \<and> running t"
  using assms
  by (simp add: handleFault_def thn_def bnd_def enterHandler_def Let_def rawPush_def loadFrame_def
      act_upd_def act_ret_def)

lemma fault_lands_in_handler_witness:
  "\<exists>t. handleFault ((startState [plainUnit [] []] [])\<lparr>tryStack := [\<lparr>tbFrame = 0, tbCatch = 9, tbTop = 1\<rparr>],
      mtop := 5, pendingException := VInteger 7\<rparr>) = Inr (FNext, t) \<and>
    ip t = 9 \<and> top t = 6 \<and> mem t 5 = VInteger 7"
  using fault_lands_in_handler [of "(startState [plainUnit [] []] [])\<lparr>tryStack :=
      [\<lparr>tbFrame = 0, tbCatch = 9, tbTop = 1\<rparr>], mtop := 5, pendingException := VInteger 7\<rparr>"
      "\<lparr>tbFrame = 0, tbCatch = 9, tbTop = 1\<rparr>" "[]"]
  by (auto simp: startState_def ownsTryBlock_def)

subsection \<open>Returning\<close>

lemma head_dropWhile: "dropWhile P xs = [] \<or> \<not> P (hd (dropWhile P xs))"
  using hd_dropWhile by blast

text \<open>
  C14. A return inside the run drops the frame, its captures and its try blocks, puts the result
  where the callee was, resumes the caller at its saved instruction pointer, leaves every slot
  below the callee untouched and resets every slot of the frame that is left.
\<close>

theorem return_replaces_callee:
  assumes "frames s = fs @ [g, f]" and "startFrames s \<le> Suc (length fs)"
    and "fslots f \<noteq> 0" and "top s \<noteq> 0"
  shows "\<exists>t. returnOp s = Inr (FNext, t) \<and>
    frames t = fs @ [g] \<and> frameUpvalues t = butlast (frameUpvalues s) \<and>
    ip t = fip g \<and> top t = fslots f \<and>
    mem t (fslots f - 1) = mem s (top s - 1) \<and>
    (\<forall>i < fslots f - 1. mem t i = mem s i) \<and>
    (\<forall>i. fslots f \<le> i \<and> i < top s \<longrightarrow> mem t i = VNil) \<and>
    (tryStack t = [] \<or> tbFrame (hd (tryStack t)) < length (frames s) - 1)"
proof -
  have last: "curFrame (s\<lparr>top := x\<rparr>) = f" for x
    using assms(1) by (simp add: curFrame_def)
  have sync: "frames (syncIp (s\<lparr>top := x\<rparr>)) = fs @ [g, f\<lparr>fip := ip s\<rparr>]" for x
    using assms(1) by (simp add: syncIp_def updFrame_def curFrame_def butlast_append)
  have others: "frameUpvalues (syncIp u) = frameUpvalues u" "mem (syncIp u) = mem u"
    "tryStack (syncIp u) = tryStack u" "startFrames (syncIp u) = startFrames u" for u
    by (simp_all add: syncIp_def updFrame_def)
  obtain k where "fslots f = Suc k" using assms(3) not0_implies_Suc by blast
  then show ?thesis
    using assms(2-4) head_dropWhile [of "\<lambda>tb. Suc (length fs) \<le> tbFrame tb" "tryStack s"]
    by (simp add: returnOp_def bnd_def rawPop_def last sync others Let_def popFrame_def
        dropTryBlocks_def loadFrame_def curFrame_def clearSlots_def assms(1) butlast_append not_le)
qed

definition plainFrame :: "nat \<Rightarrow> callFrame" where
  "plainFrame slots = \<lparr>ffun = 0, fip = 4, fslots = slots, flocalCount = 0, fline = 0, fsuperCalled = False\<rparr>"

lemma return_replaces_callee_witness:
  "\<exists>t. returnOp ((startState [plainUnit [] []] [])\<lparr>frames := [plainFrame 1, plainFrame 3], top := 6,
      mem := (\<lambda>i. VInteger (word_of_nat i))\<rparr>) = Inr (FNext, t) \<and>
    top t = 3 \<and> mem t 2 = VInteger 5 \<and> mem t 1 = VInteger 1 \<and> mem t 4 = VNil \<and> ip t = 4"
  using return_replaces_callee [of "(startState [plainUnit [] []] [])\<lparr>frames := [plainFrame 1, plainFrame 3],
      top := 6, mem := (\<lambda>i. VInteger (word_of_nat i))\<rparr>" "[]" "plainFrame 1" "plainFrame 3"]
  by (auto simp: startState_def plainFrame_def)

subsection \<open>Captured variables\<close>

lemma closeLoop_upvals:
  assumes "sorted_wrt (\<lambda>u w. upPos s w < upPos s u) us"
    and "\<forall>u\<in>set us. u < length (upvals s)" "distinct us"
  shows "openUpvalues (closeLoop lo us s) = filter (\<lambda>u. upPos s u < lo) us \<and>
    length (upvals (closeLoop lo us s)) = length (upvals s) \<and>
    (\<forall>u. upAt (closeLoop lo us s) u =
      (if u \<in> set us \<and> lo \<le> upPos s u then \<lparr>upLoc = None, upClosed = mem s (upPos s u)\<rparr> else upAt s u))"
  using assms
proof (induction lo us s rule: closeLoop.induct)
  case (1 lo s)
  then show ?case by (simp add: upAt_def)
next
  case (2 lo u us s)
  have at: "upAt (closeOne u s) w = (if w = u then \<lparr>upLoc = None, upClosed = mem s (upPos s u)\<rparr> else upAt s w)" for w
    using 2(3) by (simp add: closeOne_def upAt_def)
  have keep: "upPos (closeOne u s) w = upPos s w" if "w \<in> set us" for w
  proof -
    have "w \<noteq> u" using 2(4) that by auto
    then show ?thesis by (simp add: upPos_def at)
  qed
  have same: "mem (closeOne u s) = mem s" "length (upvals (closeOne u s)) = length (upvals s)"
    by (simp_all add: closeOne_def)
  show ?case
  proof (cases "lo \<le> upPos s u")
    case True
    have "sorted_wrt (\<lambda>a b. upPos (closeOne u s) b < upPos (closeOne u s) a) us"
      using 2(2) keep by (auto elim!: sorted_wrt_mono_rel [rotated])
    moreover have "filter (\<lambda>w. upPos (closeOne u s) w < lo) us = filter (\<lambda>w. upPos s w < lo) us"
      using keep by (auto intro: filter_cong)
    moreover have "(if w \<in> set us \<and> lo \<le> upPos (closeOne u s) w
        then \<lparr>upLoc = None, upClosed = mem (closeOne u s) (upPos (closeOne u s) w)\<rparr> else upAt (closeOne u s) w) =
      (if w \<in> set (u # us) \<and> lo \<le> upPos s w then \<lparr>upLoc = None, upClosed = mem s (upPos s w)\<rparr> else upAt s w)" for w
      using keep True at same by (cases "w \<in> set us") auto
    moreover have "\<forall>w\<in>set us. w < length (upvals s)" using 2(3) by simp
    ultimately show ?thesis
      using 2 True same by (simp del: set_simps)
  next
    case False
    then have "\<forall>w\<in>set us. upPos s w < lo" using 2(2) by auto
    then show ?thesis using False by (auto simp: upAt_def upPos_def)
  qed
qed

lemma openOk_distinct: "openOk ups os \<Longrightarrow> distinct os"
  unfolding openOk_def by (induction os) auto

text \<open>
  C17. Leaving a frame closes exactly the captured variables at or above its base: each takes the
  value its slot holds at that moment and no longer depends on the stack, every other upvalue is
  unchanged, and the open list is what remains below.
\<close>

theorem closing_takes_values:
  assumes "openOk (upvals s) (openUpvalues s)"
  shows "openUpvalues (closeUpvalues lo s) = filter (\<lambda>u. upPos s u < lo) (openUpvalues s) \<and>
    (\<forall>u. upAt (closeUpvalues lo s) u =
      (if u \<in> set (openUpvalues s) \<and> lo \<le> upPos s u
       then \<lparr>upLoc = None, upClosed = mem s (upPos s u)\<rparr> else upAt s u))"
  using closeLoop_upvals [of s "openUpvalues s" lo] openOk_distinct [OF assms] assms
  by (simp add: openOk_alt closeUpvalues_def)

lemma closing_takes_values_witness:
  "openUpvalues (closeUpvalues 4 ((startState [] [])\<lparr>upvals := [\<lparr>upLoc = Some 2, upClosed = VNil\<rparr>,
      \<lparr>upLoc = Some 5, upClosed = VNil\<rparr>], openUpvalues := [1, 0]\<rparr>)) = [0]"
  using closing_takes_values [of "(startState [] [])\<lparr>upvals := [\<lparr>upLoc = Some 2, upClosed = VNil\<rparr>,
      \<lparr>upLoc = Some 5, upClosed = VNil\<rparr>], openUpvalues := [1, 0]\<rparr>" 4]
  by (simp add: openOk_def upPos_def upAt_def nth_Cons')

lemma dropWhile_to_slot:
  "sorted_wrt (\<lambda>u w. f w < f u) os \<Longrightarrow> u \<in> set os \<Longrightarrow> f u = (i :: nat) \<Longrightarrow>
     \<exists>us. dropWhile (\<lambda>w. i < f w) os = u # us"
  by (induction os) auto

lemma capture_open_slot:
  assumes ok: "openOk (upvals t) (openUpvalues t)" and "u \<in> set (openUpvalues t)" and slot: "upPos t u = i"
  shows "captureUpvalue i t = (u, t)"
proof -
  have "sorted_wrt (\<lambda>u w. upPos t w < upPos t u) (openUpvalues t)"
    using ok openOk_alt [of t] by simp
  from dropWhile_to_slot [OF this assms(2) slot]
  obtain us where "dropWhile (\<lambda>w. i < upPos t w) (openUpvalues t) = u # us" by blast
  then show ?thesis using slot by (simp add: captureUpvalue_def Let_def)
qed

lemma capture_other_slot:
  assumes "openOk (upvals t) (openUpvalues t)" and "u \<in> set (openUpvalues t)"
    and "fst (captureUpvalue j t) = u"
  shows "upPos t u = j"
proof -
  have "u < length (upvals t)" using assms(1,2) by (auto simp: openOk_def)
  then show ?thesis
    using assms(3) by (auto simp: captureUpvalue_def Let_def split: list.splits if_splits)
qed

text \<open>
  C16. A variable has one upvalue however often it is captured: capturing a slot again returns the
  same upvalue and changes nothing, the upvalue points at that slot and is on the open list, and
  another slot never gets it.
\<close>

theorem capture_shares:
  assumes ok: "openOk (upvals s) (openUpvalues s)" and capture: "captureUpvalue i s = (u, t)"
  shows "captureUpvalue i t = (u, t) \<and> upLoc (upAt t u) = Some i \<and>
    u \<in> set (openUpvalues t) \<and> (\<forall>j. j \<noteq> i \<longrightarrow> fst (captureUpvalue j t) \<noteq> u)"
proof -
  note after = captureUpvalue_open [OF ok capture]
  then have "upPos t u = i" by (simp add: upPos_def)
  then show ?thesis
    using after capture_open_slot [of t u i] by (auto dest: capture_other_slot)
qed

lemma capture_shares_witness:
  "captureUpvalue 3 (snd (captureUpvalue 3 (startState [] []))) =
     (fst (captureUpvalue 3 (startState [] [])), snd (captureUpvalue 3 (startState [] [])))"
  using capture_shares [of "startState [] []" 3 "fst (captureUpvalue 3 (startState [] []))"
      "snd (captureUpvalue 3 (startState [] []))"]
  by (simp add: openOk_def startState_def)

subsection \<open>Calls\<close>

text \<open>
  C27. Entering a bytecode function lays out its frame: the arguments are its first slots, missing
  parameters and the other locals are nil, nothing below is touched, and at least 769 slots of the
  operand stack are left for the body.
\<close>

theorem call_frame_layout:
  fixes f s
  defines "fh \<equiv> cuHeader (unitOf s f)"
  assumes "length (frames s) < maxFrames s" and "mtop s + fnLocalCount fh + stackHeadroom \<le> stackMax s"
    and "fnArity fh \<le> 255" and "argc \<le> mtop s"
  shows "\<exists>t base. pushCallFrame f argc cs s = Inr ((), t) \<and> base = mtop s - argc \<and>
    frames t = frames s @ [\<lparr>ffun = f, fip = 0, fslots = base, flocalCount = fnLocalCount fh,
      fline = 0, fsuperCalled = False\<rparr>] \<and>
    frameUpvalues t = frameUpvalues s @ [cs] \<and>
    (\<forall>i < mtop s. mem t i = mem s i) \<and>
    (\<forall>i. argc \<le> i \<and> i < max (fnArity fh) (fnLocalCount fh) \<longrightarrow> mem t (base + i) = VNil) \<and>
    base + fnArity fh \<le> mtop t \<and> base + fnLocalCount fh \<le> mtop t \<and> mtop t + 769 \<le> stackMax s"
proof -
  have "\<not> length (frames s) \<ge> maxFrames s" "hasStackHeadroom (fnLocalCount fh + stackHeadroom) s"
    using assms by (simp_all add: hasStackHeadroom_def)
  then have "pushCallFrame f argc cs s = Inr ((), enterFrame f argc cs s)"
    using assms(4) by (simp add: pushCallFrame_def fh_def)
  moreover have "mtop s - argc + max (max argc (fnArity fh)) (fnLocalCount fh) + 769 \<le> stackMax s"
    using assms(3-5) by (auto simp: stackHeadroom_def max_def)
  ultimately show ?thesis
    using assms(5)
    by (auto simp: enterFrame_def Let_def clearSlots_def fh_def [symmetric] less_diff_conv2 add.commute)
qed

definition pairUnit :: code_unit where
  "pairUnit = \<lparr>cuHeader = (newHeader ''pair'' 2)\<lparr>fnLocalCount := 4\<rparr>, cuChunk = emptyChunk, cuNested = []\<rparr>"

lemma call_frame_layout_witness:
  "\<exists>t. pushCallFrame 1 1 [] ((startState [plainUnit [] [], pairUnit] [])\<lparr>mtop := 3,
      mem := (\<lambda>i. VInteger (word_of_nat i))\<rparr>) = Inr ((), t) \<and>
    6 \<le> mtop t \<and> mtop t + 769 \<le> 2000"
  using call_frame_layout [of "(startState [plainUnit [] [], pairUnit] [])\<lparr>mtop := 3,
      mem := (\<lambda>i. VInteger (word_of_nat i))\<rparr>" 1 1 "[]"]
  by (auto simp: startState_def pairUnit_def newHeader_def unitOf_def stackHeadroom_def)

lemma throwException_fields:
  "frames (throwException c m s) = frames s" "\<not> running (throwException c m s)"
  "pendingException (throwException c m s) \<noteq> VNil" "tryStack (throwException c m s) = tryStack s"
  by (cases "getGlobal s c"; simp add: throwException_def runtimeError_def mkString_def Let_def
      split: prod.split)+

text \<open>
  C28. A call of a fixed-arity closure enters its frame exactly when the number of arguments lies
  between the number of its required parameters and the number of its parameters; otherwise
  nothing is entered and a fault is recorded.
\<close>

theorem call_checks_arity:
  fixes f s
  defines "fh \<equiv> cuHeader (unitOf s f)"
  assumes "hget (vmHeap s) a = OClosure f ups" and "\<not> fnVariadic fh" and "\<not> fnAsync fh"
    and "length (frames s) < maxFrames s" and "mtop s + fnLocalCount fh + stackHeadroom \<le> stackMax s"
    and "fnArity fh \<le> 255" and "argc \<le> mtop s"
  shows "\<exists>ok t. dispatchCall (Suc k) env callF (VClosure a) argc bypass site s = Inr (ok, t) \<and>
    (ok \<longleftrightarrow> fnArity fh - fnDefaults fh \<le> argc \<and> argc \<le> fnArity fh) \<and>
    (ok \<longrightarrow> t = enterFrame f argc ups s) \<and>
    (\<not> ok \<longrightarrow> frames t = frames s \<and> \<not> running t \<and> pendingException t \<noteq> VNil)"
proof -
  have "hasStackHeadroom (fnLocalCount fh + stackHeadroom) s"
    using assms by (simp add: hasStackHeadroom_def)
  then have "pushCallFrame f argc ups s = Inr ((), enterFrame f argc ups s)"
    using assms by (simp add: pushCallFrame_def)
  then have enter: "enterCall (VClosure a) f ups bypass argc s = Inr (True, enterFrame f argc ups s)"
    using assms(4) by (simp add: enterCall_def thn_def bnd_def act_ret_def fh_def)
  have "dispatchCall (Suc k) env callF (VClosure a) argc bypass site s =
      (case arityError fh argc of
         Some msg \<Rightarrow> Inr (False, throwException ''TypeError'' msg s)
       | None \<Rightarrow> Inr (True, enterFrame f argc ups s))"
    using assms(2,3,8) enter by (simp add: callBytecode_def Let_def fh_def [symmetric] split: option.split)
  then show ?thesis
    using throwException_fields by (auto simp: arityError_def minArity_def split: if_splits)
qed

lemma call_checks_arity_witness:
  "\<exists>t. dispatchCall 1 plainEnv (callN 0 plainEnv) (VClosure 0) 3 False None
      ((startState [plainUnit [] [], pairUnit] [OClosure 1 []])\<lparr>mtop := 5\<rparr>) = Inr (False, t) \<and> \<not> running t"
  using call_checks_arity [of "(startState [plainUnit [] [], pairUnit] [OClosure 1 []])\<lparr>mtop := 5\<rparr>"
      0 1 "[]" 3 0 plainEnv "callN 0 plainEnv" False None]
  by (auto simp: startState_def pairUnit_def newHeader_def unitOf_def stackHeadroom_def hget_def
      simp del: dispatchCall.simps)



subsection \<open>Faults that miss their handler\<close>

lemma bound_method_arity_fault:
  assumes "hget (vmHeap s) b = OBoundMethod v (VClosure a)" and "hget (vmHeap s) a = OClosure f ups"
    and "\<not> fnVariadic (cuHeader (unitOf s f))" and "fnArity (cuHeader (unitOf s f)) < 2"
    and "2 \<le> mtop s" and "mtop s < stackMax s"
  shows "\<exists>t. dispatch_call env callF (VBoundMethod b) 1 site s = Inr (False, t) \<and>
    tryStack t = tryStack s \<and> frames t = frames s \<and> \<not> running t \<and> pendingException t \<noteq> VNil"
proof -
  let ?pushed = "s\<lparr>mem := (mem s)(mtop s := VNil), mtop := mtop s + 1\<rparr>"
  have "\<exists>u. insertReceiver (VClosure a) v 1 ?pushed = Inr ((), u) \<and> tryStack u = tryStack s \<and>
      frames u = frames s \<and> program u = program s \<and> vmHeap u = vmHeap s \<and> mtop u = Suc (mtop s)"
    using assms(5) by (simp add: insertReceiver_def Let_def)
  then obtain u where insert: "insertReceiver (VClosure a) v 1 ?pushed = Inr ((), u)"
    and u: "tryStack u = tryStack s" "frames u = frames s" "program u = program s"
      "vmHeap u = vmHeap s" "mtop u = Suc (mtop s)"
    by blast
  have "\<exists>msg. arityError (cuHeader (unitOf s f)) 2 = Some msg"
    using assms(4) by (simp add: arityError_def)
  then obtain msg where "arityError (cuHeader (unitOf s f)) 2 = Some msg" by blast
  then have call: "callBytecode (VClosure a) f ups 2 False u = Inr (False, throwException ''TypeError'' msg u)"
    using assms(3,5) u by (simp add: callBytecode_def Let_def unitOf_def)
  have "dispatch_call env callF (VBoundMethod b) 1 site s = Inr (False, throwException ''TypeError'' msg u)"
    using assms(1,2,6) call insert u
    by (simp add: dispatch_call_def thn_def bnd_def push_def numeral_2_eq_2)
  then show ?thesis using u throwException_fields [of "''TypeError''" msg u] by simp
qed

lemma callOperator_arity_fault:
  assumes "hget (vmHeap s) a = OClosure f ups" and "a < length (vmHeap s)"
    and "\<not> fnVariadic (cuHeader (unitOf s f))" and "fnArity (cuHeader (unitOf s f)) < 2"
    and "2 \<le> top s" and "top s < stackMax s"
  shows "\<exists>t. callOperator env callF v (VClosure a) 1 s = Inr (FReturn, t) \<and>
    tryStack t = tryStack s \<and> length (frames t) = length (frames s) \<and>
    \<not> running t \<and> pendingException t \<noteq> VNil"
proof -
  have sync: "mem (syncIp u) = mem u" "mtop (syncIp u) = top u" "stackMax (syncIp u) = stackMax u"
    "vmHeap (syncIp u) = vmHeap u" "tryStack (syncIp u) = tryStack u" "program (syncIp u) = program u"
    "length (frames (syncIp u)) = length (frames u)" for u
    by (auto simp: syncIp_def updFrame_def)
  let ?s = "(syncIp (s\<lparr>vmHeap := vmHeap s @ [OBoundMethod v (VClosure a)]\<rparr>))
    \<lparr>mem := (mem s)(top s - 2 := VBoundMethod (length (vmHeap s)))\<rparr>"
  have "\<exists>t. dispatch_call env callF (VBoundMethod (length (vmHeap s))) 1 None ?s = Inr (False, t) \<and>
      tryStack t = tryStack ?s \<and> frames t = frames ?s \<and> \<not> running t \<and> pendingException t \<noteq> VNil"
    using assms sync by (intro bound_method_arity_fault [of _ _ v a f ups])
      (simp_all add: hget_def nth_append unitOf_def)
  then show ?thesis
    using assms(5,6) sync
    by (auto simp: callOperator_def thn_def bnd_def halloc_def setSlot_def act_ret_def numeral_2_eq_2)
qed

text \<open>
  C33. When the task behind an overloaded \<open>+\<close> takes too few parameters for its operand, the machine
  leaves \<open>run\<close> on the spot instead of resuming in the enclosing handler: whatever try block this
  run owns, the fault stays pending, the machine is stopped and the try block stays on its stack.
\<close>

theorem overloaded_operator_fault_escapes:
  assumes "mem s (top s - 2) = VInstance i" and "getProperty (vmHeap s) (VInstance i) ''+'' = VClosure a"
    and "hget (vmHeap s) a = OClosure f ups" and "a < length (vmHeap s)"
    and "\<not> fnVariadic (cuHeader (unitOf s f))" and "fnArity (cuHeader (unitOf s f)) < 2"
    and "2 \<le> top s" and "top s < stackMax s"
  shows "\<exists>t. handleCalc env callF I_ADD s = Inr (FReturn, t) \<and>
    tryStack t = tryStack s \<and> length (frames t) = length (frames s) \<and>
    \<not> running t \<and> pendingException t \<noteq> VNil"
proof -
  have "fastAdd (VInstance i) b = None" for b by (cases b) (simp_all add: fastAdd_def fastNums_def)
  then have "handleCalc env callF I_ADD s = callOperator env callF (VInstance i) (VClosure a) 1 s"
    using assms(1,2,7) by (simp add: binaryHandler_def bnd_def rawPeek_def numeral_2_eq_2)
  then show ?thesis using callOperator_arity_fault [OF assms(3-8)] by simp
qed

lemma overloaded_operator_fault_escapes_witness:
  "\<exists>t. handleCalc plainEnv (callN 0 plainEnv) I_ADD
      ((startState [plainUnit [] []] [OClosure 0 [], OInstance 2 [], OClass ''Vec'' None [(''+'', VClosure 0)]])
        \<lparr>top := 3, mem := (\<lambda>i. VInstance 1), tryStack := [\<lparr>tbFrame = 0, tbCatch = 9, tbTop = 1\<rparr>]\<rparr>) = Inr (FReturn, t) \<and>
    tryStack t = [\<lparr>tbFrame = 0, tbCatch = 9, tbTop = 1\<rparr>] \<and> \<not> running t"
  using overloaded_operator_fault_escapes [of "(startState [plainUnit [] []]
      [OClosure 0 [], OInstance 2 [], OClass ''Vec'' None [(''+'', VClosure 0)]])
      \<lparr>top := 3, mem := (\<lambda>i. VInstance 1), tryStack := [\<lparr>tbFrame = 0, tbCatch = 9, tbTop = 1\<rparr>]\<rparr>"
      1 0 0 "[]" plainEnv "callN 0 plainEnv"]
  by (auto simp: startState_def plainUnit_def newHeader_def unitOf_def hget_def simp del: handleCalc.simps)

lemma dispatch_opcode:
  assumes "running s" and "maxInstructions s = 0" and "frames s \<noteq> []" and "ip s < length (codeBytes s)"
    and "codeBytes s ! ip s = opcodeByte k"
  shows "dispatch env callF s =
    settle (handle env callF k (s\<lparr>instructionCount := instructionCount s + 1, ip := ip s + 1\<rparr>))"
proof -
  have "codeBytes (s\<lparr>instructionCount := x\<rparr>) = codeBytes s" for x
    by (simp add: codeBytes_def curUnit_def unitOf_def curFrame_def)
  then have "fetch (s\<lparr>instructionCount := instructionCount s + 1\<rparr>) =
      Inr (k, s\<lparr>instructionCount := instructionCount s + 1, ip := ip s + 1\<rparr>)"
    using assms by (simp add: fetch_def bnd_def readByte_def)
  then show ?thesis using assms(1,2) by (simp add: dispatch_def bnd_def)
qed

lemma raising_run:
  assumes "running s" and "maxInstructions s = 0" and "frames s \<noteq> []" and "ip s = 0"
    and "codeBytes s = [opcodeByte OP_LOAD_ONE, opcodeByte OP_THROW]"
    and "top s < stackMax s" and "tryStack s = tb # tbs" and "tbFrame tb + 1 < startFrames s"
  shows "\<exists>t. runN (Suc (Suc n)) env s = Exit t \<and> pendingException t = VInteger 1 \<and>
    length (frames t) = length (frames s) \<and> butlast (frames t) = butlast (frames s) \<and>
    frameUpvalues t = frameUpvalues s \<and> tryStack t = tryStack s"
proof -
  let ?s1 = "s\<lparr>instructionCount := instructionCount s + 1, ip := 1, mem := (mem s)(top s := VInteger 1), top := top s + 1\<rparr>"
  let ?s2 = "?s1\<lparr>instructionCount := instructionCount s + 2, ip := 2, top := top s, pendingException := VInteger 1\<rparr>"
  have one: "dispatch env c s = Next ?s1" for c
    using dispatch_opcode [of s OP_LOAD_ONE env c] assms
    by (simp add: settle_def finish_def next_op_def thn_def bnd_def rawPush_def act_ret_def)
  have "codeBytes ?s1 = codeBytes s" by (simp add: codeBytes_def curUnit_def unitOf_def curFrame_def)
  then have two: "dispatch env c ?s1 = Exit (syncIp ?s2)" for c
    using dispatch_opcode [of ?s1 OP_THROW env c] assms
    by (simp add: settle_def finish_def throwOp_def bnd_def rawPop_def addTrace_def deliverThrow_def
        ownsTryBlock_def numeral_2_eq_2)
  have "runN (Suc (Suc n)) env s = Exit (syncIp ?s2)" using one two by simp
  then show ?thesis using assms(3) by (simp add: syncIp_def updFrame_def)
qed


definition raisingState :: vm where
  "raisingState = (startState [plainUnit [] [], plainUnit [opcodeByte OP_LOAD_ONE, opcodeByte OP_THROW] []]
     [OClosure 1 []])\<lparr>tryStack := [\<lparr>tbFrame = 0, tbCatch = 0, tbTop = 1\<rparr>]\<rparr>"


end
