(* ===== verification/Ast.thy ===== *)
theory Ast
  imports Token
begin

text \<open>
  The syntax tree of \<open>src/ast/AST_Core.h\<close>, \<open>AST_Expr.h\<close> and \<open>AST_Stmt.h\<close>: every alternative of
  \<open>ExprVariant\<close> with its members, and every alternative of \<open>StmtVariant\<close> the compiler has a branch
  for (the others are only declared), inside an \<open>Expr\<close> or a \<open>Stmt\<close> that carries the source
  position. The node types take the types of their sub-trees as parameters, and \<open>expr\<close> and \<open>stmt\<close>
  close the recursion. A null pointer is \<open>NoExpr\<close> or \<open>NoStmt\<close>. Type annotations, which only the
  type checker reads, are left out except for the name a model's property declares; so are the
  file names.
\<close>

datatype ('e, 's) expr_form =
    LiteralExpr literal
  | IdentifierExpr string
  | BinaryExpr 'e token_kind 'e
  | UnaryExpr token_kind 'e
  | CallExpr 'e "'e list" "string list"
  | IndexExpr 'e 'e
  | ArrayExpr "'e list"
  | TupleExpr "'e list"
  | AssignExpr string 'e 'e 'e "token_kind option"
  | LogicalExpr 'e token_kind 'e
  | LambdaExpr "string list" 'e "'s list" bool bool
  | PropertyAccessExpr 'e string bool
  | SelfExpr
  | SuperExpr
  | NewExpr string "'e list"
  | SetExpr 'e string 'e "token_kind option"
  | DictionaryExpr "('e \<times> 'e) list"
  | SpreadExpr 'e
  | TernaryExpr 'e 'e 'e
  | AwaitExpr 'e
  | DestructureAssignExpr "'e list" 'e

datatype ('e, 's) task_form =
  Task (tName: string) (tParams: "string list") (tDefaults: "'e list") (tBody: "'s list")
    (tVariadic: bool) (tAsync: bool) (tRequires: "('e \<times> string) list")
    (tEnsures: "('e \<times> string) list") (tCached: bool) (tRateLimit: "(int \<times> string) option")
    (tDecorators: "'e list")

datatype 'e validator = Validator (vRule: string) (vParam: 'e) (vMessage: string)

datatype ('e, 's) member_form =
    Member (mPublic: bool) (mStatic: bool) (mMethod: bool) (mAsync: bool) (mCached: bool)
      (mVariadic: bool) (mName: string) (mType: string) (mInit: 'e) (mParams: "string list")
      (mDefaults: "'e list") (mBody: "'s list") (mValidators: "'e validator list")
      (mRequires: "('e \<times> string) list") (mEnsures: "('e \<times> string) list")
      (mDecorators: "'e list")

datatype ('e, 's) model_form =
    Model (mdName: string) (mdParent: string) (mdInterfaces: "string list") (mdParams: "string list")
      (mdDefaults: "'e list") (mdInit: "'s list") (mdMembers: "('e, 's) member_form list") (mdAudited: bool)
      (mdSnapshot: bool) (mdPersist: string) (mdDecorators: "'e list")

datatype 's catch_block = Catch (cbType: string) (cbVar: string) (cbBody: 's)

datatype ('e, 's) stmt_form =
    ExpressionStmt 'e
  | OutStmt 'e
  | VarDeclStmt string 'e
  | BlockStmt "'s list"
  | WhenStmt 'e 's 's
  | WhileStmt 'e 's
  | RepeatStmt string 'e 'e 'e 's
  | GetStmt string string 'e 's
  | MatchStmt 'e "('e \<times> 's) list"
  | TaskStmt "('e, 's) task_form"
  | GiveStmt 'e
  | EscapeStmt
  | SkipStmt
  | StaticStmt string 'e
  | InterfaceStmt string "string list"
  | ModelStmt "('e, 's) model_form"
  | UseStmt string string
  | TryStmt 's "'s catch_block list" 's
  | ThrowStmt 'e
  | ExportStmt 's

datatype expr = NoExpr | Expr (exprLine: nat) (exprColumn: nat) (exprNode: "(expr, stmt) expr_form")
  and stmt = NoStmt | Stmt (stmtLine: nat) (stmtNode: "(expr, stmt) stmt_form")

type_synonym expr_node = "(expr, stmt) expr_form"
type_synonym stmt_node = "(expr, stmt) stmt_form"
type_synonym task = "(expr, stmt) task_form"
type_synonym member = "(expr, stmt) member_form"
type_synonym model = "(expr, stmt) model_form"

text \<open>The measure of the recursive functions on expressions and their nodes.\<close>

abbreviation nodeSize :: "expr_node \<Rightarrow> nat" where
  "nodeSize \<equiv> size_expr_form size size"

end
