(* ===== verification/Const_Fold.thy ===== *)
theory Const_Fold
  imports Ast Bytecode Vm_Arith
begin

text \<open>
  The constant folder of \<open>src/compiler/BytecodeCompilerStmt.cpp\<close> (\<open>isConstant\<close> and its helpers):
  it evaluates an expression of literals at compile time. A result \<open>Inl\<close> is a C++ exception or
  undefined behaviour inside the compiler, \<open>Inr None\<close> means not constant.
\<close>

subsection \<open>Constants\<close>

fun isConstantTruthy :: "const_val \<Rightarrow> bool" where
  "isConstantTruthy CNil = False"
| "isConstantTruthy (CBool b) = b"
| "isConstantTruthy (CInt i) = (i \<noteq> 0)"
| "isConstantTruthy (CDouble d) = (\<not> deq d 0)"
| "isConstantTruthy (CString s) = (s \<noteq> [])"
| "isConstantTruthy _ = True"

text \<open>\<open>std::to_string\<close> of a \<open>double\<close>: six digits after the point.\<close>

definition padDigits :: "nat \<Rightarrow> string \<Rightarrow> string" where
  "padDigits n ds = replicate (n - length ds) (CHR ''0'') @ ds"

definition fixed6 :: "rat \<Rightarrow> string" where
  "fixed6 r = (let n = nat (rnd_even (r * 1000000)) in
     showNat (n div 1000000) @ ''.'' @ padDigits 6 (showNat (n mod 1000000)))"

definition stdToString :: "dbl \<Rightarrow> string" where
  "stdToString d = (case dval_of d of
       DNaN \<Rightarrow> (if dsign d then ''-nan'' else ''nan'')
     | DInf s \<Rightarrow> (if s then ''-inf'' else ''inf'')
     | DFin s r \<Rightarrow> (if s then CHR ''-'' # fixed6 r else fixed6 r))"

text \<open>The trailing zeros go, and then a trailing point.\<close>

definition stripZeros :: "string \<Rightarrow> string" where
  "stripZeros s = (if CHR ''.'' \<in> set s
     then (let t = rev (dropWhile (\<lambda>c. c = CHR ''0'') (rev s)) in
           if t \<noteq> [] \<and> last t = CHR ''.'' then butlast t else t)
     else s)"

fun constantToString :: "const_val \<Rightarrow> string" where
  "constantToString CNil = ''nil''"
| "constantToString (CBool b) = (if b then ''true'' else ''false'')"
| "constantToString (CInt i) = showInt (sint i)"
| "constantToString (CDouble d) = stripZeros (stdToString d)"
| "constantToString (CString s) = s"
| "constantToString _ = []"

fun constantEquals :: "const_val \<Rightarrow> const_val \<Rightarrow> bool" where
  "constantEquals (CInt i) (CDouble d) = deq (d_of_i64 i) d"
| "constantEquals (CDouble d) (CInt i) = deq d (d_of_i64 i)"
| "constantEquals CNil CNil = True"
| "constantEquals (CBool a) (CBool b) = (a = b)"
| "constantEquals (CInt a) (CInt b) = (a = b)"
| "constantEquals (CDouble a) (CDouble b) = deq a b"
| "constantEquals (CString a) (CString b) = (a = b)"
| "constantEquals _ _ = False"

fun literalConstant :: "literal \<Rightarrow> const_val" where
  "literalConstant (LDouble d) = CDouble d"
| "literalConstant (LInt i) = CInt i"
| "literalConstant (LBool b) = CBool b"
| "literalConstant (LStr s) = CString s"
| "literalConstant LNull = CNil"

subsection \<open>Operators\<close>

text \<open>A string operand: \<open>Inr None\<close> falls through to the numeric cases.\<close>

fun isCString :: "const_val \<Rightarrow> bool" where
  "isCString (CString _) = True"
| "isCString _ = False"

fun isCDouble :: "const_val \<Rightarrow> bool" where
  "isCDouble (CDouble _) = True"
| "isCDouble _ = False"

definition foldStrings :: "token_kind \<Rightarrow> const_val \<Rightarrow> const_val \<Rightarrow> const_val option" where
  "foldStrings k l r =
     (if k = TK_PLUS then Some (CString (constantToString l @ constantToString r))
      else (case (l, r) of
          (CString s, CInt count) \<Rightarrow>
            if k = TK_STAR then
              (if sint count \<le> 0 then Some (CString [])
               else if sint count \<le> 50000 then Some (CString (concat (replicate (nat (sint count)) s)))
               else None)
            else None
        | (CString s, CString t) \<Rightarrow>
            if k = TK_LESS then Some (CBool (strLess s t))
            else if k = TK_LESS_EQUAL then Some (CBool (\<not> strLess t s))
            else if k = TK_GREATER then Some (CBool (strLess t s))
            else if k = TK_GREATER_EQUAL then Some (CBool (\<not> strLess s t))
            else None
        | _ \<Rightarrow> None))"

text \<open>A left shift of a negative value, or past the unsigned range, is undefined in C++17.\<close>

definition foldShiftLeft :: "i64 \<Rightarrow> i64 \<Rightarrow> cxx_exn + const_val option" where
  "foldShiftLeft l r =
     (if 0 \<le> sint r \<and> sint r < 64 then
        (if sint l < 0 \<or> sint l * 2 ^ nat (sint r) \<ge> 2 ^ 64 then Inl (Undefined ''left shift'')
         else Inr (Some (CInt (push_bit (nat (sint r)) l))))
      else Inr None)"

definition foldInts :: "token_kind \<Rightarrow> i64 \<Rightarrow> i64 \<Rightarrow> cxx_exn + const_val option" where
  "foldInts k l r =
     (let int_of = (\<lambda>x. Inr (Some (CInt x))); bool_of = (\<lambda>b. Inr (Some (CBool b))) in
      if k = TK_PLUS then int_of (wrapAdd l r)
      else if k = TK_MINUS then int_of (wrapSub l r)
      else if k = TK_STAR then int_of (wrapMul l r)
      else if k = TK_PERCENT then (if \<not> divIsUB l r then int_of (cmod l r) else Inr None)
      else if k = TK_AMPERSAND then int_of (l AND r)
      else if k = TK_PIPE then int_of (l OR r)
      else if k = TK_CARET then int_of (l XOR r)
      else if k = TK_LSHIFT then foldShiftLeft l r
      else if k = TK_RSHIFT then
        (if 0 \<le> sint r \<and> sint r < 64 then int_of (signed_drop_bit (nat (sint r)) l) else Inr None)
      else if k = TK_LESS then bool_of (l <s r)
      else if k = TK_LESS_EQUAL then bool_of (l \<le>s r)
      else if k = TK_GREATER then bool_of (r <s l)
      else if k = TK_GREATER_EQUAL then bool_of (r \<le>s l)
      else if k = TK_SLASH then
        (if \<not> divIsUB l r then
           (if divIsExact l r then int_of (cdiv l r)
            else Inr (Some (CDouble (ddiv (d_of_i64 l) (d_of_i64 r)))))
         else Inr None)
      else Inr None)"

definition foldDoubles :: "token_kind \<Rightarrow> dbl \<Rightarrow> dbl \<Rightarrow> const_val option" where
  "foldDoubles k l r =
     (if k = TK_PLUS then Some (CDouble (dadd l r))
      else if k = TK_MINUS then Some (CDouble (dsub l r))
      else if k = TK_STAR then Some (CDouble (dmul l r))
      else if k = TK_SLASH then (if \<not> deq r 0 then Some (CDouble (ddiv l r)) else None)
      else if k = TK_LESS then Some (CBool (dlt l r))
      else if k = TK_LESS_EQUAL then Some (CBool (dle l r))
      else if k = TK_GREATER then Some (CBool (dlt r l))
      else if k = TK_GREATER_EQUAL then Some (CBool (dle r l))
      else None)"

text \<open>Next to a \<open>double\<close>, an operand that is no number is a \<open>std::bad_variant_access\<close>.\<close>

fun constDouble :: "const_val \<Rightarrow> cxx_exn + dbl" where
  "constDouble (CInt i) = Inr (d_of_i64 i)"
| "constDouble (CDouble d) = Inr d"
| "constDouble _ = Inl BadVariantAccess"

definition foldBinary :: "token_kind \<Rightarrow> const_val \<Rightarrow> const_val \<Rightarrow> cxx_exn + const_val option" where
  "foldBinary k l r =
     (if k = TK_EQUAL_EQUAL then Inr (Some (CBool (constantEquals l r)))
      else if k = TK_BANG_EQUAL then Inr (Some (CBool (\<not> constantEquals l r)))
      else (case (if isCString l \<or> isCString r then foldStrings k l r else None) of
          Some c \<Rightarrow> Inr (Some c)
        | None \<Rightarrow>
          (case (l, r) of
             (CInt x, CInt y) \<Rightarrow> foldInts k x y
           | _ \<Rightarrow>
             if isCDouble l \<or> isCDouble r
             then res_bind (constDouble l) (\<lambda>x. res_bind (constDouble r) (\<lambda>y. Inr (foldDoubles k x y)))
             else Inr None)))"

definition foldUnary :: "token_kind \<Rightarrow> const_val \<Rightarrow> const_val option" where
  "foldUnary k c =
     (if k = TK_MINUS then
        (case c of CInt i \<Rightarrow> Some (CInt (wrapNeg i)) | CDouble d \<Rightarrow> Some (CDouble (dneg d)) | _ \<Rightarrow> None)
      else if k = TK_BANG \<or> k = TK_NOT then Some (CBool (\<not> isConstantTruthy c))
      else if k = TK_TILDE then (case c of CInt i \<Rightarrow> Some (CInt (NOT i)) | _ \<Rightarrow> None)
      else None)"

text \<open>The right operand is looked at only when the left one is constant.\<close>

function (sequential) isConstant :: "expr \<Rightarrow> cxx_exn + const_val option"
  and isConstantNode :: "expr_node \<Rightarrow> cxx_exn + const_val option" where
  "isConstant NoExpr = Inr None"
| "isConstant (Expr l c n) = isConstantNode n"
| "isConstantNode (LiteralExpr v) = Inr (Some (literalConstant v))"
| "isConstantNode (BinaryExpr l k r) =
     res_bind (isConstant l) (\<lambda>lc. case lc of
        None \<Rightarrow> Inr None
      | Some a \<Rightarrow> res_bind (isConstant r) (\<lambda>rc. case rc of
            None \<Rightarrow> Inr None
          | Some b \<Rightarrow> foldBinary k a b))"
| "isConstantNode (UnaryExpr k e) =
     res_bind (isConstant e) (\<lambda>c. case c of None \<Rightarrow> Inr None | Some a \<Rightarrow> Inr (foldUnary k a))"
| "isConstantNode _ = Inr None"
  by pat_completeness auto
termination by (relation "measure (case_sum size nodeSize)") auto

end
