(* ===== verification/Fold_Agrees.thy ===== *)
theory Fold_Agrees
  imports Const_Fold Vm_Values
begin

text \<open>
  The constant folder against the machine: what the instructions compiled for an operator compute
  on two values, and where folding gives the value the machine would have computed.
\<close>

subsection \<open>What an operator's instruction computes\<close>

definition fastOr :: "fastPath \<Rightarrow> (val \<Rightarrow> val \<Rightarrow> opRes) \<Rightarrow> val \<Rightarrow> val \<Rightarrow> opRes" where
  "fastOr fast helper a b = (case fast a b of Some r \<Rightarrow> r | None \<Rightarrow> helper a b)"

text \<open>The instruction \<open>compileBinary\<close> selects, on operands that overload nothing.\<close>

definition vmBinary :: "vm_env \<Rightarrow> heap \<Rightarrow> token_kind \<Rightarrow> val \<Rightarrow> val \<Rightarrow> opRes" where
  "vmBinary env h k a b =
     (if k = TK_PLUS then fastOr fastAdd (addValues h) a b
      else if k = TK_MINUS then fastOr fastSub subValues a b
      else if k = TK_STAR then fastOr fastMul mulValues a b
      else if k = TK_STAR_STAR then powValues env a b
      else if k = TK_SLASH then fastOr fastDiv divValues a b
      else if k = TK_PERCENT then fastOr fastMod modValues a b
      else if k = TK_AMPERSAND then bitAndValues a b
      else if k = TK_PIPE then bitOrValues a b
      else if k = TK_CARET then bitXorValues a b
      else if k = TK_LSHIFT then shiftLeftValues a b
      else if k = TK_RSHIFT then shiftRightValues a b
      else if k = TK_EQUAL_EQUAL then fastOr (fastEqual True) (equalValues h) a b
      else if k = TK_BANG_EQUAL then fastOr (fastEqual False) (notEqualValues h) a b
      else if k = TK_LESS then fastOr (fastCompare (\<lambda>x y. x <s y) dlt) lessValues a b
      else if k = TK_LESS_EQUAL then fastOr (fastCompare (\<lambda>x y. x \<le>s y) dle) lessEqValues a b
      else if k = TK_GREATER then fastOr (fastCompare (\<lambda>x y. y <s x) (\<lambda>x y. dlt y x)) greaterValues a b
      else if k = TK_GREATER_EQUAL then fastOr (fastCompare (\<lambda>x y. y \<le>s x) (\<lambda>x y. dle y x)) greaterEqValues a b
      else Error ''no instruction'')"

definition vmUnary :: "token_kind \<Rightarrow> val \<Rightarrow> opRes" where
  "vmUnary k a =
     (if k = TK_MINUS then negValue a
      else if k = TK_NOT \<or> k = TK_BANG then notValue a
      else if k = TK_TILDE then bitNotValue a
      else Error ''no instruction'')"

text \<open>The value the machine computes for an expression of literals.\<close>

function (sequential) constEval :: "vm_env \<Rightarrow> heap \<Rightarrow> expr \<Rightarrow> val option"
  and constEvalNode :: "vm_env \<Rightarrow> heap \<Rightarrow> expr_node \<Rightarrow> val option" where
  "constEval env h NoExpr = None"
| "constEval env h (Expr l c n) = constEvalNode env h n"
| "constEvalNode env h (LiteralExpr v) = Some (resolveConstant (literalConstant v))"
| "constEvalNode env h (BinaryExpr l k r) =
     (case (constEval env h l, constEval env h r) of
        (Some a, Some b) \<Rightarrow> (case vmBinary env h k a b of Push v \<Rightarrow> Some v | _ \<Rightarrow> None)
      | _ \<Rightarrow> None)"
| "constEvalNode env h (UnaryExpr k e) =
     (case constEval env h e of
        Some a \<Rightarrow> (case vmUnary k a of Push v \<Rightarrow> Some v | _ \<Rightarrow> None)
      | None \<Rightarrow> None)"
| "constEvalNode env h _ = None"
  by pat_completeness auto
termination by (relation "measure (case_sum (\<lambda>(_, _, e). size e) (\<lambda>(_, _, n). nodeSize n))") auto

subsection \<open>Agreement\<close>

fun plainConst :: "const_val \<Rightarrow> bool" where
  "plainConst CNil = True"
| "plainConst (CBool b) = True"
| "plainConst (CInt i) = True"
| "plainConst (CDouble d) = True"
| "plainConst _ = False"

lemmas vm_ops = fastOr_def fastAdd_def fastSub_def fastMul_def fastDiv_def fastMod_def
  fastCompare_def fastNums_def fastEqual_def pushInt_def pushBool_def pushNum_def

lemma foldInts_agrees:
  "foldInts k x y = Inr (Some c) \<Longrightarrow>
     vmBinary env h k (VInteger x) (VInteger y) = Push (resolveConstant c) \<and> plainConst c"
  by (auto simp: foldInts_def Let_def vmBinary_def vm_ops divInts_def modInts_def divIsUB_def
      bitAndValues_def bitOrValues_def bitXorValues_def bitValues_def test_defs
      shiftLeftValues_def shiftRightValues_def shiftValues_def foldShiftLeft_def split: if_splits)

lemma foldDoubles_agrees:
  assumes "foldDoubles k x y = Some c" and "constDouble l = Inr x" and "constDouble r = Inr y"
    and "isCDouble l \<or> isCDouble r"
  shows "vmBinary env h k (resolveConstant l) (resolveConstant r) = Push (resolveConstant c) \<and> plainConst c"
  using assms
  by (cases l; cases r)
     (auto simp: foldDoubles_def vmBinary_def vm_ops zeroDivision_def test_defs split: if_splits)

lemma equal_agrees:
  assumes "plainConst l" and "plainConst r"
  shows "fastOr (fastEqual True) (equalValues h) (resolveConstant l) (resolveConstant r) =
      Push (VBool (constantEquals l r))"
    and "fastOr (fastEqual False) (notEqualValues h) (resolveConstant l) (resolveConstant r) =
      Push (VBool (\<not> constantEquals l r))"
  using assms
  by (cases l; cases r; simp add: vm_ops equalValues_def notEqualValues_def equals_def equalsM.simps
      equalsHead_def test_defs)+

lemma foldBinary_agrees:
  assumes fold: "foldBinary k l r = Inr (Some c)" and plain: "plainConst l" "plainConst r"
  shows "vmBinary env h k (resolveConstant l) (resolveConstant r) = Push (resolveConstant c) \<and> plainConst c"
proof (cases "k = TK_EQUAL_EQUAL \<or> k = TK_BANG_EQUAL")
  case True
  then show ?thesis
    using fold equal_agrees [OF plain] by (auto simp: foldBinary_def vmBinary_def)
next
  case False
  show ?thesis
  proof (cases "isCDouble l \<or> isCDouble r")
    case True
    then obtain x y where "constDouble l = Inr x" "constDouble r = Inr y" "foldDoubles k x y = Some c"
      using False fold plain
      by (cases l; cases r) (auto simp: foldBinary_def)
    then show ?thesis using foldDoubles_agrees True by blast
  next
    case no_double: False
    then obtain x y where "l = CInt x" "r = CInt y" "foldInts k x y = Inr (Some c)"
      using False fold plain
      by (cases l; cases r) (auto simp: foldBinary_def)
    then show ?thesis using foldInts_agrees by simp
  qed
qed

text \<open>Zero is false to the folder and true to the machine.\<close>

definition zeroConst :: "const_val \<Rightarrow> bool" where
  "zeroConst c = (case c of CInt i \<Rightarrow> i = 0 | CDouble d \<Rightarrow> deq d 0 | _ \<Rightarrow> False)"

lemma foldUnary_agrees:
  assumes "foldUnary k a = Some c" and "plainConst a" and "k = TK_NOT \<or> k = TK_BANG \<Longrightarrow> \<not> zeroConst a"
  shows "vmUnary k (resolveConstant a) = Push (resolveConstant c) \<and> plainConst c"
  using assms
  by (cases a) (auto simp: foldUnary_def vmUnary_def negValue_def notValue_def bitNotValue_def vm_ops
      test_defs zeroConst_def split: if_splits)

text \<open>No string literal, and no negation of a constant zero.\<close>

function (sequential) plainExpr :: "expr \<Rightarrow> bool"
  and plainNode :: "expr_node \<Rightarrow> bool" where
  "plainExpr NoExpr = False"
| "plainExpr (Expr l c n) = plainNode n"
| "plainNode (LiteralExpr v) = (case v of LStr s \<Rightarrow> False | _ \<Rightarrow> True)"
| "plainNode (BinaryExpr l k r) = (plainExpr l \<and> plainExpr r)"
| "plainNode (UnaryExpr k e) = (plainExpr e \<and>
     (k = TK_NOT \<or> k = TK_BANG \<longrightarrow> (\<forall>c. isConstant e = Inr (Some c) \<longrightarrow> \<not> zeroConst c)))"
| "plainNode _ = False"
  by pat_completeness auto
termination by (relation "measure (case_sum size nodeSize)") auto

lemma fold_agrees:
  "plainExpr e \<Longrightarrow> isConstant e = Inr (Some c) \<Longrightarrow>
     constEval env h e = Some (resolveConstant c) \<and> plainConst c"
  "plainNode n \<Longrightarrow> isConstantNode n = Inr (Some c) \<Longrightarrow>
     constEvalNode env h n = Some (resolveConstant c) \<and> plainConst c"
proof (induction e and n arbitrary: c and c rule: isConstant_isConstantNode.induct)
  case (3 v)
  then show ?case by (cases v) auto
next
  case (4 l k r)
  then obtain a b where "isConstant l = Inr (Some a)" "isConstant r = Inr (Some b)"
    "foldBinary k a b = Inr (Some c)"
    by (cases "isConstant l"; cases "isConstant r") (auto split: option.splits)
  then show ?case using 4 foldBinary_agrees [of k a b c env h] by simp
next
  case (5 k e)
  then obtain a where "isConstant e = Inr (Some a)" "foldUnary k a = Some c"
    by (cases "isConstant e") (auto split: option.splits)
  then show ?case using 5 foldUnary_agrees [of k a c] by auto
qed simp_all


definition litInt :: "i64 \<Rightarrow> expr" where
  "litInt i = Expr 1 1 (LiteralExpr (LInt i))"



end
