(* ===== verification/Compiler_Core.thy ===== *)
theory Compiler_Core
  imports Const_Fold
begin

text \<open>
  The state of the bytecode compiler and the operations everything else is built from, from
  \<open>src/compiler/BytecodeCompiler.h\<close>, \<open>BytecodeCompiler.cpp\<close> and \<open>BytecodeCompilerStmt.cpp\<close>:
  scopes and locals, captured variables, global slots, code emission and errors. The compilers of
  the enclosing functions form a list whose head is \<open>current\<close>. An operation that throws stops with
  the reason; \<open>CompileFail\<close> is the compiler's own exception, with the message it was given.
\<close>

subsection \<open>State\<close>

record localVar =
  lName :: string
  lDepth :: nat
  lCaptured :: bool
  lConst :: bool
  lResident :: bool
  lExported :: bool
  lInfo :: nat

text \<open>An open try block: its finally body and the local that parks a return value meanwhile.\<close>

datatype activeTry = NoFinally | Finally stmt nat

record fn_compiler =
  fcHeader :: fn_header
  fcChunk :: chunk
  fcNested :: "bfunction list"
  fcLocals :: "localVar list"
  fcDepth :: nat
  fcUpvalues :: "upvalue list"
  fcStatics :: "(string \<times> string) list"
  fcClass :: string
  fcParentClass :: string
  fcActives :: "activeTry list"
  fcMaxLocals :: nat
  fcId :: nat
  fcHarvesting :: bool
  fcCached :: bool
  fcCaches :: nat

record loop_ctx =
  lpStart :: nat
  lpBreaks :: "nat list"
  lpTryDepth :: nat
  lpDepth :: nat

record compiler =
  fns :: "fn_compiler list"
  currentLine :: nat
  currentDepth :: nat
  hadError :: bool
  errorMessage :: string
  slotTable :: "(string \<times> nat) list"
  nextGlobalSlot :: nat
  ensures :: "(expr \<times> string) list"
  oldCaptures :: "(string \<times> nat) list"
  loopStack :: "loop_ctx list"
  declaredTypes :: "string list"
  disableContracts :: bool
  lastCompilerId :: nat

datatype cstop = CompileFail string | CompilerThrows cxx_exn | Outside string | OutOfFuel

type_synonym 'a cact = "compiler \<Rightarrow> cstop + 'a \<times> compiler"

definition cbnd :: "'a cact \<Rightarrow> ('a \<Rightarrow> 'b cact) \<Rightarrow> 'b cact" where
  "cbnd m f s = (case m s of Inl e \<Rightarrow> Inl e | Inr (a, t) \<Rightarrow> f a t)"

definition cret :: "'a \<Rightarrow> 'a cact" where
  "cret a s = Inr (a, s)"

definition cget :: "(compiler \<Rightarrow> 'a) \<Rightarrow> 'a cact" where
  "cget f s = Inr (f s, s)"

definition cupd :: "(compiler \<Rightarrow> compiler) \<Rightarrow> unit cact" where
  "cupd f s = Inr ((), f s)"

definition clift :: "cxx_exn + 'a \<Rightarrow> 'a cact" where
  "clift r s = (case r of Inl e \<Rightarrow> Inl (CompilerThrows e) | Inr a \<Rightarrow> Inr (a, s))"

fun cseq :: "unit cact list \<Rightarrow> unit cact" where
  "cseq [] = cret ()"
| "cseq (m # ms) = cbnd m (\<lambda>_. cseq ms)"

text \<open>\<open>Compiler(name, arity, parent)\<close>, and the state \<open>compile\<close> starts from in a fresh process.\<close>

definition newFunction :: "string \<Rightarrow> nat \<Rightarrow> nat \<Rightarrow> fn_compiler" where
  "newFunction name arity i = \<lparr>fcHeader = newHeader name arity, fcChunk = emptyChunk, fcNested = [],
     fcLocals = [], fcDepth = 0, fcUpvalues = [], fcStatics = [], fcClass = [], fcParentClass = [],
     fcActives = [], fcMaxLocals = 0, fcId = i, fcHarvesting = False, fcCached = False, fcCaches = 0\<rparr>"

definition newCompiler :: "bool \<Rightarrow> compiler" where
  "newCompiler noContracts = \<lparr>fns = [newFunction ''<main>'' 0 1], currentLine = 0, currentDepth = 0,
     hadError = False, errorMessage = [], slotTable = [], nextGlobalSlot = 0, ensures = [],
     oldCaptures = [], loopStack = [], declaredTypes = [], disableContracts = noContracts,
     lastCompilerId = 1\<rparr>"

definition cur :: "compiler \<Rightarrow> fn_compiler" where
  "cur s = hd (fns s)"

definition setCur :: "(fn_compiler \<Rightarrow> fn_compiler) \<Rightarrow> compiler \<Rightarrow> compiler" where
  "setCur f s = (case fns s of [] \<Rightarrow> s | c # cs \<Rightarrow> s\<lparr>fns := f c # cs\<rparr>)"

subsection \<open>Errors\<close>

text \<open>\<open>errorAt\<close> throws unless an error has been recorded before; \<open>error\<close> only records it.\<close>

definition errorAt :: "string \<Rightarrow> unit cact" where
  "errorAt msg s = (if hadError s then Inr ((), s) else Inl (CompileFail msg))"

definition recordError :: "string \<Rightarrow> unit cact" where
  "recordError msg = cupd (\<lambda>s. if hadError s then s else s\<lparr>hadError := True, errorMessage := msg\<rparr>)"

subsection \<open>Emission\<close>

definition onChunk :: "(nat \<Rightarrow> chunk \<Rightarrow> chunk) \<Rightarrow> unit cact" where
  "onChunk f = cupd (\<lambda>s. setCur (\<lambda>c. c\<lparr>fcChunk := f (currentLine s) (fcChunk c)\<rparr>) s)"

definition emitByte :: "nat \<Rightarrow> unit cact" where
  "emitByte b = onChunk (writeByte (word_of_nat b))"

definition emitOp :: "opcode \<Rightarrow> unit cact" where
  "emitOp k = onChunk (writeOp k)"

text \<open>An opcode with one operand byte, and the big-endian short used everywhere.\<close>

definition emitOpByte :: "opcode \<Rightarrow> nat \<Rightarrow> unit cact" where
  "emitOpByte k b = cseq [emitOp k, emitByte b]"

definition emitShort :: "nat \<Rightarrow> unit cact" where
  "emitShort n = cseq [emitByte (n div 256), emitByte n]"

definition emitOpShort :: "opcode \<Rightarrow> nat \<Rightarrow> unit cact" where
  "emitOpShort k n = cseq [emitOp k, emitShort n]"

definition makeConstant :: "const_val \<Rightarrow> nat cact" where
  "makeConstant c s = (case addConstant (fcChunk (cur s)) c of
     (i, ch) \<Rightarrow> Inr (i, setCur (\<lambda>fc. fc\<lparr>fcChunk := ch\<rparr>) s))"

definition identifierConstant :: "string \<Rightarrow> nat cact" where
  "identifierConstant name = makeConstant (CString name)"

definition emitConstant :: "const_val \<Rightarrow> unit cact" where
  "emitConstant c = cbnd (makeConstant c) (\<lambda>idx.
     if idx > 65535 then errorAt ''Too many constants in one chunk (max 65535)''
     else emitOpShort OP_LOAD_CONST idx)"

definition emitLoadLocal :: "nat \<Rightarrow> unit cact" where
  "emitLoadLocal slot =
     (if slot \<le> 255 then emitOpByte OP_LOAD_LOCAL slot else emitOpShort OP_LOAD_LOCAL_W slot)"

definition emitStoreLocal :: "nat \<Rightarrow> unit cact" where
  "emitStoreLocal slot =
     (if slot \<le> 255 then emitOpByte OP_STORE_LOCAL slot else emitOpShort OP_STORE_LOCAL_W slot)"

definition codeSize :: "compiler \<Rightarrow> nat" where
  "codeSize s = length (code (fcChunk (cur s)))"

definition emitJump :: "opcode \<Rightarrow> nat cact" where
  "emitJump k = cbnd (onChunk (writeJump k)) (\<lambda>_. cget (\<lambda>s. codeSize s - 4))"

definition patchJumpAt :: "nat \<Rightarrow> unit cact" where
  "patchJumpAt offset s = (case patchJump offset (fcChunk (cur s)) of
       Some ch \<Rightarrow> Inr ((), setCur (\<lambda>c. c\<lparr>fcChunk := ch\<rparr>) s)
     | None \<Rightarrow> Inl (CompilerThrows (Undefined ''patch outside the code'')))"

definition emitLoop :: "nat \<Rightarrow> unit cact" where
  "emitLoop loopStart = onChunk (writeLoop loopStart)"

definition emitReturn :: "unit cact" where
  "emitReturn = emitOp OP_RETURN"

text \<open>A fresh inline cache of the function, numbered in order.\<close>

definition emitCacheIndex :: "unit cact" where
  "emitCacheIndex = cbnd (cget (\<lambda>s. fcCaches (cur s))) (\<lambda>n.
     cseq [cupd (setCur (\<lambda>c. c\<lparr>fcCaches := fcCaches c + 1\<rparr>)), emitShort n])"

subsection \<open>Scopes and locals\<close>

definition beginScope :: "unit cact" where
  "beginScope = cupd (setCur (\<lambda>c. c\<lparr>fcDepth := fcDepth c + 1\<rparr>))"

text \<open>Closing a scope: the locals deeper than it go, the last declared first.\<close>

definition setInfoEnd :: "nat \<Rightarrow> nat \<Rightarrow> fn_header \<Rightarrow> fn_header" where
  "setInfoEnd i pc h = h\<lparr>fnLocalVars := (fnLocalVars h)[i := (fnLocalVars h ! i)\<lparr>lvEnd := pc\<rparr>]\<rparr>"

definition dropLocal :: "unit cact" where
  "dropLocal = cbnd (cget (\<lambda>s. last (fcLocals (cur s)))) (\<lambda>l.
     cseq [cupd (\<lambda>s. setCur (\<lambda>c. c\<lparr>fcHeader := setInfoEnd (lInfo l) (codeSize s) (fcHeader c)\<rparr>) s),
       if lCaptured l
       then cbnd (cget (\<lambda>s. length (fcLocals (cur s)) - 1)) (emitOpByte OP_CLOSE_UPVALUE)
       else cret (),
       if lResident l then emitOp OP_POP else cret (),
       cupd (setCur (\<lambda>c. c\<lparr>fcLocals := butlast (fcLocals c)\<rparr>))])"

fun dropLocals :: "nat \<Rightarrow> unit cact" where
  "dropLocals 0 = cret ()"
| "dropLocals (Suc n) = cbnd dropLocal (\<lambda>_. dropLocals n)"

definition deeperLocals :: "nat \<Rightarrow> fn_compiler \<Rightarrow> nat" where
  "deeperLocals depth c = length (takeWhile (\<lambda>l. lDepth l > depth) (rev (fcLocals c)))"

definition endScope :: "unit cact" where
  "endScope = cbnd (cupd (setCur (\<lambda>c. c\<lparr>fcDepth := fcDepth c - 1\<rparr>)))
     (\<lambda>_. cbnd (cget (\<lambda>s. deeperLocals (fcDepth (cur s)) (cur s))) dropLocals)"

definition addLocal :: "string \<Rightarrow> bool \<Rightarrow> nat cact" where
  "addLocal name isConst =
     cbnd (cupd (\<lambda>s. setCur (\<lambda>c.
         let n = length (fcLocals c); infos = fnLocalVars (fcHeader c);
             info = \<lparr>lvName = name, lvSlot = n, lvStart = codeSize s, lvEnd = 2 ^ 64 - 1\<rparr>;
             l = \<lparr>lName = name, lDepth = fcDepth c, lCaptured = False, lConst = isConst,
                  lResident = True, lExported = False, lInfo = length infos\<rparr>
         in c\<lparr>fcHeader := (fcHeader c)\<lparr>fnLocalVars := infos @ [info]\<rparr>,
              fcLocals := fcLocals c @ [l]\<rparr>) s))
       (\<lambda>_. cbnd (cget (\<lambda>s. length (fcLocals (cur s)))) (\<lambda>n.
         cbnd (if n > 65535 then errorAt ''Too many local variables in function (max 65535)'' else cret ())
           (\<lambda>_. cbnd (cupd (setCur (\<lambda>c. c\<lparr>fcMaxLocals := max (fcMaxLocals c) n\<rparr>)))
             (\<lambda>_. cret (n - 1)))))"

text \<open>\<open>markInitialized\<close>, and a local that an assignment creates.\<close>

definition onLastLocal :: "(localVar \<Rightarrow> localVar) \<Rightarrow> unit cact" where
  "onLastLocal f s = (if fcLocals (cur s) = [] then Inl (CompilerThrows (Undefined ''back of an empty vector''))
     else Inr ((), setCur (\<lambda>c. c\<lparr>fcLocals := butlast (fcLocals c) @ [f (last (fcLocals c))]\<rparr>) s))"

definition markInitialized :: "unit cact" where
  "markInitialized = cbnd (cget (\<lambda>s. fcDepth (cur s))) (\<lambda>d.
     if d = 0 then cret () else onLastLocal (\<lambda>l. l\<lparr>lDepth := d\<rparr>))"

definition addFloatingLocal :: "string \<Rightarrow> nat cact" where
  "addFloatingLocal name = cbnd (addLocal name False) (\<lambda>slot.
     cbnd (onLastLocal (\<lambda>l. l\<lparr>lResident := False\<rparr>)) (\<lambda>_. cbnd markInitialized (\<lambda>_. cret slot)))"

text \<open>The last declared local of a name.\<close>

fun lastNamed :: "string \<Rightarrow> localVar list \<Rightarrow> nat option" where
  "lastNamed name [] = None"
| "lastNamed name (l # ls) = (case lastNamed name ls of
      Some i \<Rightarrow> Some (i + 1) | None \<Rightarrow> if lName l = name then Some 0 else None)"

definition resolveLocal :: "string \<Rightarrow> compiler \<Rightarrow> nat option" where
  "resolveLocal name s = lastNamed name (fcLocals (cur s))"

subsection \<open>Captured variables\<close>

fun findUpvalue :: "upvalue \<Rightarrow> upvalue list \<Rightarrow> nat option" where
  "findUpvalue u [] = None"
| "findUpvalue u (v # vs) = (if v = u then Some 0 else map_option Suc (findUpvalue u vs))"

text \<open>\<open>addUpvalue\<close> on one function: \<open>None\<close> at the limit of 255.\<close>

definition addUpvalue :: "bool \<Rightarrow> upvalue \<Rightarrow> fn_compiler \<Rightarrow> (nat \<times> fn_compiler) option" where
  "addUpvalue ignoreLimit u c = (case findUpvalue u (fcUpvalues c) of
       Some i \<Rightarrow> Some (i, c)
     | None \<Rightarrow>
         if length (fcUpvalues c) \<ge> 255 \<and> \<not> ignoreLimit then None
         else Some (length (fcUpvalues c), c\<lparr>fcUpvalues := fcUpvalues c @ [u],
           fcHeader := (fcHeader c)\<lparr>fnUpvalues := fnUpvalues (fcHeader c) @ [u],
             fnUpvalueCount := length (fcUpvalues c) + 1\<rparr>\<rparr>))"

definition markCaptured :: "nat \<Rightarrow> fn_compiler \<Rightarrow> fn_compiler" where
  "markCaptured i c = c\<lparr>fcLocals := (fcLocals c)[i := (fcLocals c ! i)\<lparr>lCaptured := True\<rparr>]\<rparr>"

text \<open>
  \<open>resolveUpvalue\<close> along the enclosing functions: a local of the next one is captured directly,
  anything further out through an upvalue of the next one. \<open>Inl\<close> is the limit's error.
\<close>

fun resolveUp :: "bool \<Rightarrow> string \<Rightarrow> fn_compiler list \<Rightarrow> unit + nat option \<times> fn_compiler list" where
  "resolveUp g name [] = Inr (None, [])"
| "resolveUp g name [c] = Inr (None, [c])"
| "resolveUp g name (c # e # es) =
     (case lastNamed name (fcLocals e) of
        Some i \<Rightarrow> (case addUpvalue g \<lparr>upType = UpLocal, upIndex = i\<rparr> c of
            Some (u, c') \<Rightarrow> Inr (Some u, c' # markCaptured i e # es) | None \<Rightarrow> Inl ())
      | None \<Rightarrow> (case resolveUp g name (e # es) of
            Inl x \<Rightarrow> Inl x
          | Inr (None, es') \<Rightarrow> Inr (None, c # es')
          | Inr (Some i, es') \<Rightarrow> (case addUpvalue g \<lparr>upType = UpUpvalue, upIndex = i\<rparr> c of
                Some (u, c') \<Rightarrow> Inr (Some u, c' # es') | None \<Rightarrow> Inl ())))"

definition resolveUpvalue :: "string \<Rightarrow> nat option cact" where
  "resolveUpvalue name s = (case resolveUp (hadError s) name (fns s) of
       Inl _ \<Rightarrow> Inl (CompileFail ''Too many captured variables in one function (max 255)'')
     | Inr (r, cs) \<Rightarrow> Inr (r, s\<lparr>fns := cs\<rparr>))"

subsection \<open>Statics and globals\<close>

fun resolveStatic :: "string \<Rightarrow> fn_compiler list \<Rightarrow> string" where
  "resolveStatic name [] = []"
| "resolveStatic name (c # cs) = (case map_of (fcStatics c) name of
      Some m \<Rightarrow> m | None \<Rightarrow> resolveStatic name cs)"

definition globalSlotFor :: "string \<Rightarrow> nat cact" where
  "globalSlotFor name s = (case map_of (slotTable s) name of
       Some i \<Rightarrow> Inr (i, s)
     | None \<Rightarrow>
         if nextGlobalSlot s > 65535 then
           cbnd (errorAt ''Too many global variables (max 65535)'') (\<lambda>_. cret 0) s
         else Inr (nextGlobalSlot s, s\<lparr>slotTable := (name, nextGlobalSlot s) # slotTable s,
                nextGlobalSlot := nextGlobalSlot s + 1\<rparr>))"

definition setGlobalSlot :: "string \<Rightarrow> nat \<Rightarrow> compiler \<Rightarrow> compiler" where
  "setGlobalSlot name slot s = s\<lparr>slotTable := (name, slot) # filter (\<lambda>e. fst e \<noteq> name) (slotTable s),
     nextGlobalSlot := (if slot \<ge> nextGlobalSlot s then slot + 1 else nextGlobalSlot s)\<rparr>"

text \<open>The instruction that reads or writes a global by its slot, and one that names a constant.\<close>

definition loadGlobalSlotOf :: "string \<Rightarrow> unit cact" where
  "loadGlobalSlotOf name = cbnd (globalSlotFor name) (emitOpShort OP_LOAD_GLOBAL_SLOT)"

definition storeGlobalSlotOf :: "string \<Rightarrow> unit cact" where
  "storeGlobalSlotOf name = cbnd (globalSlotFor name) (emitOpShort OP_STORE_GLOBAL_SLOT)"

definition emitNamed :: "opcode \<Rightarrow> string \<Rightarrow> unit cact" where
  "emitNamed k name = cbnd (identifierConstant name) (emitOpShort k)"

text \<open>A class by its slot when it has one, else by name.\<close>

definition loadClass :: "string \<Rightarrow> unit cact" where
  "loadClass name = cbnd (cget (\<lambda>s. map_of (slotTable s) name)) (\<lambda>r. case r of
       Some slot \<Rightarrow> emitOpShort OP_LOAD_GLOBAL_SLOT slot
     | None \<Rightarrow> emitNamed OP_LOAD_GLOBAL name)"

subsection \<open>Call sites\<close>

fun calleeDisplayName :: "expr \<Rightarrow> string" where
  "calleeDisplayName NoExpr = []"
| "calleeDisplayName (Expr l c n) = (case n of
      IdentifierExpr name \<Rightarrow> name
    | PropertyAccessExpr obj prop opt \<Rightarrow>
        (if calleeDisplayName obj = [] then prop else calleeDisplayName obj @ ''.'' @ prop)
    | SelfExpr \<Rightarrow> ''self''
    | SuperExpr \<Rightarrow> ''super''
    | IndexExpr obj idx \<Rightarrow>
        (if calleeDisplayName obj \<noteq> [] then calleeDisplayName obj @ ''[...]'' else [])
    | _ \<Rightarrow> [])"

definition recordCallSite :: "string \<Rightarrow> unit cact" where
  "recordCallSite name = (if name = [] then cret ()
     else cupd (\<lambda>s. setCur (\<lambda>c. c\<lparr>fcHeader := (fcHeader c)\<lparr>fnCallSites := fnCallSites (fcHeader c) @
       [\<lparr>csOffset = word_of_nat (codeSize s), csName = name\<rparr>]\<rparr>\<rparr>) s))"

end
