(* ===== verification/Compile_Expr.thy ===== *)
theory Compile_Expr
  imports Compiler_Core Utf8
begin

text \<open>
  The expression compiler of \<open>src/compiler/BytecodeCompilerExpr.cpp\<close>: one definition per member
  function, in the order of the file. Each takes the compiler of sub-expressions \<open>ce\<close> as an
  argument; the recursion is closed in \<open>Compile_Stmt\<close>, as a lambda contains statements. The warning
  about assigning to a builtin only prints and is left out; the number in \<open>Unknown binary operator\<close>
  is left out of the message.
\<close>

subsection \<open>Literals and names\<close>

definition compileLiteral :: "literal \<Rightarrow> unit cact" where
  "compileLiteral v = (case v of
       LNull \<Rightarrow> emitOp OP_LOAD_NIL
     | LBool b \<Rightarrow> emitOp (if b then OP_LOAD_TRUE else OP_LOAD_FALSE)
     | LInt i \<Rightarrow> if i = 0 then emitOp OP_LOAD_ZERO else if i = 1 then emitOp OP_LOAD_ONE
         else emitConstant (CInt i)
     | LDouble d \<Rightarrow> emitConstant (CDouble d)
     | LStr s \<Rightarrow> if s = [] then emitOp OP_LOAD_EMPTY_STR else emitConstant (CString s))"

definition emitLoadSelf :: "unit cact" where
  "emitLoadSelf = cbnd (cget (resolveLocal ''self'')) (\<lambda>l. case l of
       Some slot \<Rightarrow> emitLoadLocal slot
     | None \<Rightarrow> cbnd (resolveUpvalue ''self'') (\<lambda>u. case u of
           Some i \<Rightarrow> emitOpByte OP_LOAD_UPVALUE i
         | None \<Rightarrow> errorAt ''Cannot use 'self' or 'super' outside of a model method''))"

definition loadSuper :: "string \<Rightarrow> unit cact" where
  "loadSuper parent = cseq [emitLoadSelf, loadClass parent, emitOp OP_SUPER]"

definition compileIdentifier :: "string \<Rightarrow> unit cact" where
  "compileIdentifier name = cbnd (cget (\<lambda>s. resolveStatic name (fns s))) (\<lambda>mangled.
     if mangled \<noteq> [] then emitNamed OP_LOAD_GLOBAL mangled
     else cbnd (cget (resolveLocal name)) (\<lambda>l. case l of
       Some slot \<Rightarrow> emitLoadLocal slot
     | None \<Rightarrow> cbnd (resolveUpvalue name) (\<lambda>u. case u of
           Some i \<Rightarrow> emitOpByte OP_LOAD_UPVALUE i
         | None \<Rightarrow>
             if name = ''self'' then emitLoadSelf
             else if name = ''super'' then
               cbnd (cget (\<lambda>s. fcParentClass (cur s))) (\<lambda>parent.
                 if parent \<noteq> [] then loadSuper parent
                 else errorAt ''Cannot use 'super' outside of a model with a parent.'')
             else loadGlobalSlotOf name)))"

text \<open>\<open>super\<close> as an expression of its own: without a parent it prints and emits nothing.\<close>

definition compileSuper :: "unit cact" where
  "compileSuper = cbnd (cget (\<lambda>s. fcParentClass (cur s))) (\<lambda>parent.
     if parent = [] then cret () else loadSuper parent)"

subsection \<open>Operators\<close>

definition binaryOpcode :: "token_kind \<Rightarrow> opcode option" where
  "binaryOpcode k =
     (if k = TK_PLUS then Some OP_ADD else if k = TK_MINUS then Some OP_SUB
      else if k = TK_STAR then Some OP_MUL else if k = TK_STAR_STAR then Some OP_POW
      else if k = TK_SLASH then Some OP_DIV else if k = TK_PERCENT then Some OP_MOD
      else if k = TK_AMPERSAND then Some OP_BIT_AND else if k = TK_PIPE then Some OP_BIT_OR
      else if k = TK_CARET then Some OP_BIT_XOR else if k = TK_LSHIFT then Some OP_SHIFT_LEFT
      else if k = TK_RSHIFT then Some OP_SHIFT_RIGHT else if k = TK_EQUAL_EQUAL then Some OP_EQUAL
      else if k = TK_BANG_EQUAL then Some OP_NOT_EQUAL else if k = TK_LESS then Some OP_LESS
      else if k = TK_LESS_EQUAL then Some OP_LESS_EQ else if k = TK_GREATER then Some OP_GREATER
      else if k = TK_GREATER_EQUAL then Some OP_GREATER_EQ else if k = TK_IN then Some OP_MEMBER_IN
      else None)"

definition compileLogicalShortCircuit :: "(expr \<Rightarrow> unit cact) \<Rightarrow> expr \<Rightarrow> token_kind \<Rightarrow> expr \<Rightarrow> unit cact" where
  "compileLogicalShortCircuit ce l k r = cseq [ce l, emitOp OP_DUP,
     cbnd (emitJump (if k = TK_AND then OP_JUMP_IF_FALSE else OP_JUMP_IF_TRUE)) (\<lambda>jumpOffset.
       cseq [emitOp OP_POP, ce r, patchJumpAt jumpOffset])]"

text \<open>The identity reductions: the operand that remains of \<open>x + 0\<close>, \<open>x - 0\<close>, \<open>x * 1\<close>, \<open>0 + x\<close>, \<open>1 * x\<close>.\<close>

definition identityOperand :: "expr \<Rightarrow> token_kind \<Rightarrow> expr \<Rightarrow> const_val option \<Rightarrow> const_val option \<Rightarrow> expr option" where
  "identityOperand l k r lc rc =
     (if rc = Some (CInt 0) \<and> (k = TK_PLUS \<or> k = TK_MINUS) \<or> rc = Some (CInt 1) \<and> k = TK_STAR then Some l
      else if lc = Some (CInt 0) \<and> k = TK_PLUS \<or> lc = Some (CInt 1) \<and> k = TK_STAR then Some r
      else None)"

definition compileBinary :: "(expr \<Rightarrow> unit cact) \<Rightarrow> expr \<Rightarrow> token_kind \<Rightarrow> expr \<Rightarrow> unit cact" where
  "compileBinary ce l k r =
     (if k = TK_AND \<or> k = TK_OR then compileLogicalShortCircuit ce l k r
      else cbnd (clift (isConstant l)) (\<lambda>lc. cbnd (clift (isConstant r)) (\<lambda>rc.
        cbnd (if lc \<noteq> None \<and> rc \<noteq> None then clift (isConstant (Expr 0 0 (BinaryExpr l k r)))
              else cret None) (\<lambda>folded. case folded of
            Some c \<Rightarrow> emitConstant c
          | None \<Rightarrow> (case identityOperand l k r lc rc of
                Some e \<Rightarrow> ce e
              | None \<Rightarrow> cseq [ce l, ce r, case binaryOpcode k of
                    Some op \<Rightarrow> emitOp op
                  | None \<Rightarrow> errorAt ''Unknown binary operator''])))))"

definition compileUnary :: "(expr \<Rightarrow> unit cact) \<Rightarrow> token_kind \<Rightarrow> expr \<Rightarrow> unit cact" where
  "compileUnary ce k e = cbnd (clift (isConstant e)) (\<lambda>ec.
     cbnd (if ec \<noteq> None then clift (isConstant (Expr 0 0 (UnaryExpr k e))) else cret None) (\<lambda>folded. case folded of
         Some c \<Rightarrow> emitConstant c
       | None \<Rightarrow> cseq [ce e,
           if k = TK_MINUS then emitOp OP_NEGATE
           else if k = TK_NOT \<or> k = TK_BANG then emitOp OP_NOT
           else if k = TK_TILDE then emitOp OP_BIT_NOT
           else errorAt ''Unknown unary operator'']))"

definition compileAwait :: "(expr \<Rightarrow> unit cact) \<Rightarrow> expr \<Rightarrow> unit cact" where
  "compileAwait ce e = cseq [ce e, emitOp OP_OP_AWAIT]"

definition compileLogical :: "(expr \<Rightarrow> unit cact) \<Rightarrow> expr \<Rightarrow> token_kind \<Rightarrow> expr \<Rightarrow> unit cact" where
  "compileLogical ce l k r = cseq [ce l, emitOp OP_DUP,
     cbnd (emitJump (if k = TK_AND then OP_JUMP_IF_FALSE
                     else if k = TK_QUESTION_QUESTION then OP_JUMP_IF_NOT_NIL else OP_JUMP_IF_TRUE))
       (\<lambda>jumpOffset. cseq [emitOp OP_POP, ce r, patchJumpAt jumpOffset])]"

definition compileTernary :: "(expr \<Rightarrow> unit cact) \<Rightarrow> expr \<Rightarrow> expr \<Rightarrow> expr \<Rightarrow> unit cact" where
  "compileTernary ce c a b = cseq [ce c,
     cbnd (emitJump OP_JUMP_IF_FALSE) (\<lambda>elseJump. cseq [ce a,
       cbnd (emitJump OP_JUMP) (\<lambda>endJump. cseq [patchJumpAt elseJump, ce b, patchJumpAt endJump])])]"

subsection \<open>Calls\<close>

fun isSpread :: "expr \<Rightarrow> bool" where
  "isSpread (Expr l c (SpreadExpr e)) = True"
| "isSpread _ = False"

definition oldKey :: "expr \<Rightarrow> string" where
  "oldKey e = ''old_'' @ showNat (exprLine e) @ ''_'' @ showNat (exprColumn e)"

text \<open>\<open>old(expr)\<close> in an ensures clause: the local that holds the value at entry.\<close>

definition oldSlot :: "expr \<Rightarrow> expr list \<Rightarrow> compiler \<Rightarrow> nat option" where
  "oldSlot callee args s = (case (callee, args) of
       (Expr _ _ (IdentifierExpr name), [a]) \<Rightarrow>
         if name = ''old'' then map_of (oldCaptures s) (oldKey a) else None
     | _ \<Rightarrow> None)"

text \<open>Keyword calls: the positional arguments, then key and value pairs for a dictionary.\<close>

fun pushPositional :: "(expr \<Rightarrow> unit cact) \<Rightarrow> (expr \<times> string) list \<Rightarrow> unit cact" where
  "pushPositional ce [] = cret ()"
| "pushPositional ce ((e, kw) # as) =
     cbnd (if kw = [] then ce e else cret ()) (\<lambda>_. pushPositional ce as)"

fun pushKeywords :: "(expr \<Rightarrow> unit cact) \<Rightarrow> (expr \<times> string) list \<Rightarrow> unit cact" where
  "pushKeywords ce [] = cret ()"
| "pushKeywords ce ((e, kw) # as) =
     cbnd (if kw = [] then cret () else cseq [emitNamed OP_LOAD_CONST kw, ce e]) (\<lambda>_. pushKeywords ce as)"

definition callKeywords :: "(expr \<Rightarrow> unit cact) \<Rightarrow> expr \<Rightarrow> expr list \<Rightarrow> string list \<Rightarrow> unit cact" where
  "callKeywords ce callee args names =
     (if length names < length args then (\<lambda>s. Inl (CompilerThrows (Undefined ''argNames out of range'')))
      else let as = zip args names in
        cseq [ce callee, pushPositional ce as, pushKeywords ce as,
          emitOpByte OP_MAKE_DICT (length (filter (\<lambda>a. snd a \<noteq> []) as)),
          emitOpByte OP_CALL_KW (length (filter (\<lambda>a. snd a = []) as)),
          recordCallSite (calleeDisplayName callee)])"

fun compileAll :: "(expr \<Rightarrow> unit cact) \<Rightarrow> expr list \<Rightarrow> unit cact" where
  "compileAll ce [] = cret ()"
| "compileAll ce (e # es) = cbnd (ce e) (\<lambda>_. compileAll ce es)"

text \<open>Elements pushed one by one onto an array, a spread one extending it.\<close>

fun extendArray :: "(expr \<Rightarrow> unit cact) \<Rightarrow> expr list \<Rightarrow> unit cact" where
  "extendArray ce [] = cret ()"
| "extendArray ce (e # es) =
     cbnd (case e of
         Expr _ _ (SpreadExpr inner) \<Rightarrow> cseq [ce inner, emitOp OP_ARRAY_EXTEND]
       | _ \<Rightarrow> cseq [ce e, emitOp OP_ARRAY_APPEND]) (\<lambda>_. extendArray ce es)"

text \<open>\<open>obj.method(args)\<close>, unless optional or on \<open>super\<close>.\<close>

definition isSuperExpr :: "expr \<Rightarrow> bool" where
  "isSuperExpr e = (case e of Expr _ _ SuperExpr \<Rightarrow> True | _ \<Rightarrow> False)"

fun methodCall :: "expr \<Rightarrow> (expr \<times> string) option" where
  "methodCall (Expr _ _ (PropertyAccessExpr obj prop opt)) =
     (if \<not> opt \<and> obj \<noteq> NoExpr \<and> \<not> isSuperExpr obj then Some (obj, prop) else None)"
| "methodCall _ = None"

definition invokeMethod :: "(expr \<Rightarrow> unit cact) \<Rightarrow> expr \<Rightarrow> expr \<Rightarrow> string \<Rightarrow> expr list \<Rightarrow> unit cact" where
  "invokeMethod ce callee obj prop args = cseq [ce obj, compileAll ce args,
     cbnd (identifierConstant prop) (\<lambda>nameIdx.
       cseq [emitOpShort OP_INVOKE_METHOD nameIdx, emitCacheIndex, emitByte (length args),
         recordCallSite (calleeDisplayName callee)])]"

text \<open>The constant a call of \<open>len\<close>, \<open>ord\<close>, \<open>chr\<close> or \<open>str\<close> on a constant folds to.\<close>

definition foldBuiltin :: "string \<Rightarrow> const_val \<Rightarrow> const_val option" where
  "foldBuiltin name c =
     (if name = ''len'' then
        (case c of CString s \<Rightarrow> Some (CInt (word_of_nat (length s))) | _ \<Rightarrow> None)
      else if name = ''ord'' then
        (case c of CString s \<Rightarrow>
           Some (CInt (if s = [] then 0 else word_of_nat (fst (decode s 0)))) | _ \<Rightarrow> None)
      else if name = ''chr'' then
        (case c of CInt i \<Rightarrow>
           if 0 \<le> sint i \<and> sint i \<le> 1114111 then
             (case encode (nat (sint i)) [] of (ok, out) \<Rightarrow> if ok then Some (CString out) else None)
           else None
         | _ \<Rightarrow> None)
      else if name = ''str'' then Some (CString (constantToString c))
      else None)"

definition builtinNames :: "string list" where
  "builtinNames = [''len'', ''ord'', ''chr'', ''str'']"

text \<open>The name must not resolve; looking it up captures it, as any other name.\<close>

definition foldCall :: "expr \<Rightarrow> expr list \<Rightarrow> const_val option cact" where
  "foldCall callee args = (case callee of
       Expr _ _ (IdentifierExpr name) \<Rightarrow>
         cbnd (cget (resolveLocal name)) (\<lambda>l. if l \<noteq> None then cret None
           else cbnd (resolveUpvalue name) (\<lambda>u. if u \<noteq> None then cret None
           else cbnd (cget (\<lambda>s. map_of (slotTable s) name)) (\<lambda>g. if g \<noteq> None then cret None
           else (case args of
               [a] \<Rightarrow> if name \<in> set builtinNames
                 then cbnd (clift (isConstant a)) (\<lambda>c. cret (case c of None \<Rightarrow> None | Some v \<Rightarrow> foldBuiltin name v))
                 else cret None
             | _ \<Rightarrow> cret None))))
     | _ \<Rightarrow> cret None)"

definition callPlain :: "(expr \<Rightarrow> unit cact) \<Rightarrow> expr \<Rightarrow> expr list \<Rightarrow> unit cact" where
  "callPlain ce callee args =
     (if length args > 255 then errorAt ''Too many arguments (max 255)''
     else (case methodCall callee of
         Some (obj, prop) \<Rightarrow> invokeMethod ce callee obj prop args
       | None \<Rightarrow> cbnd (foldCall callee args) (\<lambda>folded. case folded of
             Some c \<Rightarrow> emitConstant c
           | None \<Rightarrow> cseq [ce callee, compileAll ce args, emitOpByte OP_CALL (length args),
               recordCallSite (calleeDisplayName callee)])))"

definition callSpread :: "(expr \<Rightarrow> unit cact) \<Rightarrow> expr \<Rightarrow> expr list \<Rightarrow> unit cact" where
  "callSpread ce callee args = cseq [ce callee, emitOpByte OP_MAKE_ARRAY 0, extendArray ce args,
     emitOp OP_CALL_SPREAD, recordCallSite (calleeDisplayName callee)]"

definition compileCall :: "(expr \<Rightarrow> unit cact) \<Rightarrow> expr \<Rightarrow> expr list \<Rightarrow> string list \<Rightarrow> unit cact" where
  "compileCall ce callee args names =
     cbnd (cget (oldSlot callee args)) (\<lambda>old. case old of
       Some slot \<Rightarrow> emitLoadLocal slot
     | None \<Rightarrow>
         if list_ex (\<lambda>kw. kw \<noteq> []) names then callKeywords ce callee args names
         else if \<not> list_ex isSpread args then callPlain ce callee args
         else callSpread ce callee args)"

subsection \<open>Containers\<close>

definition compileIndex :: "(expr \<Rightarrow> unit cact) \<Rightarrow> expr \<Rightarrow> expr \<Rightarrow> unit cact" where
  "compileIndex ce obj idx = cseq [ce obj, ce idx, emitOp OP_INDEX_GET]"

definition compileArray :: "(expr \<Rightarrow> unit cact) \<Rightarrow> expr list \<Rightarrow> unit cact" where
  "compileArray ce es =
     (if \<not> list_ex isSpread es then
        (if length es > 255 then errorAt ''Too many array elements (max 255)''
         else cseq [compileAll ce es, emitOpByte OP_MAKE_ARRAY (length es)])
      else cseq [emitOpByte OP_MAKE_ARRAY 0, extendArray ce es])"

definition compileTuple :: "(expr \<Rightarrow> unit cact) \<Rightarrow> expr list \<Rightarrow> unit cact" where
  "compileTuple ce es =
     (if length es > 255 then errorAt ''Too many tuple elements (max 255)''
      else cseq [compileAll ce es, emitOpByte OP_BUILD_TUPLE (length es)])"

fun compilePairs :: "(expr \<Rightarrow> unit cact) \<Rightarrow> (expr \<times> expr) list \<Rightarrow> unit cact" where
  "compilePairs ce [] = cret ()"
| "compilePairs ce ((k, v) # ps) = cbnd (ce k) (\<lambda>_. cbnd (ce v) (\<lambda>_. compilePairs ce ps))"

definition compileDictionary :: "(expr \<Rightarrow> unit cact) \<Rightarrow> (expr \<times> expr) list \<Rightarrow> unit cact" where
  "compileDictionary ce ps = cseq [compilePairs ce ps,
     if length ps > 255 then errorAt ''Too many dictionary entries (max 255)''
     else emitOpByte OP_MAKE_DICT (length ps)]"

definition compileSpread :: "unit cact" where
  "compileSpread = errorAt ''Spread expressions are only allowed inside arrays or function calls.''"

subsection \<open>Assignment\<close>

text \<open>The instruction of a compound operator; every other operator compiles as addition.\<close>

definition compoundOpcode :: "token_kind \<Rightarrow> opcode" where
  "compoundOpcode k =
     (if k = TK_PLUS_EQUAL then OP_ADD else if k = TK_MINUS_EQUAL then OP_SUB
      else if k = TK_STAR_EQUAL then OP_MUL else if k = TK_STAR_STAR_EQUAL then OP_POW
      else if k = TK_SLASH_EQUAL then OP_DIV else OP_ADD)"

text \<open>
  Where an assignment to a name goes: a static, a local, a captured variable, a global that already
  has a slot, a fresh local, and at the top level a fresh global. The value stays on the stack.
\<close>

definition storeName :: "string \<Rightarrow> unit cact" where
  "storeName name = cbnd (cget (\<lambda>s. resolveStatic name (fns s))) (\<lambda>mangled.
     if mangled \<noteq> [] then emitNamed OP_STORE_GLOBAL mangled
     else cbnd (cget (resolveLocal name)) (\<lambda>l. case l of
       Some slot \<Rightarrow> emitStoreLocal slot
     | None \<Rightarrow> cbnd (resolveUpvalue name) (\<lambda>u. case u of
           Some i \<Rightarrow> emitOpByte OP_STORE_UPVALUE i
         | None \<Rightarrow> cbnd (cget (\<lambda>s. if fcHarvesting (cur s) then None else map_of (slotTable s) name)) (\<lambda>g. case g of
               Some slot \<Rightarrow> emitOpShort OP_STORE_GLOBAL_SLOT slot
             | None \<Rightarrow> cbnd (cget (\<lambda>s. fcDepth (cur s))) (\<lambda>d.
                 if d > 0 then cbnd (addFloatingLocal name) emitStoreLocal
                 else storeGlobalSlotOf name)))))"

definition compileAssign ::
    "(expr \<Rightarrow> unit cact) \<Rightarrow> string \<Rightarrow> expr \<Rightarrow> expr \<Rightarrow> expr \<Rightarrow> token_kind option \<Rightarrow> unit cact" where
  "compileAssign ce name value idx obj compound =
     (if idx \<noteq> NoExpr then
        cseq [ce obj, ce idx,
          (case compound of
             Some k \<Rightarrow> cseq [emitOp OP_DUP2, emitOp OP_INDEX_GET, ce value, emitOp (compoundOpcode k)]
           | None \<Rightarrow> ce value),
          emitOp OP_INDEX_SET]
      else cseq [ce value, storeName name])"

text \<open>Destructuring: element \<open>i\<close> of the value parked in a hidden local goes to target \<open>i\<close>.\<close>

definition loadElement :: "nat \<Rightarrow> nat \<Rightarrow> unit cact" where
  "loadElement tempVar i = cseq [emitLoadLocal tempVar,
     cbnd (makeConstant (CInt (word_of_nat i))) (emitOpShort OP_LOAD_CONST), emitOp OP_INDEX_GET]"

definition destructureTarget :: "(expr \<Rightarrow> unit cact) \<Rightarrow> nat \<Rightarrow> nat \<Rightarrow> expr \<Rightarrow> unit cact" where
  "destructureTarget ce tempVar i target = (case target of
       NoExpr \<Rightarrow> cret ()
     | Expr _ _ n \<Rightarrow> (case n of
         IdentifierExpr name \<Rightarrow> cseq [loadElement tempVar i, storeName name, emitOp OP_POP]
       | IndexExpr obj idx \<Rightarrow> cseq [ce obj, ce idx, loadElement tempVar i, emitOp OP_INDEX_SET, emitOp OP_POP]
       | PropertyAccessExpr obj prop opt \<Rightarrow> cseq [ce obj, loadElement tempVar i,
           emitNamed OP_STORE_PROPERTY prop, emitCacheIndex, emitOp OP_POP]
       | _ \<Rightarrow> cret ()))"

fun destructureFrom :: "(expr \<Rightarrow> unit cact) \<Rightarrow> nat \<Rightarrow> nat \<Rightarrow> expr list \<Rightarrow> unit cact" where
  "destructureFrom ce tempVar i [] = cret ()"
| "destructureFrom ce tempVar i (t # ts) =
     cbnd (destructureTarget ce tempVar i t) (\<lambda>_. destructureFrom ce tempVar (i + 1) ts)"

definition compileDestructureAssign :: "(expr \<Rightarrow> unit cact) \<Rightarrow> expr list \<Rightarrow> expr \<Rightarrow> unit cact" where
  "compileDestructureAssign ce targets value = cseq [ce value,
     cbnd (addFloatingLocal ''<destructure-val>'') (\<lambda>tempVar.
       cseq [emitStoreLocal tempVar, destructureFrom ce tempVar 0 targets])]"

subsection \<open>Properties and instances\<close>

definition compilePropertyAccess :: "(expr \<Rightarrow> unit cact) \<Rightarrow> expr \<Rightarrow> string \<Rightarrow> bool \<Rightarrow> unit cact" where
  "compilePropertyAccess ce obj prop opt = cseq [ce obj,
     cbnd (identifierConstant prop) (\<lambda>nameIdx.
       if opt then cseq [emitOp OP_DUP, cbnd (emitJump OP_JUMP_IF_NIL) (\<lambda>skipJump.
           cseq [emitOpShort OP_LOAD_PROPERTY nameIdx, emitCacheIndex, patchJumpAt skipJump])]
       else cseq [emitOpShort OP_LOAD_PROPERTY nameIdx, emitCacheIndex])]"

definition compileNew :: "(expr \<Rightarrow> unit cact) \<Rightarrow> string \<Rightarrow> expr list \<Rightarrow> unit cact" where
  "compileNew ce className args =
     (if length args > 255 then errorAt ''Too many arguments to 'new' (max 255)''
      else cseq [compileAll ce args, emitNamed OP_NEW_INSTANCE className, emitByte (length args)])"

definition compileSet :: "(expr \<Rightarrow> unit cact) \<Rightarrow> expr \<Rightarrow> string \<Rightarrow> expr \<Rightarrow> token_kind option \<Rightarrow> unit cact" where
  "compileSet ce obj name value compound = cseq [ce obj,
     cbnd (identifierConstant name) (\<lambda>nameIdx. cseq [
       (case compound of
          Some k \<Rightarrow> cseq [emitOp OP_DUP, emitOpShort OP_LOAD_PROPERTY nameIdx, emitCacheIndex, ce value,
            emitOp (compoundOpcode k)]
        | None \<Rightarrow> ce value),
       emitOpShort OP_INTERCEPTED_STORE_PROPERTY nameIdx, emitCacheIndex])]"

subsection \<open>The nodes of an expression\<close>

text \<open>
  \<open>compileExpr\<close> on a node; \<open>lambda\<close> compiles a lambda. An expression nested deeper than 100 records
  an error but is still compiled.
\<close>

definition exprNode ::
    "(expr \<Rightarrow> unit cact) \<Rightarrow> (string list \<Rightarrow> expr \<Rightarrow> stmt list \<Rightarrow> bool \<Rightarrow> bool \<Rightarrow> unit cact) \<Rightarrow> expr_node \<Rightarrow> unit cact" where
  "exprNode ce lambda n = (case n of
       LiteralExpr v \<Rightarrow> compileLiteral v
     | IdentifierExpr name \<Rightarrow> compileIdentifier name
     | BinaryExpr l k r \<Rightarrow> compileBinary ce l k r
     | UnaryExpr k e \<Rightarrow> compileUnary ce k e
     | CallExpr callee args names \<Rightarrow> compileCall ce callee args names
     | IndexExpr obj idx \<Rightarrow> compileIndex ce obj idx
     | ArrayExpr es \<Rightarrow> compileArray ce es
     | TupleExpr es \<Rightarrow> compileTuple ce es
     | AssignExpr name value idx obj compound \<Rightarrow> compileAssign ce name value idx obj compound
     | LogicalExpr l k r \<Rightarrow> compileLogical ce l k r
     | LambdaExpr ps body stmts variadic async \<Rightarrow> lambda ps body stmts variadic async
     | PropertyAccessExpr obj prop opt \<Rightarrow> compilePropertyAccess ce obj prop opt
     | SelfExpr \<Rightarrow> emitLoadSelf
     | SuperExpr \<Rightarrow> compileSuper
     | NewExpr className args \<Rightarrow> compileNew ce className args
     | SetExpr obj name value compound \<Rightarrow> compileSet ce obj name value compound
     | DictionaryExpr ps \<Rightarrow> compileDictionary ce ps
     | SpreadExpr e \<Rightarrow> compileSpread
     | TernaryExpr c a b \<Rightarrow> compileTernary ce c a b
     | AwaitExpr e \<Rightarrow> compileAwait ce e
     | DestructureAssignExpr targets value \<Rightarrow> compileDestructureAssign ce targets value)"

definition maxDepth :: nat where "maxDepth = 100"

definition depthGuard :: "nat \<Rightarrow> unit cact \<Rightarrow> unit cact" where
  "depthGuard line body = cseq [cupd (\<lambda>s. s\<lparr>currentDepth := currentDepth s + 1\<rparr>),
     cbnd (cget (\<lambda>s. currentDepth s > maxDepth)) (\<lambda>deep.
       if deep then cseq [cupd (\<lambda>s. s\<lparr>currentLine := line\<rparr>),
         recordError ''Maximum nesting depth exceeded during compilation''] else cret ()),
     cupd (\<lambda>s. s\<lparr>currentLine := line\<rparr>), body,
     cupd (\<lambda>s. s\<lparr>currentDepth := currentDepth s - 1\<rparr>)]"

end
