(* ===== verification/Run_Code.thy ===== *)
theory Run_Code
  imports Vm_Unwind Fold_Agrees Compile_Expr
begin

text \<open>
  Running a block of straight code: what the machine's state is after the instructions an expression
  is made of. \<open>reaches\<close> is the loop of the machine without a fixed budget, \<open>alike\<close> says which parts of
  the state such instructions may touch, and \<open>gives s n v t\<close> that \<open>n\<close> bytes on, one more value lies on
  the operand stack.
\<close>

subsection \<open>Reaching a state\<close>

definition reaches :: "vm_env \<Rightarrow> vm \<Rightarrow> vm \<Rightarrow> bool" where
  "reaches env s t \<longleftrightarrow> (\<exists>k. \<forall>m. runN (k + m) env s = runN m env t)"

lemma reaches_refl [intro]: "reaches env s s"
  unfolding reaches_def by (rule exI [of _ 0]) simp

lemma reaches_trans [trans]: "reaches env s t \<Longrightarrow> reaches env t u \<Longrightarrow> reaches env s u"
  unfolding reaches_def by (metis add.assoc)

lemma reaches_step: "(\<And>callF. dispatch env callF s = Next t) \<Longrightarrow> reaches env s t"
  unfolding reaches_def by (rule exI [of _ 1]) simp

subsection \<open>States that differ in the operands only\<close>

definition alike :: "vm \<Rightarrow> vm \<Rightarrow> bool" where
  "alike s t \<longleftrightarrow> (\<exists>m p i q c x. t = s\<lparr>mem := m, top := p, ip := i, mtop := q, instructionCount := c,
     frames := butlast (frames s) @ [(last (frames s))\<lparr>fip := x\<rparr>]\<rparr>)"

definition ready :: "vm \<Rightarrow> bool" where
  "ready s \<longleftrightarrow> frames s \<noteq> [] \<and> running s \<and> maxInstructions s = 0"

lemma alike_trans [trans]: "alike s t \<Longrightarrow> alike t u \<Longrightarrow> alike s u"
  unfolding alike_def by (elim exE) (simp, blast)

lemma alike_same:
  assumes "alike s t"
  shows "curUnit t = curUnit s" "codeBytes t = codeBytes s" "fslots (curFrame t) = fslots (curFrame s)"
    "vmHeap t = vmHeap s" "globalSlots t = globalSlots s" "stackMax t = stackMax s"
    "ready s \<Longrightarrow> ready t" "frames t \<noteq> []"
  using assms unfolding alike_def
  by (elim exE, simp add: curUnit_def codeBytes_def unitOf_def curFrame_def ready_def)+

subsection \<open>Code under the instruction pointer\<close>

definition codeAt :: "vm \<Rightarrow> byte list \<Rightarrow> bool" where
  "codeAt s C \<longleftrightarrow> (\<exists>rest. drop (ip s) (codeBytes s) = C @ rest)"

lemma codeAt_append: "codeAt s (A @ B) \<Longrightarrow> codeAt s A"
  by (auto simp: codeAt_def)

lemma codeAt_later:
  assumes "codeAt s (A @ B)" and "alike s t" and "ip t = ip s + length A"
  shows "codeAt t B"
proof -
  obtain rest where "drop (ip s) (codeBytes s) = A @ B @ rest" using assms(1) by (auto simp: codeAt_def)
  then have "drop (length A) (drop (ip s) (codeBytes s)) = B @ rest" by simp
  then show ?thesis using assms(2,3) by (auto simp: codeAt_def alike_same add.commute)
qed

lemma codeAt_nth:
  assumes "codeAt s C" and "i < length C"
  shows "ip s + i < length (codeBytes s) \<and> codeBytes s ! (ip s + i) = C ! i"
proof -
  obtain rest where d: "drop (ip s) (codeBytes s) = C @ rest" using assms(1) by (auto simp: codeAt_def)
  then have "length (codeBytes s) - ip s = length C + length rest" by (metis length_append length_drop)
  then show ?thesis using d assms(2) nth_drop [of "ip s" "codeBytes s" i] by (simp add: nth_append)
qed

text \<open>One dispatch, with the operand bytes still to be read.\<close>

lemma dispatch_at:
  assumes "ready s" and "codeAt s (opcodeByte k # bs)"
  shows "dispatch env callF s =
    settle (handle env callF k (s\<lparr>instructionCount := instructionCount s + 1, ip := ip s + 1\<rparr>))"
  using assms codeAt_nth [OF assms(2), of 0] by (intro dispatch_opcode) (auto simp: ready_def)

definition begun :: "nat \<Rightarrow> vm \<Rightarrow> vm" where
  "begun n s = s\<lparr>instructionCount := instructionCount s + 1, ip := ip s + n\<rparr>"

lemma begun_simps [simp]:
  "ip (begun n s) = ip s + n" "top (begun n s) = top s" "mem (begun n s) = mem s" "stackMax (begun n s) = stackMax s"
  "frames (begun n s) = frames s" "vmHeap (begun n s) = vmHeap s" "globalSlots (begun n s) = globalSlots s"
  "curFrame (begun n s) = curFrame s" "curUnit (begun n s) = curUnit s" "codeBytes (begun n s) = codeBytes s"
  "running (begun n s) = running s"
  by (simp_all add: begun_def curFrame_def curUnit_def unitOf_def codeBytes_def)

lemma begun_ip [simp]: "(begun n s)\<lparr>ip := ip s + m\<rparr> = begun m s"
  by (simp add: begun_def)

lemma alike_begun: "frames s \<noteq> [] \<Longrightarrow> alike s ((begun n s)\<lparr>mem := m, top := p\<rparr>)"
  unfolding alike_def
  by (rule exI [of _ m], rule exI [of _ p], rule exI [of _ "ip s + n"], rule exI [of _ "mtop s"],
      rule exI [of _ "instructionCount s + 1"], rule exI [of _ "fip (last (frames s))"])
     (rule vm.equality, simp_all add: begun_def)

lemma dispatch_begun:
  assumes "ready s" and "codeAt s (opcodeByte k # bs)"
  shows "dispatch env callF s = settle (handle env callF k (begun (Suc 0) s))"
  using dispatch_at [OF assms] by (simp add: begun_def)

lemma readByte_begun:
  assumes "ready s" and "codeAt s C" and "n < length C"
  shows "readByte (begun n s) = Inr (unat (C ! n), begun (Suc n) s)"
  using assms codeAt_nth [OF assms(2,3)] begun_ip [where n = n and m = "Suc n" and s = s]
  by (auto simp: readByte_def ready_def simp del: begun_ip)

lemma readShort_begun:
  assumes "ready s" and "codeAt s C" and "Suc n < length C"
  shows "readShort (begun n s) = Inr (256 * unat (C ! n) + unat (C ! Suc n), begun (n + 2) s)"
  using readByte_begun [OF assms(1,2), of n] readByte_begun [OF assms(1,2), of "Suc n"] assms(3)
  by (simp add: readShort_def bnd_def act_ret_def)

lemma readInt_begun:
  assumes "ready s" and "codeAt s (k # be4 off @ rest)" and "off \<le> 0xFFFFFFFF"
  shows "readInt (begun (Suc 0) s) = Inr (off, begun 5 s)"
proof -
  let ?C = "k # be4 off @ rest"
  have off: "256 * (256 * (256 * unat (?C ! 1) + unat (?C ! 2)) + unat (?C ! 3)) + unat (?C ! 4) = off"
    using un_be_be4 [OF assms(3)] by (simp add: un_be_def be4_def)
  have "readShort (begun (Suc 0) s) = Inr (256 * unat (?C ! 1) + unat (?C ! 2), begun 3 s)"
    using readShort_begun [OF assms(1,2), of 1] by (simp add: eval_nat_numeral)
  moreover have "readShort (begun 3 s) = Inr (256 * unat (?C ! 3) + unat (?C ! 4), begun 5 s)"
    using readShort_begun [OF assms(1,2), of 3] by (simp add: eval_nat_numeral)
  ultimately have "readInt (begun (Suc 0) s) =
      Inr (65536 * (256 * unat (?C ! 1) + unat (?C ! 2)) + (256 * unat (?C ! 3) + unat (?C ! 4)), begun 5 s)"
    by (simp only: readInt_def bnd_def act_ret_def sum.case prod.case)
  also have "65536 * (256 * unat (?C ! 1) + unat (?C ! 2)) + (256 * unat (?C ! 3) + unat (?C ! 4)) = off"
    using off by (simp only: algebra_simps)
  finally show ?thesis .
qed

lemma readShort_operand:
  assumes "ready s" and "codeAt s (k # word_of_nat (n div 256) # word_of_nat n # rest)" and "n < 65536"
  shows "readShort (begun (Suc 0) s) = Inr (n, begun 3 s)"
proof -
  let ?C = "k # word_of_nat (n div 256) # word_of_nat n # rest"
  have m: "n div 256 < 256" using assms(3) by (simp add: div_less_iff_less_mult)
  have "readShort (begun (Suc 0) s) = Inr (256 * unat (?C ! 1) + unat (?C ! Suc 1), begun (1 + 2) s)"
    using readShort_begun [OF assms(1,2), of 1] by simp
  also have "256 * unat (?C ! 1) + unat (?C ! Suc 1) = n"
    using m by (simp add: unat_of_nat take_bit_eq_mod)
  finally show ?thesis by (simp add: numeral_3_eq_3)
qed

subsection \<open>Instructions that push\<close>

definition gives :: "vm \<Rightarrow> nat \<Rightarrow> val \<Rightarrow> vm \<Rightarrow> bool" where
  "gives s n v t \<longleftrightarrow> alike s t \<and> ip t = ip s + n \<and> top t = Suc (top s) \<and> mem t (top s) = v \<and>
     (\<forall>i < top s. mem t i = mem s i)"

lemma next_op_Inr: "next_op m s = (case m s of Inl e \<Rightarrow> Inl e | Inr (u, t) \<Rightarrow> Inr (FNext, t))"
  by (simp add: next_op_def thn_def bnd_def act_ret_def [abs_def])

lemma settle_next [simp]: "settle (Inr (FNext, t)) = Next t"
  by (simp add: settle_def finish_def)

lemma pushes:
  assumes "ready s" and "codeAt s (opcodeByte k # bs)" and "top s < stackMax s"
    and "\<And>callF. handle env callF k (begun (Suc 0) s) = next_op (rawPush v) (begun n s)"
  shows "\<exists>t. reaches env s t \<and> gives s n v t"
proof -
  let ?t = "(begun n s)\<lparr>mem := (mem s)(top s := v), top := Suc (top s)\<rparr>"
  have "dispatch env callF s = Next ?t" for callF
    using assms(3) by (simp add: dispatch_begun [OF assms(1,2)] assms(4) next_op_Inr rawPush_def)
  then have "reaches env s ?t" by (rule reaches_step)
  moreover have "alike s ?t"
    using assms(1) by (intro alike_begun) (simp add: ready_def)
  ultimately show ?thesis by (intro exI [of _ ?t]) (simp add: gives_def)
qed

lemma next_readByte: "readByte s = Inr (n, t) \<Longrightarrow> next_op (bnd readByte f) s = next_op (f n) t"
  by (simp add: next_op_Inr bnd_def)

lemma next_readShort: "readShort s = Inr (n, t) \<Longrightarrow> next_op (bnd readShort f) s = next_op (f n) t"
  by (simp add: next_op_Inr bnd_def)

lemma next_loadSlot:
  "fslots (curFrame s) + i < stackMax s \<Longrightarrow>
     next_op (bnd (loadSlot i) f) s = next_op (f (mem s (fslots (curFrame s) + i))) s"
  by (simp add: next_op_Inr bnd_def loadSlot_def localPos_def getSlot_def)

definition loads :: "(opcode \<times> val) list" where
  "loads = [(OP_LOAD_NIL, VNil), (OP_LOAD_TRUE, VBool True), (OP_LOAD_FALSE, VBool False),
     (OP_LOAD_ZERO, VInteger 0), (OP_LOAD_ONE, VInteger 1), (OP_LOAD_EMPTY_STR, VShortString [])]"

lemma run_load:
  assumes "ready s" and "codeAt s [opcodeByte k]" and "top s < stackMax s" and "(k, v) \<in> set loads"
  shows "\<exists>t. reaches env s t \<and> gives s 1 v t"
  using assms by (intro pushes [of s k "[]"]) (auto simp: loads_def)

lemma run_load_const:
  assumes "ready s" and "codeAt s [opcodeByte OP_LOAD_CONST, word_of_nat (i div 256), word_of_nat i]"
    and "top s < stackMax s" and "i < 65536" and "i < length (constants (cuChunk (curUnit s)))"
  shows "\<exists>t. reaches env s t \<and> gives s 3 (resolveConstant (constants (cuChunk (curUnit s)) ! i)) t"
  using assms readShort_operand [of s "opcodeByte OP_LOAD_CONST" i "[]"]
  by (intro pushes [of s OP_LOAD_CONST]) (auto simp: bnd_def loadConst_def resolvedConstants_def)

lemma run_load_local:
  assumes "ready s" and "codeAt s [opcodeByte OP_LOAD_LOCAL, word_of_nat i]"
    and "top s < stackMax s" and "i < 256" and "fslots (curFrame s) + i < stackMax s"
  shows "\<exists>t. reaches env s t \<and> gives s 2 (mem s (fslots (curFrame s) + i)) t"
proof -
  have "readByte (begun (Suc 0) s) = Inr (i, begun 2 s)"
    using readByte_begun [OF assms(1,2), of 1] assms(4)
    by (simp add: unat_of_nat take_bit_eq_mod numeral_2_eq_2)
  then show ?thesis
    using assms(5) by (intro pushes [OF assms(1-3)]) (simp add: next_readByte next_loadSlot)
qed

lemma run_load_local_wide:
  assumes "ready s" and "codeAt s [opcodeByte OP_LOAD_LOCAL_W, word_of_nat (i div 256), word_of_nat i]"
    and "top s < stackMax s" and "i < 65536" and "fslots (curFrame s) + i < stackMax s"
  shows "\<exists>t. reaches env s t \<and> gives s 3 (mem s (fslots (curFrame s) + i)) t"
  using assms(5) readShort_operand [OF assms(1,2,4)]
  by (intro pushes [OF assms(1-3)]) (simp add: next_readShort next_loadSlot)

lemma run_load_global:
  assumes "ready s" and "codeAt s [opcodeByte OP_LOAD_GLOBAL_SLOT, word_of_nat (i div 256), word_of_nat i]"
    and "top s < stackMax s" and "i < 65536" and "i < length (globalSlots s)"
  shows "\<exists>t. reaches env s t \<and> gives s 3 (globalSlots s ! i) t"
  using assms(5) readShort_operand [OF assms(1,2,4)]
  by (intro pushes [OF assms(1-3)]) (simp add: next_readShort, simp add: next_op_Inr)

subsection \<open>Operators\<close>

text \<open>The machine is left with \<open>v\<close> in place of what lay from \<open>n\<close> on.\<close>

definition leaves :: "vm \<Rightarrow> nat \<Rightarrow> val \<Rightarrow> vm \<Rightarrow> bool" where
  "leaves s n v t \<longleftrightarrow> alike s t \<and> ip t = Suc (ip s) \<and> top t = Suc n \<and> mem t n = v \<and> (\<forall>i < n. mem t i = mem s i)"

definition replaced :: "nat \<Rightarrow> val \<Rightarrow> vm \<Rightarrow> vm" where
  "replaced n v s = (begun (Suc 0) s)\<lparr>mem := (mem s)(n := v), top := Suc n\<rparr>"

lemma replaced_leaves: "ready s \<Longrightarrow> n \<le> top s \<Longrightarrow> leaves s n v (replaced n v s)"
  by (simp add: leaves_def replaced_def alike_begun ready_def)

lemma fast_replaces:
  assumes "top s = Suc (Suc n)" and "top s \<le> stackMax s"
  shows "settle (replaceTwo (Push v) (begun (Suc 0) s)) = Next (replaced n v s)"
  using assms by (simp add: replaceTwo_def thn_def bnd_def rawPop_def next_op_Inr rawPush_def replaced_def)

text \<open>A helper works on the member pointer, which \<open>SYNC_IP\<close> sets and \<open>LOAD_FRAME\<close> reads back.\<close>

definition helped :: "nat \<Rightarrow> val \<Rightarrow> vm \<Rightarrow> vm" where
  "helped n v s = s\<lparr>mem := (\<lambda>i. if i = n then v else if n < i \<and> i < top s then VNil else mem s i),
     top := Suc n, ip := ip s + 1, mtop := Suc n, instructionCount := instructionCount s + 1,
     frames := butlast (frames s) @ [(last (frames s))\<lparr>fip := ip s + 1\<rparr>]\<rparr>"

lemma alike_helped: "alike s (helped n v s)"
  unfolding alike_def helped_def by (intro exI) (rule refl)

lemma helped_leaves: "n \<le> top s \<Longrightarrow> leaves s n v (helped n v s)"
  by (simp add: leaves_def alike_helped) (simp add: helped_def)

lemma syncIp_begun:
  assumes "frames s \<noteq> []"
  shows "syncIp (begun (Suc 0) s) = (begun (Suc 0) s)\<lparr>mtop := top s,
     frames := butlast (frames s) @ [(last (frames s))\<lparr>fip := ip s + 1\<rparr>]\<rparr>"
  using assms by (simp add: syncIp_def updFrame_def curFrame_def begun_def)

lemma binaryOp_helped:
  assumes "ready s" and "top s = Suc (Suc n)" and "top s \<le> stackMax s"
    and "f (vmHeap s) (mem s n) (mem s (Suc n)) = Push v"
  shows "\<exists>t. binaryOp callF f (syncIp (begun (Suc 0) s)) = Inr ((), t) \<and> loadFrame t = helped n v s"
proof -
  have "frames s \<noteq> []" using assms(1) by (simp add: ready_def)
  then show ?thesis
    using assms(2-4)
    by (simp add: syncIp_begun binaryOp_def bnd_def pop_def deliver_def push_def loadFrame_def curFrame_def)
       (auto simp: helped_def begun_def intro!: vm.equality)
qed

lemma unaryOp_helped:
  assumes "ready s" and "top s = Suc n" and "top s \<le> stackMax s" and "f (mem s n) = Push v"
  shows "\<exists>t. unaryOp callF f (syncIp (begun (Suc 0) s)) = Inr ((), t) \<and> loadFrame t = helped n v s"
proof -
  have "frames s \<noteq> []" using assms(1) by (simp add: ready_def)
  then show ?thesis
    using assms(2-4)
    by (simp add: syncIp_begun unaryOp_def bnd_def pop_def deliver_def push_def loadFrame_def curFrame_def)
       (auto simp: helped_def begun_def intro!: vm.equality)
qed

text \<open>A helper is called under its guard or without it.\<close>

lemma helper_leaves:
  assumes "\<exists>t. m (syncIp (begun (Suc 0) s)) = Inr ((), t) \<and> loadFrame t = helped n v s"
  shows "settle (viaHelper m (begun (Suc 0) s)) = Next (helped n v s)"
    and "settle (viaBareHelper m (begun (Suc 0) s)) = Next (helped n v s)"
  using assms
  by (auto simp: viaHelper_def viaBareHelper_def thn_def bnd_def act_upd_def guardedHelper_def next_op_Inr)

lemmas helper_call =
  helper_leaves(1) [where m = "binaryOp callF f" for callF f, OF binaryOp_helped]
  helper_leaves(2) [where m = "binaryOp callF f" for callF f, OF binaryOp_helped]
  helper_leaves(1) [where m = "unaryOp callF f" for callF f, OF unaryOp_helped]
  helper_leaves(2) [where m = "unaryOp callF f" for callF f, OF unaryOp_helped]

fun isInstanceVal :: "val \<Rightarrow> bool" where
  "isInstanceVal (VInstance a) = True"
| "isInstanceVal _ = False"

lemma not_overloaded: "\<not> isInstanceVal a \<Longrightarrow> \<not> isCallable (getProperty h a name)"
  by (cases a) simp_all

lemma rawPeeks:
  assumes "top s = Suc (Suc n)"
  shows "bnd (rawPeek 0) f s = f (mem s (Suc n)) s" and "bnd (rawPeek (Suc 0)) f s = f (mem s n) s"
  using assms by (simp_all add: bnd_def rawPeek_def)

text \<open>Where an operation ends up: in its fast path or in the helper.\<close>

definition after :: "fastPath \<Rightarrow> nat \<Rightarrow> val \<Rightarrow> vm \<Rightarrow> vm" where
  "after fast n v s = (if fast (mem s n) (mem s (Suc n)) = None then helped n v s else replaced n v s)"

lemma after_leaves: "ready s \<Longrightarrow> n \<le> top s \<Longrightarrow> leaves s n v (after fast n v s)"
  by (simp add: after_def helped_leaves replaced_leaves)

lemma binaryHandler_after:
  assumes "ready s" and "top s = Suc (Suc n)" and "top s \<le> stackMax s" and "\<not> isInstanceVal (mem s n)"
    and "fastOr fast (f (vmHeap s)) (mem s n) (mem s (Suc n)) = Push v"
  shows "settle (binaryHandler env callF fast name (binaryOp callF f) (begun (Suc 0) s)) = Next (after fast n v s)"
  using assms fast_replaces [OF assms(2,3), of v] helper_call(1) [OF assms(1-3), of f v callF]
  by (simp add: binaryHandler_def rawPeeks not_overloaded fastOr_def after_def Let_def split: option.splits)

lemma equalHandler_after:
  assumes "ready s" and "top s = Suc (Suc n)" and "top s \<le> stackMax s" and "\<not> isInstanceVal (mem s n)"
    and "fastOr (fastEqual want) (if want then equalValues (vmHeap s) else notEqualValues (vmHeap s))
      (mem s n) (mem s (Suc n)) = Push v"
  shows "settle (equalHandler env callF want name (begun (Suc 0) s)) = Next (after (fastEqual want) n v s)"
  using assms fast_replaces [OF assms(2,3), of v] helper_call(2) [OF assms(1-3), of _ v callF]
  by (cases want) (simp_all add: equalHandler_def rawPeeks not_overloaded fastOr_def after_def Let_def
      split: option.splits)

text \<open>The arithmetic, bitwise and comparison instructions leave what \<open>vmBinary\<close> computes.\<close>

definition lands :: "vm \<Rightarrow> nat \<Rightarrow> val \<Rightarrow> (reenter \<Rightarrow> flow act) \<Rightarrow> bool" where
  "lands s n v act \<longleftrightarrow> (\<exists>fast. \<forall>callF. settle (act callF (begun (Suc 0) s)) = Next (after fast n v s))"

lemma after_no_fast: "after (\<lambda>a b. None) n v s = helped n v s"
  by (simp add: after_def)

lemma binary_lands:
  assumes "ready s" and "top s = Suc (Suc n)" and "top s \<le> stackMax s" and "\<not> isInstanceVal (mem s n)"
  shows "fastOr fast (f (vmHeap s)) (mem s n) (mem s (Suc n)) = Push v \<Longrightarrow>
      lands s n v (\<lambda>callF. binaryHandler env callF fast name (binaryOp callF f))"
    and "fastOr (fastEqual True) (equalValues (vmHeap s)) (mem s n) (mem s (Suc n)) = Push v \<Longrightarrow>
      lands s n v (\<lambda>callF. equalHandler env callF True name)"
    and "fastOr (fastEqual False) (notEqualValues (vmHeap s)) (mem s n) (mem s (Suc n)) = Push v \<Longrightarrow>
      lands s n v (\<lambda>callF. equalHandler env callF False name)"
    and "f (vmHeap s) (mem s n) (mem s (Suc n)) = Push v \<Longrightarrow> lands s n v (\<lambda>callF. viaHelper (binaryOp callF f))"
    and "fastOr fastMod modValues (mem s n) (mem s (Suc n)) = Push v \<Longrightarrow> lands s n v (\<lambda>callF. handleCalc env callF I_MOD)"
proof -
  show "lands s n v (\<lambda>callF. viaHelper (binaryOp callF f))" if "f (vmHeap s) (mem s n) (mem s (Suc n)) = Push v"
    unfolding lands_def using helper_call(1) [OF assms(1-3), where f = f and v = v] that
    by (intro exI [of _ "\<lambda>a b. None"]) (simp add: after_no_fast)
  show "lands s n v (\<lambda>callF. handleCalc env callF I_MOD)" if "fastOr fastMod modValues (mem s n) (mem s (Suc n)) = Push v"
    unfolding lands_def
    using that fast_replaces [OF assms(2,3), of v] helper_call(1) [OF assms(1-3), where f = "\<lambda>h. modValues" and v = v]
    by (intro exI [of _ fastMod])
       (simp add: rawPeeks assms(2) fastOr_def after_def doModulo_def split: option.splits)
qed (use binaryHandler_after [OF assms] equalHandler_after [OF assms, of True]
    equalHandler_after [OF assms, of False] in \<open>auto simp: lands_def\<close>)

lemma binary_instruction:
  assumes "ready s" and "top s = Suc (Suc n)" and "top s \<le> stackMax s" and "\<not> isInstanceVal (mem s n)"
    and "binaryOpcode k = Some op" and "vmBinary env (vmHeap s) k (mem s n) (mem s (Suc n)) = Push v"
  shows "lands s n v (\<lambda>callF. handle env callF op)"
  using assms(5,6) binary_lands [OF assms(1-4)]
  by (auto simp: binaryOpcode_def vmBinary_def compareHandler_def doAdd_def doSubtract_def doMultiply_def
      doDivide_def doPower_def simp del: fastEqual_def split: if_splits)

lemma landed:
  assumes "ready s" and "codeAt s [opcodeByte op]" and "lands s n v (\<lambda>callF. handle env callF op)" and "n \<le> top s"
  shows "\<exists>t. reaches env s t \<and> leaves s n v t"
proof -
  obtain fast where "\<And>callF. settle (handle env callF op (begun (Suc 0) s)) = Next (after fast n v s)"
    using assms(3) unfolding lands_def by blast
  then have "reaches env s (after fast n v s)"
    using dispatch_begun [OF assms(1,2)] by (intro reaches_step) simp
  then show ?thesis using after_leaves [OF assms(1,4)] by blast
qed

text \<open>Negating the least integer is left out: the instruction overflows in C++.\<close>

definition negatable :: "token_kind \<Rightarrow> val \<Rightarrow> bool" where
  "negatable k a \<longleftrightarrow> \<not> isInstanceVal a \<and> (k = TK_MINUS \<longrightarrow> a \<noteq> VInteger llong_min)"

definition unaryOpcode :: "token_kind \<Rightarrow> opcode option" where
  "unaryOpcode k =
     (if k = TK_MINUS then Some OP_NEGATE
      else if k = TK_NOT \<or> k = TK_BANG then Some OP_NOT
      else if k = TK_TILDE then Some OP_BIT_NOT else None)"

lemma rawPeek_top: "top s = Suc n \<Longrightarrow> bnd (rawPeek 0) f s = f (mem s n) s"
  by (simp add: bnd_def rawPeek_def)

lemma unary_helped:
  assumes "ready s" and "top s = Suc n" and "top s \<le> stackMax s" and "f (mem s n) = Push v"
  shows "lands s n v (\<lambda>callF. viaHelper (unaryOp callF f))"
    and "lands s n v (\<lambda>callF. viaBareHelper (unaryOp callF f))"
  unfolding lands_def
  by (rule exI [of _ "\<lambda>a b. None"]; simp add: after_no_fast helper_call(3) [where f = f, OF assms]
      helper_call(4) [where f = f, OF assms])+

lemma negate_lands:
  assumes "ready s" and "top s = Suc n" and "top s \<le> stackMax s" and "negatable TK_MINUS (mem s n)"
    and "negValue (mem s n) = Push v"
  shows "lands s n v (\<lambda>callF. negHandler env callF)"
proof -
  have put: "settle (next_op (setSlot n w) (begun (Suc 0) s)) = Next (replaced n w s)" for w
    using assms(2,3) by (simp add: next_op_Inr setSlot_def replaced_def begun_def)
  show ?thesis
    using assms(4,5) put assms(2) unfolding lands_def
    by (intro exI [of _ "\<lambda>a b. Some (Push v)"])
       (auto simp: negHandler_def rawPeek_top after_def negValue_def negatable_def wrapNeg_def pushInt_def
          pushNum_def split: val.splits)
qed

lemma run_unary:
  assumes "ready s" and "codeAt s [opcodeByte op]" and "unaryOpcode k = Some op" and "top s = Suc n"
    and "top s \<le> stackMax s" and "negatable k (mem s n)" and "vmUnary k (mem s n) = Push v"
  shows "\<exists>t. reaches env s t \<and> leaves s n v t"
proof (rule landed [OF assms(1,2)])
  show "lands s n v (\<lambda>callF. handle env callF op)"
    using assms(3,6,7) unary_helped [OF assms(1,4,5)] negate_lands [OF assms(1,4,5)]
    by (auto simp: unaryOpcode_def vmUnary_def split: if_splits)
qed (simp add: assms(4))

lemma run_binary:
  assumes "ready s" and "codeAt s [opcodeByte op]" and "binaryOpcode k = Some op" and "top s = Suc (Suc n)"
    and "top s \<le> stackMax s" and "\<not> isInstanceVal (mem s n)"
    and "vmBinary env (vmHeap s) k (mem s n) (mem s (Suc n)) = Push v"
  shows "\<exists>t. reaches env s t \<and> leaves s n v t"
  using landed [OF assms(1,2) binary_instruction [OF assms(1,4,5,6,3,7)]] assms(4) by simp

subsection \<open>Jumps\<close>

text \<open>The machine goes on \<open>n\<close> bytes further with \<open>p\<close> operands, those below as they were.\<close>

definition moves_on :: "vm \<Rightarrow> nat \<Rightarrow> nat \<Rightarrow> vm \<Rightarrow> bool" where
  "moves_on s n p t \<longleftrightarrow> alike s t \<and> ip t = ip s + n \<and> top t = p \<and> (\<forall>i < p. mem t i = mem s i)"

lemma goes_on:
  assumes "ready s" and "codeAt s (opcodeByte k # bs)"
    and "\<And>callF. handle env callF k (begun (Suc 0) s) = Inr (FNext, (begun n s)\<lparr>mem := m, top := p\<rparr>)"
    and "\<forall>i < p. m i = mem s i"
  shows "\<exists>t. reaches env s t \<and> moves_on s n p t"
proof -
  have "reaches env s ((begun n s)\<lparr>mem := m, top := p\<rparr>)"
    by (rule reaches_step) (simp add: dispatch_begun [OF assms(1,2)] assms(3))
  then show ?thesis
    using assms(1,4) by (intro exI [of _ "(begun n s)\<lparr>mem := m, top := p\<rparr>"])
      (simp add: moves_on_def alike_begun ready_def)
qed

lemma begun_as_it_is: "begun n s = (begun n s)\<lparr>mem := mem s, top := top s\<rparr>"
  by (simp add: begun_def)

lemma run_jump:
  assumes "ready s" and "codeAt s (opcodeByte OP_JUMP # be4 off @ rest)" and "off \<le> 0xFFFFFFFF"
  shows "\<exists>t. reaches env s t \<and> moves_on s (5 + off) (top s) t"
proof (rule goes_on [OF assms(1,2)])
  fix callF
  have "handle env callF OP_JUMP (begun (Suc 0) s) = Inr (FNext, begun (5 + off) s)"
    using readInt_begun [OF assms]
    by (simp add: next_op_Inr bnd_def jumpBy_def act_upd_def) (simp add: begun_def)
  then show "handle env callF OP_JUMP (begun (Suc 0) s) =
      Inr (FNext, (begun (5 + off) s)\<lparr>mem := mem s, top := top s\<rparr>)"
    by (subst begun_as_it_is [symmetric])
qed simp

definition jumpTests :: "(opcode \<times> (val \<Rightarrow> bool)) list" where
  "jumpTests = [(OP_JUMP_IF_FALSE, \<lambda>v. \<not> isTruthy v), (OP_JUMP_IF_TRUE, isTruthy),
     (OP_JUMP_IF_NOT_NIL, \<lambda>v. v \<noteq> VNil)]"

lemma run_jump_if:
  assumes "ready s" and "codeAt s (opcodeByte k # be4 off @ rest)" and "off \<le> 0xFFFFFFFF"
    and "(k, p) \<in> set jumpTests" and "top s = Suc n"
  shows "\<exists>t. reaches env s t \<and> moves_on s (5 + (if p (mem s n) then off else 0)) n t"
proof (rule goes_on [OF assms(1,2)])
  fix callF
  have "handle env callF k = jumpIf p" using assms(4) by (auto simp: jumpTests_def)
  then show "handle env callF k (begun (Suc 0) s) =
      Inr (FNext, (begun (5 + (if p (mem s n) then off else 0)) s)\<lparr>mem := mem s, top := n\<rparr>)"
    using readInt_begun [OF assms(1-3)] assms(5)
    by (simp add: jumpIf_def next_op_Inr bnd_def rawPop_def jumpBy_def act_upd_def act_ret_def)
       (simp add: begun_def)
qed simp

lemma run_pop:
  assumes "ready s" and "codeAt s (opcodeByte OP_POP # rest)" and "top s = Suc n"
  shows "\<exists>t. reaches env s t \<and> moves_on s 1 n t"
proof (rule goes_on [OF assms(1,2)])
  fix callF
  show "handle env callF OP_POP (begun (Suc 0) s) = Inr (FNext, (begun 1 s)\<lparr>mem := (mem s)(n := VNil), top := n\<rparr>)"
    using assms(3) by (simp add: next_op_Inr thn_def bnd_def rawPop_def act_upd_def)
qed simp

lemma run_dup:
  assumes "ready s" and "codeAt s (opcodeByte OP_DUP # rest)" and "top s = Suc n" and "top s < stackMax s"
  shows "\<exists>t. reaches env s t \<and> gives s 1 (mem s n) t"
  using assms by (intro pushes [OF assms(1,2,4)]) (simp add: next_op_Inr bnd_def rawPeek_def)

end
