(* ===== verification/Expr_Value.thy ===== *)
theory Expr_Value
  imports Run_Code
begin

text \<open>
  What an expression of literals, variables, operators, short-circuit logic and conditionals is worth
  (\<open>evalExpr\<close>), where the compiler places variables and the machine finds them, and which code computes
  which value: \<open>computes\<close> and how the code of an operation is put together from that of its operands.
\<close>

subsection \<open>The value of an expression\<close>

definition binaryResult :: "vm_env \<Rightarrow> heap \<Rightarrow> token_kind \<Rightarrow> val \<Rightarrow> val \<Rightarrow> val option" where
  "binaryResult env h k a b = (if isInstanceVal a then None
     else case vmBinary env h k a b of Push v \<Rightarrow> Some v | _ \<Rightarrow> None)"

definition unaryResult :: "token_kind \<Rightarrow> val \<Rightarrow> val option" where
  "unaryResult k a = (if \<not> negatable k a then None
     else case vmUnary k a of Push v \<Rightarrow> Some v | _ \<Rightarrow> None)"

text \<open>Whether the left operand of \<open>and\<close>, \<open>or\<close> and \<open>??\<close> already is the result.\<close>

definition decides :: "token_kind \<Rightarrow> val \<Rightarrow> bool" where
  "decides k a = (if k = TK_AND then \<not> isTruthy a
     else if k = TK_QUESTION_QUESTION then a \<noteq> VNil else isTruthy a)"

text \<open>The variables have the values \<open>rho\<close>; \<open>None\<close> is an error, or a value this account leaves out.\<close>

function (sequential) evalExpr :: "vm_env \<Rightarrow> heap \<Rightarrow> (string \<Rightarrow> val option) \<Rightarrow> expr \<Rightarrow> val option"
  and evalNode :: "vm_env \<Rightarrow> heap \<Rightarrow> (string \<Rightarrow> val option) \<Rightarrow> expr_node \<Rightarrow> val option" where
  "evalExpr env h rho NoExpr = Some VNil"
| "evalExpr env h rho (Expr l c n) = evalNode env h rho n"
| "evalNode env h rho (LiteralExpr v) = Some (resolveConstant (literalConstant v))"
| "evalNode env h rho (IdentifierExpr name) = rho name"
| "evalNode env h rho (BinaryExpr l k r) = (case evalExpr env h rho l of
      None \<Rightarrow> None
    | Some a \<Rightarrow>
        if (k = TK_AND \<or> k = TK_OR) \<and> decides k a then Some a
        else (case evalExpr env h rho r of
            None \<Rightarrow> None
          | Some b \<Rightarrow> if k = TK_AND \<or> k = TK_OR then Some b else binaryResult env h k a b))"
| "evalNode env h rho (UnaryExpr k e) = (case evalExpr env h rho e of
      None \<Rightarrow> None | Some a \<Rightarrow> unaryResult k a)"
| "evalNode env h rho (LogicalExpr l k r) = (case evalExpr env h rho l of
      None \<Rightarrow> None | Some a \<Rightarrow> if decides k a then Some a else evalExpr env h rho r)"
| "evalNode env h rho (TernaryExpr c a b) = (case evalExpr env h rho c of
      None \<Rightarrow> None | Some v \<Rightarrow> if isTruthy v then evalExpr env h rho a else evalExpr env h rho b)"
| "evalNode env h rho _ = None"
  by pat_completeness auto
termination by (relation "measure (case_sum (\<lambda>(_, _, _, e). size e) (\<lambda>(_, _, _, n). nodeSize n))") auto

text \<open>The operands it lies on top of each other.\<close>

function (sequential) room :: "expr \<Rightarrow> nat" and roomNode :: "expr_node \<Rightarrow> nat" where
  "room NoExpr = 1"
| "room (Expr l c n) = roomNode n"
| "roomNode (BinaryExpr l k r) = Suc (max (room l) (room r))"
| "roomNode (UnaryExpr k e) = room e"
| "roomNode (LogicalExpr l k r) = Suc (max (room l) (room r))"
| "roomNode (TernaryExpr c a b) = max (room c) (max (room a) (room b))"
| "roomNode _ = 1"
  by pat_completeness auto
termination by (relation "measure (case_sum size nodeSize)") auto

subsection \<open>Where variables live\<close>

text \<open>
  A name that is a local of the function, or in the main function one with a global slot, and not
  the name of a static variable.
\<close>

definition isMain :: "compiler \<Rightarrow> bool" where
  "isMain c \<longleftrightarrow> length (fns c) = 1"

definition place_of :: "compiler \<Rightarrow> string \<Rightarrow> place option" where
  "place_of c name =
     (if resolveStatic name (fns c) \<noteq> [] then None
      else case resolveLocal name c of
          Some slot \<Rightarrow> Some (LocalSlot slot)
        | None \<Rightarrow> if isMain c \<and> name \<noteq> ''self'' \<and> name \<noteq> ''super''
            then map_option GlobalSlot (map_of (slotTable c) name) else None)"

definition valueAt :: "vm \<Rightarrow> place \<Rightarrow> val option" where
  "valueAt s p = (case p of
       LocalSlot i \<Rightarrow> if i < 65536 \<and> fslots (curFrame s) + i < top s
         then Some (mem s (fslots (curFrame s) + i)) else None
     | GlobalSlot i \<Rightarrow> if i < 65536 \<and> i < length (globalSlots s) then Some (globalSlots s ! i) else None)"

definition variables :: "compiler \<Rightarrow> vm \<Rightarrow> string \<Rightarrow> val option" where
  "variables c s name = Option.bind (place_of c name) (valueAt s)"

lemma valueAt_later:
  assumes "alike s t" and "top s \<le> top t" and "\<forall>i < top s. mem t i = mem s i" and "valueAt s p = Some v"
  shows "valueAt t p = Some v"
  using assms by (cases p) (auto simp: valueAt_def alike_same split: if_splits)

lemma variables_later:
  assumes "alike s t" and "top s \<le> top t" and "\<forall>i < top s. mem t i = mem s i" and "rho \<subseteq>\<^sub>m variables c s"
  shows "rho \<subseteq>\<^sub>m variables c t"
  unfolding map_le_def
proof
  fix name assume "name \<in> dom rho"
  then obtain v where v: "rho name = Some v" "variables c s name = Some v"
    using assms(4) unfolding map_le_def by (metis domD)
  then show "rho name = variables c t name"
    using valueAt_later [OF assms(1-3)] by (auto simp: variables_def bind_eq_Some_conv)
qed

subsection \<open>Code that computes a value\<close>

text \<open>
  Wherever the machine is about to run the bytes \<open>C\<close>, with the constants \<open>K\<close> and room for \<open>n\<close> more
  operands, it gets to their end with the one value \<open>v\<close> pushed.
\<close>

definition about :: "(vm \<Rightarrow> string \<Rightarrow> val option) \<Rightarrow> heap \<Rightarrow> (string \<Rightarrow> val option) \<Rightarrow> byte list
    \<Rightarrow> const_val list \<Rightarrow> nat \<Rightarrow> vm \<Rightarrow> bool" where
  "about vars h rho C K n s \<longleftrightarrow> ready s \<and> codeAt s C \<and> (\<exists>more. constants (cuChunk (curUnit s)) = K @ more) \<and>
     top s + n \<le> stackMax s \<and> rho \<subseteq>\<^sub>m vars s \<and> vmHeap s = h"

definition computes :: "vm_env \<Rightarrow> compiler \<Rightarrow> heap \<Rightarrow> (string \<Rightarrow> val option) \<Rightarrow> byte list
    \<Rightarrow> const_val list \<Rightarrow> nat \<Rightarrow> val \<Rightarrow> bool" where
  "computes env c h rho C K n v \<longleftrightarrow>
     (\<forall>s. about (variables c) h rho C K n s \<longrightarrow> (\<exists>t. reaches env s t \<and> gives s (length C) v t))"

lemma about_weaker:
  assumes "about vars h rho (C @ D) (K @ L) n s" and "m \<le> n"
  shows "about vars h rho C K m s"
  using assms codeAt_append [of s C D] by (auto simp: about_def)

lemma computes_pool: "computes env c h rho C K n v \<Longrightarrow> n \<le> m \<Longrightarrow> computes env c h rho C (K @ L) m v"
  unfolding computes_def using about_weaker [where D = "[]"] by simp

text \<open>After a step that keeps the stack up to where it was, the rest of the code is next.\<close>

lemma about_next:
  assumes "about (variables c) h rho (A @ B) K n s" and "alike s t" and "ip t = ip s + length A"
    and "top s \<le> top t" and "\<forall>i < top s. mem t i = mem s i" and "top t + m \<le> top s + n"
  shows "about (variables c) h rho B K m t"
  using assms codeAt_later [OF _ assms(2,3)] variables_later [OF assms(2,4,5)]
  by (auto simp: about_def alike_same)

lemma computes_start:
  assumes "computes env c h rho A K m a" and "about (variables c) h rho (A @ B) K n s" and "m \<le> n" and "Suc k \<le> n"
  obtains t where "reaches env s t" "gives s (length A) a t" "about (variables c) h rho B K k t"
proof -
  have "about (variables c) h rho A K m s" using about_weaker [of _ _ _ A B K "[]"] assms(2,3) by simp
  then obtain t where t: "reaches env s t" "gives s (length A) a t"
    using assms(1) unfolding computes_def by blast
  have "about (variables c) h rho B K k t"
    using about_next [OF assms(2), of t k] t(2) assms(4) by (simp add: gives_def)
  then show thesis using that t by blast
qed

text \<open>Two runs in a row, by how the first leaves the stack.\<close>

lemma gives_leaves: "gives s m a t \<Longrightarrow> leaves t (top s) v u \<Longrightarrow> gives s (Suc m) v u"
  by (auto simp: gives_def leaves_def intro: alike_trans)

lemma gives_gives_leaves:
  assumes "gives s m a t" and "gives t n b u" and "leaves u (top s) v w"
  shows "gives s (Suc (m + n)) v w"
  using assms by (auto simp: gives_def leaves_def intro: alike_trans)

lemma gives_moves:
  assumes "gives s m a t" and "moves_on t n (top s) u"
  shows "moves_on s (m + n) (top s) u"
  using assms by (auto simp: gives_def moves_on_def intro: alike_trans)

lemma moves_gives: "moves_on s m (top s) t \<Longrightarrow> gives t n v u \<Longrightarrow> gives s (m + n) v u"
  by (auto simp: gives_def moves_on_def intro: alike_trans)

lemma gives_keeps: "gives s m a t \<Longrightarrow> moves_on t n (Suc (top s)) u \<Longrightarrow> gives s (m + n) a u"
  by (auto simp: gives_def moves_on_def intro: alike_trans)

lemma computes_unary:
  assumes "computes env c h rho A K n a" and "unaryOpcode k = Some op" and "unaryResult k a = Some v" and "0 < n"
  shows "computes env c h rho (A @ [opcodeByte op]) K n v"
  unfolding computes_def
proof (intro allI impI)
  fix s assume s: "about (variables c) h rho (A @ [opcodeByte op]) K n s"
  obtain t where t: "reaches env s t" "gives s (length A) a t" "about (variables c) h rho [opcodeByte op] K 0 t"
    using computes_start [OF assms(1) s, of 0] assms(4) by auto
  have "\<exists>u. reaches env t u \<and> leaves t (top s) v u"
    using t(2,3) assms(2,3)
    by (intro run_unary [of t op k]) (auto simp: about_def gives_def unaryResult_def split: if_splits opRes.splits)
  then obtain u where "reaches env t u" "leaves t (top s) v u" by blast
  then show "\<exists>u. reaches env s u \<and> gives s (length (A @ [opcodeByte op])) v u"
    using t(1,2) gives_leaves reaches_trans by fastforce
qed

lemma computes_binary:
  assumes "computes env c h rho A K n a" and "computes env c h rho B K n b" and "binaryOpcode k = Some op"
    and "binaryResult env h k a b = Some v" and "0 < n"
  shows "computes env c h rho (A @ B @ [opcodeByte op]) K (Suc n) v"
  unfolding computes_def
proof (intro allI impI)
  fix s assume s: "about (variables c) h rho (A @ B @ [opcodeByte op]) K (Suc n) s"
  obtain t where t: "reaches env s t" "gives s (length A) a t" "about (variables c) h rho (B @ [opcodeByte op]) K n t"
    using computes_start [OF assms(1) s, of n] by auto
  obtain u where u: "reaches env t u" "gives t (length B) b u" "about (variables c) h rho [opcodeByte op] K 0 u"
    using computes_start [OF assms(2) t(3), of 0] assms(5) by auto
  have "\<exists>w. reaches env u w \<and> leaves u (top s) v w"
    using t(2) u(2,3) assms(3,4)
    by (intro run_binary [of u op k]) (auto simp: about_def gives_def binaryResult_def split: if_splits opRes.splits)
  then obtain w where "reaches env u w" "leaves u (top s) v w" by blast
  then show "\<exists>w. reaches env s w \<and> gives s (length (A @ B @ [opcodeByte op])) v w"
    using t(1) u(1) gives_gives_leaves [OF t(2) u(2)] by simp (blast intro: reaches_trans)
qed

text \<open>Jumping over a block, and past the end of it.\<close>

lemma about_moves:
  assumes "about (variables c) h rho (P @ B) K n s" and "moves_on s (length P) (top s) t" and "m \<le> n"
  shows "about (variables c) h rho B K m t"
  using about_next [OF assms(1), of t m] assms(2,3) by (simp add: moves_on_def)

definition shortJump :: "token_kind \<Rightarrow> opcode" where
  "shortJump k = (if k = TK_AND then OP_JUMP_IF_FALSE
     else if k = TK_QUESTION_QUESTION then OP_JUMP_IF_NOT_NIL else OP_JUMP_IF_TRUE)"

lemma shortJump_decides: "(shortJump k, decides k) \<in> set jumpTests"
  by (auto simp: shortJump_def decides_def [abs_def] jumpTests_def)

definition shortCode :: "token_kind \<Rightarrow> byte list \<Rightarrow> byte list \<Rightarrow> byte list" where
  "shortCode k A B = A @ opcodeByte OP_DUP # opcodeByte (shortJump k) # be4 (Suc (length B)) @ opcodeByte OP_POP # B"

lemma length_shortCode [simp]: "length (shortCode k A B) = length A + (length B + 7)"
  by (simp add: shortCode_def)

lemma short_start:
  assumes "computes env c h rho A K n a" and "about (variables c) h rho (shortCode k A B) K (Suc n) s"
    and "length B < 0xFFFFFFFF" and "0 < n"
  obtains t w where "reaches env s w" "gives s (length A) a t"
    "moves_on t (if decides k a then length B + 7 else 6) (Suc (top s)) w"
proof -
  let ?J = "opcodeByte (shortJump k) # be4 (Suc (length B)) @ opcodeByte OP_POP # B"
  have s: "about (variables c) h rho (A @ opcodeByte OP_DUP # ?J) K (Suc n) s"
    using assms(2) by (simp add: shortCode_def)
  obtain t where t: "reaches env s t" "gives s (length A) a t" "about (variables c) h rho (opcodeByte OP_DUP # ?J) K n t"
    using computes_start [OF assms(1) s, of n] by auto
  have at: "top t = Suc (top s)" "mem t (top s) = a" using t(2) by (simp_all add: gives_def)
  obtain u where u: "reaches env t u" "gives t 1 a u"
    using run_dup [of t ?J "top s" env] t(3) at assms(4) by (auto simp: about_def)
  have u_at: "ready u" "codeAt u ?J" "top u = Suc (top t)" "mem u (top t) = a"
    using t(3) u(2) codeAt_later [of t "[opcodeByte OP_DUP]" ?J u] by (auto simp: about_def gives_def alike_same)
  obtain w where w: "reaches env u w"
      "moves_on u (5 + (if decides k (mem u (top t)) then Suc (length B) else 0)) (top t) w"
    using run_jump_if [OF u_at(1,2) _ shortJump_decides u_at(3)] assms(3) by auto
  have "moves_on t (1 + (5 + (if decides k a then Suc (length B) else 0))) (top t) w"
    using gives_moves [OF u(2) w(2)] unfolding u_at(4) .
  then show thesis
    using that [of w t] t(1,2) u(1) w(1) at by (auto intro: reaches_trans simp: numeral_eq_Suc split: if_splits)
qed

lemma computes_short:
  assumes "computes env c h rho A K n a" and "length B < 0xFFFFFFFF" and "0 < n"
    and "if decides k a then v = a else computes env c h rho B K n v"
  shows "computes env c h rho (shortCode k A B) K (Suc n) v"
  unfolding computes_def
proof (intro allI impI)
  fix s assume s: "about (variables c) h rho (shortCode k A B) K (Suc n) s"
  obtain t w where t: "reaches env s w" "gives s (length A) a t"
      "moves_on t (if decides k a then length B + 7 else 6) (Suc (top s)) w"
    using short_start [OF assms(1) s assms(2,3)] by blast
  show "\<exists>t. reaches env s t \<and> gives s (length (shortCode k A B)) v t"
  proof (cases "decides k a")
    case True
    then have "gives s (length A + (length B + 7)) a w" using gives_keeps [OF t(2)] t(3) by simp
    then show ?thesis using True t(1) assms(4) by auto
  next
    case False
    then have w: "gives s (length A + 6) a w" using gives_keeps [OF t(2)] t(3) by simp
    let ?P = "A @ opcodeByte OP_DUP # opcodeByte (shortJump k) # be4 (Suc (length B))"
    have code: "shortCode k A B = ?P @ opcodeByte OP_POP # B" by (simp add: shortCode_def)
    have "about (variables c) h rho (opcodeByte OP_POP # B) K n w"
      using about_next [OF s [unfolded code], of w n] w by (simp add: gives_def)
    then have "ready w" "codeAt w (opcodeByte OP_POP # B)" by (simp_all add: about_def)
    then obtain x where x: "reaches env w x" "moves_on w 1 (top s) x"
      using run_pop [of w B "top s" env] w by (auto simp: gives_def)
    have m: "moves_on s (length A + 7) (top s) x" using gives_moves [OF w x(2)] by (simp add: numeral_eq_Suc)
    have "shortCode k A B = (?P @ [opcodeByte OP_POP]) @ B" by (simp add: shortCode_def)
    then have "about (variables c) h rho B K n x"
      using about_moves [of c h rho "?P @ [opcodeByte OP_POP]" B K "Suc n" s x n] s m by (simp add: add.assoc)
    then obtain y where "reaches env x y" "gives x (length B) v y"
      using assms(4) False unfolding computes_def by auto
    moreover have "gives s (length (shortCode k A B)) v y"
      using moves_gives [OF m \<open>gives x (length B) v y\<close>] by (simp add: ac_simps)
    ultimately show ?thesis using t(1) x(1) by (blast intro: reaches_trans)
  qed
qed

text \<open>A conditional.\<close>

definition ternaryCode :: "byte list \<Rightarrow> byte list \<Rightarrow> byte list \<Rightarrow> byte list" where
  "ternaryCode C A B = C @ opcodeByte OP_JUMP_IF_FALSE # be4 (length A + 5) @ A @
     opcodeByte OP_JUMP # be4 (length B) @ B"

lemma length_ternaryCode [simp]: "length (ternaryCode C A B) = length C + (length A + (length B + 10))"
  by (simp add: ternaryCode_def)

lemma ternary_start:
  assumes "computes env c h rho C K n x" and "about (variables c) h rho (ternaryCode C A B) K n s"
    and "length A + 5 \<le> 0xFFFFFFFF" and "0 < n"
  obtains u where "reaches env s u" "moves_on s (length C + (if isTruthy x then 5 else length A + 10)) (top s) u"
proof -
  let ?J = "opcodeByte OP_JUMP_IF_FALSE # be4 (length A + 5) @ A @ opcodeByte OP_JUMP # be4 (length B) @ B"
  have s: "about (variables c) h rho (C @ ?J) K n s" using assms(2) by (simp add: ternaryCode_def)
  obtain t where t: "reaches env s t" "gives s (length C) x t" "about (variables c) h rho ?J K 0 t"
    using computes_start [OF assms(1) s, of 0] assms(4) by auto
  have at: "ready t" "codeAt t ?J" "top t = Suc (top s)" "mem t (top s) = x"
    using t(2,3) by (simp_all add: about_def gives_def)
  have "\<exists>u. reaches env t u \<and>
      moves_on t (5 + (if \<not> isTruthy (mem t (top s)) then length A + 5 else 0)) (top s) u"
    by (rule run_jump_if [OF at(1,2) assms(3) _ at(3)]) (simp add: jumpTests_def)
  then obtain u where u: "reaches env t u"
      "moves_on t (5 + (if \<not> isTruthy x then length A + 5 else 0)) (top s) u"
    unfolding at(4) by blast
  have "5 + (if \<not> isTruthy x then length A + 5 else 0) = (if isTruthy x then 5 else length A + 10)" by simp
  then show thesis
    using that gives_moves [OF t(2) u(2)] reaches_trans [OF t(1) u(1)] by simp
qed

lemma computes_ternary:
  assumes "computes env c h rho C K n x" and "length A + 5 \<le> 0xFFFFFFFF" and "length B \<le> 0xFFFFFFFF"
    and "0 < n" and "computes env c h rho (if isTruthy x then A else B) K n v"
  shows "computes env c h rho (ternaryCode C A B) K n v"
  unfolding computes_def
proof (intro allI impI)
  fix s assume s: "about (variables c) h rho (ternaryCode C A B) K n s"
  obtain u where u: "reaches env s u" "moves_on s (length C + (if isTruthy x then 5 else length A + 10)) (top s) u"
    using ternary_start [OF assms(1) s assms(2,4)] by blast
  let ?E = "opcodeByte OP_JUMP # be4 (length B) @ B"
  show "\<exists>t. reaches env s t \<and> gives s (length (ternaryCode C A B)) v t"
  proof (cases "isTruthy x")
    case True
    have "about (variables c) h rho (A @ ?E) K n u"
      using about_moves [of c h rho "C @ opcodeByte OP_JUMP_IF_FALSE # be4 (length A + 5)" "A @ ?E" K n s u n]
        s u(2) True by (simp add: ternaryCode_def)
    moreover have "computes env c h rho A K n v" using assms(5) True by simp
    ultimately obtain w where w: "reaches env u w" "gives u (length A) v w" "about (variables c) h rho ?E K 0 w"
      using computes_start [of env c h rho A K n v ?E n u 0] assms(4) by (auto simp: Suc_le_eq)
    then obtain y where y: "reaches env w y" "moves_on w (5 + length B) (top w) y"
      using run_jump [of w "length B" B env] assms(3) by (auto simp: about_def)
    have "top u = top s" using u(2) by (simp add: moves_on_def)
    then have "moves_on w (5 + length B) (Suc (top s)) y" using w(2) y(2) by (simp add: gives_def)
    moreover have "gives s (length C + 5 + length A) v w"
      using moves_gives [OF _ w(2)] u(2) True by simp
    ultimately have "gives s (length C + 5 + length A + (5 + length B)) v y" using gives_keeps by blast
    then show ?thesis using u(1) w(1) y(1) by (auto simp: ac_simps intro: reaches_trans)
  next
    case False
    have "about (variables c) h rho B K n u"
      using about_moves [of c h rho "C @ opcodeByte OP_JUMP_IF_FALSE # be4 (length A + 5) @ A @
          opcodeByte OP_JUMP # be4 (length B)" B K n s u n] s u(2) False by (simp add: ternaryCode_def add.commute add.left_commute)
    then obtain w where w: "reaches env u w" "gives u (length B) v w"
      using assms(5) False unfolding computes_def by auto
    then show ?thesis
      using moves_gives [OF u(2) w(2)] u(1) False by (auto simp: ac_simps intro: reaches_trans)
  qed
qed

end
