(* ===== verification/Run_Stmt.thy ===== *)
theory Run_Stmt
  imports Expr_Value
begin

text \<open>
  The instructions of statements: storing to a global, printing, discarding a value and jumping back.
  \<open>kin\<close> is \<open>alike\<close> with the globals and the printed lines free as well.
\<close>

definition kin :: "vm \<Rightarrow> vm \<Rightarrow> bool" where
  "kin s t \<longleftrightarrow> (\<exists>m p i q c gs ls x. t = s\<lparr>mem := m, top := p, ip := i, mtop := q, instructionCount := c,
     globalSlots := gs, printed := ls, frames := butlast (frames s) @ [(last (frames s))\<lparr>fip := x\<rparr>]\<rparr>)"

lemma kin_trans [trans]: "kin s t \<Longrightarrow> kin t u \<Longrightarrow> kin s u"
  unfolding kin_def by (elim exE) (simp, blast)

lemma alike_kin:
  assumes "alike s t"
  shows "kin s t"
proof -
  obtain m p i q c x where "t = s\<lparr>mem := m, top := p, ip := i, mtop := q, instructionCount := c,
     frames := butlast (frames s) @ [(last (frames s))\<lparr>fip := x\<rparr>]\<rparr>"
    using assms unfolding alike_def by blast
  then show ?thesis
    unfolding kin_def
    by (intro exI [of _ m] exI [of _ p] exI [of _ i] exI [of _ q] exI [of _ c] exI [of _ "globalSlots s"]
        exI [of _ "printed s"] exI [of _ x]) simp
qed

lemma alike_printed: "alike s t \<Longrightarrow> printed t = printed s"
  unfolding alike_def by auto

lemma kin_begun:
  assumes "frames s \<noteq> []"
  shows "kin s ((begun n s)\<lparr>top := p, globalSlots := gs, printed := ls\<rparr>)"
  unfolding kin_def using assms
  by (intro exI [of _ "mem s"] exI [of _ p] exI [of _ "ip s + n"] exI [of _ "mtop s"]
      exI [of _ "instructionCount s + 1"] exI [of _ gs] exI [of _ ls] exI [of _ "fip (last (frames s))"])
     (simp add: begun_def)

lemma kin_same:
  assumes "kin s t"
  shows "curUnit t = curUnit s" "codeBytes t = codeBytes s" "vmHeap t = vmHeap s" "stackMax t = stackMax s"
    "ready s \<Longrightarrow> ready t" "frames t \<noteq> []" "startFrames t = startFrames s" "length (frames s) = 1 \<Longrightarrow> length (frames t) = 1"
    "fslots (curFrame t) = fslots (curFrame s)" "pendingException t = pendingException s"
  using assms unfolding kin_def
  by (elim exE, simp add: curUnit_def codeBytes_def unitOf_def curFrame_def ready_def)+

lemma codeAt_kin:
  assumes "codeAt s (A @ B)" and "kin s t" and "ip t = ip s + length A"
  shows "codeAt t B"
proof -
  obtain rest where "drop (ip s) (codeBytes s) = A @ B @ rest" using assms(1) by (auto simp: codeAt_def)
  then have "drop (length A) (drop (ip s) (codeBytes s)) = B @ rest" by simp
  then show ?thesis using assms(2,3) by (auto simp: codeAt_def kin_same add.commute)
qed

subsection \<open>Effects\<close>

text \<open>After \<open>n\<close> bytes the stack is as high as before, the globals are \<open>gs\<close> and \<open>ls\<close> has been printed.\<close>

definition does :: "vm \<Rightarrow> nat \<Rightarrow> val list \<Rightarrow> string list \<Rightarrow> vm \<Rightarrow> bool" where
  "does s n gs ls t \<longleftrightarrow> kin s t \<and> ip t = ip s + n \<and> top t = top s \<and> (\<forall>i < top s. mem t i = mem s i) \<and>
     globalSlots t = gs \<and> printed t = printed s @ ls"

lemma does_nothing:
  assumes "ready s"
  shows "does s 0 (globalSlots s) [] s"
proof -
  have "kin s s"
    unfolding kin_def using assms
    by (intro exI [of _ "mem s"] exI [of _ "top s"] exI [of _ "ip s"] exI [of _ "mtop s"]
        exI [of _ "instructionCount s"] exI [of _ "globalSlots s"] exI [of _ "printed s"]
        exI [of _ "fip (last (frames s))"]) (simp add: ready_def)
  then show ?thesis by (simp add: does_def)
qed

lemma does_does: "does s m gs ls t \<Longrightarrow> does t n hs ks u \<Longrightarrow> does s (m + n) hs (ls @ ks) u"
  by (auto simp: does_def intro: kin_trans)

lemma moves_does: "moves_on s n (top s) t \<Longrightarrow> does s n (globalSlots s) [] t"
  by (auto simp: moves_on_def does_def alike_printed alike_same intro: alike_kin)

lemma run_store_global:
  assumes "ready s" and "codeAt s [opcodeByte OP_STORE_GLOBAL_SLOT, word_of_nat (i div 256), word_of_nat i, opcodeByte OP_POP]"
    and "top s = Suc n" and "i < 65536"
  shows "\<exists>t. reaches env s t \<and> kin s t \<and> ip t = ip s + 4 \<and> top t = n \<and> (\<forall>j < n. mem t j = mem s j) \<and>
     globalSlots t = (globalSlots s)[i := mem s n] \<and> printed t = printed s"
proof -
  let ?u = "(begun 3 s)\<lparr>top := top s, globalSlots := (globalSlots s)[i := mem s n], printed := printed s\<rparr>"
  have "handle env callF OP_STORE_GLOBAL_SLOT (begun (Suc 0) s) = Inr (FNext, ?u)" for callF
    using readShort_operand [of s "opcodeByte OP_STORE_GLOBAL_SLOT" i "[opcodeByte OP_POP]"] assms
    by (simp add: next_readShort) (simp add: next_op_Inr bnd_def rawPeek_def act_upd_def, simp add: begun_def)
  then have "reaches env s ?u"
    by (intro reaches_step) (simp add: dispatch_begun [OF assms(1,2)])
  moreover have k: "kin s ?u" using kin_begun assms(1) by (simp add: ready_def)
  moreover have "codeAt ?u [opcodeByte OP_POP]"
    using codeAt_kin [of s "[opcodeByte OP_STORE_GLOBAL_SLOT, word_of_nat (i div 256), word_of_nat i]" "[opcodeByte OP_POP]" ?u]
      assms(2) k by simp
  moreover have "ready ?u" using kin_same(5) [OF k] assms(1) by blast
  ultimately obtain t where t: "reaches env ?u t" "moves_on ?u 1 n t"
    using run_pop [of ?u "[]" n env] assms(3) by auto
  have "globalSlots t = (globalSlots s)[i := mem s n]" "printed t = printed s"
    using t(2) alike_same(5) alike_printed unfolding moves_on_def by fastforce+
  moreover have "kin s t" using k t(2) alike_kin kin_trans unfolding moves_on_def by blast
  ultimately show ?thesis
    using t \<open>reaches env s ?u\<close> by (intro exI [of _ t]) (auto simp: moves_on_def intro: reaches_trans)
qed

text \<open>What \<open>PRINT_STR\<close> prints, for values that are not instances of a model.\<close>

definition printText :: "heap \<Rightarrow> val \<Rightarrow> string option" where
  "printText h v = (case v of
       VInteger i \<Rightarrow> Some (showInt (sint i))
     | VNumber d \<Rightarrow> Some (showDouble d)
     | _ \<Rightarrow> if isInstanceVal v then None else (case toString h v of Inr t \<Rightarrow> Some t | Inl e \<Rightarrow> None))"

lemma run_print:
  assumes "ready s" and "codeAt s [opcodeByte OP_PRINT_STR]" and "top s = Suc n"
    and "printText (vmHeap s) (mem s n) = Some ls"
  shows "\<exists>t. reaches env s t \<and> kin s t \<and> ip t = ip s + 1 \<and> top t = n \<and> (\<forall>j < n. mem t j = mem s j) \<and>
     globalSlots t = globalSlots s \<and> printed t = printed s @ [ls]"
proof -
  let ?t = "(begun 1 s)\<lparr>top := n, globalSlots := globalSlots s, printed := printed s @ [ls]\<rparr>"
  have "handle env callF OP_PRINT_STR (begun (Suc 0) s) = Inr (FNext, ?t)" for callF
    using assms(3,4)
    by (cases "mem s n")
       (auto simp: printStr_def bnd_def rawPop_def printText_def next_op_Inr printLine_def act_upd_def textValue_def
          act_lift_def split: sum.splits, auto simp: begun_def)
  then have "reaches env s ?t"
    by (intro reaches_step) (simp add: dispatch_begun [OF assms(1,2)])
  then show ?thesis using kin_begun [where s = s and n = 1 and p = n] assms(1) by (intro exI [of _ ?t]) (auto simp: ready_def)
qed

lemma run_loop:
  assumes "ready s" and "codeAt s (opcodeByte OP_LOOP # be4 off)" and "off \<le> 0xFFFFFFFF" and "off \<le> ip s + 5"
  shows "\<exists>t. reaches env s t \<and> alike s t \<and> ip t = ip s + 5 - off \<and> top t = top s \<and> mem t = mem s"
proof -
  let ?t = "(begun (5 - off) s)\<lparr>ip := ip s + 5 - off, mem := mem s, top := top s\<rparr>"
  have "handle env callF OP_LOOP (begun (Suc 0) s) = Inr (FNext, ?t)" for callF
    using readInt_begun [of s "opcodeByte OP_LOOP" off "[]"] assms
    by (simp add: loopOp_def next_op_Inr bnd_def) (simp add: begun_def)
  then have "reaches env s ?t"
    by (intro reaches_step) (simp add: dispatch_begun [OF assms(1,2)])
  moreover have "alike s ?t"
    unfolding alike_def
    by (rule exI [of _ "mem s"], rule exI [of _ "top s"], rule exI [of _ "ip s + 5 - off"], rule exI [of _ "mtop s"],
        rule exI [of _ "instructionCount s + 1"], rule exI [of _ "fip (last (frames s))"])
       (use assms(1) in \<open>simp add: begun_def ready_def\<close>)
  ultimately show ?thesis by (intro exI [of _ ?t]) simp
qed

end
