(* ===== verification/Program_Value.thy ===== *)
theory Program_Value
  imports Run_Stmt
begin

text \<open>
  A reference interpreter for programs of global variables: assignments, \<open>out\<close>, blocks, \<open>when\<close> and
  \<open>while\<close>, over the expressions of \<open>Expr_Value\<close>; and which code performs which statement on the machine.
\<close>

subsection \<open>Programs\<close>

text \<open>The variables have the values \<open>g\<close>; a statement gives the new values and the lines it prints.\<close>

type_synonym effect = "((string \<Rightarrow> val) \<times> string list) option"

definition valueOf :: "vm_env \<Rightarrow> heap \<Rightarrow> (string \<Rightarrow> val) \<Rightarrow> expr \<Rightarrow> val option" where
  "valueOf env h g e = evalExpr env h (\<lambda>x. Some (g x)) e"

definition andThen :: "effect \<Rightarrow> ((string \<Rightarrow> val) \<Rightarrow> effect) \<Rightarrow> effect" where
  "andThen m f = (case m of
       None \<Rightarrow> None
     | Some (g, ls) \<Rightarrow> (case f g of None \<Rightarrow> None | Some (g', ks) \<Rightarrow> Some (g', ls @ ks)))"

primrec execList :: "(stmt \<Rightarrow> (string \<Rightarrow> val) \<Rightarrow> effect) \<Rightarrow> stmt list \<Rightarrow> (string \<Rightarrow> val) \<Rightarrow> effect" where
  "execList ex [] g = Some (g, [])"
| "execList ex (s # ss) g = andThen (ex s g) (execList ex ss)"

text \<open>The assignment \<open>x = e\<close> as an expression, and as a statement or the declaration of a variable.\<close>

fun assigned :: "expr \<Rightarrow> (string \<times> expr) option" where
  "assigned (Expr _ _ (AssignExpr x v NoExpr obj k)) = Some (x, v)"
| "assigned _ = None"

definition assignedBy :: "stmt_node \<Rightarrow> (string \<times> expr) option" where
  "assignedBy n = (case n of ExpressionStmt e \<Rightarrow> assigned e | VarDeclStmt x e \<Rightarrow> Some (x, e) | _ \<Rightarrow> None)"

primrec execStmt :: "nat \<Rightarrow> vm_env \<Rightarrow> heap \<Rightarrow> stmt \<Rightarrow> (string \<Rightarrow> val) \<Rightarrow> effect" where
  "execStmt 0 env h s g = None"
| "execStmt (Suc d) env h s g = (case s of NoStmt \<Rightarrow> Some (g, []) | Stmt l n \<Rightarrow> (case assignedBy n of
      Some (x, e) \<Rightarrow> map_option (\<lambda>v. (g(x := v), [])) (valueOf env h g e)
    | None \<Rightarrow> (case n of
          OutStmt e \<Rightarrow> map_option (\<lambda>t. (g, [t])) (Option.bind (valueOf env h g e) (printText h))
        | BlockStmt ss \<Rightarrow> execList (execStmt d env h) ss g
        | WhenStmt c a b \<Rightarrow> Option.bind (valueOf env h g c) (\<lambda>v.
            if isTruthy v then execStmt d env h a g else execStmt d env h b g)
        | WhileStmt c body \<Rightarrow> Option.bind (valueOf env h g c) (\<lambda>v.
            if isTruthy v then andThen (execStmt d env h body g) (execStmt d env h s) else Some (g, []))
        | _ \<Rightarrow> None)))"

lemma andThen_Some: "andThen m f = Some (g', ls) \<longleftrightarrow>
    (\<exists>g1 l1 l2. m = Some (g1, l1) \<and> f g1 = Some (g', l2) \<and> ls = l1 @ l2)"
  by (auto simp: andThen_def split: option.splits)

subsection \<open>Globals\<close>

text \<open>A table gives each global its own slot, small enough for an operand; the slots hold the values.\<close>

definition tableOk :: "(string \<times> nat) list \<Rightarrow> bool" where
  "tableOk T \<longleftrightarrow> (\<forall>x y i. map_of T x = Some i \<and> map_of T y = Some i \<longrightarrow> x = y) \<and>
     (\<forall>x i. map_of T x = Some i \<longrightarrow> i < 65536)"

definition holds :: "(string \<times> nat) list \<Rightarrow> (string \<Rightarrow> val) \<Rightarrow> val list \<Rightarrow> bool" where
  "holds T g gs \<longleftrightarrow> (\<forall>x i. map_of T x = Some i \<longrightarrow> i < length gs \<and> gs ! i = g x)"

lemma holds_update:
  assumes "holds T g gs" and "tableOk T" and "map_of T x = Some i"
  shows "holds T (g(x := v)) (gs[i := v])"
  using assms unfolding holds_def tableOk_def by (auto simp: nth_list_update)

subsection \<open>Code that performs a statement\<close>

definition aboutTo :: "heap \<Rightarrow> (string \<times> nat) list \<Rightarrow> (string \<Rightarrow> val) \<Rightarrow> byte list \<Rightarrow> const_val list
    \<Rightarrow> nat \<Rightarrow> vm \<Rightarrow> bool" where
  "aboutTo h T g C K n s \<longleftrightarrow> ready s \<and> codeAt s C \<and> (\<exists>extra. constants (cuChunk (curUnit s)) = K @ extra) \<and>
     top s + n \<le> stackMax s \<and> vmHeap s = h \<and> holds T g (globalSlots s)"

definition performs :: "vm_env \<Rightarrow> heap \<Rightarrow> (string \<times> nat) list \<Rightarrow> nat \<Rightarrow> byte list \<Rightarrow> const_val list
    \<Rightarrow> (string \<Rightarrow> val) \<Rightarrow> (string \<Rightarrow> val) \<Rightarrow> string list \<Rightarrow> bool" where
  "performs env h T n C K g g' ls \<longleftrightarrow> (\<forall>s. aboutTo h T g C K n s \<longrightarrow>
     (\<exists>t gs. reaches env s t \<and> does s (length C) gs ls t \<and> holds T g' gs))"

lemma aboutTo_front: "aboutTo h T g (C @ D) K n s \<Longrightarrow> aboutTo h T g C K n s"
  using codeAt_append by (auto simp: aboutTo_def)

lemma aboutTo_pool: "aboutTo h T g C (K @ L) n s \<Longrightarrow> aboutTo h T g C K n s"
  by (auto simp: aboutTo_def)

lemma performs_pool: "performs env h T n C K g g' ls \<Longrightarrow> performs env h T n C (K @ L) g g' ls"
  using aboutTo_pool unfolding performs_def by blast

lemma aboutTo_next:
  assumes "aboutTo h T g (A @ B) K n s" and "does s (length A) gs ls t" and "holds T g' gs"
  shows "aboutTo h T g' B K n t"
proof -
  have "kin s t" "ip t = ip s + length A" using assms(2) by (simp_all add: does_def)
  then show ?thesis
    using assms codeAt_kin [of s A B t] by (auto simp: aboutTo_def does_def kin_same)
qed

lemma performs_nothing: "performs env h T n [] K g g []"
  unfolding performs_def
proof (intro allI impI)
  fix s assume "aboutTo h T g [] K n s"
  then have "ready s" "holds T g (globalSlots s)" by (simp_all add: aboutTo_def)
  then show "\<exists>t gs. reaches env s t \<and> does s (length ([] :: byte list)) gs [] t \<and> holds T g gs"
    using does_nothing [of s] by (intro exI [of _ s] exI [of _ "globalSlots s"]) (simp add: reaches_refl)
qed

lemma performs_seq:
  assumes "performs env h T n A K g g1 l1" and "performs env h T n B K g1 g2 l2"
  shows "performs env h T n (A @ B) K g g2 (l1 @ l2)"
  unfolding performs_def
proof (intro allI impI)
  fix s assume s: "aboutTo h T g (A @ B) K n s"
  obtain t gs where t: "reaches env s t" "does s (length A) gs l1 t" "holds T g1 gs"
    using assms(1) aboutTo_front [OF s] unfolding performs_def by blast
  obtain u hs where u: "reaches env t u" "does t (length B) hs l2 u" "holds T g2 hs"
    using assms(2) aboutTo_next [OF s t(2,3)] unfolding performs_def by blast
  have "does s (length (A @ B)) hs (l1 @ l2) u" using does_does [OF t(2) u(2)] by simp
  then show "\<exists>t gs. reaches env s t \<and> does s (length (A @ B)) gs (l1 @ l2) t \<and> holds T g2 gs"
    using reaches_trans [OF t(1) u(1)] u(3) by blast
qed

text \<open>Code that leaves a value on the stack, when the globals are \<open>g\<close>.\<close>

definition evals :: "vm_env \<Rightarrow> heap \<Rightarrow> (string \<times> nat) list \<Rightarrow> nat \<Rightarrow> byte list \<Rightarrow> const_val list
    \<Rightarrow> (string \<Rightarrow> val) \<Rightarrow> val \<Rightarrow> bool" where
  "evals env h T n C K g v \<longleftrightarrow> (\<forall>s. aboutTo h T g C K n s \<longrightarrow> (\<exists>t. reaches env s t \<and> gives s (length C) v t))"

lemma evals_pool: "evals env h T n C K g v \<Longrightarrow> evals env h T n C (K @ L) g v"
  using aboutTo_pool unfolding evals_def by blast

lemma evals_start:
  assumes "evals env h T n A K g v" and "aboutTo h T g (A @ B) K n s"
  obtains t where "reaches env s t" "gives s (length A) v t" "ready t" "codeAt t B" "top t = Suc (top s)"
    "mem t (top s) = v" "vmHeap t = h" "globalSlots t = globalSlots s" "printed t = printed s" "kin s t"
proof -
  obtain t where t: "reaches env s t" "gives s (length A) v t"
    using assms(1) aboutTo_front [OF assms(2)] unfolding evals_def by blast
  have a: "alike s t" "ip t = ip s + length A" "top t = Suc (top s)" "mem t (top s) = v"
    using t(2) by (simp_all add: gives_def)
  have s: "ready s" "codeAt s (A @ B)" "vmHeap s = h" using assms(2) by (simp_all add: aboutTo_def)
  show thesis
    using that [OF t] a s codeAt_later [OF s(2) a(1,2)] alike_same [OF a(1)] alike_printed alike_kin by simp
qed

lemma performs_out:
  assumes "evals env h T n A K g v" and "printText h v = Some ls"
  shows "performs env h T n (A @ [opcodeByte OP_PRINT_STR]) K g g [ls]"
  unfolding performs_def
proof (intro allI impI)
  fix s assume s: "aboutTo h T g (A @ [opcodeByte OP_PRINT_STR]) K n s"
  from evals_start [OF assms(1) s] obtain t where t: "reaches env s t" "gives s (length A) v t" "ready t"
    "codeAt t [opcodeByte OP_PRINT_STR]" "top t = Suc (top s)" "mem t (top s) = v" "vmHeap t = h"
    "globalSlots t = globalSlots s" "printed t = printed s" "kin s t" .
  obtain u where u: "reaches env t u" "kin t u" "ip u = ip t + 1" "top u = top s" "\<forall>j < top s. mem u j = mem t j"
    "globalSlots u = globalSlots t" "printed u = printed t @ [ls]"
    using run_print [OF t(3,4,5), of ls] t(6,7) assms(2) by auto
  have "does s (length (A @ [opcodeByte OP_PRINT_STR])) (globalSlots s) [ls] u"
    using t u kin_trans [OF t(10) u(2)] by (simp add: does_def gives_def)
  moreover have "holds T g (globalSlots s)" using s by (simp add: aboutTo_def)
  ultimately show "\<exists>t gs. reaches env s t \<and> does s (length (A @ [opcodeByte OP_PRINT_STR])) gs [ls] t \<and> holds T g gs"
    using reaches_trans [OF t(1) u(1)] by blast
qed

definition storeCode :: "nat \<Rightarrow> byte list" where
  "storeCode i = [opcodeByte OP_STORE_GLOBAL_SLOT, word_of_nat (i div 256), word_of_nat i, opcodeByte OP_POP]"

lemma performs_assign:
  assumes "evals env h T n A K g v" and "map_of T x = Some i" and "tableOk T"
  shows "performs env h T n (A @ storeCode i) K g (g(x := v)) []"
  unfolding performs_def
proof (intro allI impI)
  fix s assume s: "aboutTo h T g (A @ storeCode i) K n s"
  from evals_start [OF assms(1) s] obtain t where t: "reaches env s t" "gives s (length A) v t" "ready t"
    "codeAt t (storeCode i)" "top t = Suc (top s)" "mem t (top s) = v" "vmHeap t = h"
    "globalSlots t = globalSlots s" "printed t = printed s" "kin s t" .
  have i: "i < 65536" using assms(2,3) by (auto simp: tableOk_def)
  obtain u where u: "reaches env t u" "kin t u" "ip u = ip t + 4" "top u = top s" "\<forall>j < top s. mem u j = mem t j"
    "globalSlots u = (globalSlots t)[i := v]" "printed u = printed t"
    using run_store_global [OF t(3) t(4) [unfolded storeCode_def] t(5) i, of env] t(6) by auto
  have "does s (length (A @ storeCode i)) ((globalSlots s)[i := v]) [] u"
    using t u kin_trans [OF t(10) u(2)] by (simp add: does_def gives_def storeCode_def)
  moreover have "holds T (g(x := v)) ((globalSlots s)[i := v])"
    using s holds_update [OF _ assms(3,2)] by (simp add: aboutTo_def)
  ultimately show "\<exists>t gs. reaches env s t \<and> does s (length (A @ storeCode i)) gs [] t \<and> holds T (g(x := v)) gs"
    using reaches_trans [OF t(1) u(1)] by blast
qed

text \<open>A test, and the jump over what follows when it fails.\<close>

lemma test_jumps:
  assumes "evals env h T n C K g v" and "aboutTo h T g (C @ opcodeByte OP_JUMP_IF_FALSE # be4 off @ R) K n s"
    and "off \<le> 0xFFFFFFFF"
  obtains t where "reaches env s t"
    "does s (length C + (5 + (if isTruthy v then 0 else off))) (globalSlots s) [] t" "holds T g (globalSlots s)"
proof -
  from evals_start [OF assms(1,2)] obtain t where t: "reaches env s t" "gives s (length C) v t" "ready t"
    "codeAt t (opcodeByte OP_JUMP_IF_FALSE # be4 off @ R)" "top t = Suc (top s)" "mem t (top s) = v" .
  have "\<exists>u. reaches env t u \<and> moves_on t (5 + (if \<not> isTruthy (mem t (top s)) then off else 0)) (top s) u"
    by (rule run_jump_if [OF t(3,4) assms(3) _ t(5)]) (simp add: jumpTests_def)
  then obtain u where u: "reaches env t u" "moves_on t (5 + (if \<not> isTruthy v then off else 0)) (top s) u"
    unfolding t(6) by blast
  have "(if \<not> isTruthy v then off else 0) = (if isTruthy v then 0 else off)" by simp
  then have "does s (length C + (5 + (if isTruthy v then 0 else off))) (globalSlots s) [] u"
    using moves_does [OF gives_moves [OF t(2) u(2)]] by simp
  then show thesis
    using that reaches_trans [OF t(1) u(1)] assms(2) by (simp add: aboutTo_def)
qed

text \<open>A branch with an alternative, in the layout of a conditional expression, and one without.\<close>

lemma performs_when_else:
  assumes "evals env h T n C K g v" and "length A + 5 \<le> 0xFFFFFFFF" and "length B \<le> 0xFFFFFFFF"
    and "performs env h T n (if isTruthy v then A else B) K g g' ls"
  shows "performs env h T n (ternaryCode C A B) K g g' ls"
  unfolding performs_def
proof (intro allI impI)
  let ?E = "opcodeByte OP_JUMP # be4 (length B) @ B"
  fix s assume s: "aboutTo h T g (ternaryCode C A B) K n s"
  obtain t where t: "reaches env s t"
    "does s (length C + (5 + (if isTruthy v then 0 else length A + 5))) (globalSlots s) [] t" "holds T g (globalSlots s)"
    using test_jumps [OF assms(1) s [unfolded ternaryCode_def] assms(2)] by blast
  show "\<exists>t gs. reaches env s t \<and> does s (length (ternaryCode C A B)) gs ls t \<and> holds T g' gs"
  proof (cases "isTruthy v")
    case True
    let ?P = "C @ opcodeByte OP_JUMP_IF_FALSE # be4 (length A + 5)"
    have "aboutTo h T g (?P @ A @ ?E) K n s" using s by (simp add: ternaryCode_def)
    then have at: "aboutTo h T g (A @ ?E) K n t" using aboutTo_next [of h T g ?P "A @ ?E"] t True by simp
    obtain u gs where u: "reaches env t u" "does t (length A) gs ls u" "holds T g' gs"
      using assms(4) True aboutTo_front [OF at] unfolding performs_def by auto
    have "aboutTo h T g' ?E K n u" by (rule aboutTo_next [OF at u(2,3)])
    then obtain w where w: "reaches env u w" "moves_on u (5 + length B) (top u) w"
      using run_jump [of u "length B" B env] assms(3) by (auto simp: aboutTo_def)
    have "does u (5 + length B) gs [] w" using moves_does [OF w(2)] u(2) by (simp add: does_def)
    then have "does s (length C + 5 + length A + (5 + length B)) gs ls w"
      using does_does [OF does_does [OF t(2) u(2)]] True by fastforce
    then show ?thesis
      using reaches_trans [OF t(1) reaches_trans [OF u(1) w(1)]] u(3) by (intro exI [of _ w] exI [of _ gs]) (simp add: ac_simps)
  next
    case False
    let ?P = "C @ opcodeByte OP_JUMP_IF_FALSE # be4 (length A + 5) @ A @ opcodeByte OP_JUMP # be4 (length B)"
    have "aboutTo h T g (?P @ B) K n s" using s by (simp add: ternaryCode_def)
    then have "aboutTo h T g B K n t" using aboutTo_next [of h T g ?P B] t False by (simp add: ac_simps)
    then obtain u gs where u: "reaches env t u" "does t (length B) gs ls u" "holds T g' gs"
      using assms(4) False unfolding performs_def by auto
    then show ?thesis
      using reaches_trans [OF t(1) u(1)] does_does [OF t(2) u(2)] False
      by (intro exI [of _ u] exI [of _ gs]) (simp add: ac_simps)
  qed
qed

definition whenCode :: "byte list \<Rightarrow> byte list \<Rightarrow> byte list" where
  "whenCode C A = C @ opcodeByte OP_JUMP_IF_FALSE # be4 (length A) @ A"

lemma performs_when:
  assumes "evals env h T n C K g v" and "length A \<le> 0xFFFFFFFF"
    and "if isTruthy v then performs env h T n A K g g' ls else g' = g \<and> ls = []"
  shows "performs env h T n (whenCode C A) K g g' ls"
  unfolding performs_def
proof (intro allI impI)
  fix s assume s: "aboutTo h T g (whenCode C A) K n s"
  obtain t where t: "reaches env s t"
    "does s (length C + (5 + (if isTruthy v then 0 else length A))) (globalSlots s) [] t" "holds T g (globalSlots s)"
    using test_jumps [OF assms(1) s [unfolded whenCode_def] assms(2)] by blast
  show "\<exists>t gs. reaches env s t \<and> does s (length (whenCode C A)) gs ls t \<and> holds T g' gs"
  proof (cases "isTruthy v")
    case True
    let ?P = "C @ opcodeByte OP_JUMP_IF_FALSE # be4 (length A)"
    have "aboutTo h T g (?P @ A) K n s" using s by (simp add: whenCode_def)
    then have "aboutTo h T g A K n t" using aboutTo_next [of h T g ?P A] t True by simp
    then obtain u gs where u: "reaches env t u" "does t (length A) gs ls u" "holds T g' gs"
      using assms(3) True unfolding performs_def by auto
    then show ?thesis
      using reaches_trans [OF t(1) u(1)] does_does [OF t(2) u(2)] True
      by (intro exI [of _ u] exI [of _ gs]) (simp add: whenCode_def ac_simps)
  next
    case False
    then show ?thesis
      using t assms(3) by (intro exI [of _ t] exI [of _ "globalSlots s"]) (simp add: whenCode_def ac_simps)
  qed
qed

subsection \<open>Loops\<close>

definition whileCode :: "byte list \<Rightarrow> byte list \<Rightarrow> byte list" where
  "whileCode C B = C @ opcodeByte OP_JUMP_IF_FALSE # be4 (length B + 5) @ B @
     opcodeByte OP_LOOP # be4 (length C + length B + 10)"

lemma length_whileCode [simp]: "length (whileCode C B) = length C + (length B + 10)"
  by (simp add: whileCode_def)

text \<open>Once around: the body, and back to the test.\<close>

lemma loop_again:
  assumes "evals env h T n C K g v" and "isTruthy v" and "performs env h T n B K g g1 l1"
    and "length (whileCode C B) \<le> 0xFFFFFFFF" and "aboutTo h T g (whileCode C B) K n s"
  obtains t gs where "reaches env s t" "does s 0 gs l1 t" "aboutTo h T g1 (whileCode C B) K n t" "holds T g1 gs"
proof -
  let ?L = "opcodeByte OP_LOOP # be4 (length C + length B + 10)"
  let ?P = "C @ opcodeByte OP_JUMP_IF_FALSE # be4 (length B + 5)"
  have len: "length B + 5 \<le> 0xFFFFFFFF" "length C + length B + 10 \<le> 0xFFFFFFFF" using assms(4) by simp_all
  obtain t where t: "reaches env s t" "does s (length C + 5) (globalSlots s) [] t" "holds T g (globalSlots s)"
    using test_jumps [OF assms(1) assms(5) [unfolded whileCode_def] len(1)] assms(2) by auto
  have "aboutTo h T g (?P @ B @ ?L) K n s" using assms(5) by (simp add: whileCode_def)
  then have at: "aboutTo h T g (B @ ?L) K n t" using aboutTo_next [of h T g ?P "B @ ?L"] t by simp
  obtain u gs where u: "reaches env t u" "does t (length B) gs l1 u" "holds T g1 gs"
    using assms(3) aboutTo_front [OF at] unfolding performs_def by blast
  have su: "does s (length C + 5 + length B) gs l1 u" using does_does [OF t(2) u(2)] by simp
  have "aboutTo h T g1 ?L K n u" by (rule aboutTo_next [OF at u(2,3)])
  then have "ready u" "codeAt u ?L" by (simp_all add: aboutTo_def)
  moreover have "length C + length B + 10 \<le> ip u + 5" using su by (simp add: does_def)
  ultimately obtain w where w: "reaches env u w" "alike u w" "ip w = ip u + 5 - (length C + length B + 10)"
      "top w = top u" "mem w = mem u"
    using run_loop [OF _ _ len(2), of u env] by blast
  have "ip w = ip s" using w(3) su by (simp add: does_def)
  then have d: "does s 0 gs l1 w"
    using su w alike_kin [OF w(2)] alike_printed [OF w(2)] alike_same(5) [OF w(2)]
    by (auto simp: does_def intro: kin_trans)
  have "aboutTo h T g ([] @ whileCode C B) K n s" using assms(5) by simp
  then have "aboutTo h T g1 (whileCode C B) K n w" using aboutTo_next d u(3) by fastforce
  then show thesis using that reaches_trans [OF t(1) reaches_trans [OF u(1) w(1)]] d u(3) by blast
qed

lemma performs_while:
  assumes test: "\<And>g v. valueOf env h g c = Some v \<Longrightarrow> evals env h T n C K g v"
    and body: "\<And>g g' ls d. execStmt d env h b g = Some (g', ls) \<Longrightarrow> performs env h T n B K g g' ls"
    and len: "length (whileCode C B) \<le> 0xFFFFFFFF"
  shows "execStmt d env h (Stmt l (WhileStmt c b)) g = Some (g', ls) \<Longrightarrow> performs env h T n (whileCode C B) K g g' ls"
proof (induction d arbitrary: g ls)
  case (Suc d)
  then obtain v where v: "valueOf env h g c = Some v"
    by (auto simp: assignedBy_def bind_eq_Some_conv)
  show ?case
  proof (cases "isTruthy v")
    case True
    then obtain g1 l1 l2 where step: "execStmt d env h b g = Some (g1, l1)"
        "execStmt d env h (Stmt l (WhileStmt c b)) g1 = Some (g', l2)" "ls = l1 @ l2"
      using Suc.prems v by (auto simp: assignedBy_def andThen_Some)
    show ?thesis
      unfolding performs_def
    proof (intro allI impI)
      fix s assume s: "aboutTo h T g (whileCode C B) K n s"
      obtain t gs where t: "reaches env s t" "does s 0 gs l1 t" "aboutTo h T g1 (whileCode C B) K n t"
        using loop_again [OF test [OF v] True body [OF step(1)] len s] by blast
      obtain u hs where u: "reaches env t u" "does t (length (whileCode C B)) hs l2 u" "holds T g' hs"
        using Suc.IH [OF step(2)] t(3) unfolding performs_def by blast
      then show "\<exists>t gs. reaches env s t \<and> does s (length (whileCode C B)) gs ls t \<and> holds T g' gs"
        using reaches_trans [OF t(1) u(1)] does_does [OF t(2) u(2)] step(3) by auto
    qed
  next
    case False
    then have same: "g' = g" "ls = []" using Suc.prems v by (auto simp: assignedBy_def)
    show ?thesis
      unfolding performs_def
    proof (intro allI impI)
      fix s assume s: "aboutTo h T g (whileCode C B) K n s"
      obtain t where "reaches env s t" "does s (length C + (5 + (length B + 5))) (globalSlots s) [] t"
          "holds T g (globalSlots s)"
        using test_jumps [OF test [OF v] s [unfolded whileCode_def]] len False by auto
      then show "\<exists>t gs. reaches env s t \<and> does s (length (whileCode C B)) gs ls t \<and> holds T g' gs"
        using same by (auto simp: ac_simps)
    qed
  qed
qed simp

end
