(* ===== verification/Compile_Emits.thy ===== *)
theory Compile_Emits
  imports Expr_Value Double_Facts
begin

text \<open>
  What the operations of the compiler append to the code and to the constants of the function being
  compiled (\<open>emits\<close>), up to jumps that are patched later; and that the code of a literal or a variable
  computes its value.
\<close>

subsection \<open>What the compiler appends\<close>

definition poolOf :: "compiler \<Rightarrow> const_val list" where
  "poolOf c = constants (fcChunk (cur c))"

definition codeOf :: "compiler \<Rightarrow> byte list" where
  "codeOf c = code (fcChunk (cur c))"

text \<open>The code \<open>C\<close> and the constants \<open>X\<close> are appended, and nothing that names depend on is touched.\<close>

definition emits :: "compiler \<Rightarrow> byte list \<Rightarrow> const_val list \<Rightarrow> compiler \<Rightarrow> bool" where
  "emits c C X d \<longleftrightarrow> fns c \<noteq> [] \<and> (\<exists>ch. fns d = (cur c)\<lparr>fcChunk := ch\<rparr> # tl (fns c)) \<and>
     codeOf d = codeOf c @ C \<and> poolOf d = poolOf c @ X \<and> slotTable d = slotTable c \<and> loopStack d = loopStack c \<and>
     nextGlobalSlot d = nextGlobalSlot c \<and>
     (compiler.hadError c \<longrightarrow> compiler.hadError d)"

lemma emits_refl: "fns c \<noteq> [] \<Longrightarrow> emits c [] [] c"
  unfolding emits_def by (cases "fns c") (auto simp: cur_def intro: exI [of _ "fcChunk (hd (fns c))"])

lemma emits_trans: "emits c A X d \<Longrightarrow> emits d B Y e \<Longrightarrow> emits c (A @ B) (X @ Y) e"
  by (auto simp: emits_def cur_def)

lemma emits_names:
  assumes "emits c C X d"
  shows "place_of d = place_of c" and "variables d = variables c" and "fns d \<noteq> []"
proof -
  obtain f fs ch where f: "fns c = f # fs" "fns d = f\<lparr>fcChunk := ch\<rparr> # fs" "slotTable d = slotTable c"
    using assms by (cases "fns c") (auto simp: emits_def cur_def)
  have "resolveStatic x (fns d) = resolveStatic x (fns c)" "resolveLocal x d = resolveLocal x c"
      "isMain d = isMain c" for x
    using f by (simp_all add: isMain_def resolveLocal_def cur_def)
  then show "place_of d = place_of c" by (intro ext) (simp only: place_of_def f(3))
  then show "variables d = variables c" by (intro ext) (simp add: variables_def)
  show "fns d \<noteq> []" using f by simp
qed

text \<open>The emitters.\<close>

lemma emits_chunk:
  assumes "fns c \<noteq> []" and "code ch = codeOf c @ C" and "constants ch = poolOf c @ X"
  shows "emits c C X (setCur (\<lambda>f. f\<lparr>fcChunk := ch\<rparr>) c)"
  using assms by (cases "fns c") (auto simp: emits_def setCur_def codeOf_def poolOf_def cur_def)

lemma emits_onChunk:
  assumes "onChunk g c = Inr ((), d)" and "fns c \<noteq> []"
    and "\<And>ch. code (g (currentLine c) ch) = code ch @ C" and "\<And>ch. constants (g (currentLine c) ch) = constants ch"
  shows "emits c C [] d"
proof -
  have "d = setCur (\<lambda>f. f\<lparr>fcChunk := g (currentLine c) (fcChunk (cur c))\<rparr>) c"
    using assms(1,2) by (cases "fns c") (auto simp: onChunk_def cupd_def setCur_def cur_def)
  then show ?thesis
    using emits_chunk [OF assms(2), of "g (currentLine c) (fcChunk (cur c))" C "[]"] assms(3,4)
    by (simp add: codeOf_def poolOf_def)
qed

lemma emits_emitOp: "emitOp k c = Inr ((), d) \<Longrightarrow> fns c \<noteq> [] \<Longrightarrow> emits c [opcodeByte k] [] d"
  using emits_onChunk [of "writeOp k" c d "[opcodeByte k]"] by (simp add: emitOp_def writeOp_def writeByte_def)

lemma emits_emitByte: "emitByte b c = Inr ((), d) \<Longrightarrow> fns c \<noteq> [] \<Longrightarrow> emits c [word_of_nat b] [] d"
  using emits_onChunk [of "writeByte (word_of_nat b)" c d "[word_of_nat b]"] by (simp add: emitByte_def writeByte_def)

lemma cbnd_Inr: "cbnd m f c = Inr r \<longleftrightarrow> (\<exists>a d. m c = Inr (a, d) \<and> f a d = Inr r)"
  by (auto simp: cbnd_def split: sum.splits)

lemma cret_Inr: "cret a c = Inr (b, d) \<longleftrightarrow> b = a \<and> d = c"
  by (auto simp: cret_def)

lemma cget_Inr: "cget f c = Inr (b, d) \<longleftrightarrow> b = f c \<and> d = c"
  by (auto simp: cget_def)

lemma cupd_Inr: "cupd f c = Inr (b, d) \<longleftrightarrow> d = f c"
  by (auto simp: cupd_def)

lemma clift_Inr: "clift r c = Inr (b, d) \<longleftrightarrow> r = Inr b \<and> d = c"
  by (auto simp: clift_def split: sum.splits)

lemma unit_pair: "(\<exists>u::unit. P u) \<longleftrightarrow> P ()"
  by auto

lemmas compiled = cbnd_Inr cret_Inr cget_Inr cupd_Inr clift_Inr cseq.simps unit_pair

lemma emits_seq:
  assumes "cbnd m (\<lambda>_. n) c = Inr ((), e)"
    and "\<And>d. m c = Inr ((), d) \<Longrightarrow> emits c A X d" and "\<And>d. fns d \<noteq> [] \<Longrightarrow> n d = Inr ((), e) \<Longrightarrow> emits d B Y e"
  shows "emits c (A @ B) (X @ Y) e"
  using assms emits_names(3) by (auto simp: compiled intro!: emits_trans)

lemma emits_emitShort: "emitShort n c = Inr ((), d) \<Longrightarrow> fns c \<noteq> [] \<Longrightarrow>
    emits c [word_of_nat (n div 256), word_of_nat n] [] d"
  using emits_seq [of "emitByte (n div 256)" "cseq [emitByte n]" c d "[word_of_nat (n div 256)]" "[]" "[word_of_nat n]" "[]"]
  by (auto simp: emitShort_def compiled intro: emits_emitByte)

lemma emits_emitOpByte: "emitOpByte k n c = Inr ((), d) \<Longrightarrow> fns c \<noteq> [] \<Longrightarrow>
    emits c [opcodeByte k, word_of_nat n] [] d"
  using emits_seq [of "emitOp k" "cseq [emitByte n]" c d "[opcodeByte k]" "[]" "[word_of_nat n]" "[]"]
  by (auto simp: emitOpByte_def compiled intro: emits_emitByte emits_emitOp)

lemma emits_emitOpShort: "emitOpShort k n c = Inr ((), d) \<Longrightarrow> fns c \<noteq> [] \<Longrightarrow>
    emits c [opcodeByte k, word_of_nat (n div 256), word_of_nat n] [] d"
  using emits_seq [of "emitOp k" "cseq [emitShort n]" c d "[opcodeByte k]" "[]" "[word_of_nat (n div 256), word_of_nat n]" "[]"]
  by (auto simp: emitOpShort_def compiled intro: emits_emitShort emits_emitOp)

text \<open>Constants: zero doubles are left out, as the pool shares them whatever their sign.\<close>

fun poolable :: "const_val \<Rightarrow> bool" where
  "poolable (CDouble d) = (\<not> deq d 0)"
| "poolable CFunction = False"
| "poolable CModel = False"
| "poolable (CArray ns) = False"
| "poolable k = True"

lemma sameConstant_poolable: "sameConstant d k \<Longrightarrow> poolable k \<Longrightarrow> d = k"
  by (cases d; cases k) (auto dest: deq_same)

lemma emits_makeConstant:
  assumes "makeConstant k c = Inr (i, d)" and "fns c \<noteq> []"
  shows "\<exists>X. emits c [] X d \<and> i < length (poolOf d) \<and> (poolable k \<longrightarrow> poolOf d ! i = k)"
proof (cases "findConstant (poolOf c) k 0")
  case None
  let ?ch = "(fcChunk (cur c))\<lparr>constants := poolOf c @ [k]\<rparr>"
  have "i = length (poolOf c)" "d = setCur (\<lambda>f. f\<lparr>fcChunk := ?ch\<rparr>) c"
    using assms(1) None by (auto simp: makeConstant_def addConstant_def poolOf_def)
  moreover have "emits c [] [k] (setCur (\<lambda>f. f\<lparr>fcChunk := ?ch\<rparr>) c)"
    using assms(2) by (intro emits_chunk) (simp_all add: codeOf_def)
  ultimately show ?thesis by (intro exI [of _ "[k]"]) (simp add: emits_def)
next
  case (Some j)
  have d: "i = j" "d = setCur (\<lambda>f. f\<lparr>fcChunk := fcChunk (cur c)\<rparr>) c"
    using assms(1) Some by (auto simp: makeConstant_def addConstant_def poolOf_def)
  moreover have "emits c [] [] (setCur (\<lambda>f. f\<lparr>fcChunk := fcChunk (cur c)\<rparr>) c)"
    using assms(2) by (intro emits_chunk) (simp_all add: codeOf_def poolOf_def)
  ultimately show ?thesis
    using findConstant_Some [OF Some] sameConstant_poolable by (intro exI [of _ "[]"]) (auto simp: emits_def)
qed

lemma errorAt_Inr: "errorAt msg c = Inr (u, d) \<longleftrightarrow> compiler.hadError c \<and> d = c"
  by (auto simp: errorAt_def)

text \<open>Jumps, first with four bytes to fill in and then patched.\<close>

lemma emits_emitJump:
  assumes "emitJump k c = Inr (off, d)" and "fns c \<noteq> []"
  shows "emits c (opcodeByte k # [0xFF, 0xFF, 0xFF, 0xFF]) [] d" and "off = length (codeOf c) + 1"
proof -
  have d: "onChunk (writeJump k) c = Inr ((), d)" and off: "off = codeSize d - 4"
    using assms(1) by (auto simp: emitJump_def compiled)
  show e: "emits c (opcodeByte k # [0xFF, 0xFF, 0xFF, 0xFF]) [] d"
    using emits_onChunk [OF d assms(2), of "opcodeByte k # [0xFF, 0xFF, 0xFF, 0xFF]"]
    by (simp add: writeJump_def writeBytes_eq writeOp_def writeByte_def)
  then show "off = length (codeOf c) + 1" using off by (simp add: emits_def codeSize_def codeOf_def)
qed

lemma emits_patched:
  assumes "emits c (P @ k # [0xFF, 0xFF, 0xFF, 0xFF] @ B) Y e"
    and "patchJumpAt (length (codeOf c) + length P + 1) e = Inr ((), d)"
  shows "\<exists>Z. length Z = 4 \<and> emits c (P @ k # Z @ B) Y d \<and> (length B \<le> 0xFFFFFFFF \<longrightarrow> Z = be4 (length B))"
proof -
  have code: "code (fcChunk (cur e)) = codeOf c @ P @ k # [0xFF, 0xFF, 0xFF, 0xFF] @ B" and ne: "fns e \<noteq> []"
    using assms(1) by (auto simp: emits_def codeOf_def)
  have put: "emits c (P @ k # Z @ B) Y (setCur (\<lambda>f. f\<lparr>fcChunk := ch\<rparr>) e)"
    if "code ch = codeOf c @ P @ k # Z @ B" "constants ch = poolOf e" for Z ch
    using assms(1) that ne by (cases "fns e") (auto simp: emits_def setCur_def cur_def codeOf_def poolOf_def)
  show ?thesis
  proof (cases "length B \<le> 0xFFFFFFFF")
    case True
    let ?ch = "(fcChunk (cur e))\<lparr>code := codeOf c @ P @ k # be4 (length B) @ B\<rparr>"
    have "patchJump (length (codeOf c) + length P + 1) (fcChunk (cur e)) = Some ?ch"
      using True by (simp add: patchJump_def code Let_def)
    then have "d = setCur (\<lambda>f. f\<lparr>fcChunk := ?ch\<rparr>) e" using assms(2) by (simp add: patchJumpAt_def)
    then show ?thesis using put [of ?ch "be4 (length B)"] by (intro exI [of _ "be4 (length B)"]) (simp add: poolOf_def)
  next
    case False
    have "patchJump (length (codeOf c) + length P + 1) (fcChunk (cur e)) = Some (fcChunk (cur e))"
      using False by (simp add: patchJump_def code Let_def)
    then have "d = setCur (\<lambda>f. f\<lparr>fcChunk := fcChunk (cur e)\<rparr>) e" using assms(2) by (simp add: patchJumpAt_def)
    then show ?thesis
      using put [of "fcChunk (cur e)" "[0xFF, 0xFF, 0xFF, 0xFF]"] code False
      by (intro exI [of _ "[0xFF, 0xFF, 0xFF, 0xFF]"]) (simp add: poolOf_def)
  qed
qed

lemma patched_keeps:
  assumes "patchJumpAt off f = Inr ((), g)"
  shows "compiler.hadError g = compiler.hadError f" "poolOf g = poolOf f" "length (codeOf g) = length (codeOf f)"
proof -
  obtain ch where ch: "patchJump off (fcChunk (cur f)) = Some ch" "g = setCur (\<lambda>q. q\<lparr>fcChunk := ch\<rparr>) f"
    using assms by (auto simp: patchJumpAt_def split: option.splits)
  from ch(1) have "constants ch = constants (fcChunk (cur f))" "length (code ch) = length (code (fcChunk (cur f)))"
    by (auto simp: patchJump_def Let_def split: if_splits)
  then show "compiler.hadError g = compiler.hadError f" "poolOf g = poolOf f" "length (codeOf g) = length (codeOf f)"
    using ch(2) by (cases "fns f"; simp add: setCur_def poolOf_def codeOf_def cur_def)+
qed

subsection \<open>Leaves\<close>

text \<open>
  An action that appends code, which has the property \<open>Q\<close> when the compiler accepts and the code is so
  short that every jump in it, forwards or backwards, fits its four bytes.
\<close>

definition accepted :: "compiler \<Rightarrow> bool" where
  "accepted d \<longleftrightarrow> \<not> compiler.hadError d \<and> length (codeOf d) \<le> 0xFFFFFFFB"

definition makes :: "unit cact \<Rightarrow> compiler \<Rightarrow> (byte list \<Rightarrow> const_val list \<Rightarrow> bool) \<Rightarrow> bool" where
  "makes m c Q \<longleftrightarrow> (\<forall>d. m c = Inr ((), d) \<longrightarrow>
     (\<exists>C X. emits c C X d \<and> (accepted d \<longrightarrow> Q C (poolOf d))))"

definition valueCode :: "vm_env \<Rightarrow> compiler \<Rightarrow> expr_node \<Rightarrow> byte list \<Rightarrow> const_val list \<Rightarrow> bool" where
  "valueCode env c n C K \<longleftrightarrow> (\<forall>h rho v. evalNode env h rho n = Some v \<longrightarrow> computes env c h rho C K (roomNode n) v)"

lemma accepted_earlier: "emits c C X d \<Longrightarrow> accepted d \<Longrightarrow> accepted c"
  by (auto simp: accepted_def emits_def)

lemma makes_emitOp:
  assumes "fns c \<noteq> []" and "Q [opcodeByte k]"
  shows "makes (emitOp k) c (\<lambda>C K. Q C)"
  using assms emits_emitOp unfolding makes_def by blast

lemma computes_load: "(k, v) \<in> set loads \<Longrightarrow> 0 < n \<Longrightarrow> computes env c h rho [opcodeByte k] K n v"
  unfolding computes_def using run_load [of _ k v env] by (auto simp: about_def)

lemma makes_emitConstant:
  assumes "fns c \<noteq> []" and "poolable k"
  shows "makes (emitConstant k) c (\<lambda>C K. \<forall>h rho. computes env c0 h rho C K 1 (resolveConstant k))"
  unfolding makes_def
proof (intro allI impI)
  fix d assume "emitConstant k c = Inr ((), d)"
  then obtain i b where i: "makeConstant k c = Inr (i, b)"
      "(if i > 65535 then errorAt ''Too many constants in one chunk (max 65535)'' else emitOpShort OP_LOAD_CONST i) b = Inr ((), d)"
    by (auto simp: emitConstant_def compiled)
  obtain X where X: "emits c [] X b" "i < length (poolOf b)" "poolOf b ! i = k"
    using emits_makeConstant [OF i(1) assms(1)] assms(2) by blast
  show "\<exists>C X. emits c C X d \<and> (accepted d \<longrightarrow> (\<forall>h rho. computes env c0 h rho C (poolOf d) 1 (resolveConstant k)))"
  proof (cases "i > 65535")
    case True
    then have "compiler.hadError d" "d = b" using i(2) by (simp_all add: errorAt_Inr)
    then show ?thesis using X(1) by (auto simp: accepted_def)
  next
    case False
    let ?C = "[opcodeByte OP_LOAD_CONST, word_of_nat (i div 256), word_of_nat i]"
    have e: "emits b ?C [] d" using i(2) False emits_names(3) [OF X(1)] by (simp add: emits_emitOpShort)
    then have "poolOf d = poolOf b" by (simp add: emits_def)
    have "computes env c0 h rho ?C (poolOf d) 1 (resolveConstant k)" for h rho
      unfolding computes_def
    proof (intro allI impI)
      fix s assume s: "about (variables c0) h rho ?C (poolOf d) 1 s"
      then obtain more where more: "constants (cuChunk (curUnit s)) = poolOf d @ more" by (auto simp: about_def)
      then have "constants (cuChunk (curUnit s)) ! i = k" "i < length (constants (cuChunk (curUnit s)))"
        using X(2,3) \<open>poolOf d = poolOf b\<close> by (simp_all add: nth_append)
      then show "\<exists>t. reaches env s t \<and> gives s (length ?C) (resolveConstant k) t"
        using run_load_const [of s i env] s False by (simp add: about_def numeral_3_eq_3)
    qed
    then show ?thesis using emits_trans [OF X(1) e] by auto
  qed
qed

lemma makes_mono: "makes m c Q \<Longrightarrow> (\<And>C K. Q C K \<Longrightarrow> R C K) \<Longrightarrow> makes m c R"
  unfolding makes_def by meson

lemma makes_literal:
  assumes "fns c \<noteq> []" and "poolable (literalConstant v)"
  shows "makes (compileLiteral v) c (valueCode env c0 (LiteralExpr v))"
proof -
  have const: "makes (emitConstant k) c (valueCode env c0 (LiteralExpr v))" if "k = literalConstant v" for k
    using makes_emitConstant [OF assms(1), of k env c0] assms(2) that
    by (auto intro: makes_mono simp: valueCode_def)
  have load: "makes (emitOp k) c (valueCode env c0 (LiteralExpr v))"
    if "(k, resolveConstant (literalConstant v)) \<in> set loads" for k
  proof (rule makes_mono)
    show "makes (emitOp k) c (\<lambda>C K. \<forall>h rho K. computes env c0 h rho C K 1 (resolveConstant (literalConstant v)))"
      using computes_load [OF that] by (intro makes_emitOp [OF assms(1)]) simp
  qed (auto simp: valueCode_def)
  show ?thesis
  proof (cases v)
    case (LStr t)
    then show ?thesis
      using const [of "CString t"] load [of OP_LOAD_EMPTY_STR]
      by (auto simp: compileLiteral_def mkString_def loads_def)
  next
    case (LInt i)
    then show ?thesis
      using const [of "CInt i"] load [of OP_LOAD_ZERO] load [of OP_LOAD_ONE]
      by (auto simp: compileLiteral_def loads_def)
  next
    case (LBool b)
    then show ?thesis
      using load [of OP_LOAD_TRUE] load [of OP_LOAD_FALSE] by (auto simp: compileLiteral_def loads_def)
  next
    case LNull
    then show ?thesis using load [of OP_LOAD_NIL] by (auto simp: compileLiteral_def loads_def)
  next
    case (LDouble x)
    then show ?thesis using const [of "CDouble x"] by (auto simp: compileLiteral_def)
  qed
qed

lemma about_variable:
  assumes "about (variables c) h rho C K n s" and "rho name = Some v" and "place_of c name = Some p"
  shows "valueAt s p = Some v"
  using assms by (auto simp: about_def map_le_def variables_def dom_def)

lemma valueCode_variable:
  assumes "place_of c name = Some p" and "\<And>s v. ready s \<Longrightarrow> codeAt s C \<Longrightarrow> top s < stackMax s \<Longrightarrow> valueAt s p = Some v \<Longrightarrow>
      \<exists>t. reaches env s t \<and> gives s (length C) v t"
  shows "valueCode env c (IdentifierExpr name) C K"
  unfolding valueCode_def computes_def
proof (intro allI impI)
  fix h rho v s
  assume v: "evalNode env h rho (IdentifierExpr name) = Some v"
    and s: "about (variables c) h rho C K (roomNode (IdentifierExpr name)) s"
  have "valueAt s p = Some v" using about_variable [OF s _ assms(1)] v by simp
  then show "\<exists>t. reaches env s t \<and> gives s (length C) v t"
    using assms(2) [of s v] s by (simp add: about_def)
qed

lemma makes_load_local:
  assumes "fns c \<noteq> []" and "place_of c name = Some (LocalSlot i)"
  shows "makes (emitLoadLocal i) c (valueCode env c (IdentifierExpr name))"
proof (cases "i \<le> 255")
  case True
  have "valueCode env c (IdentifierExpr name) [opcodeByte OP_LOAD_LOCAL, word_of_nat i] K" for K
    using run_load_local [of _ i env] True
    by (intro valueCode_variable [OF assms(2)]) (auto simp: valueAt_def numeral_2_eq_2 split: if_splits)
  then show ?thesis
    using True emits_emitOpByte [OF _ assms(1)] unfolding makes_def emitLoadLocal_def by auto blast
next
  case False
  have "valueCode env c (IdentifierExpr name)
      [opcodeByte OP_LOAD_LOCAL_W, word_of_nat (i div 256), word_of_nat i] K" for K
    using run_load_local_wide [of _ i env]
    by (intro valueCode_variable [OF assms(2)]) (auto simp: valueAt_def numeral_3_eq_3 split: if_splits)
  then show ?thesis
    using False emits_emitOpShort [OF _ assms(1)] unfolding makes_def emitLoadLocal_def by auto blast
qed

lemma makes_load_global:
  assumes "fns c \<noteq> []" and "place_of c name = Some (GlobalSlot i)"
  shows "makes (emitOpShort OP_LOAD_GLOBAL_SLOT i) c (valueCode env c (IdentifierExpr name))"
proof -
  have "valueCode env c (IdentifierExpr name)
      [opcodeByte OP_LOAD_GLOBAL_SLOT, word_of_nat (i div 256), word_of_nat i] K" for K
    using run_load_global [of _ i env]
    by (intro valueCode_variable [OF assms(2)]) (auto simp: valueAt_def numeral_3_eq_3 split: if_splits)
  then show ?thesis using emits_emitOpShort [OF _ assms(1)] unfolding makes_def by blast
qed

lemma makes_identifier:
  assumes "fns c \<noteq> []" and "place_of c name \<noteq> None"
  shows "makes (compileIdentifier name) c (valueCode env c (IdentifierExpr name))"
proof -
  have static: "resolveStatic name (fns c) = []"
    using assms(2) by (auto simp: place_of_def split: if_splits)
  show ?thesis
  proof (cases "resolveLocal name c")
    case (Some i)
    then have "compileIdentifier name c = emitLoadLocal i c"
      using static by (simp add: compileIdentifier_def cbnd_def cget_def)
    moreover have "place_of c name = Some (LocalSlot i)" using static Some by (simp add: place_of_def)
    ultimately show ?thesis using makes_load_local [OF assms(1)] by (simp add: makes_def)
  next
    case None
    obtain f where f: "fns c = [f]"
      using assms(2) static None by (auto simp: place_of_def isMain_def length_Suc_conv split: if_splits)
    obtain i where i: "map_of (slotTable c) name = Some i" "name \<noteq> ''self''" "name \<noteq> ''super''"
      using assms(2) static None by (auto simp: place_of_def split: if_splits)
    have up: "resolveUpvalue name c = Inr (None, c)" using f by (simp add: resolveUpvalue_def)
    have "compileIdentifier name c = emitOpShort OP_LOAD_GLOBAL_SLOT i c"
      using static None i up
      by (simp add: compileIdentifier_def cbnd_def cget_def loadGlobalSlotOf_def globalSlotFor_def)
    moreover have "place_of c name = Some (GlobalSlot i)"
      using static None i f by (simp add: place_of_def isMain_def)
    ultimately show ?thesis using makes_load_global [OF assms(1)] by (simp add: makes_def)
  qed
qed

end
