(* ===== verification/Compile_Stmt.thy ===== *)
theory Compile_Stmt
  imports Compile_Expr
begin

text \<open>
  The statement compiler of \<open>src/compiler/BytecodeCompilerStmt.cpp\<close> and the function compiler of
  \<open>BytecodeCompiler.cpp\<close>: one definition per member function, with the compilers \<open>ce\<close> of expressions
  and \<open>cs\<close> of statements as arguments, then the recursion itself and \<open>compile\<close>. The depth of the
  recursion is counted by fuel; \<open>Compile_Total\<close> shows how much is enough. A \<open>use\<close> statement, which
  reads and parses files, stops the compiler as \<open>Outside\<close>.
\<close>

subsection \<open>Expression statements\<close>

text \<open>\<open>compileCompoundAssignFast\<close>: the operands of \<open>name = name op right\<close>.\<close>

fun compoundOperands :: "string \<Rightarrow> expr \<Rightarrow> (token_kind \<times> expr) option" where
  "compoundOperands name (Expr _ _ (BinaryExpr (Expr _ _ (IdentifierExpr x)) k r)) =
     (if x = name then Some (k, r) else None)"
| "compoundOperands name _ = None"

definition narrowLocal :: "expr \<Rightarrow> compiler \<Rightarrow> nat option" where
  "narrowLocal e s = (case e of
       Expr _ _ (IdentifierExpr y) \<Rightarrow>
         (case resolveLocal y s of Some i \<Rightarrow> if i \<le> 255 then Some i else None | None \<Rightarrow> None)
     | _ \<Rightarrow> None)"

fun intLiteral :: "expr \<Rightarrow> i64 option" where
  "intLiteral (Expr _ _ (LiteralExpr (LInt v))) = Some v"
| "intLiteral _ = None"

definition fastLocal :: "nat \<Rightarrow> token_kind \<Rightarrow> expr \<Rightarrow> bool cact" where
  "fastLocal dst k r = cbnd (cget (narrowLocal r)) (\<lambda>src. case src of
       Some i \<Rightarrow>
         if k = TK_PLUS then cbnd (cseq [emitOp OP_ADD_LOCAL_LOCAL, emitByte dst, emitByte i]) (\<lambda>_. cret True)
         else if k = TK_MINUS then cbnd (cseq [emitOp OP_SUB_LOCAL_LOCAL, emitByte dst, emitByte i]) (\<lambda>_. cret True)
         else cret False
     | None \<Rightarrow> (case intLiteral r of
           Some v \<Rightarrow>
             if k = TK_PLUS \<and> 0 \<le> sint v \<and> sint v \<le> 127 then
               cbnd (cseq [emitOp OP_INC_LOCAL_BY, emitByte dst, emitByte (unat v)]) (\<lambda>_. cret True)
             else if k = TK_MINUS \<and> 0 \<le> sint v \<and> sint v \<le> 128 then
               cbnd (cseq [emitOp OP_INC_LOCAL_BY, emitByte dst, emitByte (unat (- v))]) (\<lambda>_. cret True)
             else cret False
         | None \<Rightarrow> cret False))"

text \<open>The slot of a global that has one, or that the top level gives one now.\<close>

definition fastGlobalSlot :: "string \<Rightarrow> nat option cact" where
  "fastGlobalSlot name =
     cbnd (cget (\<lambda>s. if fcHarvesting (cur s) then None else map_of (slotTable s) name)) (\<lambda>g. case g of
         Some slot \<Rightarrow> cret (Some slot)
       | None \<Rightarrow> cbnd (cget (\<lambda>s. fcDepth (cur s))) (\<lambda>d.
           if d = 0 then cbnd (globalSlotFor name) (\<lambda>slot. cret (Some slot)) else cret None))"

definition fastGlobal :: "string \<Rightarrow> token_kind \<Rightarrow> expr \<Rightarrow> bool cact" where
  "fastGlobal name k r = cbnd (fastGlobalSlot name) (\<lambda>g. case g of
       None \<Rightarrow> cret False
     | Some slot \<Rightarrow> cbnd (cget (narrowLocal r)) (\<lambda>src. case src of
           Some i \<Rightarrow>
             if k = TK_PLUS then
               cbnd (cseq [emitOpShort OP_ADD_GLOBAL_LOCAL slot, emitByte i]) (\<lambda>_. cret True)
             else cret False
         | None \<Rightarrow> cret False))"

definition compileCompoundAssignFast :: "string \<Rightarrow> expr \<Rightarrow> expr \<Rightarrow> bool cact" where
  "compileCompoundAssignFast name value idx =
     (if idx \<noteq> NoExpr then cret False
      else (case compoundOperands name value of
          None \<Rightarrow> cret False
        | Some (k, r) \<Rightarrow> cbnd (cget (resolveLocal name)) (\<lambda>dst. case dst of
              Some d \<Rightarrow> if d \<le> 255 then fastLocal d k r else cret False
            | None \<Rightarrow> fastGlobal name k r)))"

definition compileExpressionStmt :: "(expr \<Rightarrow> unit cact) \<Rightarrow> expr \<Rightarrow> unit cact" where
  "compileExpressionStmt ce e =
     cbnd (case e of Expr _ _ (AssignExpr name value idx obj compound) \<Rightarrow> compileCompoundAssignFast name value idx
           | _ \<Rightarrow> cret False)
       (\<lambda>fast. if fast then cret () else cseq [ce e, emitOp OP_POP])"

definition compileOutStmt :: "(expr \<Rightarrow> unit cact) \<Rightarrow> expr \<Rightarrow> unit cact" where
  "compileOutStmt ce e = cseq [ce e, emitOp OP_PRINT_STR]"

definition compileThrow :: "(expr \<Rightarrow> unit cact) \<Rightarrow> expr \<Rightarrow> unit cact" where
  "compileThrow ce e = cseq [ce e, emitOp OP_THROW]"

subsection \<open>Declarations and blocks\<close>

definition atTop :: "compiler \<Rightarrow> bool" where
  "atTop s = (fcDepth (cur s) = 0)"

text \<open>A local whose value stays on the operand stack.\<close>

definition addResidentLocal :: "string \<Rightarrow> nat cact" where
  "addResidentLocal name = cbnd (addLocal name False) (\<lambda>slot. cbnd markInitialized (\<lambda>_. cret slot))"

definition compileVarDecl :: "(expr \<Rightarrow> unit cact) \<Rightarrow> string \<Rightarrow> expr \<Rightarrow> unit cact" where
  "compileVarDecl ce name init = cseq [
     if init \<noteq> NoExpr then ce init else emitOp OP_LOAD_NIL,
     cbnd (cget atTop) (\<lambda>t. if t then cseq [storeGlobalSlotOf name, emitOp OP_POP]
       else cbnd (addResidentLocal name) emitStoreLocal)]"

fun predeclareTasks :: "stmt list \<Rightarrow> unit cact" where
  "predeclareTasks [] = cret ()"
| "predeclareTasks (s # ss) = cbnd (case s of
       Stmt _ (TaskStmt t) \<Rightarrow> cbnd (cget (resolveLocal (tName t))) (\<lambda>l.
         if tName t \<noteq> [] \<and> l = None then cbnd (addFloatingLocal (tName t)) (\<lambda>_. cret ()) else cret ())
     | _ \<Rightarrow> cret ()) (\<lambda>_. predeclareTasks ss)"

definition predeclareLocalTasks :: "stmt list \<Rightarrow> unit cact" where
  "predeclareLocalTasks ss = cbnd (cget atTop) (\<lambda>t. if t then cret () else predeclareTasks ss)"

fun compileStmts :: "(stmt \<Rightarrow> unit cact) \<Rightarrow> stmt list \<Rightarrow> unit cact" where
  "compileStmts cs [] = cret ()"
| "compileStmts cs (s # ss) = cbnd (cs s) (\<lambda>_. compileStmts cs ss)"

definition compileBlock :: "(stmt \<Rightarrow> unit cact) \<Rightarrow> stmt list \<Rightarrow> unit cact" where
  "compileBlock cs ss = cseq [beginScope, predeclareLocalTasks ss, compileStmts cs ss, endScope]"

subsection \<open>Branches\<close>

definition compileWhen :: "(expr \<Rightarrow> unit cact) \<Rightarrow> (stmt \<Rightarrow> unit cact) \<Rightarrow> expr \<Rightarrow> stmt \<Rightarrow> stmt \<Rightarrow> unit cact" where
  "compileWhen ce cs c a b = cbnd (clift (isConstant c)) (\<lambda>k. case k of
       Some v \<Rightarrow> if isConstantTruthy v then cs a else if b \<noteq> NoStmt then cs b else cret ()
     | None \<Rightarrow> cseq [ce c, cbnd (emitJump OP_JUMP_IF_FALSE) (\<lambda>elseJump. cseq [cs a,
         if b \<noteq> NoStmt then
           cbnd (emitJump OP_JUMP) (\<lambda>endJump. cseq [patchJumpAt elseJump, cs b, patchJumpAt endJump])
         else patchJumpAt elseJump])])"

subsection \<open>Loops\<close>

definition startLoop :: "unit cact" where
  "startLoop = cupd (\<lambda>s. s\<lparr>loopStack := \<lparr>lpStart = codeSize s, lpBreaks = [],
     lpTryDepth = length (fcActives (cur s)), lpDepth = fcDepth (cur s)\<rparr> # loopStack s\<rparr>)"

definition setLoop :: "(loop_ctx \<Rightarrow> loop_ctx) \<Rightarrow> unit cact" where
  "setLoop f = cupd (\<lambda>s. s\<lparr>loopStack := (case loopStack s of [] \<Rightarrow> [] | l # ls \<Rightarrow> f l # ls)\<rparr>)"

definition endLoop :: "unit cact" where
  "endLoop = cupd (\<lambda>s. s\<lparr>loopStack := tl (loopStack s)\<rparr>)"

fun patchAll :: "nat list \<Rightarrow> unit cact" where
  "patchAll [] = cret ()"
| "patchAll (j # js) = cbnd (patchJumpAt j) (\<lambda>_. patchAll js)"

text \<open>The end of every loop: the breaks recorded for the innermost loop land here.\<close>

definition finishLoop :: "unit cact" where
  "finishLoop = cseq [cbnd (cget (\<lambda>s. case loopStack s of [] \<Rightarrow> [] | l # ls \<Rightarrow> lpBreaks l)) patchAll, endLoop]"

definition markLoopStart :: "nat cact" where
  "markLoopStart = cbnd (cget codeSize) (\<lambda>pc. cbnd (setLoop (\<lambda>l. l\<lparr>lpStart := pc\<rparr>)) (\<lambda>_. cret pc))"

definition compileWhile :: "(expr \<Rightarrow> unit cact) \<Rightarrow> (stmt \<Rightarrow> unit cact) \<Rightarrow> expr \<Rightarrow> stmt \<Rightarrow> unit cact" where
  "compileWhile ce cs c body = cbnd (clift (isConstant c)) (\<lambda>k.
     if k \<noteq> None \<and> \<not> isConstantTruthy (the k) then cret ()
     else cseq [startLoop, cbnd markLoopStart (\<lambda>loopStart. cseq [ce c,
       cbnd (emitJump OP_JUMP_IF_FALSE) (\<lambda>exitJump.
         cseq [cs body, emitLoop loopStart, patchJumpAt exitJump, finishLoop])])])"

text \<open>
  \<open>repeat\<close> without a step: the increment stands at the top of the loop and is jumped over at first.
  The fused instructions carry one-byte slots.
\<close>

definition repeatTest :: "nat \<Rightarrow> nat \<Rightarrow> nat \<Rightarrow> nat cact" where
  "repeatTest loopVar endVar skipFirstInc =
     (if loopVar \<le> 255 \<and> endVar \<le> 255 then
        cbnd (cseq [emitOpByte OP_INC_LOCAL loopVar, patchJumpAt skipFirstInc,
          emitOp OP_LOOP_LESS_EQ_LOCAL, emitByte loopVar, emitByte endVar,
          emitByte 255, emitByte 255, emitByte 255, emitByte 255]) (\<lambda>_. cget (\<lambda>s. codeSize s - 4))
      else cbnd (cseq [emitLoadLocal loopVar, emitOp OP_LOAD_ONE, emitOp OP_ADD, emitStoreLocal loopVar,
          emitOp OP_POP, patchJumpAt skipFirstInc, emitLoadLocal endVar, emitLoadLocal loopVar,
          emitOp OP_GREATER_EQ]) (\<lambda>_. emitJump OP_JUMP_IF_FALSE))"

definition repeatPlain :: "(stmt \<Rightarrow> unit cact) \<Rightarrow> nat \<Rightarrow> nat \<Rightarrow> stmt \<Rightarrow> unit cact" where
  "repeatPlain cs loopVar endVar body = cseq [startLoop,
     cbnd (emitJump OP_JUMP) (\<lambda>skipFirstInc. cbnd markLoopStart (\<lambda>incPoint.
       cbnd (repeatTest loopVar endVar skipFirstInc) (\<lambda>exitJump.
         cseq [cs body, emitLoop incPoint, patchJumpAt exitJump, finishLoop])))]"

text \<open>With a step: a check that it is not zero, and a test that looks at its sign.\<close>

definition stepCheck :: "nat \<Rightarrow> unit cact" where
  "stepCheck stepVar = cseq [emitLoadLocal stepVar, emitOp OP_LOAD_ZERO, emitOp OP_EQUAL,
     cbnd (emitJump OP_JUMP_IF_FALSE) (\<lambda>stepZeroJump.
       cseq [emitNamed OP_LOAD_CONST ''Step cannot be 0 in repeat loop'', emitOp OP_THROW,
         patchJumpAt stepZeroJump])]"

definition stepTest :: "nat \<Rightarrow> nat \<Rightarrow> nat \<Rightarrow> nat cact" where
  "stepTest loopVar endVar stepVar = cbnd (cseq [emitLoadLocal stepVar, emitOp OP_LOAD_ZERO, emitOp OP_GREATER,
     cbnd (emitJump OP_JUMP_IF_FALSE) (\<lambda>stepJump.
       cseq [emitLoadLocal endVar, emitLoadLocal loopVar, emitOp OP_GREATER_EQ,
         cbnd (emitJump OP_JUMP) (\<lambda>endStepJump.
           cseq [patchJumpAt stepJump, emitLoadLocal loopVar, emitLoadLocal endVar, emitOp OP_GREATER_EQ,
             patchJumpAt endStepJump])])]) (\<lambda>_. emitJump OP_JUMP_IF_FALSE)"

definition repeatStep :: "(stmt \<Rightarrow> unit cact) \<Rightarrow> nat \<Rightarrow> nat \<Rightarrow> nat \<Rightarrow> stmt \<Rightarrow> unit cact" where
  "repeatStep cs loopVar endVar stepVar body = cseq [stepCheck stepVar, startLoop,
     cbnd (emitJump OP_JUMP) (\<lambda>skipFirstStep. cbnd markLoopStart (\<lambda>incPoint. cseq [
       emitLoadLocal loopVar, emitLoadLocal stepVar, emitOp OP_ADD, emitStoreLocal loopVar, emitOp OP_POP,
       patchJumpAt skipFirstStep,
       cbnd (stepTest loopVar endVar stepVar) (\<lambda>exitJump.
         cseq [cs body, emitLoop incPoint, patchJumpAt exitJump, finishLoop])]))]"

text \<open>A hidden local declared before the expression that fills it is compiled.\<close>

definition localFrom :: "(expr \<Rightarrow> unit cact) \<Rightarrow> string \<Rightarrow> expr \<Rightarrow> nat cact" where
  "localFrom ce name e = cbnd (addLocal name False) (\<lambda>slot.
     cbnd (cseq [ce e, markInitialized, emitStoreLocal slot]) (\<lambda>_. cret slot))"

definition compileRepeat ::
    "(expr \<Rightarrow> unit cact) \<Rightarrow> (stmt \<Rightarrow> unit cact) \<Rightarrow> string \<Rightarrow> expr \<Rightarrow> expr \<Rightarrow> expr \<Rightarrow> stmt \<Rightarrow> unit cact" where
  "compileRepeat ce cs var from til step body = cseq [beginScope,
     cbnd (localFrom ce var from) (\<lambda>loopVar. cbnd (localFrom ce ''<repeat-end>'' til) (\<lambda>endVar.
       if step = NoExpr then repeatPlain cs loopVar endVar body
       else cbnd (localFrom ce ''<repeat-step>'' step) (\<lambda>stepVar. repeatStep cs loopVar endVar stepVar body))),
     endScope]"

definition nilLocal :: "string \<Rightarrow> nat cact" where
  "nilLocal name = cbnd (addLocal name False) (\<lambda>slot.
     cbnd (cseq [emitOp OP_LOAD_NIL, markInitialized, emitStoreLocal slot]) (\<lambda>_. cret slot))"

definition iterLocal :: "(expr \<Rightarrow> unit cact) \<Rightarrow> bool \<Rightarrow> expr \<Rightarrow> nat cact" where
  "iterLocal ce pairs e = cbnd (addLocal ''<iter>'' False) (\<lambda>slot.
     cbnd (cseq [ce e, emitOp (if pairs then OP_GET_DICT_ITER else OP_GET_ITER), markInitialized,
       emitStoreLocal slot]) (\<lambda>_. cret slot))"

definition takeElement :: "nat \<Rightarrow> nat option \<Rightarrow> unit cact" where
  "takeElement loopVar valueVar = (case valueVar of
       Some v \<Rightarrow> cseq [emitOp OP_DUP, emitOp OP_LOAD_ZERO, emitOp OP_INDEX_GET, emitStoreLocal loopVar,
         emitOp OP_POP, emitOp OP_LOAD_ONE, emitOp OP_INDEX_GET, emitStoreLocal v, emitOp OP_POP]
     | None \<Rightarrow> cseq [emitStoreLocal loopVar, emitOp OP_POP])"

definition compileGet ::
    "(expr \<Rightarrow> unit cact) \<Rightarrow> (stmt \<Rightarrow> unit cact) \<Rightarrow> string \<Rightarrow> string \<Rightarrow> expr \<Rightarrow> stmt \<Rightarrow> unit cact" where
  "compileGet ce cs var valueVar it body = cseq [beginScope,
     cbnd (iterLocal ce (valueVar \<noteq> []) it) (\<lambda>iterVar. cbnd (nilLocal var) (\<lambda>loopVar.
       cbnd (if valueVar \<noteq> [] then cbnd (nilLocal valueVar) (\<lambda>v. cret (Some v)) else cret None) (\<lambda>v.
         cseq [startLoop, cbnd markLoopStart (\<lambda>loopStart. cseq [emitLoadLocal iterVar,
           cbnd (emitJump OP_ITER_NEXT) (\<lambda>exitJump.
             cseq [takeElement loopVar v, cs body, emitLoop loopStart, patchJumpAt exitJump, finishLoop])])]))),
     endScope]"

end
