(* ===== verification/Compile_Program.thy ===== *)
theory Compile_Program
  imports Compile_Stmt
begin

text \<open>
  The rest of \<open>src/compiler/BytecodeCompilerStmt.cpp\<close> and \<open>BytecodeCompiler.cpp\<close>: leaving loops and
  functions, pattern matching, exceptions, functions with defaults and contracts, models, and
  \<open>compile\<close> itself.
\<close>

subsection \<open>Leaving a loop\<close>

text \<open>
  The finally bodies opened inside the loop, innermost first, each behind a \<open>TRY_END\<close>. While body \<open>i\<close>
  is compiled, block \<open>i\<close> and those inside it are off the list.
\<close>

definition setActives :: "activeTry list \<Rightarrow> unit cact" where
  "setActives A = cupd (setCur (\<lambda>c. c\<lparr>fcActives := A\<rparr>))"

fun replayLeaving :: "(stmt \<Rightarrow> unit cact) \<Rightarrow> nat \<Rightarrow> activeTry list \<Rightarrow> nat \<Rightarrow> unit cact" where
  "replayLeaving cs depth pending 0 = cret ()"
| "replayLeaving cs depth pending (Suc i) =
     (if i < depth then cret ()
      else cseq [setActives (take i pending), emitOp OP_TRY_END,
        (case pending ! i of Finally body slot \<Rightarrow> cs body | NoFinally \<Rightarrow> cret ()),
        replayLeaving cs depth pending i])"

text \<open>The locals deeper than the loop leave the stack; the compiler keeps them.\<close>

fun popDeeper :: "nat \<Rightarrow> localVar list \<Rightarrow> nat \<Rightarrow> unit cact" where
  "popDeeper depth ls 0 = cret ()"
| "popDeeper depth ls (Suc i) =
     (if lDepth (ls ! i) \<le> depth then cret ()
      else cseq [if lCaptured (ls ! i) then emitOpByte OP_CLOSE_UPVALUE i else cret (),
        if lResident (ls ! i) then emitOp OP_POP else cret (),
        popDeeper depth ls i])"

definition leaveLoop :: "(stmt \<Rightarrow> unit cact) \<Rightarrow> loop_ctx \<Rightarrow> unit cact" where
  "leaveLoop cs lp = cbnd (cget (\<lambda>s. fcActives (cur s))) (\<lambda>pending. cseq [
     replayLeaving cs (lpTryDepth lp) pending (length pending),
     setActives pending,
     cbnd (cget (\<lambda>s. fcLocals (cur s))) (\<lambda>ls. popDeeper (lpDepth lp) ls (length ls))])"

definition compileEscape :: "(stmt \<Rightarrow> unit cact) \<Rightarrow> unit cact" where
  "compileEscape cs = cbnd (cget loopStack) (\<lambda>lps. case lps of
       [] \<Rightarrow> errorAt '''escape' outside of loop''
     | lp # _ \<Rightarrow> cseq [leaveLoop cs lp,
         cbnd (emitJump OP_JUMP) (\<lambda>j. setLoop (\<lambda>l. l\<lparr>lpBreaks := lpBreaks l @ [j]\<rparr>))])"

definition compileSkip :: "(stmt \<Rightarrow> unit cact) \<Rightarrow> unit cact" where
  "compileSkip cs = cbnd (cget loopStack) (\<lambda>lps. case lps of
       [] \<Rightarrow> errorAt '''skip' outside of loop''
     | lp # _ \<Rightarrow> cseq [leaveLoop cs lp,
         cbnd (cget (\<lambda>s. case loopStack s of [] \<Rightarrow> 0 | l # ls \<Rightarrow> lpStart l)) emitLoop])"

subsection \<open>Pattern matching\<close>

definition builtinTypes :: "string list" where
  "builtinTypes = [''Integer'', ''Float'', ''Number'', ''String'', ''Boolean'', ''Array'', ''Dictionary'',
     ''Function'', ''Nil'', ''File'', ''Buffer'', ''Regex'', ''DateTime'', ''Timer'', ''Atomic'', ''Channel'',
     ''Exception'', ''TypeError'', ''ValueError'', ''IndexError'', ''KeyError'', ''FileNotFoundError'',
     ''NetworkError'', ''PermissionError'', ''IOError'', ''SyntaxError'', ''RegexError'']"

text \<open>A name that is a variable in scope is no type pattern; looking it up may capture it.\<close>

definition isTypeMatchPattern :: "string \<Rightarrow> bool cact" where
  "isTypeMatchPattern name =
     (if name = [] then cret False
      else cbnd (cget (resolveLocal name)) (\<lambda>l. if l \<noteq> None then cret False
        else cbnd (resolveUpvalue name) (\<lambda>u. if u \<noteq> None then cret False
        else cbnd (cget (\<lambda>s. resolveStatic name (fns s))) (\<lambda>m. if m \<noteq> [] then cret False
        else cget (\<lambda>s. name \<in> set builtinTypes \<or> name \<in> set (declaredTypes s))))))"

definition typePattern :: "expr \<Rightarrow> string option cact" where
  "typePattern p = (case p of
       Expr _ _ (IdentifierExpr name) \<Rightarrow>
         cbnd (isTypeMatchPattern name) (\<lambda>b. cret (if b then Some name else None))
     | _ \<Rightarrow> cret None)"

definition matchTest :: "(expr \<Rightarrow> unit cact) \<Rightarrow> expr \<Rightarrow> unit cact" where
  "matchTest ce p = cbnd (typePattern p) (\<lambda>t. cseq [emitOp OP_DUP, case t of
       Some tyName \<Rightarrow> cseq [emitNamed OP_LOAD_CONST tyName, emitOp OP_IS_INSTANCE_OF]
     | None \<Rightarrow> cseq [ce p, emitOp OP_EQUAL]])"

definition matchArm :: "(expr \<Rightarrow> unit cact) \<Rightarrow> (stmt \<Rightarrow> unit cact) \<Rightarrow> expr \<Rightarrow> stmt \<Rightarrow> nat cact" where
  "matchArm ce cs p body =
     (if p = NoExpr then cbnd (cseq [emitOp OP_POP, cs body]) (\<lambda>_. emitJump OP_JUMP)
      else cbnd (matchTest ce p) (\<lambda>_. cbnd (emitJump OP_JUMP_IF_FALSE) (\<lambda>nextArm.
        cbnd (cseq [emitOp OP_POP, cs body]) (\<lambda>_. cbnd (emitJump OP_JUMP) (\<lambda>endJump.
          cbnd (patchJumpAt nextArm) (\<lambda>_. cret endJump))))))"

fun matchArms :: "(expr \<Rightarrow> unit cact) \<Rightarrow> (stmt \<Rightarrow> unit cact) \<Rightarrow> (expr \<times> stmt) list \<Rightarrow> nat list cact" where
  "matchArms ce cs [] = cret []"
| "matchArms ce cs ((p, body) # arms) = cbnd (matchArm ce cs p body) (\<lambda>j.
     cbnd (matchArms ce cs arms) (\<lambda>js. cret (j # js)))"

definition compileMatch :: "(expr \<Rightarrow> unit cact) \<Rightarrow> (stmt \<Rightarrow> unit cact) \<Rightarrow> expr \<Rightarrow> (expr \<times> stmt) list \<Rightarrow> unit cact" where
  "compileMatch ce cs subject arms = cseq [ce subject,
     cbnd (matchArms ce cs arms) (\<lambda>endJumps. cseq [emitOp OP_POP, patchAll endJumps])]"

subsection \<open>Exceptions\<close>

text \<open>A hidden local of a try with a finally: named after the number of locals, and nil at first.\<close>

definition hiddenLocal :: "string \<Rightarrow> nat cact" where
  "hiddenLocal prefix = cbnd (cget (\<lambda>s. length (fcLocals (cur s)))) (\<lambda>n.
     cbnd (addFloatingLocal (prefix @ showNat n)) (\<lambda>slot.
       cbnd (cseq [emitOp OP_LOAD_NIL, emitStoreLocal slot, emitOp OP_POP]) (\<lambda>_. cret slot)))"

definition pushActive :: "activeTry \<Rightarrow> unit cact" where
  "pushActive a = cupd (setCur (\<lambda>c. c\<lparr>fcActives := fcActives c @ [a]\<rparr>))"

definition popActive :: "unit cact" where
  "popActive = cupd (setCur (\<lambda>c. c\<lparr>fcActives := butlast (fcActives c)\<rparr>))"

text \<open>The body of a catch block: the exception is bound to a local or dropped.\<close>

definition catchBody :: "(stmt \<Rightarrow> unit cact) \<Rightarrow> stmt catch_block \<Rightarrow> unit cact" where
  "catchBody cs cb = cseq [beginScope,
     if cbVar cb \<noteq> [] then cbnd (addResidentLocal (cbVar cb)) emitStoreLocal else emitOp OP_POP,
     cs (cbBody cb), endScope]"

text \<open>The catch blocks up to the first that catches everything; the jumps to what follows.\<close>

fun catchBlocks :: "(stmt \<Rightarrow> unit cact) \<Rightarrow> stmt catch_block list \<Rightarrow> nat list cact" where
  "catchBlocks cs [] = cret []"
| "catchBlocks cs (cb # cbs) =
     (if cbType cb \<noteq> [] then
        cbnd (cseq [emitOp OP_DUP, emitConstant (CString (cbType cb)), emitOp OP_IS_INSTANCE_OF]) (\<lambda>_.
        cbnd (emitJump OP_JUMP_IF_FALSE) (\<lambda>nextCatch.
        cbnd (catchBody cs cb) (\<lambda>_. cbnd (emitJump OP_JUMP) (\<lambda>j. cbnd (patchJumpAt nextCatch) (\<lambda>_.
        cbnd (catchBlocks cs cbs) (\<lambda>js. cret (j # js)))))))
      else cbnd (catchBody cs cb) (\<lambda>_. cbnd (emitJump OP_JUMP) (\<lambda>j. cret [j])))"

text \<open>What stands where the exception lands: \<open>pending\<close> is the hidden local of the finally, if any.\<close>

definition catchPart :: "(stmt \<Rightarrow> unit cact) \<Rightarrow> stmt catch_block list \<Rightarrow> nat option \<Rightarrow> nat list cact" where
  "catchPart cs cbs pending =
     (if cbs \<noteq> [] then cbnd (catchBlocks cs cbs) (\<lambda>js. case pending of
          Some slot \<Rightarrow> cbnd (cseq [emitStoreLocal slot, emitOp OP_POP]) (\<lambda>_.
            cbnd (emitJump OP_JUMP) (\<lambda>j. cret (js @ [j])))
        | None \<Rightarrow> cbnd (emitOp OP_THROW) (\<lambda>_. cret js))
      else (case pending of
          Some slot \<Rightarrow> cbnd (cseq [emitStoreLocal slot, emitOp OP_POP]) (\<lambda>_. cret [])
        | None \<Rightarrow> (\<lambda>s. Inl (CompilerThrows (Undefined ''local slot -1'')))))"

definition tryPart :: "(stmt \<Rightarrow> unit cact) \<Rightarrow> stmt \<Rightarrow> stmt catch_block list \<Rightarrow> nat option \<Rightarrow> unit cact" where
  "tryPart cs body cbs pending = cbnd (emitJump OP_TRY_START) (\<lambda>tryStart. cseq [cs body, emitOp OP_TRY_END,
     cbnd (emitJump OP_JUMP) (\<lambda>afterCatch. cseq [patchJumpAt tryStart,
       cbnd (catchPart cs cbs pending) (\<lambda>js. cseq [patchAll js, patchJumpAt afterCatch])])])"

definition finallyPart :: "(stmt \<Rightarrow> unit cact) \<Rightarrow> stmt \<Rightarrow> nat \<Rightarrow> unit cact" where
  "finallyPart cs fin pending = cseq [cs fin, emitLoadLocal pending, emitOp OP_DUP,
     cbnd (emitJump OP_JUMP_IF_NIL) (\<lambda>skipRethrow.
       cseq [emitOp OP_THROW, patchJumpAt skipRethrow, emitOp OP_POP]), endScope]"

definition compileTry :: "(stmt \<Rightarrow> unit cact) \<Rightarrow> stmt \<Rightarrow> stmt catch_block list \<Rightarrow> stmt \<Rightarrow> unit cact" where
  "compileTry cs body cbs fin =
     (if fin \<noteq> NoStmt then
        cbnd beginScope (\<lambda>_. cbnd (hiddenLocal ''__pendingExc__'') (\<lambda>pending.
          cbnd (hiddenLocal ''__retval__'') (\<lambda>retval. cseq [pushActive (Finally fin retval),
            tryPart cs body cbs (Some pending), popActive, finallyPart cs fin pending])))
      else cseq [pushActive NoFinally, tryPart cs body cbs None, popActive])"

subsection \<open>Contracts\<close>

definition contractMessage :: "bool \<Rightarrow> string \<Rightarrow> string" where
  "contractMessage pre msg =
     (if pre then ''Precondition failed'' else ''Postcondition failed'')
     @ (if msg \<noteq> [] then '': '' @ msg else [])"

fun contractChecks :: "(expr \<Rightarrow> unit cact) \<Rightarrow> bool \<Rightarrow> (expr \<times> string) list \<Rightarrow> unit cact" where
  "contractChecks ce pre [] = cret ()"
| "contractChecks ce pre ((e, msg) # cls) = cbnd (ce e) (\<lambda>_.
     cbnd (emitJump OP_JUMP_IF_TRUE) (\<lambda>skipThrow. cbnd (cseq [loadGlobalSlotOf ''AssertionError'',
       emitConstant (CString (contractMessage pre msg)), emitOpByte OP_CALL 1, emitOp OP_THROW,
       patchJumpAt skipThrow]) (\<lambda>_. contractChecks ce pre cls)))"

definition compileContractChecks :: "(expr \<Rightarrow> unit cact) \<Rightarrow> bool \<Rightarrow> (expr \<times> string) list \<Rightarrow> unit cact" where
  "compileContractChecks ce pre cls =
     cbnd (cget disableContracts) (\<lambda>off. if off then cret () else contractChecks ce pre cls)"

subsection \<open>Returning\<close>

definition cachedName :: "opcode \<Rightarrow> unit cact" where
  "cachedName k = cbnd (cget (\<lambda>s. fcCached (cur s))) (\<lambda>c. if c
     then cbnd (cget (\<lambda>s. fnName (fcHeader (cur s)))) (emitNamed k) else cret ())"

text \<open>The arguments of \<open>give f(...)\<close> when \<open>f\<close> is the name of the function being compiled.\<close>

definition tailArguments :: "expr \<Rightarrow> compiler \<Rightarrow> (expr \<times> expr list) option" where
  "tailArguments e s =
     (if fcCached (cur s) \<or> fcActives (cur s) \<noteq> [] \<or> ensures s \<noteq> [] then None
      else (case e of
          Expr _ _ (CallExpr callee args _) \<Rightarrow> (case callee of
              Expr _ _ (IdentifierExpr name) \<Rightarrow>
                if name = fnName (fcHeader (cur s)) then Some (callee, args) else None
            | _ \<Rightarrow> None)
        | _ \<Rightarrow> None))"

definition postconditions :: "(expr \<Rightarrow> unit cact) \<Rightarrow> unit cact" where
  "postconditions ce = cbnd (cget (\<lambda>s. if disableContracts s then [] else ensures s)) (\<lambda>cls.
     if cls = [] then cret ()
     else cbnd (addFloatingLocal ''__result__'') (\<lambda>resultSlot.
       cbnd (cseq [emitStoreLocal resultSlot, emitOp OP_POP]) (\<lambda>_.
       cbnd (addFloatingLocal ''result'') (\<lambda>aliasSlot. cseq [
         emitLoadLocal resultSlot, emitStoreLocal aliasSlot, emitOp OP_POP,
         compileContractChecks ce False cls, emitLoadLocal resultSlot]))))"

text \<open>Every open finally body, innermost first, with the return value parked in its hidden local.\<close>

fun replayReturning :: "(stmt \<Rightarrow> unit cact) \<Rightarrow> activeTry list \<Rightarrow> nat \<Rightarrow> unit cact" where
  "replayReturning cs pending 0 = cret ()"
| "replayReturning cs pending (Suc i) = cseq [setActives (take i pending),
     (case pending ! i of
        Finally body slot \<Rightarrow> cseq [emitStoreLocal slot, emitOp OP_POP, cs body, emitLoadLocal slot]
      | NoFinally \<Rightarrow> cret ()),
     replayReturning cs pending i]"

definition compileGive :: "(expr \<Rightarrow> unit cact) \<Rightarrow> (stmt \<Rightarrow> unit cact) \<Rightarrow> expr \<Rightarrow> unit cact" where
  "compileGive ce cs e = cbnd (cget (tailArguments e)) (\<lambda>tail. case tail of
       Some (callee, args) \<Rightarrow> cseq [ce callee, compileAll ce args, emitOpByte OP_TAIL_CALL (length args),
         emitOp OP_RETURN]
     | None \<Rightarrow> cseq [if e \<noteq> NoExpr then ce e else emitOp OP_LOAD_NIL,
         cachedName OP_STORE_CACHED_RESULT, postconditions ce,
         cbnd (cget (\<lambda>s. fcActives (cur s))) (\<lambda>pending.
           cseq [replayReturning cs pending (length pending), setActives pending]),
         emitReturn])"

end
