(* ===== verification/Compile_Main.thy ===== *)
theory Compile_Main
  imports Compile_Program
begin

text \<open>
  Functions and closures, the declarations that create them, the recursion over expressions and
  statements, and \<open>compile\<close>, from \<open>BytecodeCompiler.cpp\<close>, \<open>BytecodeCompilerStmt.cpp\<close> and
  \<open>BytecodeCompilerExpr.cpp\<close>. The list of all compiled functions, which nothing reads, and the file
  name of a function are left out.
\<close>

subsection \<open>Functions\<close>

text \<open>\<open>captureOldExprs\<close>: every \<open>old(e)\<close> of an ensures clause is evaluated at entry.\<close>

definition captureOld :: "(expr \<Rightarrow> unit cact) \<Rightarrow> expr \<Rightarrow> unit cact" where
  "captureOld ce a = cbnd (cget (\<lambda>s. map_of (oldCaptures s) (oldKey a))) (\<lambda>known.
     if known \<noteq> None then cret ()
     else cseq [ce a, cbnd (addResidentLocal (''__old_'' @ oldKey a @ ''__'')) (\<lambda>slot.
       cseq [emitStoreLocal slot, emitOp OP_POP,
         cupd (\<lambda>s. s\<lparr>oldCaptures := (oldKey a, slot) # oldCaptures s\<rparr>)])])"

definition isOldCall :: "expr \<Rightarrow> expr list \<Rightarrow> bool" where
  "isOldCall callee args =
     (length args = 1 \<and> (case callee of Expr _ _ (IdentifierExpr name) \<Rightarrow> name = ''old'' | _ \<Rightarrow> False))"

text \<open>The arguments of the calls of \<open>old\<close>, in the order the walk meets them.\<close>

fun oldArguments :: "expr \<Rightarrow> expr list" where
  "oldArguments (Expr _ _ (CallExpr callee args names)) =
     (if isOldCall callee args then [hd args]
      else oldArguments callee @ concat (map oldArguments args))"
| "oldArguments (Expr _ _ (BinaryExpr l k r)) = oldArguments l @ oldArguments r"
| "oldArguments (Expr _ _ (UnaryExpr k e)) = oldArguments e"
| "oldArguments (Expr _ _ (LogicalExpr l k r)) = oldArguments l @ oldArguments r"
| "oldArguments (Expr _ _ (TernaryExpr c a b)) = oldArguments c @ oldArguments a @ oldArguments b"
| "oldArguments _ = []"

fun captureOlds :: "(expr \<Rightarrow> unit cact) \<Rightarrow> expr list \<Rightarrow> unit cact" where
  "captureOlds ce [] = cret ()"
| "captureOlds ce (a # as) = cbnd (captureOld ce a) (\<lambda>_. captureOlds ce as)"

text \<open>The function compiler is entered with the class context of the enclosing one.\<close>

definition pushFunction :: "task \<Rightarrow> string \<Rightarrow> unit cact" where
  "pushFunction t name = cupd (\<lambda>s. let i = lastCompilerId s + 1;
       fc = newFunction name (length (tParams t)) i;
       header = (fcHeader fc)\<lparr>fnDefaults := length (filter (\<lambda>e. e \<noteq> NoExpr) (tDefaults t)),
         fnVariadic := tVariadic t, fnAsync := tAsync t, fnClass := fcClass (cur s)\<rparr>
     in s\<lparr>lastCompilerId := i, fns := fc\<lparr>fcHeader := header, fcClass := fcClass (cur s),
         fcParentClass := fcParentClass (cur s), fcCached := tCached t\<rparr> # fns s\<rparr>)"

text \<open>A cached function first asks for a stored result.\<close>

definition cachePrologue :: "string \<Rightarrow> unit cact" where
  "cachePrologue name = cseq [emitNamed OP_GET_CACHED_RESULT name, emitOp OP_DUP, emitOp OP_LOAD_NIL,
     emitOp OP_EQUAL, cbnd (emitJump OP_JUMP_IF_FALSE) (\<lambda>hitJump. cseq [emitOp OP_POP,
       cbnd (emitJump OP_JUMP) (\<lambda>skipHit. cseq [patchJumpAt hitJump, emitReturn, patchJumpAt skipHit])])]"

fun addParams :: "string list \<Rightarrow> unit cact" where
  "addParams [] = cret ()"
| "addParams (p # ps) = cbnd (cupd (setCur (\<lambda>c. c\<lparr>fcHeader := (fcHeader c)\<lparr>fnParams := fnParams (fcHeader c) @ [p]\<rparr>\<rparr>)))
     (\<lambda>_. cbnd (addResidentLocal p) (\<lambda>_. addParams ps))"

text \<open>A parameter with a default is replaced by it when nil.\<close>

fun defaultParams :: "(expr \<Rightarrow> unit cact) \<Rightarrow> nat \<Rightarrow> expr list \<Rightarrow> unit cact" where
  "defaultParams ce i [] = cret ()"
| "defaultParams ce i (e # es) =
     cbnd (if e = NoExpr then cret () else cseq [emitLoadLocal i, emitOp OP_LOAD_NIL, emitOp OP_EQUAL,
       cbnd (emitJump OP_JUMP_IF_FALSE) (\<lambda>jump.
         cseq [ce e, emitStoreLocal i, emitOp OP_POP, patchJumpAt jump])])
     (\<lambda>_. defaultParams ce (i + 1) es)"

definition rateLimitCheck :: "task \<Rightarrow> unit cact" where
  "rateLimitCheck t = (case tRateLimit t of
       None \<Rightarrow> cret ()
     | Some (count, per) \<Rightarrow> cseq [emitNamed OP_LOAD_CONST ''global'',
         cbnd (makeConstant (CDouble (d_of_i64 (word_of_int count)))) (emitOpShort OP_LOAD_CONST),
         emitNamed OP_LOAD_CONST per, emitNamed OP_RATELIMIT_CHECK (tName t)])"

definition prologue :: "(expr \<Rightarrow> unit cact) \<Rightarrow> task \<Rightarrow> string \<Rightarrow> unit cact" where
  "prologue ce t name = cseq [if tCached t then cachePrologue name else cret (),
     addParams (tParams t), defaultParams ce 0 (tDefaults t), rateLimitCheck t,
     if tRequires t \<noteq> [] then compileContractChecks ce True (tRequires t) else cret (),
     cupd (\<lambda>s. s\<lparr>oldCaptures := []\<rparr>),
     cbnd (cget disableContracts) (\<lambda>off. if off then cret ()
       else captureOlds ce (concat (map (\<lambda>c. oldArguments (fst c)) (tEnsures t))))]"

definition functionBody :: "(stmt \<Rightarrow> unit cact) \<Rightarrow> task \<Rightarrow> unit cact" where
  "functionBody cs t = cbnd (cget (\<lambda>s. (ensures s, oldCaptures s))) (\<lambda>(savedEnsures, savedOlds). cseq [
     cupd (\<lambda>s. s\<lparr>ensures := tEnsures t\<rparr>),
     beginScope, predeclareLocalTasks (tBody t), compileStmts cs (tBody t), endScope,
     cupd (\<lambda>s. s\<lparr>ensures := savedEnsures, oldCaptures := savedOlds\<rparr>)])"

definition finishedFunction :: "fn_compiler \<Rightarrow> bfunction" where
  "finishedFunction c = BFunction ((fcHeader c)\<lparr>fnLocalCount := fcMaxLocals c, fnCached := fcCached c\<rparr>)
     (fcChunk c) (fcNested c)"

definition popFunction :: "bfunction cact" where
  "popFunction s = Inr (finishedFunction (cur s), s\<lparr>fns := tl (fns s)\<rparr>)"

definition compileFunction ::
    "(expr \<Rightarrow> unit cact) \<Rightarrow> (stmt \<Rightarrow> unit cact) \<Rightarrow> task \<Rightarrow> string \<Rightarrow> bfunction cact" where
  "compileFunction ce cs t name = cbnd (cseq [pushFunction t name, prologue ce t name, functionBody cs t,
     emitOp OP_LOAD_NIL,
     if tCached t then emitNamed OP_STORE_CACHED_RESULT name else cret (),
     emitReturn]) (\<lambda>_. popFunction)"

subsection \<open>Closures\<close>

fun emitCaptures :: "upvalue list \<Rightarrow> unit cact" where
  "emitCaptures [] = cret ()"
| "emitCaptures (u # us) = cbnd (cseq [emitByte (if upType u = UpLocal then 1 else 0), emitShort (upIndex u)])
     (\<lambda>_. emitCaptures us)"

text \<open>The finished function joins the nested ones of the enclosing function.\<close>

definition closeOver :: "bfunction \<Rightarrow> nat \<Rightarrow> unit cact" where
  "closeOver f nestedIdx = cseq [cupd (setCur (\<lambda>c. c\<lparr>fcNested := fcNested c @ [f]\<rparr>)),
     emitOpShort OP_CLOSURE nestedIdx, emitCaptures (fnUpvalues (header f))]"

definition setMethod :: "bool \<Rightarrow> bfunction \<Rightarrow> bfunction" where
  "setMethod m f = BFunction ((header f)\<lparr>fnMethod := m\<rparr>) (chunk_of f) (nested f)"

definition emitClosure :: "(expr \<Rightarrow> unit cact) \<Rightarrow> (stmt \<Rightarrow> unit cact) \<Rightarrow> task \<Rightarrow> bool \<Rightarrow> unit cact" where
  "emitClosure ce cs t isMethod = cbnd (cget (\<lambda>s. length (fcNested (cur s)))) (\<lambda>nestedIdx.
     cbnd (compileFunction ce cs t (tName t)) (\<lambda>f. closeOver (setMethod isMethod f) nestedIdx))"

definition compileLambda ::
    "(expr \<Rightarrow> unit cact) \<Rightarrow> (stmt \<Rightarrow> unit cact) \<Rightarrow> string list \<Rightarrow> expr \<Rightarrow> stmt list \<Rightarrow> bool \<Rightarrow> bool \<Rightarrow> unit cact" where
  "compileLambda ce cs params body stmts variadic async =
     cbnd (compileFunction ce cs (Task ''<lambda>'' params []
         (if body \<noteq> NoExpr then [Stmt 0 (GiveStmt body)] else stmts) variadic async [] [] False None [])
       ''<lambda>'')
     (\<lambda>f. cbnd (cget (\<lambda>s. length (fcNested (cur s)))) (closeOver f))"

fun applyDecorators :: "nat \<Rightarrow> unit cact" where
  "applyDecorators 0 = cret ()"
| "applyDecorators (Suc n) = cbnd (emitOpByte OP_CALL 1) (\<lambda>_. applyDecorators n)"

subsection \<open>Declarations\<close>

text \<open>The local of a task is reserved before its body is compiled.\<close>

definition reserveTask :: "string \<Rightarrow> nat option cact" where
  "reserveTask name = cbnd (cget (\<lambda>s. (resolveLocal name s, atTop s))) (\<lambda>(l, t). case l of
       Some slot \<Rightarrow> cret (Some slot)
     | None \<Rightarrow> if t then cret None else cbnd (addFloatingLocal name) (\<lambda>slot. cret (Some slot)))"

definition compileTask :: "(expr \<Rightarrow> unit cact) \<Rightarrow> (stmt \<Rightarrow> unit cact) \<Rightarrow> task \<Rightarrow> unit cact" where
  "compileTask ce cs t = cbnd (reserveTask (tName t)) (\<lambda>place. cseq [
     compileAll ce (tDecorators t), emitClosure ce cs t False, applyDecorators (length (tDecorators t)),
     (case place of Some slot \<Rightarrow> emitStoreLocal slot | None \<Rightarrow> storeGlobalSlotOf (tName t)),
     emitOp OP_POP])"

text \<open>\<open>export\<close>: the locals the inner declaration creates, and the one of its name, are marked.\<close>

definition markExported :: "nat \<Rightarrow> localVar list \<Rightarrow> localVar list" where
  "markExported i ls = (if i < length ls then ls[i := (ls ! i)\<lparr>lExported := True\<rparr>] else ls)"

definition declaredName :: "stmt \<Rightarrow> string" where
  "declaredName s = (case s of
       Stmt _ (TaskStmt t) \<Rightarrow> tName t
     | Stmt _ (ModelStmt m) \<Rightarrow> mdName m
     | Stmt _ (VarDeclStmt name e) \<Rightarrow> name
     | Stmt _ (ExpressionStmt (Expr _ _ (AssignExpr name v i ob co))) \<Rightarrow> name
     | _ \<Rightarrow> [])"

definition exportedVariable :: "stmt \<Rightarrow> compiler \<Rightarrow> nat option" where
  "exportedVariable st s = (case st of
       Stmt _ (ExpressionStmt (Expr _ _ (IdentifierExpr name))) \<Rightarrow> resolveLocal name s
     | _ \<Rightarrow> None)"

definition compileExport :: "(stmt \<Rightarrow> unit cact) \<Rightarrow> stmt \<Rightarrow> unit cact" where
  "compileExport cs inner = cbnd (cget (exportedVariable inner)) (\<lambda>known. case known of
       Some slot \<Rightarrow> cupd (setCur (\<lambda>c. c\<lparr>fcLocals := markExported slot (fcLocals c)\<rparr>))
     | None \<Rightarrow> cbnd (cget (\<lambda>s. length (fcLocals (cur s)))) (\<lambda>n. cseq [cs inner,
         cupd (setCur (\<lambda>c. c\<lparr>fcLocals := take n (fcLocals c)
           @ map (\<lambda>l. l\<lparr>lExported := True\<rparr>) (drop n (fcLocals c))\<rparr>)),
         cbnd (cget (resolveLocal (declaredName inner))) (\<lambda>l. case l of
             Some slot \<Rightarrow> if declaredName inner \<noteq> [] then
                 cupd (setCur (\<lambda>c. c\<lparr>fcLocals := markExported slot (fcLocals c)\<rparr>)) else cret ()
           | None \<Rightarrow> cret ())]))"

text \<open>A static variable is a global under a mangled name, initialised the first time only.\<close>

definition mangledName :: "string \<Rightarrow> compiler \<Rightarrow> string" where
  "mangledName name s = ''__static_'' @ showNat (fcId (cur s)) @ ''_'' @ fnName (fcHeader (cur s)) @ ''_'' @ name"

definition compileStatic :: "(expr \<Rightarrow> unit cact) \<Rightarrow> string \<Rightarrow> expr \<Rightarrow> unit cact" where
  "compileStatic ce name e = cbnd (cget (mangledName name)) (\<lambda>mangled. cseq [
     cupd (setCur (\<lambda>c. c\<lparr>fcStatics := (name, mangled) # fcStatics c\<rparr>)),
     cbnd (identifierConstant mangled) (\<lambda>nameIdx. cseq [emitOpShort OP_HAS_GLOBAL nameIdx,
       cbnd (emitJump OP_JUMP_IF_TRUE) (\<lambda>skipInit.
         cseq [ce e, emitOpShort OP_STORE_GLOBAL nameIdx, emitOp OP_POP, patchJumpAt skipInit])])])"

fun emitNames :: "string list \<Rightarrow> unit cact" where
  "emitNames [] = cret ()"
| "emitNames (n # ns) = cbnd (emitNamed OP_LOAD_CONST n) (\<lambda>_. emitNames ns)"

definition compileInterface :: "string \<Rightarrow> string list \<Rightarrow> unit cact" where
  "compileInterface name methods = cseq [cupd (\<lambda>s. s\<lparr>declaredTypes := name # declaredTypes s\<rparr>),
     emitNames methods, emitNamed OP_MAKE_INTERFACE name, emitByte (length methods),
     storeGlobalSlotOf name, emitOp OP_POP]"

subsection \<open>Models\<close>

text \<open>Every member is pushed as its name, its value and the flags \<open>isStatic\<close> and \<open>isPublic\<close>.\<close>

definition flagOp :: "bool \<Rightarrow> opcode" where
  "flagOp b = (if b then OP_LOAD_TRUE else OP_LOAD_FALSE)"

definition methodTask :: "(expr, stmt) member_form \<Rightarrow> task" where
  "methodTask m = Task (mName m) ((if mStatic m then [] else [''self'']) @ mParams m)
     ((if mStatic m then [] else [NoExpr]) @ mDefaults m) (mBody m) (mVariadic m) (mAsync m)
     (mRequires m) (mEnsures m) (mCached m) None []"

definition initTask :: "model \<Rightarrow> task" where
  "initTask m = Task ''init'' (''self'' # mdParams m) (NoExpr # mdDefaults m) (mdInit m) False False [] [] False None []"

definition compileMember ::
    "(expr \<Rightarrow> unit cact) \<Rightarrow> (stmt \<Rightarrow> unit cact) \<Rightarrow> (expr, stmt) member_form \<Rightarrow> unit cact" where
  "compileMember ce cs m = cseq [emitNamed OP_LOAD_CONST (mName m),
     if mMethod m then cseq [compileAll ce (mDecorators m), emitClosure ce cs (methodTask m) True,
       applyDecorators (length (mDecorators m))]
     else if mInit m \<noteq> NoExpr then ce (mInit m) else emitOp OP_LOAD_NIL,
     emitOp (flagOp (mStatic m)), emitOp (flagOp (mPublic m))]"

fun compileMembers ::
    "(expr \<Rightarrow> unit cact) \<Rightarrow> (stmt \<Rightarrow> unit cact) \<Rightarrow> (expr, stmt) member_form list \<Rightarrow> unit cact" where
  "compileMembers ce cs [] = cret ()"
| "compileMembers ce cs (m # ms) = cbnd (compileMember ce cs m) (\<lambda>_. compileMembers ce cs ms)"

definition propertyTypes :: "(expr, stmt) member_form list \<Rightarrow> string list" where
  "propertyTypes ms = concat (map (\<lambda>m. [mName m, mType m]) (filter (\<lambda>m. \<not> mMethod m \<and> \<not> mStatic m) ms))"

definition injectedStatics :: "model \<Rightarrow> unit cact" where
  "injectedStatics m = cseq [emitNamed OP_LOAD_CONST ''__properties__'',
     emitNames (propertyTypes (mdMembers m)),
     emitOpByte OP_MAKE_DICT (length (propertyTypes (mdMembers m)) div 2),
     emitOp OP_LOAD_TRUE, emitOp OP_LOAD_TRUE,
     emitNamed OP_LOAD_CONST ''__name__'', emitNamed OP_LOAD_CONST (mdName m),
     emitOp OP_LOAD_TRUE, emitOp OP_LOAD_TRUE]"

fun loadClasses :: "string list \<Rightarrow> unit cact" where
  "loadClasses [] = cret ()"
| "loadClasses (c # cs) = cbnd (loadClass c) (\<lambda>_. loadClasses cs)"

text \<open>Each validation rule: field, rule, parameter and message.\<close>

definition compileValidator :: "(expr \<Rightarrow> unit cact) \<Rightarrow> string \<times> expr validator \<Rightarrow> unit cact" where
  "compileValidator ce fv = (case fv of (field, v) \<Rightarrow> cseq [emitNamed OP_LOAD_CONST field,
     emitNamed OP_LOAD_CONST (vRule v), if vParam v \<noteq> NoExpr then ce (vParam v) else emitOp OP_LOAD_NIL,
     emitNamed OP_LOAD_CONST (vMessage v)])"

fun compileValidators :: "(expr \<Rightarrow> unit cact) \<Rightarrow> (string \<times> expr validator) list \<Rightarrow> unit cact" where
  "compileValidators ce [] = cret ()"
| "compileValidators ce (v # vs) = cbnd (compileValidator ce v) (\<lambda>_. compileValidators ce vs)"

definition validatorsOf :: "(expr, stmt) member_form list \<Rightarrow> (string \<times> expr validator) list" where
  "validatorsOf ms = concat (map (\<lambda>m. map (Pair (mName m)) (mValidators m)) (filter (\<lambda>m. \<not> mMethod m) ms))"

definition limited :: "nat \<Rightarrow> string \<Rightarrow> unit cact" where
  "limited n msg = (if n > 255 then errorAt msg else cret ())"

definition makeClass :: "(expr \<Rightarrow> unit cact) \<Rightarrow> model \<Rightarrow> unit cact" where
  "makeClass ce m = cseq [loadClasses (mdInterfaces m),
     emitOp (flagOp (mdAudited m)), emitOp (flagOp (mdSnapshot m)), emitNamed OP_LOAD_CONST (mdPersist m),
     compileValidators ce (validatorsOf (mdMembers m)),
     limited (length (mdMembers m) + 3) ''Too many members in model (max 255)'',
     limited (length (mdInterfaces m)) ''Too many interfaces in model (max 255)'',
     limited (length (validatorsOf (mdMembers m))) ''Too many validators in model (max 255)'',
     emitNamed OP_MAKE_CLASS (mdName m), emitByte (length (mdMembers m) + 3),
     emitByte (length (mdInterfaces m)), emitByte (length (validatorsOf (mdMembers m)))]"

definition storeModel :: "string \<Rightarrow> unit cact" where
  "storeModel name = cbnd (cget atTop) (\<lambda>t.
     if t then cseq [storeGlobalSlotOf name, emitOp OP_POP] else cbnd (addResidentLocal name) emitStoreLocal)"

definition setClass :: "string \<Rightarrow> string \<Rightarrow> unit cact" where
  "setClass c p = cupd (setCur (\<lambda>fc. fc\<lparr>fcClass := c, fcParentClass := p\<rparr>))"

definition compileModel :: "(expr \<Rightarrow> unit cact) \<Rightarrow> (stmt \<Rightarrow> unit cact) \<Rightarrow> model \<Rightarrow> unit cact" where
  "compileModel ce cs m = cseq [cupd (\<lambda>s. s\<lparr>declaredTypes := mdName m # declaredTypes s\<rparr>),
     compileAll ce (mdDecorators m),
     cbnd (cget (\<lambda>s. (fcClass (cur s), fcParentClass (cur s)))) (\<lambda>(savedClass, savedParent). cseq [
       setClass (mdName m) (mdParent m),
       if mdParent m = [] then emitOp OP_LOAD_NIL else loadClass (mdParent m),
       emitNamed OP_LOAD_CONST ''init'', emitClosure ce cs (initTask m) True,
       emitOp OP_LOAD_FALSE, emitOp OP_LOAD_TRUE,
       compileMembers ce cs (mdMembers m), injectedStatics m, makeClass ce m,
       applyDecorators (length (mdDecorators m)), storeModel (mdName m),
       setClass savedClass savedParent])]"

subsection \<open>The recursion\<close>

definition stmtNode :: "(expr \<Rightarrow> unit cact) \<Rightarrow> (stmt \<Rightarrow> unit cact) \<Rightarrow> stmt_node \<Rightarrow> unit cact" where
  "stmtNode ce cs n = (case n of
       ExpressionStmt e \<Rightarrow> compileExpressionStmt ce e
     | OutStmt e \<Rightarrow> compileOutStmt ce e
     | VarDeclStmt name e \<Rightarrow> compileVarDecl ce name e
     | BlockStmt ss \<Rightarrow> compileBlock cs ss
     | WhenStmt c a b \<Rightarrow> compileWhen ce cs c a b
     | WhileStmt c body \<Rightarrow> compileWhile ce cs c body
     | RepeatStmt var from til step body \<Rightarrow> compileRepeat ce cs var from til step body
     | GetStmt var valueVar it body \<Rightarrow> compileGet ce cs var valueVar it body
     | MatchStmt subject arms \<Rightarrow> compileMatch ce cs subject arms
     | TaskStmt t \<Rightarrow> compileTask ce cs t
     | GiveStmt e \<Rightarrow> compileGive ce cs e
     | EscapeStmt \<Rightarrow> compileEscape cs
     | SkipStmt \<Rightarrow> compileSkip cs
     | StaticStmt name e \<Rightarrow> compileStatic ce name e
     | InterfaceStmt name methods \<Rightarrow> compileInterface name methods
     | ModelStmt m \<Rightarrow> compileModel ce cs m
     | UseStmt path alias \<Rightarrow> (\<lambda>s. Inl (Outside ''use''))
     | TryStmt body cbs fin \<Rightarrow> compileTry cs body cbs fin
     | ThrowStmt e \<Rightarrow> compileThrow ce e
     | ExportStmt inner \<Rightarrow> compileExport cs inner)"

fun compileExpr :: "nat \<Rightarrow> expr \<Rightarrow> unit cact" and compileStmt :: "nat \<Rightarrow> stmt \<Rightarrow> unit cact" where
  "compileExpr 0 e = (\<lambda>s. Inl OutOfFuel)"
| "compileExpr (Suc d) e = (case e of
       NoExpr \<Rightarrow> emitOp OP_LOAD_NIL
     | Expr line col n \<Rightarrow> depthGuard line
         (exprNode (compileExpr d) (compileLambda (compileExpr d) (compileStmt d)) n))"
| "compileStmt 0 s = (\<lambda>_. Inl OutOfFuel)"
| "compileStmt (Suc d) s = (case s of
       NoStmt \<Rightarrow> cret ()
     | Stmt line n \<Rightarrow> depthGuard line (stmtNode (compileExpr d) (compileStmt d) n))"

subsection \<open>Programs\<close>

text \<open>The models and interfaces declared at the top level or in a block of it.\<close>

fun scanDeclaredType :: "stmt \<Rightarrow> string list" where
  "scanDeclaredType (Stmt _ (ModelStmt m)) = [mdName m]"
| "scanDeclaredType (Stmt _ (InterfaceStmt name methods)) = [name]"
| "scanDeclaredType (Stmt _ (ExportStmt inner)) = scanDeclaredType inner"
| "scanDeclaredType (Stmt _ (BlockStmt ss)) = concat (map scanDeclaredType ss)"
| "scanDeclaredType _ = []"

text \<open>The last statement, when it is an expression, is the value of the program.\<close>

fun lastExpression :: "stmt list \<Rightarrow> expr option" where
  "lastExpression [Stmt _ (ExpressionStmt e)] = Some e"
| "lastExpression _ = None"

fun compileProgram :: "(expr \<Rightarrow> unit cact) \<Rightarrow> (stmt \<Rightarrow> unit cact) \<Rightarrow> stmt list \<Rightarrow> unit cact" where
  "compileProgram ce cs [] = cret ()"
| "compileProgram ce cs (s # ss) =
     cbnd (case lastExpression (s # ss) of Some e \<Rightarrow> cseq [ce e, emitReturn] | None \<Rightarrow> cs s)
       (\<lambda>_. compileProgram ce cs ss)"

record compile_result =
  crMain :: bfunction
  crGlobals :: "string list"

definition globalNames :: "compiler \<Rightarrow> string list" where
  "globalNames s = foldr (\<lambda>(name, slot) names. names[slot := name]) (slotTable s) (replicate (nextGlobalSlot s) [])"

definition mainFunction :: "compiler \<Rightarrow> bfunction" where
  "mainFunction s = (case finishedFunction (cur s) of BFunction h c ns \<Rightarrow>
     BFunction (h\<lparr>fnCached := False, fnGlobalSlots := nextGlobalSlot s\<rparr>) c ns)"

text \<open>What is recursed into is never larger than the program, so its size is fuel enough.\<close>

definition programFuel :: "stmt list \<Rightarrow> nat" where
  "programFuel ss = Suc (size_list size ss)"

definition compileFrom :: "compiler \<Rightarrow> stmt list \<Rightarrow> cstop + compile_result" where
  "compileFrom s0 ss =
     (let d = programFuel ss; s1 = s0\<lparr>declaredTypes := concat (map scanDeclaredType ss)\<rparr>
      in case cbnd (compileProgram (compileExpr d) (compileStmt d) ss) (\<lambda>_.
           cbnd (cget hadError) (\<lambda>failed. if failed then cret () else cseq [emitOp OP_LOAD_NIL, emitReturn])) s1 of
        Inl e \<Rightarrow> Inl e
      | Inr (_, s) \<Rightarrow>
          if hadError s then Inl (CompileFail (errorMessage s))
          else Inr \<lparr>crMain = mainFunction s, crGlobals = globalNames s\<rparr>)"

definition compile :: "stmt list \<Rightarrow> cstop + compile_result" where
  "compile ss = compileFrom (newCompiler False) ss"

end
