(* ===== verification/Compile_Runs.thy ===== *)
theory Compile_Runs
  imports Compile_Emits Compile_Main
begin

text \<open>
  The compiler against the machine: running what \<open>compileExpr\<close> emitted for an expression pushes the value
  of the expression. The interface \<open>sub_code\<close> is what an operation needs of the compiler of its
  operands; \<open>compileExpr\<close> implements it at every fuel.
\<close>

subsection \<open>The expressions covered\<close>

definition constOf :: "expr \<Rightarrow> const_val option" where
  "constOf e = (case isConstant e of Inr k \<Rightarrow> k | Inl x \<Rightarrow> None)"

text \<open>
  A folded operation is one that folding preserves, and an operation that is not folded is not
  reduced to one of its operands either.
\<close>

definition keptNode :: "expr_node \<Rightarrow> bool" where
  "keptNode n = (case isConstantNode n of
       Inr (Some k) \<Rightarrow> plainNode n \<and> poolable k
     | _ \<Rightarrow> (case n of BinaryExpr l k r \<Rightarrow> identityOperand l k r (constOf l) (constOf r) = None | _ \<Rightarrow> True))"

function (sequential) simple :: "(string \<Rightarrow> bool) \<Rightarrow> expr \<Rightarrow> bool"
  and simpleNode :: "(string \<Rightarrow> bool) \<Rightarrow> expr_node \<Rightarrow> bool" where
  "simple known NoExpr = True"
| "simple known (Expr l c n) = simpleNode known n"
| "simpleNode known (LiteralExpr v) = poolable (literalConstant v)"
| "simpleNode known (IdentifierExpr name) = known name"
| "simpleNode known (BinaryExpr l k r) = (simple known l \<and> simple known r \<and>
     (k = TK_AND \<or> k = TK_OR \<or> keptNode (BinaryExpr l k r)))"
| "simpleNode known (UnaryExpr k e) = (simple known e \<and> keptNode (UnaryExpr k e))"
| "simpleNode known (LogicalExpr l k r) = (simple known l \<and> simple known r)"
| "simpleNode known (TernaryExpr c a b) = (simple known c \<and> simple known a \<and> simple known b)"
| "simpleNode known _ = False"
  by pat_completeness auto
termination by (relation "measure (case_sum (\<lambda>(_, e). size e) (\<lambda>(_, n). nodeSize n))") auto

definition inReach :: "compiler \<Rightarrow> string \<Rightarrow> bool" where
  "inReach c name \<longleftrightarrow> place_of c name \<noteq> None"

lemma foldBinary_logic: "k = TK_AND \<or> k = TK_OR \<Longrightarrow> foldBinary k a b \<noteq> Inr (Some c)"
  by (cases a; cases b) (auto simp: foldBinary_def foldStrings_def foldInts_def foldDoubles_def Let_def)

lemma evalNode_constEval:
  "evalExpr env h rho e = Some v \<Longrightarrow> isConstant e = Inr (Some c) \<Longrightarrow> constEval env h e = Some v"
  "evalNode env h rho n = Some v \<Longrightarrow> isConstantNode n = Inr (Some c) \<Longrightarrow> constEvalNode env h n = Some v"
proof (induction e and n arbitrary: v c and v c rule: isConstant_isConstantNode.induct)
  case (4 l k r)
  then obtain a b where ab: "isConstant l = Inr (Some a)" "isConstant r = Inr (Some b)"
    "foldBinary k a b = Inr (Some c)"
    by (cases "isConstant l"; cases "isConstant r") (auto split: option.splits)
  then have "k \<noteq> TK_AND" "k \<noteq> TK_OR" using foldBinary_logic by blast+
  then show ?case
    using 4 ab by (auto simp: binaryResult_def split: option.splits if_splits opRes.splits)
next
  case (5 k e)
  then obtain a where "isConstant e = Inr (Some a)"
    by (cases "isConstant e") (auto split: option.splits)
  then show ?case using 5 by (auto simp: unaryResult_def split: option.splits if_splits opRes.splits)
qed simp_all

lemma kept_value:
  assumes "isConstantNode n = Inr (Some k)" and "keptNode n" and "evalNode env h rho n = Some v"
  shows "v = resolveConstant k" and "poolable k"
  using evalNode_constEval(2) [OF assms(3,1)] fold_agrees(2) [of n k env h] assms(1,2)
  by (simp_all add: keptNode_def)

lemma room_pos: "0 < room e" "0 < roomNode n"
  by (induction e and n rule: room_roomNode.induct) auto

subsection \<open>Operations on compiled operands\<close>

definition exprCode :: "vm_env \<Rightarrow> compiler \<Rightarrow> expr \<Rightarrow> byte list \<Rightarrow> const_val list \<Rightarrow> bool" where
  "exprCode env c e C K \<longleftrightarrow> (\<forall>h rho v. evalExpr env h rho e = Some v \<longrightarrow> computes env c h rho C K (room e) v)"

lemma exprCode_pool: "exprCode env c e C K \<Longrightarrow> exprCode env c e C (K @ L)"
  using computes_pool [OF _ order_refl] by (simp add: exprCode_def)

lemma code_same:
  assumes "emits c C X d"
  shows "exprCode env d = exprCode env c" and "inReach d = inReach c"
  using emits_names [OF assms] by (intro ext; simp add: exprCode_def computes_def inReach_def)+

lemma fits_earlier: "emits c A X d \<Longrightarrow> length (codeOf d) \<le> n \<Longrightarrow> length A \<le> n \<and> length (codeOf c) \<le> n"
  by (auto simp: emits_def)

lemma exprCodeD: "exprCode env c e C K \<Longrightarrow> evalExpr env h rho e = Some v \<Longrightarrow> room e \<le> n \<Longrightarrow> computes env c h rho C K n v"
  using computes_pool [where L = "[]"] by (fastforce simp: exprCode_def)

lemma exprCode_unary:
  assumes "exprCode env c e A K" and "unaryOpcode k = Some op"
  shows "valueCode env c (UnaryExpr k e) (A @ [opcodeByte op]) K"
  unfolding valueCode_def
proof (intro allI impI)
  fix h rho v assume "evalNode env h rho (UnaryExpr k e) = Some v"
  then obtain a where "evalExpr env h rho e = Some a" "unaryResult k a = Some v" by (auto split: option.splits)
  then show "computes env c h rho (A @ [opcodeByte op]) K (roomNode (UnaryExpr k e)) v"
    using computes_unary [OF exprCodeD [OF assms(1)] assms(2)] room_pos(1) by simp
qed

lemma exprCode_binary:
  assumes "exprCode env c l A K" and "exprCode env c r B K" and "binaryOpcode k = Some op" and "k \<noteq> TK_AND" "k \<noteq> TK_OR"
  shows "valueCode env c (BinaryExpr l k r) (A @ B @ [opcodeByte op]) K"
  unfolding valueCode_def
proof (intro allI impI)
  fix h rho v assume "evalNode env h rho (BinaryExpr l k r) = Some v"
  then obtain a b where "evalExpr env h rho l = Some a" "evalExpr env h rho r = Some b" "binaryResult env h k a b = Some v"
    using assms(4,5) by (auto split: option.splits)
  then show "computes env c h rho (A @ B @ [opcodeByte op]) K (roomNode (BinaryExpr l k r)) v"
    using computes_binary [OF exprCodeD [OF assms(1)] exprCodeD [OF assms(2)] assms(3), of h rho a "max (room l) (room r)" b v]
      room_pos(1) [of l] by simp
qed

lemma exprCode_short:
  assumes "exprCode env c l A K" and "exprCode env c r B K" and "length B < 0xFFFFFFFF"
    and "\<And>h rho v. evalNode env h rho n = Some v \<Longrightarrow> \<exists>a. evalExpr env h rho l = Some a \<and>
      (if decides k a then v = a else evalExpr env h rho r = Some v)"
    and "roomNode n = Suc (max (room l) (room r))"
  shows "valueCode env c n (shortCode k A B) K"
  unfolding valueCode_def
proof (intro allI impI)
  fix h rho v assume "evalNode env h rho n = Some v"
  then obtain a where a: "evalExpr env h rho l = Some a" "if decides k a then v = a else evalExpr env h rho r = Some v"
    using assms(4) by blast
  have "computes env c h rho B K (max (room l) (room r)) v" if "\<not> decides k a"
    using that a(2) exprCodeD [OF assms(2)] by simp
  then have "if decides k a then v = a else computes env c h rho B K (max (room l) (room r)) v" using a(2) by simp
  then show "computes env c h rho (shortCode k A B) K (roomNode n) v"
    using computes_short [OF exprCodeD [OF assms(1) a(1)] assms(3)] room_pos(1) [of l]
    by (simp add: assms(5) less_max_iff_disj)
qed

lemma exprCode_ternary:
  assumes "exprCode env c x C K" and "exprCode env c a A K" and "exprCode env c b B K"
    and "length A + 5 \<le> 0xFFFFFFFF" and "length B \<le> 0xFFFFFFFF"
  shows "valueCode env c (TernaryExpr x a b) (ternaryCode C A B) K"
  unfolding valueCode_def
proof (intro allI impI)
  fix h rho v assume "evalNode env h rho (TernaryExpr x a b) = Some v"
  then obtain w where w: "evalExpr env h rho x = Some w" "evalExpr env h rho (if isTruthy w then a else b) = Some v"
    by (auto split: option.splits if_splits)
  let ?n = "roomNode (TernaryExpr x a b)"
  have "computes env c h rho (if isTruthy w then A else B) K ?n v"
    using w(2) exprCodeD [OF assms(2)] exprCodeD [OF assms(3)] by (cases "isTruthy w") simp_all
  then show "computes env c h rho (ternaryCode C A B) K ?n v"
    using computes_ternary [OF exprCodeD [OF assms(1) w(1)] assms(4,5)] room_pos(1) [of x]
    by (simp add: less_max_iff_disj)
qed

lemma compileUnary_Inr:
  assumes "compileUnary ce k e c = Inr ((), d)"
  shows "(\<exists>q. isConstantNode (UnaryExpr k e) = Inr (Some q) \<and> emitConstant q c = Inr ((), d)) \<or>
    (\<exists>b. ce e c = Inr ((), b) \<and>
      (case unaryOpcode k of Some op \<Rightarrow> emitOp op | None \<Rightarrow> errorAt ''Unknown unary operator'') b = Inr ((), d))"
proof (cases "isConstant e")
  case (Inr x)
  show ?thesis
  proof (cases "\<exists>q. isConstantNode (UnaryExpr k e) = Inr (Some q)")
    case True
    then show ?thesis using assms Inr
      by (cases x) (auto simp: compileUnary_def cbnd_def clift_def)
  next
    case False
    then have "cbnd (ce e) (\<lambda>_. case unaryOpcode k of Some op \<Rightarrow> emitOp op
        | None \<Rightarrow> errorAt ''Unknown unary operator'') c = Inr ((), d)"
      using assms Inr
      by (cases x; cases "unaryOpcode k")
         (auto simp: compileUnary_def unaryOpcode_def cbnd_def clift_def cret_def split: if_splits sum.splits option.splits)
    then show ?thesis by (auto simp: compiled)
  qed
qed (use assms in \<open>simp add: compileUnary_def cbnd_def clift_def\<close>)

lemma compileBinary_Inr:
  assumes "compileBinary ce l k r c = Inr ((), d)" and "k \<noteq> TK_AND" "k \<noteq> TK_OR" and "keptNode (BinaryExpr l k r)"
  shows "(\<exists>q. isConstantNode (BinaryExpr l k r) = Inr (Some q) \<and> emitConstant q c = Inr ((), d)) \<or>
    (\<exists>a b. ce l c = Inr ((), a) \<and> ce r a = Inr ((), b) \<and>
      (case binaryOpcode k of Some op \<Rightarrow> emitOp op | None \<Rightarrow> errorAt ''Unknown binary operator'') b = Inr ((), d))"
proof -
  let ?last = "case binaryOpcode k of Some op \<Rightarrow> emitOp op | None \<Rightarrow> errorAt ''Unknown binary operator''"
  obtain x y where xy: "isConstant l = Inr x" "isConstant r = Inr y"
    using assms(1-3) by (cases "isConstant l"; cases "isConstant r") (auto simp: compileBinary_def cbnd_def clift_def)
  show ?thesis
  proof (cases "\<exists>q. isConstantNode (BinaryExpr l k r) = Inr (Some q)")
    case True
    then show ?thesis using assms(1-3) xy
      by (cases x; cases y) (auto simp: compileBinary_def cbnd_def clift_def)
  next
    case False
    then have id: "identityOperand l k r x y = None"
      using assms(4) xy by (auto simp: keptNode_def constOf_def split: sum.splits option.splits)
    have "cseq [ce l, ce r, ?last] c = Inr ((), d)"
    proof (cases "x \<noteq> None \<and> y \<noteq> None")
      case both: True
      then have "isConstantNode (BinaryExpr l k r) = Inr None"
        using assms(1-3) xy False by (auto simp: compileBinary_def cbnd_def clift_def split: sum.splits option.splits)
      then show ?thesis using assms(1-3) xy both id by (simp add: compileBinary_def cbnd_def clift_def)
    next
      case False
      then show ?thesis using assms(1-3) xy id by (auto simp: compileBinary_def cbnd_def clift_def cret_def)
    qed
    then show ?thesis by (auto simp: compiled)
  qed
qed

text \<open>The two ways to write \<open>and\<close> and \<open>or\<close> compile to the same code.\<close>

definition shortCircuit :: "(expr \<Rightarrow> unit cact) \<Rightarrow> expr \<Rightarrow> token_kind \<Rightarrow> expr \<Rightarrow> unit cact" where
  "shortCircuit ce l k r = cseq [ce l, emitOp OP_DUP, cbnd (emitJump (shortJump k)) (\<lambda>jumpOffset.
     cseq [emitOp OP_POP, ce r, patchJumpAt jumpOffset])]"

text \<open>A branch with an alternative, whatever its three parts make.\<close>

lemma makes_branch:
  assumes "makes mx c P" and "\<And>C X d. emits c C X d \<Longrightarrow> makes ma d Q" and "\<And>C X d. emits c C X d \<Longrightarrow> makes mb d R"
    and "\<And>C K L. P C K \<Longrightarrow> P C (K @ L)" and "\<And>C K L. Q C K \<Longrightarrow> Q C (K @ L)"
    and "\<And>C A B K. P C K \<Longrightarrow> Q A K \<Longrightarrow> R B K \<Longrightarrow> length A + 5 \<le> 0xFFFFFFFF \<Longrightarrow> length B \<le> 0xFFFFFFFF \<Longrightarrow>
      S (ternaryCode C A B) K"
  shows "makes (cseq [mx, cbnd (emitJump OP_JUMP_IF_FALSE) (\<lambda>elseJump. cseq [ma,
    cbnd (emitJump OP_JUMP) (\<lambda>endJump. cseq [patchJumpAt elseJump, mb, patchJumpAt endJump])])]) c S"
  (is "makes ?m c S")
  unfolding makes_def
proof (intro allI impI)
  fix z assume "?m c = Inr ((), z)"
  then obtain c1 c2 c3 c4 c5 c6 off1 off2 where steps: "mx c = Inr ((), c1)"
      "emitJump OP_JUMP_IF_FALSE c1 = Inr (off1, c2)" "ma c2 = Inr ((), c3)" "emitJump OP_JUMP c3 = Inr (off2, c4)"
      "patchJumpAt off1 c4 = Inr ((), c5)" "mb c5 = Inr ((), c6)" "patchJumpAt off2 c6 = Inr ((), z)"
    by (auto simp: compiled)
  let ?W = "[0xFF, 0xFF, 0xFF, 0xFF]" and ?F = "opcodeByte OP_JUMP_IF_FALSE" and ?G = "opcodeByte OP_JUMP"
  obtain C X where C: "emits c C X c1" "accepted c1 \<Longrightarrow> P C (poolOf c1)"
    using assms(1) steps(1) unfolding makes_def by blast
  have c2: "emits c1 (?F # ?W) [] c2" "off1 = length (codeOf c1) + 1"
    using emits_emitJump [OF steps(2)] emits_names(3) [OF C(1)] by simp_all
  have cc2: "emits c (C @ ?F # ?W) X c2" using emits_trans [OF C(1) c2(1)] by simp
  obtain A Y where A: "emits c2 A Y c3" "accepted c3 \<Longrightarrow> Q A (poolOf c3)"
    using assms(2) [OF cc2] steps(3) unfolding makes_def by blast
  have c4: "emits c3 (?G # ?W) [] c4" "off2 = length (codeOf c3) + 1"
    using emits_emitJump [OF steps(4)] emits_names(3) [OF A(1)] by simp_all
  have five: "Suc (Suc (Suc (Suc (Suc m)))) = m + 5" for m :: nat by simp
  have "emits c (C @ ?F # ?W @ A @ ?G # ?W) (X @ Y) c4"
    using emits_trans [OF cc2 emits_trans [OF A(1) c4(1)]] by simp
  moreover have l1: "length (codeOf c1) = length (codeOf c) + length C" using C(1) by (simp add: emits_def)
  ultimately obtain Z where Z: "emits c (C @ ?F # Z @ A @ ?G # ?W) (X @ Y) c5" "length Z = 4"
      "length A + 5 \<le> 0xFFFFFFFF \<Longrightarrow> Z = be4 (length A + 5)"
    using emits_patched [of c C ?F "A @ ?G # ?W" "X @ Y" c4 c5] steps(5) c2(2) five by auto
  obtain B V where B: "emits c5 B V c6" "accepted c6 \<Longrightarrow> R B (poolOf c6)"
    using assms(3) [OF Z(1)] steps(6) unfolding makes_def by blast
  have "emits c ((C @ ?F # Z @ A) @ ?G # ?W @ B) (X @ Y @ V) c6" using emits_trans [OF Z(1) B(1)] by simp
  moreover have "off2 = length (codeOf c) + length (C @ ?F # Z @ A) + 1"
    using A(1) c2 c4(2) l1 Z(2) by (simp add: emits_def)
  ultimately obtain U where U: "emits c ((C @ ?F # Z @ A) @ ?G # U @ B) (X @ Y @ V) z"
      "length B \<le> 0xFFFFFFFF \<Longrightarrow> U = be4 (length B)"
    using emits_patched [of c "C @ ?F # Z @ A" ?G B "X @ Y @ V" c6 z] steps(7) by auto
  have "S ((C @ ?F # Z @ A) @ ?G # U @ B) (poolOf z)" if "accepted z"
  proof -
    have acc6: "accepted c6" using that patched_keeps [OF steps(7)] by (simp add: accepted_def)
    then have acc5: "accepted c5" using accepted_earlier [OF B(1)] by blast
    then have acc3: "accepted c3"
      using patched_keeps [OF steps(5)] accepted_earlier [OF c4(1)] by (simp add: accepted_def)
    then have acc1: "accepted c1" using accepted_earlier [OF A(1)] accepted_earlier [OF c2(1)] by blast
    have pool: "poolOf z = poolOf c6" "poolOf c6 = poolOf c3 @ V" "poolOf c3 = poolOf c1 @ Y"
      using patched_keeps(2) [OF steps(7)] patched_keeps(2) [OF steps(5)] B(1) c4(1) A(1) c2(1)
      by (simp_all add: emits_def)
    have "length (codeOf c5) = length (codeOf c) + (length C + (length A + 10))" "length (codeOf c6) = length (codeOf c5) + length B"
      using Z(1,2) B(1) by (simp_all add: emits_def)
    then have len: "length A + 5 \<le> 0xFFFFFFFF" "length B \<le> 0xFFFFFFFF"
      using acc6 by (simp_all add: accepted_def)
    have "P C (poolOf z)" "Q A (poolOf z)" "R B (poolOf z)"
      using assms(4) [OF C(2) [OF acc1], of "Y @ V"] assms(5) [OF A(2) [OF acc3], of V] B(2) [OF acc6] pool
      by simp_all
    then have "S (ternaryCode C A B) (poolOf z)" by (rule assms(6) [OF _ _ _ len])
    then show ?thesis using Z(3) [OF len(1)] U(2) [OF len(2)] by (simp add: ternaryCode_def)
  qed
  then show "\<exists>C X. emits c C X z \<and> (accepted z \<longrightarrow> S C (poolOf z))" using U(1) by blast
qed

locale sub_code =
  fixes env :: vm_env and ce :: "expr \<Rightarrow> unit cact"
  assumes sub: "fns c \<noteq> [] \<Longrightarrow> simple (inReach c) e \<Longrightarrow> makes (ce e) c (exprCode env c e)"
begin

lemma part:
  assumes "ce e d = Inr ((), b)" and "emits c C X d" and "simple (inReach c) e"
  obtains D Y where "emits d D Y b" "accepted b \<Longrightarrow> exprCode env c e D (poolOf b)"
  using sub [of d e] assms code_same [OF assms(2)] emits_names(3) [OF assms(2)]
  unfolding makes_def by auto

lemma folded_node:
  assumes "fns c \<noteq> []" and "isConstantNode n = Inr (Some k)" and "keptNode n"
  shows "makes (emitConstant k) c (valueCode env c n)"
proof -
  have "poolable k" using assms(2,3) by (simp add: keptNode_def)
  then have "makes (emitConstant k) c (\<lambda>C K. \<forall>h rho. computes env c h rho C K 1 (resolveConstant k))"
    by (rule makes_emitConstant [OF assms(1)])
  then show ?thesis
  proof (rule makes_mono)
    fix C K assume C: "\<forall>h rho. computes env c h rho C K 1 (resolveConstant k)"
    show "valueCode env c n C K"
      unfolding valueCode_def
    proof (intro allI impI)
      fix h rho v assume "evalNode env h rho n = Some v"
      then have "v = resolveConstant k" using kept_value(1) [OF assms(2,3)] by simp
      then show "computes env c h rho C K (roomNode n) v"
        using C computes_pool [of env c h rho C K 1 _ "roomNode n" "[]"] room_pos(2) [of n] by (simp add: Suc_le_eq)
    qed
  qed
qed

lemma unary_code:
  assumes "fns c \<noteq> []" and "simpleNode (inReach c) (UnaryExpr k e)"
  shows "makes (compileUnary ce k e) c (valueCode env c (UnaryExpr k e))"
  unfolding makes_def
proof (intro allI impI)
  fix d assume d: "compileUnary ce k e c = Inr ((), d)"
  show "\<exists>C X. emits c C X d \<and> (accepted d \<longrightarrow> valueCode env c (UnaryExpr k e) C (poolOf d))"
  proof (cases "\<exists>q. isConstantNode (UnaryExpr k e) = Inr (Some q) \<and> emitConstant q c = Inr ((), d)")
    case True
    then show ?thesis using folded_node [OF assms(1)] assms(2) unfolding makes_def by fastforce
  next
    case False
    then obtain b where b: "ce e c = Inr ((), b)" and
      last: "(case unaryOpcode k of Some op \<Rightarrow> emitOp op | None \<Rightarrow> errorAt ''Unknown unary operator'') b = Inr ((), d)"
      using compileUnary_Inr [OF d] by blast
    obtain A X where A: "emits c A X b" "accepted b \<Longrightarrow> exprCode env c e A (poolOf b)"
      using part [OF b emits_refl] assms by auto
    show ?thesis
    proof (cases "unaryOpcode k")
      case None
      then show ?thesis using last A(1) by (auto simp: errorAt_Inr accepted_def)
    next
      case (Some op)
      then have e: "emits b [opcodeByte op] [] d"
        using last emits_emitOp emits_names(3) [OF A(1)] by simp
      have "valueCode env c (UnaryExpr k e) (A @ [opcodeByte op]) (poolOf d)" if "accepted d"
        using A(2) accepted_earlier [OF e that] e by (intro exprCode_unary [OF _ Some]) (simp add: emits_def)
      then show ?thesis using emits_trans [OF A(1) e] by auto
    qed
  qed
qed

lemma binary_code:
  assumes "fns c \<noteq> []" and "simpleNode (inReach c) (BinaryExpr l k r)" and "k \<noteq> TK_AND" "k \<noteq> TK_OR"
  shows "makes (compileBinary ce l k r) c (valueCode env c (BinaryExpr l k r))"
  unfolding makes_def
proof (intro allI impI)
  fix d assume d: "compileBinary ce l k r c = Inr ((), d)"
  have kept: "keptNode (BinaryExpr l k r)" using assms by simp
  show "\<exists>C X. emits c C X d \<and> (accepted d \<longrightarrow> valueCode env c (BinaryExpr l k r) C (poolOf d))"
  proof (cases "\<exists>q. isConstantNode (BinaryExpr l k r) = Inr (Some q) \<and> emitConstant q c = Inr ((), d)")
    case True
    then show ?thesis using folded_node [OF assms(1)] kept unfolding makes_def by fastforce
  next
    case False
    then obtain a b where ab: "ce l c = Inr ((), a)" "ce r a = Inr ((), b)" and
      last: "(case binaryOpcode k of Some op \<Rightarrow> emitOp op | None \<Rightarrow> errorAt ''Unknown binary operator'') b = Inr ((), d)"
      using compileBinary_Inr [OF d assms(3,4) kept] by blast
    obtain A X where A: "emits c A X a" "accepted a \<Longrightarrow> exprCode env c l A (poolOf a)"
      using part [OF ab(1) emits_refl] assms by auto
    obtain B Y where B: "emits a B Y b" "accepted b \<Longrightarrow> exprCode env c r B (poolOf b)"
      using part [OF ab(2) A(1)] assms by auto
    show ?thesis
    proof (cases "binaryOpcode k")
      case None
      then show ?thesis using last emits_trans [OF A(1) B(1)] by (auto simp: errorAt_Inr accepted_def)
    next
      case (Some op)
      then have e: "emits b [opcodeByte op] [] d"
        using last emits_emitOp emits_names(3) [OF B(1)] by simp
      have "valueCode env c (BinaryExpr l k r) (A @ B @ [opcodeByte op]) (poolOf d)" if "accepted d"
      proof (rule exprCode_binary [OF _ _ Some assms(3,4)])
        have acc: "accepted b" "accepted a" using that accepted_earlier e B(1) by blast+
        have pool: "poolOf d = poolOf b" "poolOf b = poolOf a @ Y" using e B(1) by (simp_all add: emits_def)
        show "exprCode env c l A (poolOf d)" using A(2) [OF acc(2)] exprCode_pool pool by simp
        show "exprCode env c r B (poolOf d)" using B(2) [OF acc(1)] pool by simp
      qed
      then show ?thesis using emits_trans [OF emits_trans [OF A(1) B(1)] e] by auto
    qed
  qed
qed

lemma short_code:
  assumes "fns c \<noteq> []" and "simple (inReach c) l" and "simple (inReach c) r"
    and "\<And>h rho v. evalNode env h rho n = Some v \<Longrightarrow> \<exists>a. evalExpr env h rho l = Some a \<and>
      (if decides k a then v = a else evalExpr env h rho r = Some v)"
    and "roomNode n = Suc (max (room l) (room r))"
  shows "makes (shortCircuit ce l k r) c (valueCode env c n)"
  unfolding makes_def
proof (intro allI impI)
  fix g assume "shortCircuit ce l k r c = Inr ((), g)"
  then obtain a b d e f off where steps: "ce l c = Inr ((), a)" "emitOp OP_DUP a = Inr ((), b)"
      "emitJump (shortJump k) b = Inr (off, d)" "emitOp OP_POP d = Inr ((), e)" "ce r e = Inr ((), f)"
      "patchJumpAt off f = Inr ((), g)"
    by (auto simp: shortCircuit_def compiled)
  let ?J = "opcodeByte (shortJump k)"
  obtain A X where A: "emits c A X a" "accepted a \<Longrightarrow> exprCode env c l A (poolOf a)"
    using part [OF steps(1) emits_refl] assms by auto
  have b: "emits a [opcodeByte OP_DUP] [] b" using emits_emitOp [OF steps(2)] emits_names(3) [OF A(1)] by simp
  have d: "emits b (?J # [0xFF, 0xFF, 0xFF, 0xFF]) [] d" "off = length (codeOf b) + 1"
    using emits_emitJump [OF steps(3)] emits_names(3) [OF b] by simp_all
  have e: "emits d [opcodeByte OP_POP] [] e" using emits_emitOp [OF steps(4)] emits_names(3) [OF d(1)] by simp
  have ce: "emits c (A @ [opcodeByte OP_DUP] @ ?J # [0xFF, 0xFF, 0xFF, 0xFF] @ [opcodeByte OP_POP]) X e"
    using emits_trans [OF A(1) emits_trans [OF b emits_trans [OF d(1) e]]] by simp
  obtain B Y where B: "emits e B Y f" "accepted f \<Longrightarrow> exprCode env c r B (poolOf f)"
    using part [OF steps(5) ce] assms by auto
  have f: "emits c ((A @ [opcodeByte OP_DUP]) @ ?J # [0xFF, 0xFF, 0xFF, 0xFF] @ opcodeByte OP_POP # B) (X @ Y) f"
    using emits_trans [OF ce B(1)] by simp
  have "length (codeOf b) = length (codeOf c) + length (A @ [opcodeByte OP_DUP])"
    using emits_trans [OF A(1) b] by (simp add: emits_def)
  then have "patchJumpAt (length (codeOf c) + length (A @ [opcodeByte OP_DUP]) + 1) f = Inr ((), g)"
    using steps(6) d(2) by simp
  from emits_patched [OF f this] obtain Z where
    Z: "emits c ((A @ [opcodeByte OP_DUP]) @ ?J # Z @ opcodeByte OP_POP # B) (X @ Y) g" "length Z = 4"
      "Suc (length B) \<le> 0xFFFFFFFF \<Longrightarrow> Z = be4 (Suc (length B))"
    by auto
  have "valueCode env c n ((A @ [opcodeByte OP_DUP]) @ ?J # Z @ opcodeByte OP_POP # B) (poolOf g)" if "accepted g"
  proof -
    have acc: "accepted f" using that patched_keeps [OF steps(6)] by (simp add: accepted_def)
    then have "accepted a" using accepted_earlier [OF B(1)] accepted_earlier [OF e] accepted_earlier [OF d(1)]
        accepted_earlier [OF b] by blast
    then have "exprCode env c l A (poolOf a)" by (rule A(2))
    moreover have "poolOf f = poolOf a @ Y" using b d(1) e B(1) by (simp add: emits_def)
    ultimately have l: "exprCode env c l A (poolOf f)" using exprCode_pool by simp
    have "length (codeOf f) = length (codeOf e) + length B" "length (codeOf e) = Suc (length (codeOf d))"
      using B(1) e by (simp_all add: emits_def)
    then have len: "Suc (length B) \<le> 0xFFFFFFFF" using acc by (simp add: accepted_def)
    have "valueCode env c n (shortCode k A B) (poolOf f)"
      using exprCode_short [OF l B(2) [OF acc] _ assms(4,5)] len by simp
    then show ?thesis using Z(3) [OF len] patched_keeps(2) [OF steps(6)] by (simp add: shortCode_def)
  qed
  then show "\<exists>C X. emits c C X g \<and> (accepted g \<longrightarrow> valueCode env c n C (poolOf g))" using Z(1) by blast
qed

lemma ternary_code:
  assumes "fns c \<noteq> []" and "simple (inReach c) x" and "simple (inReach c) a" and "simple (inReach c) b"
  shows "makes (compileTernary ce x a b) c (valueCode env c (TernaryExpr x a b))"
  unfolding compileTernary_def
proof (rule makes_branch [OF sub [OF assms(1,2)]])
  show "makes (ce a) d (exprCode env c a)" "makes (ce b) d (exprCode env c b)" if "emits c C X d" for C X d
    using sub [OF emits_names(3) [OF that]] code_same [OF that] assms(3,4) by simp_all
qed (use exprCode_pool exprCode_ternary in blast)+

lemma node_code:
  assumes "fns c \<noteq> []" and "simpleNode (inReach c) n"
  shows "makes (exprNode ce lambda n) c (valueCode env c n)"
proof -
  have logic: "compileLogical ce l k r = shortCircuit ce l k r" for l k r
    by (simp add: compileLogical_def shortCircuit_def shortJump_def)
  have andor: "compileBinary ce l k r = shortCircuit ce l k r" if "k = TK_AND \<or> k = TK_OR" for l k r
    using that by (auto simp: compileBinary_def compileLogicalShortCircuit_def shortCircuit_def shortJump_def)
  show ?thesis
  proof (cases n)
    case (LiteralExpr v)
    then show ?thesis using makes_literal [OF assms(1)] assms(2) by (simp add: exprNode_def)
  next
    case (IdentifierExpr name)
    then show ?thesis using makes_identifier [OF assms(1)] assms(2) by (simp add: exprNode_def inReach_def)
  next
    case (BinaryExpr l k r)
    show ?thesis
    proof (cases "k = TK_AND \<or> k = TK_OR")
      case True
      have "makes (shortCircuit ce l k r) c (valueCode env c n)"
        using assms True BinaryExpr by (intro short_code) (auto split: option.splits if_splits)
      then show ?thesis using andor [OF True] BinaryExpr by (simp add: exprNode_def)
    next
      case False
      then show ?thesis using binary_code [OF assms(1)] assms(2) BinaryExpr by (simp add: exprNode_def)
    qed
  next
    case (UnaryExpr k e)
    then show ?thesis using unary_code [OF assms(1)] assms(2) by (simp add: exprNode_def)
  next
    case (LogicalExpr l k r)
    have "makes (shortCircuit ce l k r) c (valueCode env c n)"
      using assms LogicalExpr by (intro short_code) (auto split: option.splits if_splits)
    then show ?thesis using LogicalExpr by (simp add: exprNode_def logic)
  next
    case (TernaryExpr x a b)
    then show ?thesis using ternary_code [OF assms(1)] assms(2) by (simp add: exprNode_def)
  qed (use assms(2) in simp_all)
qed

end

subsection \<open>Every expression covered\<close>

lemma emits_none:
  assumes "fns c \<noteq> []" and "fns d = fns c" and "slotTable d = slotTable c" and "loopStack d = loopStack c"
    and "nextGlobalSlot d = nextGlobalSlot c" and "compiler.hadError c \<Longrightarrow> compiler.hadError d"
  shows "emits c [] [] d"
  using assms by (cases "fns c") (auto simp: emits_def codeOf_def poolOf_def cur_def intro: exI [of _ "fcChunk (hd (fns c))"])

lemma depthGuard_Inr:
  assumes "depthGuard line body c = Inr ((), d)" and "fns c \<noteq> []"
  obtains a b where "emits c [] [] a" "body a = Inr ((), b)" "d = b\<lparr>currentDepth := currentDepth b - 1\<rparr>"
proof -
  obtain a b where ab: "body a = Inr ((), b)" "d = b\<lparr>currentDepth := currentDepth b - 1\<rparr>"
      "fns a = fns c" "slotTable a = slotTable c" "loopStack a = loopStack c" "nextGlobalSlot a = nextGlobalSlot c"
      "compiler.hadError c \<longrightarrow> compiler.hadError a"
    using assms(1)
    by (auto simp: depthGuard_def compiled recordError_def split: if_splits)
  then show thesis using that emits_none [OF assms(2)] by blast
qed

lemma makes_depthGuard:
  assumes "fns c \<noteq> []" and "\<And>a. emits c [] [] a \<Longrightarrow> makes body a Q"
  shows "makes (depthGuard line body) c Q"
  unfolding makes_def
proof (intro allI impI)
  fix d assume "depthGuard line body c = Inr ((), d)"
  then obtain a b where ab: "emits c [] [] a" "body a = Inr ((), b)" "d = b\<lparr>currentDepth := currentDepth b - 1\<rparr>"
    by (rule depthGuard_Inr [OF _ assms(1)])
  then obtain C X where C: "emits a C X b" "accepted b \<longrightarrow> Q C (poolOf b)"
    using assms(2) unfolding makes_def by blast
  have same: "emits b [] [] d" using emits_none [OF emits_names(3) [OF C(1)]] ab(3) by simp
  have "codeOf d = codeOf b" "poolOf d = poolOf b" using same by (simp_all add: emits_def)
  then have "accepted d \<longrightarrow> Q C (poolOf d)" using C(2) ab(3) by (simp add: accepted_def)
  then show "\<exists>C X. emits c C X d \<and> (accepted d \<longrightarrow> Q C (poolOf d))"
    using emits_trans [OF ab(1) emits_trans [OF C(1) same]] by auto
qed

lemma exprCode_NoExpr: "exprCode env c NoExpr [opcodeByte OP_LOAD_NIL] K"
  by (simp add: exprCode_def computes_load loads_def)

lemma exprCode_node: "exprCode env c (Expr l col n) = valueCode env c n"
  by (intro ext) (simp add: exprCode_def valueCode_def)

lemma valueCode_same: "emits c C X d \<Longrightarrow> valueCode env d = valueCode env c"
  using code_same(1) [of c C X d env] exprCode_node [of env _ 0 0] by (metis ext)

lemma compileExpr_code: "sub_code env (compileExpr d)"
proof (induction d)
  case 0
  show ?case by unfold_locales (simp add: makes_def)
next
  case (Suc d)
  show ?case
  proof
    fix c e assume c: "fns c \<noteq> []" "simple (inReach c) e"
    show "makes (compileExpr (Suc d) e) c (exprCode env c e)"
    proof (cases e)
      case NoExpr
      then show ?thesis
        using makes_emitOp [OF c(1), of "\<lambda>C. \<forall>K. exprCode env c NoExpr C K" OP_LOAD_NIL] exprCode_NoExpr
        by (auto elim: makes_mono)
    next
      case (Expr line col n)
      have "makes (exprNode (compileExpr d) (compileLambda (compileExpr d) (compileStmt d)) n) a (valueCode env c n)"
        if a: "emits c [] [] a" for a
        using sub_code.node_code [OF Suc emits_names(3) [OF a]] c(2) Expr code_same(2) [OF a]
          valueCode_same [OF a, of env] by simp
      then show ?thesis using makes_depthGuard [OF c(1)] Expr by (simp add: exprCode_node)
    qed
  qed
qed

interpretation operands: sub_code env "compileExpr d" for env d
  by (rule compileExpr_code)


text \<open>\<open>x < 10 ? x * 3 : 0\<close> in the main function, with \<open>x\<close> the first global.\<close>

definition sampleExpr :: expr where
  "sampleExpr = Expr 1 1 (TernaryExpr
     (Expr 1 1 (BinaryExpr (Expr 1 1 (IdentifierExpr ''x'')) TK_LESS (litInt 10)))
     (Expr 1 1 (BinaryExpr (Expr 1 1 (IdentifierExpr ''x'')) TK_STAR (litInt 3))) (litInt 0))"

definition sampleCompiler :: compiler where
  "sampleCompiler = (newCompiler False)\<lparr>slotTable := [(''x'', 0)], nextGlobalSlot := 1\<rparr>"

definition sampleMachine :: "compiler \<Rightarrow> vm" where
  "sampleMachine c = (startState [\<lparr>cuHeader = newHeader ''task'' 0, cuChunk = fcChunk (cur c), cuNested = []\<rparr>] [])
     \<lparr>globalSlots := [VInteger 4]\<rparr>"

lemma sample_compiles:
  obtains c' where "compileExpr (Suc (Suc (Suc 0))) sampleExpr sampleCompiler = Inr ((), c')" "\<not> compiler.hadError c'"
    "length (codeOf c') = 25"
proof -
  have "case compileExpr (Suc (Suc (Suc 0))) sampleExpr sampleCompiler of Inl _ \<Rightarrow> False
      | Inr (u, c') \<Rightarrow> \<not> compiler.hadError c' \<and> length (codeOf c') = 25"
    by (simp add: sampleExpr_def sampleCompiler_def newCompiler_def newFunction_def newHeader_def
      emptyChunk_def cbnd_def cret_def cget_def cupd_def clift_def cur_def setCur_def depthGuard_def maxDepth_def
      exprNode_def onChunk_def emitByte_def emitOp_def emitShort_def emitOpShort_def
      writeOp_def writeByte_def resolveLocal_def resolveUpvalue_def loadGlobalSlotOf_def
      globalSlotFor_def compileTernary_def emitJump_def writeJump_def patchJumpAt_def patchJump_def Let_def be4_def
      codeSize_def compileBinary_def compileIdentifier_def compileLiteral_def litInt_def
      makeConstant_def emitConstant_def addConstant_def binaryOpcode_def identityOperand_def codeOf_def)
  then show thesis using that by (auto split: sum.splits prod.splits)
qed


subsection \<open>Reductions that are left out\<close>

text \<open>
  C38. The identity reductions drop an operation that is not the identity: \<open>x + 0\<close>, \<open>x - 0\<close> and \<open>x * 1\<close>
  compile to \<open>x\<close> alone whatever \<open>x\<close> holds, while the machine's operations append the digit to a string,
  refuse to subtract from one, and refuse to multiply nil.
\<close>

theorem identity_reduction_skips_operation:
  fixes l c name
  defines "x \<equiv> Expr l c (IdentifierExpr name)"
  shows "compileBinary ce x TK_PLUS (litInt 0) s = ce x s \<and> compileBinary ce x TK_MINUS (litInt 0) s = ce x s \<and>
    compileBinary ce x TK_STAR (litInt 1) s = ce x s \<and>
    deliver callF (mkString t) (VInteger 0) (addValues (vmHeap m) (mkString t) (VInteger 0)) m =
      push (mkString (t @ ''0'')) m \<and>
    subValues (mkString t) (VInteger 0) = opError ''-'' '' operands must be numbers'' \<and>
    mulValues VNil (VInteger 1) = opError ''*'' '' operands must be numbers''"
proof -
  have zero: "showInt 0 = ''0''" by code_simp
  have str: "toString (vmHeap m) (mkString t) = Inr t" "toString (vmHeap m) (VInteger 0) = Inr ''0''"
    by (simp_all add: toString_def mkString_def zero toStringP.simps isString_def)
  have add: "addValues (vmHeap m) (mkString t) (VInteger 0) = Stringify"
    by (simp add: addValues_def test_defs mkString_def)
  have "getProperty (vmHeap m) (mkString t) name = VNil" for name by (simp add: mkString_def)
  then have "stringify callF (mkString t) m = Inr (t, m)" "stringify callF (VInteger 0) m = Inr (''0'', m)"
    using str by (simp_all add: stringify_def textValue_def act_lift_def)
  then have "deliver callF (mkString t) (VInteger 0) Stringify m = push (mkString (t @ ''0'')) m"
    by (simp add: deliver_def bnd_def)
  moreover have "subValues (mkString t) (VInteger 0) = opError ''-'' '' operands must be numbers''"
    by (simp add: subValues_def test_defs mkString_def)
  ultimately show ?thesis
    by (simp add: add x_def litInt_def compileBinary_def cbnd_def clift_def cret_def identityOperand_def
        mulValues_def test_defs)
qed

end
