(* ===== verification/Stmt_Layout.thy ===== *)
theory Stmt_Layout
  imports Program_Value Compile_Runs
begin

text \<open>
  The layouts the compiler gives to a sequence, a branch without alternative and a loop, whatever their
  parts make.
\<close>

lemma cseq_last: "cseq [m] = m"
  by (intro ext) (auto simp: cbnd_def cret_def split: sum.splits)

lemma makes_nothing: "fns c \<noteq> [] \<Longrightarrow> (\<And>K. Q [] K) \<Longrightarrow> makes (cret ()) c Q"
  unfolding makes_def using emits_refl by (auto simp: cret_def)

lemma makes_then:
  assumes "makes m c P" and "\<And>C X d. emits c C X d \<Longrightarrow> makes k d Q"
    and "\<And>C K L. P C K \<Longrightarrow> P C (K @ L)" and "\<And>C D K. P C K \<Longrightarrow> Q D K \<Longrightarrow> R (C @ D) K"
  shows "makes (cbnd m (\<lambda>_. k)) c R"
  unfolding makes_def
proof (intro allI impI)
  fix z assume "cbnd m (\<lambda>_. k) c = Inr ((), z)"
  then obtain d where d: "m c = Inr ((), d)" "k d = Inr ((), z)" by (auto simp: compiled)
  obtain C X where C: "emits c C X d" "accepted d \<Longrightarrow> P C (poolOf d)"
    using assms(1) d(1) unfolding makes_def by blast
  obtain D Y where D: "emits d D Y z" "accepted z \<Longrightarrow> Q D (poolOf z)"
    using assms(2) [OF C(1)] d(2) unfolding makes_def by blast
  have "R (C @ D) (poolOf z)" if "accepted z"
    using assms(3) [OF C(2), of Y] assms(4) D that accepted_earlier [OF D(1)] by (simp add: emits_def)
  then show "\<exists>C X. emits c C X z \<and> (accepted z \<longrightarrow> R C (poolOf z))" using emits_trans [OF C(1) D(1)] by blast
qed

text \<open>A test, a jump when it fails, and code up to which nothing else jumps.\<close>

lemma makes_when:
  assumes "makes mx c P" and "\<And>C X d. emits c C X d \<Longrightarrow> makes ma d Q"
    and "\<And>C K L. P C K \<Longrightarrow> P C (K @ L)"
    and "\<And>C A K. P C K \<Longrightarrow> Q A K \<Longrightarrow> length A \<le> 0xFFFFFFFF \<Longrightarrow> S (whenCode C A) K"
  shows "makes (cseq [mx, cbnd (emitJump OP_JUMP_IF_FALSE) (\<lambda>elseJump. cseq [ma, patchJumpAt elseJump])]) c S"
  (is "makes ?m c S")
  unfolding makes_def
proof (intro allI impI)
  fix z assume "?m c = Inr ((), z)"
  then obtain c1 c2 c3 off where steps: "mx c = Inr ((), c1)" "emitJump OP_JUMP_IF_FALSE c1 = Inr (off, c2)"
      "ma c2 = Inr ((), c3)" "patchJumpAt off c3 = Inr ((), z)"
    by (auto simp: compiled)
  let ?W = "[0xFF, 0xFF, 0xFF, 0xFF]" and ?F = "opcodeByte OP_JUMP_IF_FALSE"
  obtain C X where C: "emits c C X c1" "accepted c1 \<Longrightarrow> P C (poolOf c1)"
    using assms(1) steps(1) unfolding makes_def by blast
  have c2: "emits c1 (?F # ?W) [] c2" "off = length (codeOf c1) + 1"
    using emits_emitJump [OF steps(2)] emits_names(3) [OF C(1)] by simp_all
  have cc2: "emits c (C @ ?F # ?W) X c2" using emits_trans [OF C(1) c2(1)] by simp
  obtain A Y where A: "emits c2 A Y c3" "accepted c3 \<Longrightarrow> Q A (poolOf c3)"
    using assms(2) [OF cc2] steps(3) unfolding makes_def by blast
  have "emits c (C @ ?F # ?W @ A) (X @ Y) c3" using emits_trans [OF cc2 A(1)] by simp
  moreover have "length (codeOf c1) = length (codeOf c) + length C" using C(1) by (simp add: emits_def)
  ultimately obtain Z where Z: "emits c (C @ ?F # Z @ A) (X @ Y) z" "length A \<le> 0xFFFFFFFF \<Longrightarrow> Z = be4 (length A)"
    using emits_patched [of c C ?F A "X @ Y" c3 z] steps(4) c2(2) by auto
  have "S (C @ ?F # Z @ A) (poolOf z)" if "accepted z"
  proof -
    have acc3: "accepted c3" using that patched_keeps [OF steps(4)] by (simp add: accepted_def)
    then have acc1: "accepted c1" using accepted_earlier [OF A(1)] accepted_earlier [OF c2(1)] by blast
    have pool: "poolOf z = poolOf c3" "poolOf c3 = poolOf c1 @ Y"
      using patched_keeps(2) [OF steps(4)] A(1) c2(1) by (simp_all add: emits_def)
    have len: "length A \<le> 0xFFFFFFFF" using acc3 A(1) by (simp add: accepted_def emits_def)
    have "S (whenCode C A) (poolOf z)"
      using assms(4) [OF _ _ len] assms(3) [OF C(2) [OF acc1], of Y] A(2) [OF acc3] pool by simp
    then show ?thesis using Z(2) [OF len] by (simp add: whenCode_def)
  qed
  then show "\<exists>C X. emits c C X z \<and> (accepted z \<longrightarrow> S C (poolOf z))" using Z(1) by blast
qed

text \<open>Loops: the context on the stack of loops is gone again at the end.\<close>

lemma emits_emitLoop:
  assumes "emitLoop start c = Inr ((), d)" and "fns c \<noteq> []" and "start \<le> length (codeOf c)"
  obtains Z where "emits c (opcodeByte OP_LOOP # Z) [] d"
    "length (codeOf c) + 5 \<le> 0xFFFFFFFF \<Longrightarrow> Z = be4 (length (codeOf c) + 5 - start)"
proof -
  let ?off = "length (codeOf c) + 5 - start"
  let ?Z = "if ?off > 0xFFFFFFFF then [] else be4 ?off"
  let ?ch = "writeLoop start (currentLine c) (fcChunk (cur c))"
  have d: "d = setCur (\<lambda>f. f\<lparr>fcChunk := ?ch\<rparr>) c"
    using assms(1,2) by (cases "fns c") (auto simp: emitLoop_def onChunk_def cupd_def setCur_def cur_def)
  have "length (codeOf c) + 1 - start + 4 = ?off" using assms(3) by simp
  then have "code ?ch = codeOf c @ opcodeByte OP_LOOP # ?Z" "constants ?ch = poolOf c @ []"
    using assms(3) by (auto simp: writeLoop_def writeBytes_eq writeOp_def writeByte_def codeOf_def poolOf_def Let_def)
  then have "emits c (opcodeByte OP_LOOP # ?Z) [] d" unfolding d by (rule emits_chunk [OF assms(2)])
  then show thesis using that by force
qed

lemma emits_looped:
  assumes "emits (c\<lparr>loopStack := l # loopStack c\<rparr>) C X d" 
  shows "emits c C X (d\<lparr>loopStack := tl (loopStack d)\<rparr>)"
  using assms by (simp add: emits_def cur_def codeOf_def poolOf_def)

lemma loop_Inr:
  assumes "cseq [startLoop, cbnd markLoopStart (\<lambda>start. cseq [mx,
     cbnd (emitJump OP_JUMP_IF_FALSE) (\<lambda>exitJump. cseq [mb, emitLoop start, patchJumpAt exitJump, finishLoop])])] c =
     Inr ((), z)"
  obtains l c1 c2 c3 c4 c5 off where "mx (c\<lparr>loopStack := l # loopStack c\<rparr>) = Inr ((), c1)" "lpBreaks l = []"
    "emitJump OP_JUMP_IF_FALSE c1 = Inr (off, c2)" "mb c2 = Inr ((), c3)" "emitLoop (length (codeOf c)) c3 = Inr ((), c4)"
    "patchJumpAt off c4 = Inr ((), c5)" "finishLoop c5 = Inr ((), z)"
  using assms
  by (auto simp: compiled startLoop_def markLoopStart_def setLoop_def codeSize_def codeOf_def cur_def)

lemma finishLoop_none:
  assumes "loopStack c = l # ls" and "lpBreaks l = []"
  shows "finishLoop c = Inr ((), c\<lparr>loopStack := ls\<rparr>)"
  using assms by (simp add: finishLoop_def cbnd_def cget_def cret_def endLoop_def cupd_def)

lemma makes_loop:
  assumes ne: "fns c \<noteq> []"
    and mx: "\<And>l. makes mx (c\<lparr>loopStack := l # loopStack c\<rparr>) P"
    and mb: "\<And>l C X d. emits (c\<lparr>loopStack := l # loopStack c\<rparr>) C X d \<Longrightarrow> makes mb d Q"
    and pool: "\<And>C K L. P C K \<Longrightarrow> P C (K @ L)"
    and loop: "\<And>C B K. P C K \<Longrightarrow> Q B K \<Longrightarrow> length (whileCode C B) \<le> 0xFFFFFFFF \<Longrightarrow> S (whileCode C B) K"
  shows "makes (cseq [startLoop, cbnd markLoopStart (\<lambda>start. cseq [mx, cbnd (emitJump OP_JUMP_IF_FALSE)
    (\<lambda>exitJump. cseq [mb, emitLoop start, patchJumpAt exitJump, finishLoop])])]) c S"
  (is "makes ?m c S")
  unfolding makes_def
proof (intro allI impI)
  fix z assume "?m c = Inr ((), z)"
  then obtain l c1 c2 c3 c4 c5 off where steps: "mx (c\<lparr>loopStack := l # loopStack c\<rparr>) = Inr ((), c1)" "lpBreaks l = []"
    "emitJump OP_JUMP_IF_FALSE c1 = Inr (off, c2)" "mb c2 = Inr ((), c3)" "emitLoop (length (codeOf c)) c3 = Inr ((), c4)"
    "patchJumpAt off c4 = Inr ((), c5)" "finishLoop c5 = Inr ((), z)" by (rule loop_Inr)
  let ?c = "c\<lparr>loopStack := l # loopStack c\<rparr>"
  let ?W = "[0xFF, 0xFF, 0xFF, 0xFF]" and ?F = "opcodeByte OP_JUMP_IF_FALSE" and ?L = "opcodeByte OP_LOOP"
  have same: "codeOf ?c = codeOf c" by (simp add: codeOf_def cur_def)
  obtain C X where C: "emits ?c C X c1" "accepted c1 \<Longrightarrow> P C (poolOf c1)"
    using mx steps(1) unfolding makes_def by blast
  have c2: "emits c1 (?F # ?W) [] c2" "off = length (codeOf c1) + 1"
    using emits_emitJump [OF steps(3)] emits_names(3) [OF C(1)] by simp_all
  have cc2: "emits ?c (C @ ?F # ?W) X c2" using emits_trans [OF C(1) c2(1)] by simp
  obtain B Y where B: "emits c2 B Y c3" "accepted c3 \<Longrightarrow> Q B (poolOf c3)"
    using mb [OF cc2] steps(4) unfolding makes_def by blast
  have len3: "length (codeOf c3) = length (codeOf c) + (length C + (length B + 5))"
    using emits_trans [OF cc2 B(1)] same by (simp add: emits_def)
  obtain U where U: "emits c3 (?L # U) [] c4"
      "length (codeOf c3) + 5 \<le> 0xFFFFFFFF \<Longrightarrow> U = be4 (length (codeOf c3) + 5 - length (codeOf c))"
    using emits_emitLoop [OF steps(5) emits_names(3) [OF B(1)]] len3 by auto
  have "emits ?c (C @ ?F # ?W @ B @ ?L # U) (X @ Y) c4"
    using emits_trans [OF cc2 emits_trans [OF B(1) U(1)]] by simp
  moreover have "length (codeOf c1) = length (codeOf ?c) + length C" using C(1) by (simp add: emits_def)
  ultimately obtain Z where Z: "emits ?c (C @ ?F # Z @ B @ ?L # U) (X @ Y) c5"
      "length B + (1 + length U) \<le> 0xFFFFFFFF \<Longrightarrow> Z = be4 (length B + (1 + length U))"
    using emits_patched [of ?c C ?F "B @ ?L # U" "X @ Y" c4 c5] steps(6) c2(2) by auto
  have z: "z = c5\<lparr>loopStack := tl (loopStack c5)\<rparr>"
    using finishLoop_none [of c5 l "loopStack c"] steps(2,7) Z(1) by (simp add: emits_def)
  have "S (C @ ?F # Z @ B @ ?L # U) (poolOf z)" if "accepted z"
  proof -
    have "codeOf z = codeOf c5" "poolOf z = poolOf c5" "compiler.hadError z = compiler.hadError c5"
      unfolding z by (simp_all add: codeOf_def poolOf_def cur_def)
    then have acc4: "accepted c4" and pz: "poolOf z = poolOf c4"
      using that patched_keeps [OF steps(6)] by (simp_all add: accepted_def)
    have acc3: "accepted c3" using acc4 accepted_earlier [OF U(1)] by blast
    then have acc1: "accepted c1" using accepted_earlier [OF B(1)] accepted_earlier [OF c2(1)] by blast
    have pools: "poolOf c4 = poolOf c3" "poolOf c3 = poolOf c1 @ Y"
      using U(1) B(1) c2(1) by (simp_all add: emits_def)
    have len: "length (codeOf c3) + 5 \<le> 0xFFFFFFFF" using acc4 U(1) by (simp add: accepted_def emits_def)
    have off: "length (codeOf c3) + 5 - length (codeOf c) = length C + length B + 10" using len3 by simp
    have U': "U = be4 (length C + length B + 10)" using U(2) [OF len] by (simp only: off)
    have Z': "Z = be4 (length B + 5)" using Z(2) len len3 U' by simp
    have "length (whileCode C B) \<le> 0xFFFFFFFF" using len len3 by simp
    then have "S (whileCode C B) (poolOf z)"
      using loop pool [OF C(2) [OF acc1], of Y] B(2) [OF acc3] pools pz by simp
    then show ?thesis using U' Z' by (simp add: whileCode_def)
  qed
  then show "\<exists>C X. emits c C X z \<and> (accepted z \<longrightarrow> S C (poolOf z))" using emits_looped [OF Z(1)] z by blast
qed

end
