(* ===== verification/Program_Runs.thy ===== *)
theory Program_Runs
  imports Stmt_Layout
begin

text \<open>
  The compiler against the machine, for whole programs of global variables: \<open>out\<close>, assignments, blocks,
  \<open>when\<close> and \<open>while\<close>. Running what the compiler made of a program prints what the interpreter of
  \<open>Program_Value\<close> prints.
\<close>

subsection \<open>The programs covered\<close>

definition okExpr :: "(string \<Rightarrow> bool) \<Rightarrow> nat \<Rightarrow> expr \<Rightarrow> bool" where
  "okExpr known n e \<longleftrightarrow> simple known e \<and> room e \<le> n"

text \<open>Inside a block or a branch only known variables are assigned; a condition is no constant.\<close>

function (sequential) okStmt :: "(string \<Rightarrow> bool) \<Rightarrow> nat \<Rightarrow> stmt \<Rightarrow> bool"
  and okStmts :: "(string \<Rightarrow> bool) \<Rightarrow> nat \<Rightarrow> stmt list \<Rightarrow> bool" where
  "okStmt known n NoStmt = True"
| "okStmt known n (Stmt l (OutStmt e)) = okExpr known n e"
| "okStmt known n (Stmt l (ExpressionStmt e)) = (case assigned e of
      Some (x, v) \<Rightarrow> known x \<and> okExpr known n v | None \<Rightarrow> False)"
| "okStmt known n (Stmt l (BlockStmt ss)) = okStmts known n ss"
| "okStmt known n (Stmt l (WhenStmt c a b)) = (okExpr known n c \<and> isConstant c = Inr None \<and>
     okStmt known n a \<and> okStmt known n b)"
| "okStmt known n (Stmt l (WhileStmt c b)) = (okExpr known n c \<and> isConstant c = Inr None \<and> okStmt known n b)"
| "okStmt known n _ = False"
| "okStmts known n [] = True"
| "okStmts known n (s # ss) = (okStmt known n s \<and> okStmts known n ss)"
  by pat_completeness auto
termination by (relation "measure (case_sum (\<lambda>(_, _, s). size s) (\<lambda>(_, _, ss). size_list size ss))") auto

text \<open>The main function as the compiler has it between statements: no locals and no statics.\<close>

definition plainMain :: "compiler \<Rightarrow> bool" where
  "plainMain c \<longleftrightarrow> (\<exists>f. fns c = [f] \<and> fcLocals f = [] \<and> fcStatics f = [] \<and> \<not> fcHarvesting f)"

lemma plainMain_emits: "plainMain c \<Longrightarrow> emits c C X d \<Longrightarrow> plainMain d"
  by (auto simp: plainMain_def emits_def cur_def)

lemma inReach_main:
  assumes "plainMain c"
  shows "inReach c x \<longleftrightarrow> map_of (slotTable c) x \<noteq> None \<and> x \<noteq> ''self'' \<and> x \<noteq> ''super''"
  using assms by (auto simp: inReach_def place_of_def plainMain_def isMain_def resolveLocal_def cur_def)

lemma place_main:
  assumes "plainMain c" and "inReach c x" and "map_of (slotTable c) x = Some i"
  shows "place_of c x = Some (GlobalSlot i)"
  using assms by (auto simp: inReach_def place_of_def plainMain_def isMain_def resolveLocal_def cur_def split: if_splits)

subsection \<open>Expressions over globals\<close>

lemma evalExpr_cong:
  "simple known e \<Longrightarrow> (\<And>x. known x \<Longrightarrow> rho x = rho' x) \<Longrightarrow> evalExpr env h rho e = evalExpr env h rho' e"
  "simpleNode known n \<Longrightarrow> (\<And>x. known x \<Longrightarrow> rho x = rho' x) \<Longrightarrow> evalNode env h rho n = evalNode env h rho' n"
proof (induction known e and known n rule: simple_simpleNode.induct)
  case (5 known l k r)
  then have "evalExpr env h rho l = evalExpr env h rho' l" "evalExpr env h rho r = evalExpr env h rho' r" by auto
  then show ?case by (simp only: evalNode.simps)
next
  case (7 known l k r)
  then have "evalExpr env h rho l = evalExpr env h rho' l" "evalExpr env h rho r = evalExpr env h rho' r" by auto
  then show ?case by (simp only: evalNode.simps)
next
  case (8 known c a b)
  then have "evalExpr env h rho c = evalExpr env h rho' c" "evalExpr env h rho a = evalExpr env h rho' a"
    "evalExpr env h rho b = evalExpr env h rho' b" by auto
  then show ?case by (simp only: evalNode.simps)
qed auto

lemma exprCode_evals:
  assumes "exprCode env c e C K" and "plainMain c" and "okExpr (inReach c) n e"
    and "map_of (slotTable c) \<subseteq>\<^sub>m map_of T" and "tableOk T" and "valueOf env h g e = Some v"
  shows "evals env h T n C K g v"
  unfolding evals_def
proof (intro allI impI)
  fix s assume s: "aboutTo h T g C K n s"
  have "variables c s x = Some (g x)" if x: "inReach c x" for x
  proof -
    obtain i where i: "map_of (slotTable c) x = Some i" using x inReach_main [OF assms(2)] by auto
    then have "map_of T x = Some i" using assms(4) by (auto simp: map_le_def dom_def)
    then have "i < 65536" "i < length (globalSlots s)" "globalSlots s ! i = g x"
      using s assms(5) by (auto simp: aboutTo_def holds_def tableOk_def)
    then show ?thesis using place_main [OF assms(2) x i] by (simp add: variables_def valueAt_def)
  qed
  then have "evalExpr env h (variables c s) e = Some v"
    using evalExpr_cong(1) [of "inReach c" e "variables c s" "\<lambda>x. Some (g x)" env h] assms(3,6)
    by (simp add: valueOf_def okExpr_def)
  then have "computes env c h (variables c s) C K n v"
    using exprCodeD [OF assms(1)] assms(3) by (simp add: okExpr_def)
  moreover have "about (variables c) h (variables c s) C K n s" using s by (simp add: aboutTo_def about_def)
  ultimately show "\<exists>t. reaches env s t \<and> gives s (length C) v t" unfolding computes_def by blast
qed


subsection \<open>Statements\<close>

text \<open>
  Code of a test and of statements, for every assignment of slots that extends the one the code was
  compiled with.
\<close>

definition testCode :: "vm_env \<Rightarrow> (string \<times> nat) list \<Rightarrow> nat \<Rightarrow> expr \<Rightarrow> byte list \<Rightarrow> const_val list \<Rightarrow> bool" where
  "testCode env T0 n e C K \<longleftrightarrow> (\<forall>h T g v. map_of T0 \<subseteq>\<^sub>m map_of T \<longrightarrow> tableOk T \<longrightarrow>
     valueOf env h g e = Some v \<longrightarrow> evals env h T n C K g v)"

definition effectCode :: "(nat \<Rightarrow> heap \<Rightarrow> (string \<Rightarrow> val) \<Rightarrow> effect) \<Rightarrow> vm_env \<Rightarrow> (string \<times> nat) list \<Rightarrow> nat
    \<Rightarrow> byte list \<Rightarrow> const_val list \<Rightarrow> bool" where
  "effectCode ex env T0 n C K \<longleftrightarrow> (\<forall>d h T g g' ls. map_of T0 \<subseteq>\<^sub>m map_of T \<longrightarrow> tableOk T \<longrightarrow>
     ex d h g = Some (g', ls) \<longrightarrow> performs env h T n C K g g' ls)"

abbreviation "stmtCode env T0 n st \<equiv> effectCode (\<lambda>d h. execStmt d env h st) env T0 n"

abbreviation "listCode env T0 n ss \<equiv> effectCode (\<lambda>d h. execList (execStmt d env h) ss) env T0 n"

lemma testCode_pool: "testCode env T0 n e C K \<Longrightarrow> testCode env T0 n e C (K @ L)"
  unfolding testCode_def using evals_pool by blast

lemma effectCode_pool: "effectCode ex env T0 n C K \<Longrightarrow> effectCode ex env T0 n C (K @ L)"
  unfolding effectCode_def using performs_pool by blast

lemma listCode_seq:
  assumes "stmtCode env T0 n st C K" and "listCode env T0 n ss D K"
  shows "listCode env T0 n (st # ss) (C @ D) K"
  unfolding effectCode_def execList.simps andThen_Some
proof (intro allI impI, elim exE conjE)
  fix d h T g g' ls g1 l1 l2
  assume "map_of T0 \<subseteq>\<^sub>m map_of T" "tableOk T" "execStmt d env h st g = Some (g1, l1)"
    "execList (execStmt d env h) ss g1 = Some (g', l2)" "ls = l1 @ l2"
  moreover from this have "performs env h T n C K g g1 l1" "performs env h T n D K g1 g' l2"
    using assms unfolding effectCode_def by blast+
  ultimately show "performs env h T n (C @ D) K g g' ls" using performs_seq by blast
qed

lemma stmtCode_out:
  assumes "testCode env T0 n e C K"
  shows "stmtCode env T0 n (Stmt l (OutStmt e)) (C @ [opcodeByte OP_PRINT_STR]) K"
  unfolding effectCode_def
proof (intro allI impI)
  fix d h T g g' ls
  assume T: "map_of T0 \<subseteq>\<^sub>m map_of T" "tableOk T" and ex: "execStmt d env h (Stmt l (OutStmt e)) g = Some (g', ls)"
  from ex obtain d' v t where "valueOf env h g e = Some v" "printText h v = Some t" "g' = g" "ls = [t]"
    by (cases d) (auto simp: assignedBy_def bind_eq_Some_conv)
  then show "performs env h T n (C @ [opcodeByte OP_PRINT_STR]) K g g' ls"
    using assms T performs_out unfolding testCode_def by blast
qed

definition assignCode :: "vm_env \<Rightarrow> (string \<times> nat) list \<Rightarrow> nat \<Rightarrow> string \<Rightarrow> expr \<Rightarrow> byte list \<Rightarrow> const_val list \<Rightarrow> bool" where
  "assignCode env T0 n x e C K \<longleftrightarrow> (\<exists>A i. map_of T0 x = Some i \<and> C = A @ storeCode i \<and> testCode env T0 n e A K)"

lemma stmtCode_assign:
  assumes "assignCode env T0 n x e C K" and "assignedBy nd = Some (x, e)"
  shows "stmtCode env T0 n (Stmt l nd) C K"
  unfolding effectCode_def
proof (intro allI impI)
  fix d h T g g' ls
  assume T: "map_of T0 \<subseteq>\<^sub>m map_of T" "tableOk T" and ex: "execStmt d env h (Stmt l nd) g = Some (g', ls)"
  from assms(1) obtain A i where A: "map_of T0 x = Some i" "C = A @ storeCode i" "testCode env T0 n e A K"
    by (auto simp: assignCode_def)
  from ex obtain v where v: "valueOf env h g e = Some v" "g' = g(x := v)" "ls = []"
    by (cases d) (auto simp: assms(2))
  have "map_of T x = Some i" using T(1) A(1) by (auto simp: map_le_def dom_def)
  moreover have "evals env h T n A K g v" using A(3) T v(1) unfolding testCode_def by blast
  ultimately show "performs env h T n C K g g' ls" using performs_assign T(2) v A(2) by simp
qed

lemma exec_when:
  assumes "execStmt d env h (Stmt l (WhenStmt c a b)) g = Some r"
  obtains d' v where "valueOf env h g c = Some v" "execStmt d' env h (if isTruthy v then a else b) g = Some r"
proof -
  obtain d' v where "valueOf env h g c = Some v"
      "(if isTruthy v then execStmt d' env h a g else execStmt d' env h b g) = Some r"
    using assms by (cases d) (auto simp: assignedBy_def bind_eq_Some_conv)
  then show thesis using that by (cases "isTruthy v") auto
qed

lemma stmtCode_when_else:
  assumes "testCode env T0 n c C K" and "stmtCode env T0 n a A K" and "stmtCode env T0 n b B K"
    and "length A + 5 \<le> 0xFFFFFFFF" and "length B \<le> 0xFFFFFFFF"
  shows "stmtCode env T0 n (Stmt l (WhenStmt c a b)) (ternaryCode C A B) K"
  unfolding effectCode_def
proof (intro allI impI)
  fix d h T g g' ls
  assume T: "map_of T0 \<subseteq>\<^sub>m map_of T" "tableOk T"
    and ex: "execStmt d env h (Stmt l (WhenStmt c a b)) g = Some (g', ls)"
  obtain d' v where v: "valueOf env h g c = Some v"
      "execStmt d' env h (if isTruthy v then a else b) g = Some (g', ls)" by (rule exec_when [OF ex])
  have "evals env h T n C K g v" using assms(1) T v(1) unfolding testCode_def by blast
  moreover have "performs env h T n (if isTruthy v then A else B) K g g' ls"
    using v(2) assms(2,3) T unfolding effectCode_def by (cases "isTruthy v") auto
  ultimately show "performs env h T n (ternaryCode C A B) K g g' ls"
    using performs_when_else assms(4,5) by blast
qed

lemma stmtCode_when:
  assumes "testCode env T0 n c C K" and "stmtCode env T0 n a A K" and "length A \<le> 0xFFFFFFFF"
  shows "stmtCode env T0 n (Stmt l (WhenStmt c a NoStmt)) (whenCode C A) K"
  unfolding effectCode_def
proof (intro allI impI)
  fix d h T g g' ls
  assume T: "map_of T0 \<subseteq>\<^sub>m map_of T" "tableOk T"
    and ex: "execStmt d env h (Stmt l (WhenStmt c a NoStmt)) g = Some (g', ls)"
  obtain d' v where v: "valueOf env h g c = Some v"
      "execStmt d' env h (if isTruthy v then a else NoStmt) g = Some (g', ls)" by (rule exec_when [OF ex])
  have "evals env h T n C K g v" using assms(1) T v(1) unfolding testCode_def by blast
  moreover have "if isTruthy v then performs env h T n A K g g' ls else g' = g \<and> ls = []"
  proof (cases "isTruthy v")
    case True
    then show ?thesis using v(2) assms(2) T unfolding effectCode_def by simp
  next
    case False
    then show ?thesis using v(2) by (cases d') simp_all
  qed
  ultimately show "performs env h T n (whenCode C A) K g g' ls"
    using performs_when assms(3) by blast
qed

lemma stmtCode_while:
  assumes "testCode env T0 n c C K" and "stmtCode env T0 n b B K" and "length (whileCode C B) \<le> 0xFFFFFFFF"
  shows "stmtCode env T0 n (Stmt l (WhileStmt c b)) (whileCode C B) K"
  unfolding effectCode_def
proof (intro allI impI)
  fix d h T g g' ls
  assume T: "map_of T0 \<subseteq>\<^sub>m map_of T" "tableOk T"
    and ex: "execStmt d env h (Stmt l (WhileStmt c b)) g = Some (g', ls)"
  show "performs env h T n (whileCode C B) K g g' ls"
  proof (rule performs_while [OF _ _ assms(3) ex])
    show "evals env h T n C K g v" if "valueOf env h g c = Some v" for g v
      using assms(1) T that unfolding testCode_def by blast
    show "performs env h T n B K g g' ls" if "execStmt d env h b g = Some (g', ls)" for g g' ls d
      using assms(2) T that unfolding effectCode_def by blast
  qed
qed

subsection \<open>The compiler of statements\<close>

lemma plainMain_main:
  assumes "plainMain c"
  shows "fns c \<noteq> []" "resolveStatic x (fns c) = []" "resolveLocal x c = None" "resolveUpvalue x c = Inr (None, c)"
    "\<not> fcHarvesting (cur c)"
  using assms by (auto simp: plainMain_def resolveLocal_def resolveUpvalue_def cur_def)

lemma plainMain_loop: "plainMain (c\<lparr>loopStack := ls\<rparr>) \<longleftrightarrow> plainMain c"
  by (simp add: plainMain_def)

lemma emits_fixed:
  assumes "emits c C X d" and "plainMain c"
  shows "plainMain d" "slotTable d = slotTable c" "inReach d = inReach c" "fns d \<noteq> []"
  using assms plainMain_emits emits_names(3) code_same(2) by (auto simp: emits_def)

lemma lift_none: "cbnd (clift (Inr x)) f = f x"
  by (intro ext) (simp add: cbnd_def clift_def)

text \<open>What a compiler of statements needs of the compilers of their parts.\<close>

locale sub_stmts =
  fixes env :: vm_env and ce :: "expr \<Rightarrow> unit cact" and cs :: "stmt \<Rightarrow> unit cact" and n :: nat
  assumes test: "plainMain c \<Longrightarrow> okExpr (inReach c) n e \<Longrightarrow> makes (ce e) c (testCode env (slotTable c) n e)"
    and assign: "plainMain c \<Longrightarrow> inReach c x \<Longrightarrow> okExpr (inReach c) n v \<Longrightarrow> assigned e = Some (x, v) \<Longrightarrow>
      makes (cseq [ce e, emitOp OP_POP]) c (assignCode env (slotTable c) n x v)"
    and sub: "plainMain c \<Longrightarrow> okStmt (inReach c) n st \<Longrightarrow> makes (cs st) c (stmtCode env (slotTable c) n st)"
begin

lemma stmts_code:
  "plainMain c \<Longrightarrow> okStmts (inReach c) n ss \<Longrightarrow> makes (compileStmts cs ss) c (listCode env (slotTable c) n ss)"
proof (induction ss arbitrary: c)
  case Nil
  then show ?case
    using performs_nothing plainMain_main(1) by (auto simp: effectCode_def intro!: makes_nothing)
next
  case (Cons st ss)
  show ?case
    unfolding compileStmts.simps
  proof (rule makes_then [OF sub])
    show "makes (compileStmts cs ss) d (listCode env (slotTable c) n ss)" if "emits c C X d" for C X d
      using Cons.IH [of d] Cons.prems emits_fixed [OF that Cons.prems(1)] by simp
    show "listCode env (slotTable c) n (st # ss) (C @ D) K"
      if "stmtCode env (slotTable c) n st C K" "listCode env (slotTable c) n ss D K" for C D K
      using that by (rule listCode_seq)
  qed (use Cons.prems effectCode_pool in auto)
qed

lemma no_tasks: "okStmts known n ss \<Longrightarrow> predeclareTasks ss = cret ()"
proof (induction ss)
  case (Cons s ss)
  then have "(case s of Stmt _ (TaskStmt t) \<Rightarrow> Q t | _ \<Rightarrow> cret ()) = cret ()" for Q :: "task \<Rightarrow> unit cact"
    by (cases "(known, n, s)" rule: okStmt.cases) auto
  then show ?case using Cons by (intro ext) (simp add: cbnd_def cret_def)
qed simp

lemma block_code:
  assumes "plainMain c" and "okStmts (inReach c) n ss"
  shows "makes (compileBlock cs ss) c (stmtCode env (slotTable c) n (Stmt l (BlockStmt ss)))"
  unfolding makes_def
proof (intro allI impI)
  fix z assume z: "compileBlock cs ss c = Inr ((), z)"
  let ?b = "setCur (\<lambda>f. f\<lparr>fcDepth := fcDepth f + 1\<rparr>) c"
  obtain f where f: "fns c = [f]" "fcLocals f = []" "fcStatics f = []" "\<not> fcHarvesting f"
    using assms(1) by (auto simp: plainMain_def)
  have "predeclareLocalTasks ss ?b = Inr ((), ?b)"
    using no_tasks [OF assms(2)] by (simp add: predeclareLocalTasks_def cbnd_def cget_def cret_def)
  then obtain d where d: "compileStmts cs ss ?b = Inr ((), d)" "endScope d = Inr ((), z)"
    using z by (auto simp: compileBlock_def compiled beginScope_def)
  have b: "plainMain ?b" "slotTable ?b = slotTable c" "fns ?b = [f\<lparr>fcDepth := fcDepth f + 1\<rparr>]"
      "loopStack ?b = loopStack c" "nextGlobalSlot ?b = nextGlobalSlot c" "compiler.hadError ?b = compiler.hadError c"
    using f by (simp_all add: plainMain_def setCur_def)
  have "inReach ?b = inReach c"
    by (intro ext) (simp only: inReach_main [OF assms(1)] inReach_main [OF b(1)] b(2))
  then have "makes (compileStmts cs ss) ?b (listCode env (slotTable c) n ss)"
    using stmts_code [OF b(1)] assms(2) b(2) by simp
  then obtain C X where C: "emits ?b C X d" "accepted d \<Longrightarrow> listCode env (slotTable c) n ss C (poolOf d)"
    using d(1) unfolding makes_def by blast
  obtain ch where ch: "fns d = [f\<lparr>fcDepth := fcDepth f + 1, fcChunk := ch\<rparr>]"
    using C(1) b(3) by (auto simp: emits_def cur_def)
  then have zz: "z = setCur (\<lambda>f. f\<lparr>fcDepth := fcDepth f - 1\<rparr>) d"
    using d(2) f(2) by (simp add: endScope_def compiled deeperLocals_def setCur_def cur_def)
  have "emits c C X z"
    using C(1) b ch f(1) unfolding zz
    by (auto simp: emits_def setCur_def cur_def codeOf_def poolOf_def intro: exI [of _ ch])
  moreover have "accepted z \<longleftrightarrow> accepted d" "poolOf z = poolOf d"
    using ch unfolding zz by (simp_all add: accepted_def codeOf_def poolOf_def setCur_def cur_def)
  moreover have "stmtCode env (slotTable c) n (Stmt l (BlockStmt ss)) C K" if "listCode env (slotTable c) n ss C K" for K
    unfolding effectCode_def
  proof (intro allI impI)
    fix k h T g g' ls
    assume T: "map_of (slotTable c) \<subseteq>\<^sub>m map_of T" "tableOk T"
      and ex: "execStmt k env h (Stmt l (BlockStmt ss)) g = Some (g', ls)"
    from ex obtain j where "execList (execStmt j env h) ss g = Some (g', ls)"
      by (cases k) (auto simp: assignedBy_def)
    then show "performs env h T n C K g g' ls" using that T unfolding effectCode_def by blast
  qed
  ultimately show "\<exists>C X. emits c C X z \<and>
      (accepted z \<longrightarrow> stmtCode env (slotTable c) n (Stmt l (BlockStmt ss)) C (poolOf z))"
    using C(2) by (intro exI [of _ C] exI [of _ X]) simp
qed

lemma shift:
  assumes "emits c C X d" and "plainMain c" and "okStmt (inReach c) n st"
  shows "makes (cs st) d (stmtCode env (slotTable c) n st)"
  using sub [of d st] assms emits_fixed [OF assms(1,2)] by simp

lemma when_code:
  assumes "plainMain c" and "okStmt (inReach c) n (Stmt l (WhenStmt e a b))"
  shows "makes (compileWhen ce cs e a b) c (stmtCode env (slotTable c) n (Stmt l (WhenStmt e a b)))"
proof (cases "b = NoStmt")
  case True
  have "makes (cseq [ce e, cbnd (emitJump OP_JUMP_IF_FALSE) (\<lambda>j. cseq [cs a, patchJumpAt j])]) c
      (stmtCode env (slotTable c) n (Stmt l (WhenStmt e a NoStmt)))"
    by (rule makes_when [OF test shift]) (use assms testCode_pool stmtCode_when in auto)
  then show ?thesis using assms(2) True by (simp add: compileWhen_def lift_none)
next
  case False
  have "makes (cseq [ce e, cbnd (emitJump OP_JUMP_IF_FALSE) (\<lambda>elseJump. cseq [cs a,
      cbnd (emitJump OP_JUMP) (\<lambda>endJump. cseq [patchJumpAt elseJump, cs b, patchJumpAt endJump])])]) c
      (stmtCode env (slotTable c) n (Stmt l (WhenStmt e a b)))"
    by (rule makes_branch [OF test shift shift]) (use assms testCode_pool effectCode_pool stmtCode_when_else in auto)
  then show ?thesis using assms(2) False by (simp add: compileWhen_def lift_none)
qed

lemma while_code:
  assumes "plainMain c" and "okStmt (inReach c) n (Stmt l (WhileStmt e b))"
  shows "makes (compileWhile ce cs e b) c (stmtCode env (slotTable c) n (Stmt l (WhileStmt e b)))"
proof -
  have k: "isConstant e = Inr None" "okExpr (inReach c) n e" "okStmt (inReach c) n b" using assms(2) by simp_all
  have looped: "plainMain (c\<lparr>loopStack := ls\<rparr>)" "inReach (c\<lparr>loopStack := ls\<rparr>) = inReach c" for ls
    using assms(1) by (auto simp: plainMain_loop inReach_main)
  have "makes (cseq [startLoop, cbnd markLoopStart (\<lambda>start. cseq [ce e, cbnd (emitJump OP_JUMP_IF_FALSE)
      (\<lambda>exitJump. cseq [cs b, emitLoop start, patchJumpAt exitJump, finishLoop])])]) c
      (stmtCode env (slotTable c) n (Stmt l (WhileStmt e b)))"
  proof (rule makes_loop [OF plainMain_main(1) [OF assms(1)]])
    show "makes (ce e) (c\<lparr>loopStack := k # loopStack c\<rparr>) (testCode env (slotTable c) n e)" for k
      using test [OF looped(1)] k(2) looped(2) by simp
    show "makes (cs b) d (stmtCode env (slotTable c) n b)"
      if "emits (c\<lparr>loopStack := k # loopStack c\<rparr>) C X d" for k C X d
      using shift [OF that looped(1)] looped(2) k by simp
  qed (use testCode_pool stmtCode_while in auto)
  then show ?thesis using k(1) by (simp add: compileWhile_def lift_none)
qed

end


text \<open>\<open>compileExpr\<close> and \<open>compileStmt\<close> meet that at every fuel.\<close>

lemma test_code:
  assumes "plainMain c" and "okExpr (inReach c) n e"
  shows "makes (compileExpr d e) c (testCode env (slotTable c) n e)"
proof (rule makes_mono)
  show "makes (compileExpr d e) c (exprCode env c e)"
    using operands.sub [OF plainMain_main(1) [OF assms(1)]] assms(2) by (simp add: okExpr_def)
qed (use assms exprCode_evals in \<open>simp add: testCode_def\<close>)

lemma assigned_Some: "assigned e = Some (x, v) \<longleftrightarrow> (\<exists>l k obj t. e = Expr l k (AssignExpr x v NoExpr obj t))"
  by (cases e rule: assigned.cases) auto

lemma storeName_main:
  assumes "plainMain c" and "map_of (slotTable c) x = Some i"
  shows "storeName x c = emitOpShort OP_STORE_GLOBAL_SLOT i c"
  using plainMain_main [OF assms(1)] assms(2) by (simp add: storeName_def cbnd_def cget_def)

definition storedCode :: "vm_env \<Rightarrow> (string \<times> nat) list \<Rightarrow> nat \<Rightarrow> string \<Rightarrow> expr \<Rightarrow> byte list \<Rightarrow> const_val list \<Rightarrow> bool" where
  "storedCode env T0 n x e C K \<longleftrightarrow> (\<exists>A i. map_of T0 x = Some i \<and> C @ [opcodeByte OP_POP] = A @ storeCode i \<and>
     testCode env T0 n e A K)"

lemma assign_code:
  assumes "plainMain c" and "inReach c x" and "okExpr (inReach c) n v" and "assigned e = Some (x, v)"
  shows "makes (cseq [compileExpr d e, emitOp OP_POP]) c (assignCode env (slotTable c) n x v)"
proof (cases d)
  case 0
  then show ?thesis by (simp add: makes_def compiled)
next
  case (Suc d')
  obtain l k obj t where e: "e = Expr l k (AssignExpr x v NoExpr obj t)" using assms(4) by (auto simp: assigned_Some)
  obtain i where i: "map_of (slotTable c) x = Some i" using assms(1,2) inReach_main by auto
  have "makes (cseq [compileExpr d' v, storeName x]) a (storedCode env (slotTable c) n x v)" if a: "emits c [] [] a" for a
    unfolding cseq.simps(2) [of _ "[storeName x]"] cseq_last
  proof (rule makes_then)
    show "makes (compileExpr d' v) a (testCode env (slotTable c) n v)"
      using test_code [of a n v d' env] emits_fixed [OF a assms(1)] assms(3) by simp
    show "makes (storeName x) b (\<lambda>C K. C @ [opcodeByte OP_POP] = storeCode i)" if "emits a C X b" for C X b
    proof -
      have "plainMain b" "map_of (slotTable b) x = Some i"
        using emits_fixed(1,2) [OF emits_trans [OF a that] assms(1)] i by simp_all
      then show ?thesis
        using emits_emitOpShort plainMain_main(1) by (fastforce simp: makes_def storeName_main storeCode_def)
    qed
    show "storedCode env (slotTable c) n x v (C @ D) K"
      if "testCode env (slotTable c) n v C K" "D @ [opcodeByte OP_POP] = storeCode i" for C D K
      using that i by (auto simp: storedCode_def)
  qed (rule testCode_pool)
  then have "makes (compileExpr d e) c (storedCode env (slotTable c) n x v)"
    unfolding Suc e
    by (simp add: exprNode_def compileAssign_def makes_depthGuard [OF plainMain_main(1) [OF assms(1)]] del: cseq.simps)
  then show ?thesis
    unfolding cseq.simps(2) [of _ "[emitOp OP_POP]"] cseq_last
  proof (rule makes_then)
    show "makes (emitOp OP_POP) a (\<lambda>C K. C = [opcodeByte OP_POP])" if "emits c C X a" for C X a
      using makes_emitOp [OF emits_names(3) [OF that], of "\<lambda>C. C = [opcodeByte OP_POP]"] by simp
  qed (use testCode_pool in \<open>auto simp: storedCode_def assignCode_def\<close>)
qed

text \<open>Outside functions the fast compound assignment is not taken for a variable that has a slot.\<close>

lemma no_fast_assign:
  assumes "plainMain c" and "map_of (slotTable c) x \<noteq> None \<or> compoundOperands x v = None"
  shows "compileCompoundAssignFast x v NoExpr c = Inr (False, c)"
proof (cases "compoundOperands x v")
  case None
  then show ?thesis by (simp add: compileCompoundAssignFast_def cret_def)
next
  case (Some kr)
  then obtain i where "map_of (slotTable c) x = Some i" using assms(2) by auto
  moreover have "narrowLocal r c = None" for r
    using plainMain_main(3) [OF assms(1)] by (auto simp: narrowLocal_def split: expr.splits expr_form.splits)
  ultimately show ?thesis
    using Some plainMain_main [OF assms(1)]
    by (cases kr) (simp add: compileCompoundAssignFast_def fastGlobal_def fastGlobalSlot_def cbnd_def cget_def cret_def)
qed


lemma expression_stmt:
  assumes "plainMain c" and "map_of (slotTable c) x \<noteq> None \<or> compoundOperands x v = None" and "assigned e = Some (x, v)"
  shows "compileExpressionStmt ce e c = cseq [ce e, emitOp OP_POP] c"
  using assms(3) no_fast_assign [OF assms(1,2)]
  by (auto simp: assigned_Some compileExpressionStmt_def cbnd_def)

context sub_stmts
begin

lemma out_code:
  assumes "plainMain c" and "okExpr (inReach c) n e"
  shows "makes (compileOutStmt ce e) c (stmtCode env (slotTable c) n (Stmt l (OutStmt e)))"
  unfolding compileOutStmt_def cseq.simps(2) [of _ "[emitOp OP_PRINT_STR]"] cseq_last
proof (rule makes_then [OF test [OF assms]])
  show "makes (emitOp OP_PRINT_STR) d (\<lambda>C K. C = [opcodeByte OP_PRINT_STR])" if "emits c C X d" for C X d
    using makes_emitOp [OF emits_names(3) [OF that], of "\<lambda>C. C = [opcodeByte OP_PRINT_STR]"] by simp
qed (use testCode_pool stmtCode_out in auto)

lemma assign_stmt_code:
  assumes "plainMain c" and "okStmt (inReach c) n (Stmt l (ExpressionStmt e))"
  shows "makes (compileExpressionStmt ce e) c (stmtCode env (slotTable c) n (Stmt l (ExpressionStmt e)))"
proof -
  obtain x v where e: "assigned e = Some (x, v)" "inReach c x" "okExpr (inReach c) n v"
    using assms(2) by (auto split: option.splits)
  then have "compileExpressionStmt ce e c = cseq [ce e, emitOp OP_POP] c"
    using inReach_main [OF assms(1)] by (intro expression_stmt [OF assms(1)]) auto
  moreover have "makes (cseq [ce e, emitOp OP_POP]) c (stmtCode env (slotTable c) n (Stmt l (ExpressionStmt e)))"
    by (rule makes_mono [OF assign [OF assms(1) e(2,3,1)] stmtCode_assign]) (simp_all add: assignedBy_def e(1))
  ultimately show ?thesis by (simp only: makes_def)
qed

lemma node_code:
  assumes "plainMain c" and "okStmt (inReach c) n (Stmt l nd)"
  shows "makes (stmtNode ce cs nd) c (stmtCode env (slotTable c) n (Stmt l nd))"
proof (cases nd)
  case (OutStmt e)
  then show ?thesis using assms(2) out_code [OF assms(1)] by (simp add: stmtNode_def)
next
  case (ExpressionStmt e)
  then show ?thesis using assms(2) assign_stmt_code [OF assms(1), of l e] by (simp add: stmtNode_def)
next
  case (BlockStmt ss)
  then show ?thesis using assms(2) block_code [OF assms(1)] by (simp add: stmtNode_def)
next
  case (WhenStmt e a b)
  then show ?thesis using assms(2) when_code [OF assms(1), of l e a b] by (simp add: stmtNode_def)
next
  case (WhileStmt e b)
  then show ?thesis using assms(2) while_code [OF assms(1), of l e b] by (simp add: stmtNode_def)
qed (use assms(2) in simp_all)

end

lemma compileStmt_code: "sub_stmts env (compileExpr d) (compileStmt d) n"
proof (induction d)
  case 0
  show ?case
    by (unfold_locales, rule test_code, assumption+, rule assign_code, assumption+, simp add: makes_def)
next
  case (Suc d)
  show ?case
  proof
    fix c st assume c: "plainMain c" "okStmt (inReach c) n st"
    show "makes (compileStmt (Suc d) st) c (stmtCode env (slotTable c) n st)"
    proof (cases st)
      case NoStmt
      have "stmtCode env (slotTable c) n NoStmt [] K" for K
        unfolding effectCode_def
      proof (intro allI impI)
        fix k h T g g' ls assume "execStmt k env h NoStmt g = Some (g', ls)"
        then show "performs env h T n [] K g g' ls" using performs_nothing by (cases k) auto
      qed
      then show ?thesis using makes_nothing plainMain_main(1) [OF c(1)] NoStmt by simp
    next
      case (Stmt line nd)
      have "makes (stmtNode (compileExpr d) (compileStmt d) nd) a (stmtCode env (slotTable c) n st)"
        if a: "emits c [] [] a" for a
        using sub_stmts.node_code [OF Suc, of a line nd] emits_fixed [OF a c(1)] c(2) Stmt by simp
      then show ?thesis using makes_depthGuard plainMain_main(1) [OF c(1)] Stmt by simp
    qed
  qed (rule test_code assign_code; assumption)+
qed

interpretation statements: sub_stmts env "compileExpr d" "compileStmt d" n for env d n
  by (rule compileStmt_code)

end
