(* ===== verification/Vm_Execute.thy ===== *)
theory Vm_Execute
  imports Vm_Step
begin

text \<open>
  A program on a fresh machine: the constructor of \<open>BytecodeVM\<close>, the slots of the globals
  (\<open>initGlobalSlots\<close>) and the entry point \<open>execute\<close>, from \<open>src/vm/BytecodeVM.cpp\<close>. Functions point to
  their nested functions in the code; here a tree of functions is laid out in the list of units of the
  machine, which refer to each other by index.
\<close>

subsection \<open>The machine before it runs\<close>

function (sequential) layOut :: "nat \<Rightarrow> bfunction \<Rightarrow> code_unit list"
  and layOuts :: "nat \<Rightarrow> bfunction list \<Rightarrow> nat list \<times> code_unit list" where
  "layOut k (BFunction h c ns) = (let (ids, us) = layOuts (Suc k) ns
     in \<lparr>cuHeader = h, cuChunk = c, cuNested = ids\<rparr> # us)"
| "layOuts k [] = ([], [])"
| "layOuts k (f # fs) = (let us = layOut k f; (ids, vs) = layOuts (k + length us) fs in (k # ids, us @ vs))"
  by pat_completeness auto
termination by (relation "measure (case_sum (\<lambda>(_, f). size f) (\<lambda>(_, fs). size_list size fs))") auto

definition newVm :: "(string \<times> val) list \<Rightarrow> heap \<Rightarrow> nat \<Rightarrow> code_unit list \<Rightarrow> vm" where
  "newVm env h stackSize prog = \<lparr>mem = (\<lambda>i. VNil), stackMax = stackSize, mtop = 0, top = 0, ip = 0,
     frames = [], frameUpvalues = [], upvals = [], openUpvalues = [], tryStack = [], pendingException = VNil,
     running = False, isAsyncTask = False, vmHeap = h, program = prog, globals = env,
     globalSlots = [], maxFrames = 4096, instructionCount = 0, maxInstructions = 0,
     cxxFrameDepth = 0, startFrames = 0, pushedTasks = [], printed = []\<rparr>"

text \<open>A slot starts with the global of its name, if there is one, else with what it held or nil.\<close>

definition seedOf :: "(string \<times> val) list \<Rightarrow> string \<Rightarrow> val option" where
  "seedOf env name = (if name = [] then None else map_of env name)"

definition initGlobalSlots :: "string list \<Rightarrow> vm \<Rightarrow> vm" where
  "initGlobalSlots names s = s\<lparr>globalSlots := map (\<lambda>i. case seedOf (globals s) (names ! i) of
       Some v \<Rightarrow> v | None \<Rightarrow> if i < length (globalSlots s) then globalSlots s ! i else VNil) [0 ..< length names]\<rparr>"

subsection \<open>execute\<close>

text \<open>The frame of the main function: a dummy callee, the arguments, and nil for the other locals.\<close>

definition startMain :: "nat \<Rightarrow> val list \<Rightarrow> unit act" where
  "startMain f args = thn (push VNil) (thn (pushAll args) (bnd act_get (\<lambda>s.
     let locals = fnLocalCount (cuHeader (unitOf s f)) in
     thn (pushAll (replicate (locals - length args) VNil)) (act_upd (\<lambda>t. t\<lparr>
       frames := frames t @ [\<lparr>ffun = f, fip = 0, fslots = mtop s - length args, flocalCount = locals,
         fline = 0, fsuperCalled = False\<rparr>],
       frameUpvalues := frameUpvalues t @ [[]]\<rparr>)))))"

definition restoreState :: "vm \<Rightarrow> vm \<Rightarrow> vm" where
  "restoreState s t = t\<lparr>frames := frames s, frameUpvalues := frameUpvalues s, tryStack := tryStack s,
     mtop := mtop s, running := running s\<rparr>"

text \<open>What is left of a run; an exception nobody caught comes out as a \<open>RuntimeError\<close>.\<close>

definition finishMain :: "vm \<Rightarrow> outcome \<Rightarrow> (stop \<times> vm) + (val \<times> vm)" where
  "finishMain s r = (case r of
       Exit u \<Rightarrow>
         if pendingException u \<noteq> VNil
         then (case toString (vmHeap u) (pendingException u) of
             Inl e \<Rightarrow> Inl (Thrown e, u)
           | Inr t \<Rightarrow> Inl (Thrown (CxxRuntimeError (''uncaught: '' @ t)), (restoreState s u)\<lparr>pendingException := VNil\<rparr>))
         else Inr (if mtop u > 0 then mem u (mtop u - 1) else VNil, restoreState s u)
     | Stuck (Thrown e) u \<Rightarrow> Inl (Thrown e, restoreState s u)
     | Stuck e u \<Rightarrow> Inl (e, u)
     | Next u \<Rightarrow> Inl (OutOfFuel, u))"

definition execute :: "nat \<Rightarrow> vm_env \<Rightarrow> nat \<Rightarrow> val list \<Rightarrow> val act" where
  "execute fuel env f args s =
     (let depth = cxxFrameDepth s + (if running s then 1 else 0);
          s0 = s\<lparr>frames := [], frameUpvalues := [], tryStack := [], cxxFrameDepth := depth\<rparr>;
          leave = map_sum (map_prod id (\<lambda>t. t\<lparr>cxxFrameDepth := cxxFrameDepth s\<rparr>))
            (map_prod id (\<lambda>t. t\<lparr>cxxFrameDepth := cxxFrameDepth s\<rparr>));
          msg = ''RecursionError: maximum C++ call depth exceeded''
      in leave (if depth \<ge> 200 then Inl (Thrown (CxxRuntimeError msg), runtimeError msg s0)
         else case startMain f args (s0\<lparr>running := True\<rparr>) of
             Inl r \<Rightarrow> Inl r
           | Inr (_, t) \<Rightarrow> finishMain s (run fuel env (length (frames t)) t)))"

end
