(* ===== verification/Program_Main.thy ===== *)
theory Program_Main
  imports Program_Runs Vm_Execute
begin

text \<open>
  Whole programs: the statements at the top level, where an assignment may introduce a global, the result
  of \<open>compileFrom\<close>, and its execution on a fresh machine.
\<close>

subsection \<open>The main function between statements\<close>

definition slotsInOrder :: "compiler \<Rightarrow> bool" where
  "slotsInOrder c \<longleftrightarrow> map snd (slotTable c) = rev [0 ..< nextGlobalSlot c] \<and> distinct (map fst (slotTable c)) \<and>
     nextGlobalSlot c \<le> 65536"

definition atMain :: "compiler \<Rightarrow> bool" where
  "atMain c \<longleftrightarrow> plainMain c \<and> fcDepth (cur c) = 0 \<and> slotsInOrder c"

text \<open>Code is appended, and globals may get slots.\<close>

definition grows :: "compiler \<Rightarrow> byte list \<Rightarrow> const_val list \<Rightarrow> compiler \<Rightarrow> bool" where
  "grows c C X d \<longleftrightarrow> (\<exists>ch. fns d = [(cur c)\<lparr>fcChunk := ch\<rparr>]) \<and> codeOf d = codeOf c @ C \<and> poolOf d = poolOf c @ X \<and>
     (compiler.hadError c \<longrightarrow> compiler.hadError d) \<and> map_of (slotTable c) \<subseteq>\<^sub>m map_of (slotTable d) \<and> slotsInOrder d"

lemma grows_trans [trans]: "grows c A X d \<Longrightarrow> grows d B Y e \<Longrightarrow> grows c (A @ B) (X @ Y) e"
  by (auto simp: grows_def cur_def intro: map_le_trans)

lemma grows_main: "grows c C X d \<Longrightarrow> atMain c \<Longrightarrow> atMain d"
  by (auto simp: grows_def atMain_def plainMain_def cur_def)

lemma grows_earlier: "grows c C X d \<Longrightarrow> accepted d \<Longrightarrow> accepted c"
  by (auto simp: grows_def accepted_def)

lemma emits_grows: "emits c C X d \<Longrightarrow> atMain c \<Longrightarrow> grows c C X d"
  by (auto simp: emits_def grows_def atMain_def plainMain_def slotsInOrder_def cur_def)

lemma grows_emits: "grows c A X d \<Longrightarrow> atMain c \<Longrightarrow> emits d B Y e \<Longrightarrow> grows c (A @ B) (X @ Y) e"
  using grows_trans emits_grows grows_main by blast

lemma slot_snd:
  assumes "slotsInOrder c" and "map_of (slotTable c) x = Some i"
  shows "i < nextGlobalSlot c"
proof -
  have "i \<in> set (map snd (slotTable c))" using map_of_SomeD [OF assms(2)] by force
  then show ?thesis using assms(1) unfolding slotsInOrder_def by simp
qed

lemma slotsInOrder_tableOk:
  assumes "slotsInOrder c"
  shows "tableOk (slotTable c)"
  unfolding tableOk_def
proof (intro conjI allI impI)
  fix x y i assume "map_of (slotTable c) x = Some i \<and> map_of (slotTable c) y = Some i"
  then have "(x, i) \<in> set (slotTable c)" "(y, i) \<in> set (slotTable c)" by (auto dest: map_of_SomeD)
  moreover have "inj_on snd (set (slotTable c))"
    using assms distinct_map [of snd "slotTable c"] by (simp add: slotsInOrder_def)
  ultimately show "x = y" using inj_onD [of snd "set (slotTable c)" "(x, i)" "(y, i)"] by simp
next
  fix x i assume "map_of (slotTable c) x = Some i"
  then show "i < 65536" using slot_snd [OF assms] assms by (fastforce simp: slotsInOrder_def)
qed

lemma grows_slot:
  assumes "globalSlotFor x a = Inr (i, b)" and "atMain a" and "nextGlobalSlot a < 65536"
  shows "grows a [] [] b" and "map_of (slotTable b) x = Some i" and "nextGlobalSlot b \<le> nextGlobalSlot a + 1"
    and "dom (map_of (slotTable b)) = insert x (dom (map_of (slotTable a)))"
proof -
  obtain f where f: "fns a = [f]" using assms(2) by (auto simp: atMain_def plainMain_def)
  have *: "grows a [] [] b \<and> map_of (slotTable b) x = Some i \<and> nextGlobalSlot b \<le> nextGlobalSlot a + 1 \<and>
      dom (map_of (slotTable b)) = insert x (dom (map_of (slotTable a)))"
  proof (cases "map_of (slotTable a) x")
    case (Some j)
    then have "b = a" "i = j" using assms(1) by (simp_all add: globalSlotFor_def)
    then show ?thesis
      using Some assms(2) f by (auto simp: grows_def atMain_def cur_def intro: exI [of _ "fcChunk f"])
  next
    case None
    let ?k = "nextGlobalSlot a"
    have b: "b = a\<lparr>slotTable := (x, ?k) # slotTable a, nextGlobalSlot := ?k + 1\<rparr>" "i = ?k"
      using assms(1,3) None by (auto simp: globalSlotFor_def)
    have "x \<notin> set (map fst (slotTable a))" using None by (simp add: map_of_eq_None_iff)
    then have "slotsInOrder b" using assms(2,3) b(1) by (simp add: atMain_def slotsInOrder_def)
    moreover have "map_of (slotTable a) \<subseteq>\<^sub>m map_of (slotTable b)" using None b(1) by (auto simp: map_le_def)
    ultimately show ?thesis
      using b f by (auto simp: grows_def codeOf_def poolOf_def cur_def intro: exI [of _ "fcChunk f"])
  qed
  then show "grows a [] [] b" "map_of (slotTable b) x = Some i" "nextGlobalSlot b \<le> nextGlobalSlot a + 1"
    "dom (map_of (slotTable b)) = insert x (dom (map_of (slotTable a)))" by simp_all
qed

lemma testCode_table: "testCode env T n e C K \<Longrightarrow> map_of T \<subseteq>\<^sub>m map_of T' \<Longrightarrow> testCode env T' n e C K"
  unfolding testCode_def using map_le_trans by blast

lemma effectCode_table: "effectCode ex env T n C K \<Longrightarrow> map_of T \<subseteq>\<^sub>m map_of T' \<Longrightarrow> effectCode ex env T' n C K"
  unfolding effectCode_def using map_le_trans by blast

subsection \<open>Assignments at the top level\<close>

text \<open>What is reached when the value has been compiled, the slot chosen and the code to store it emitted.\<close>

definition assigns :: "vm_env \<Rightarrow> nat \<Rightarrow> compiler \<Rightarrow> string \<Rightarrow> expr \<Rightarrow> compiler \<Rightarrow> bool" where
  "assigns env n c x v z \<longleftrightarrow> (\<exists>C X. grows c C X z \<and> (accepted z \<longrightarrow> assignCode env (slotTable z) n x v C (poolOf z))) \<and>
     nextGlobalSlot z \<le> nextGlobalSlot c + 1 \<and> dom (map_of (slotTable z)) = insert x (dom (map_of (slotTable c)))"

lemma assign_steps:
  assumes c: "atMain c" "okExpr (inReach c) n v" "nextGlobalSlot c < 65536"
    and steps: "emits c [] [] a" "compileExpr k v a = Inr ((), p)" "globalSlotFor x p = Inr (i, q)"
      "emitOpShort OP_STORE_GLOBAL_SLOT i q = Inr ((), r)" "emits r [] [] r'" "emitOp OP_POP r' = Inr ((), s)"
      "emits s [] [] z"
  shows "assigns env n c x v z"
proof -
  have pm: "plainMain c" using c(1) by (simp add: atMain_def)
  obtain A X where A: "emits a A X p" "accepted p \<Longrightarrow> testCode env (slotTable c) n v A (poolOf p)"
    using test_code [of a n v k env] emits_fixed [OF steps(1) pm] c(2) steps(2) unfolding makes_def by auto
  have p: "emits c A X p" using emits_trans [OF steps(1) A(1)] by simp
  have cp: "grows c A X p" by (rule emits_grows [OF p c(1)])
  have mp: "atMain p" "nextGlobalSlot p = nextGlobalSlot c" "slotTable p = slotTable c"
    using grows_main [OF cp c(1)] p by (simp_all add: emits_def)
  note slot = grows_slot [OF steps(3) mp(1)]
  have cq: "grows c A X q" using grows_trans [OF cp slot(1)] mp(2) c(3) by simp
  have mq: "atMain q" by (rule grows_main [OF cq c(1)])
  have "fns q \<noteq> []" using plainMain_main(1) mq by (simp add: atMain_def)
  then have qr: "emits q [opcodeByte OP_STORE_GLOBAL_SLOT, word_of_nat (i div 256), word_of_nat i] [] r"
    by (rule emits_emitOpShort [OF steps(4)])
  have rr: "emits q [opcodeByte OP_STORE_GLOBAL_SLOT, word_of_nat (i div 256), word_of_nat i] [] r'"
    using emits_trans [OF qr steps(5)] by simp
  have "emits r' [opcodeByte OP_POP] [] s" by (rule emits_emitOp [OF steps(6) emits_names(3) [OF rr]])
  then have qz: "emits q (storeCode i) [] z"
    using emits_trans [OF rr emits_trans [OF _ steps(7)]] by (fastforce simp: storeCode_def)
  have cz: "grows c (A @ storeCode i) X z" using grows_emits [OF cq c(1) qz] by simp
  have same: "slotTable z = slotTable q" "nextGlobalSlot z = nextGlobalSlot q" using qz by (simp_all add: emits_def)
  have "assignCode env (slotTable z) n x v (A @ storeCode i) (poolOf z)" if "accepted z"
  proof -
    have "accepted p" using grows_earlier [OF slot(1)] accepted_earlier [OF qz that] mp(2) c(3) by simp
    then have "testCode env (slotTable c) n v A (poolOf p)" by (rule A(2))
    moreover have "poolOf z = poolOf p" using slot(1) qz mp(2) c(3) by (simp add: grows_def emits_def)
    moreover have "map_of (slotTable c) \<subseteq>\<^sub>m map_of (slotTable z)" using cz by (simp add: grows_def)
    ultimately have "testCode env (slotTable z) n v A (poolOf z)" using testCode_table by simp
    then show ?thesis using slot(2) same mp(2) c(3) by (auto simp: assignCode_def)
  qed
  then show ?thesis
    using cz slot(3,4) same mp(2,3) c(3) unfolding assigns_def by auto
qed


lemma unknown_operands:
  assumes "simple known v" and "\<not> known x"
  shows "compoundOperands x v = None"
  using assms by (cases "(x, v)" rule: compoundOperands.cases) auto

lemma storeName_top:
  assumes "atMain c"
  shows "storeName x c = storeGlobalSlotOf x c"
  using plainMain_main assms
  by (auto simp: atMain_def storeName_def storeGlobalSlotOf_def globalSlotFor_def cbnd_def cget_def split: option.splits)

lemma currentDepth_emits: "fns b \<noteq> [] \<Longrightarrow> emits b [] [] (b\<lparr>currentDepth := k\<rparr>)"
  by (rule emits_none) simp_all

lemma emitOpShort_ne: "emitOpShort k i q = Inr ((), r) \<Longrightarrow> fns q \<noteq> [] \<Longrightarrow> fns r \<noteq> []"
  using emits_emitOpShort emits_names(3) by blast

lemma emitOp_ne: "emitOp k q = Inr ((), r) \<Longrightarrow> fns q \<noteq> [] \<Longrightarrow> fns r \<noteq> []"
  using emits_emitOp emits_names(3) by blast

lemma globalSlotFor_fns:
  assumes "globalSlotFor x p = Inr (i, q)"
  shows "fns q = fns p"
  using assms by (auto simp: globalSlotFor_def errorAt_Inr compiled split: option.splits if_splits)

lemma assign_stored:
  assumes "atMain c" and "okExpr (inReach c) n v" and "nextGlobalSlot c < 65536" and "emits c [] [] a"
    and "compileExpr k v a = Inr ((), p)" and "storeGlobalSlotOf x p = Inr ((), r)" and "emitOp OP_POP r' = Inr ((), s)"
    and "fns r \<noteq> [] \<Longrightarrow> emits r [] [] r'" and "fns s \<noteq> [] \<Longrightarrow> emits s [] [] z" and "fns p \<noteq> []"
  shows "assigns env n c x v z"
proof -
  obtain i q where q: "globalSlotFor x p = Inr (i, q)" "emitOpShort OP_STORE_GLOBAL_SLOT i q = Inr ((), r)"
    using assms(6) by (auto simp: storeGlobalSlotOf_def compiled)
  have r: "fns r \<noteq> []" using emitOpShort_ne [OF q(2)] globalSlotFor_fns [OF q(1)] assms(10) by simp
  then have "fns r' \<noteq> []" using assms(8) emits_names(3) by blast
  then have "fns s \<noteq> []" using emitOp_ne [OF assms(7)] by blast
  then show ?thesis using assign_steps [OF assms(1-5) q assms(8) [OF r] assms(7)] assms(9) by blast
qed

lemma assign_top:
  assumes "atMain c" and "okExpr (inReach c) n v" and "nextGlobalSlot c < 65536" and "x \<noteq> ''self''" "x \<noteq> ''super''"
    and "assignedBy nd = Some (x, v)" and "compileStmt d (Stmt l nd) c = Inr ((), z)"
  shows "assigns env n c x v z"
proof -
  have pm: "plainMain c" using assms(1) by (simp add: atMain_def)
  obtain d' where d: "d = Suc d'" using assms(7) by (cases d) auto
  obtain a b where ab: "emits c [] [] a" "stmtNode (compileExpr d') (compileStmt d') nd a = Inr ((), b)"
      "z = b\<lparr>currentDepth := currentDepth b - 1\<rparr>"
    using assms(7) plainMain_main(1) [OF pm] unfolding d by (auto elim!: depthGuard_Inr)
  have ma: "atMain a" "inReach a = inReach c" "fns a \<noteq> []"
    using grows_main [OF emits_grows [OF ab(1) assms(1)] assms(1)] emits_fixed [OF ab(1) pm] by simp_all
  have pa: "plainMain a" using ma(1) by (simp add: atMain_def)
  have test: "\<exists>A X. emits a A X p" if "compileExpr k v a = Inr ((), p)" for k p
    using test_code [OF pa, of n v k env] assms(2) ma(2) that unfolding makes_def by auto
  show ?thesis
  proof (cases nd)
    case (VarDeclStmt y w)
    then have nd: "nd = VarDeclStmt x v" using assms(6) by (simp add: assignedBy_def)
    have "(if v \<noteq> NoExpr then compileExpr d' v else emitOp OP_LOAD_NIL) = compileExpr (if v = NoExpr then Suc d' else d') v"
      by simp
    then obtain p where p: "compileExpr (if v = NoExpr then Suc d' else d') v a = Inr ((), p)"
        "(if atTop p then cseq [storeGlobalSlotOf x, emitOp OP_POP]
          else cbnd (addResidentLocal x) emitStoreLocal) p = Inr ((), b)"
      using ab(2) unfolding nd stmtNode_def compileVarDecl_def by (auto simp: compiled)
    obtain A X where pe: "emits a A X p" using test [OF p(1)] by blast
    have "atTop p" using grows_main [OF emits_grows [OF pe ma(1)] ma(1)] by (simp add: atMain_def atTop_def)
    then obtain r where r: "storeGlobalSlotOf x p = Inr ((), r)" "emitOp OP_POP r = Inr ((), b)"
      using p(2) by (auto simp: compiled)
    show ?thesis
      by (rule assign_stored [OF assms(1-3) ab(1) p(1) r(1,2) emits_refl _ emits_names(3) [OF pe]])
         (use ab(3) currentDepth_emits in simp_all)
  next
    case (ExpressionStmt e)
    then have e: "assigned e = Some (x, v)" using assms(6) by (simp add: assignedBy_def)
    obtain j k obj t where ee: "e = Expr j k (AssignExpr x v NoExpr obj t)" using e by (auto simp: assigned_Some)
    have "map_of (slotTable a) x \<noteq> None \<or> compoundOperands x v = None"
      using unknown_operands [of "inReach c" v x] assms(2,4,5) ma(2) inReach_main [OF pa, of x] by (auto simp: okExpr_def)
    then have "cseq [compileExpr d' e, emitOp OP_POP] a = Inr ((), b)"
      using ab(2) expression_stmt [OF pa _ e] ExpressionStmt by (simp add: stmtNode_def)
    then obtain b3 where b3: "compileExpr d' e a = Inr ((), b3)" "emitOp OP_POP b3 = Inr ((), b)" by (auto simp: compiled)
    obtain d'' where d': "d' = Suc d''" using b3(1) by (cases d') auto
    obtain a2 b2 where a2: "emits a [] [] a2" "compileAssign (compileExpr d'') x v NoExpr obj t a2 = Inr ((), b2)"
        "b3 = b2\<lparr>currentDepth := currentDepth b2 - 1\<rparr>"
      using b3(1) ma(3) unfolding d' ee by (auto simp: exprNode_def elim!: depthGuard_Inr)
    obtain p where p: "compileExpr d'' v a2 = Inr ((), p)" "storeName x p = Inr ((), b2)"
      using a2(2) by (auto simp: compileAssign_def compiled)
    have ca2: "emits c [] [] a2" using emits_trans [OF ab(1) a2(1)] by simp
    have "atMain a2" "inReach a2 = inReach c"
      using grows_main [OF emits_grows [OF ca2 assms(1)] assms(1)] emits_fixed [OF ca2 pm] by simp_all
    then obtain A X where pe: "emits a2 A X p"
      using test_code [of a2 n v d'' env] assms(2) p(1) unfolding makes_def atMain_def by auto
    have "atMain p" using grows_main [OF emits_grows [OF pe \<open>atMain a2\<close>] \<open>atMain a2\<close>] .
    then have "storeGlobalSlotOf x p = Inr ((), b2)" using p(2) storeName_top by simp
    then show ?thesis
      by (rule assign_stored [OF assms(1-3) ca2 p(1) _ b3(2) _ _ emits_names(3) [OF pe]])
         (use ab(3) a2(3) currentDepth_emits in simp_all)
  qed (use assms(6) in \<open>simp_all add: assignedBy_def\<close>)
qed


subsection \<open>Programs\<close>

text \<open>An assignment at the top level makes its variable known to the statements that follow.\<close>

definition okTop :: "(string \<Rightarrow> bool) \<Rightarrow> nat \<Rightarrow> stmt \<Rightarrow> bool" where
  "okTop known n s = (case s of NoStmt \<Rightarrow> True | Stmt l nd \<Rightarrow> (case assignedBy nd of
       Some (x, e) \<Rightarrow> x \<noteq> ''self'' \<and> x \<noteq> ''super'' \<and> okExpr known n e
     | None \<Rightarrow> okStmt known n s))"

definition definesOf :: "stmt \<Rightarrow> string list" where
  "definesOf s = (case s of NoStmt \<Rightarrow> [] | Stmt l nd \<Rightarrow> (case assignedBy nd of Some (x, e) \<Rightarrow> [x] | None \<Rightarrow> []))"

fun okProgram :: "(string \<Rightarrow> bool) \<Rightarrow> nat \<Rightarrow> stmt list \<Rightarrow> bool" where
  "okProgram known n [] = True"
| "okProgram known n (s # ss) = (okTop known n s \<and> okProgram (\<lambda>x. known x \<or> x \<in> set (definesOf s)) n ss)"

text \<open>The last statement is not an expression, which would be the result of the program.\<close>

definition endsPlain :: "stmt list \<Rightarrow> bool" where
  "endsPlain ss \<longleftrightarrow> (ss = [] \<or> lastExpression [last ss] = None)"

lemma endsPlain_Cons: "endsPlain (s # ss) \<Longrightarrow> lastExpression (s # ss) = None \<and> endsPlain ss"
  by (cases ss) (auto simp: endsPlain_def split: if_splits)

lemma inReach_grows:
  assumes "atMain c" and "atMain z" and "dom (map_of (slotTable z)) = insert x (dom (map_of (slotTable c)))"
    and "x \<noteq> ''self''" "x \<noteq> ''super''"
  shows "inReach z = (\<lambda>y. inReach c y \<or> y \<in> {x})"
  using assms by (intro ext) (auto simp: atMain_def inReach_main dom_def set_eq_iff)

lemma top_step:
  assumes "compileStmt d s c = Inr ((), a)" and "atMain c" and "okTop (inReach c) n s" and "nextGlobalSlot c < 65536"
  obtains C X where "grows c C X a" "accepted a \<Longrightarrow> stmtCode env (slotTable a) n s C (poolOf a)"
    "nextGlobalSlot a \<le> nextGlobalSlot c + 1" "inReach a = (\<lambda>x. inReach c x \<or> x \<in> set (definesOf s))"
proof (cases "\<exists>l nd x v. s = Stmt l nd \<and> assignedBy nd = Some (x, v)")
  case True
  then obtain l nd x v where s: "s = Stmt l nd" "assignedBy nd = Some (x, v)" by blast
  have ok: "okExpr (inReach c) n v" "x \<noteq> ''self''" "x \<noteq> ''super''" using assms(3) s by (simp_all add: okTop_def)
  have "assigns env n c x v a" using assign_top assms(1,2,4) ok s by blast
  then obtain C X where C: "grows c C X a" "accepted a \<Longrightarrow> assignCode env (slotTable a) n x v C (poolOf a)"
      "nextGlobalSlot a \<le> nextGlobalSlot c + 1" "dom (map_of (slotTable a)) = insert x (dom (map_of (slotTable c)))"
    by (auto simp: assigns_def)
  have "inReach a = (\<lambda>y. inReach c y \<or> y \<in> {x})"
    by (rule inReach_grows [OF assms(2) grows_main [OF C(1) assms(2)] C(4) ok(2,3)])
  moreover have "stmtCode env (slotTable a) n s C (poolOf a)" if "accepted a"
    unfolding s(1) by (rule stmtCode_assign [OF C(2) [OF that] s(2)])
  ultimately show thesis using that [OF C(1) _ C(3)] s by (simp add: definesOf_def)
next
  case False
  then have "definesOf s = []" by (cases s) (auto simp: definesOf_def split: option.splits)
  have "okStmt (inReach c) n s"
    using False assms(3) by (cases s) (auto simp: okTop_def split: option.splits)
  then have "makes (compileStmt d s) c (stmtCode env (slotTable c) n s)"
    using statements.sub assms(2) by (simp add: atMain_def)
  then obtain C X where C: "emits c C X a" "accepted a \<Longrightarrow> stmtCode env (slotTable c) n s C (poolOf a)"
    using assms(1) unfolding makes_def by blast
  have same: "slotTable a = slotTable c" "nextGlobalSlot a = nextGlobalSlot c" "inReach a = inReach c"
    using C(1) code_same(2) by (simp_all add: emits_def)
  show thesis by (rule that [OF emits_grows [OF C(1) assms(2)]]) (use C(2) same \<open>definesOf s = []\<close> in auto)
qed

lemma program_code:
  assumes "compileProgram (compileExpr d) (compileStmt d) ss c = Inr ((), z)" and "atMain c"
    and "okProgram (inReach c) n ss" and "endsPlain ss" and "nextGlobalSlot c + length ss \<le> 65536"
  shows "\<exists>C X. grows c C X z \<and> (accepted z \<longrightarrow> listCode env (slotTable z) n ss C (poolOf z))"
  using assms
proof (induction ss arbitrary: c)
  case Nil
  then have "z = c" by (simp add: cret_def)
  moreover have "grows c [] [] c"
    using Nil.prems(2) emits_grows emits_refl plainMain_main(1) by (auto simp: atMain_def)
  moreover have "listCode env (slotTable c) n [] [] K" for K using performs_nothing by (auto simp: effectCode_def)
  ultimately show ?case by blast
next
  case (Cons s ss)
  have plain: "lastExpression (s # ss) = None" "endsPlain ss" using endsPlain_Cons Cons.prems(4) by blast+
  obtain a where a: "compileStmt d s c = Inr ((), a)" "compileProgram (compileExpr d) (compileStmt d) ss a = Inr ((), z)"
    using Cons.prems(1) plain(1) by (auto simp: compiled)
  obtain C X where C: "grows c C X a" "accepted a \<Longrightarrow> stmtCode env (slotTable a) n s C (poolOf a)"
      "nextGlobalSlot a \<le> nextGlobalSlot c + 1" "inReach a = (\<lambda>x. inReach c x \<or> x \<in> set (definesOf s))"
    by (rule top_step [OF a(1) Cons.prems(2), where n = n and env = env]) (use Cons.prems(3,5) in auto)
  obtain D Y where D: "grows a D Y z" "accepted z \<Longrightarrow> listCode env (slotTable z) n ss D (poolOf z)"
    using Cons.IH [OF a(2) grows_main [OF C(1) Cons.prems(2)]] C(3,4) Cons.prems(3,5) plain(2) by auto
  have "listCode env (slotTable z) n (s # ss) (C @ D) (poolOf z)" if z: "accepted z"
  proof (rule listCode_seq [OF _ D(2) [OF z]])
    have "stmtCode env (slotTable a) n s C (poolOf a)" using C(2) grows_earlier [OF D(1) z] by blast
    then show "stmtCode env (slotTable z) n s C (poolOf z)"
      using effectCode_table effectCode_pool D(1) by (fastforce simp: grows_def)
  qed
  then show ?case using grows_trans [OF C(1) D(1)] by blast
qed

text \<open>The names of the globals, in the order of their slots.\<close>

lemma names_in_order:
  assumes "map snd T = rev [0 ..< k]" and "k \<le> m"
  shows "foldr (\<lambda>(name, slot) names. names[slot := name]) T (replicate m []) =
    rev (map fst T) @ replicate (m - k) []"
  using assms
proof (induction T arbitrary: k)
  case (Cons e T)
  then obtain j where k: "k = Suc j" by (cases k) auto
  then obtain x where e: "e = (x, j)" "map snd T = rev [0 ..< j]" using Cons.prems(1) by (cases e) auto
  then have "length T = j" using length_map [of snd T] by simp
  moreover have "(replicate (m - j) [])[0 := x] = x # replicate (m - Suc j) []"
    using k Cons.prems(2) by (cases "m - j") auto
  ultimately show ?case using Cons.IH [OF e(2)] Cons.prems(2) k e(1) by (simp add: list_update_append)
qed simp

lemma globalNames_in_order: "slotsInOrder c \<Longrightarrow> globalNames c = rev (map fst (slotTable c))"
  using names_in_order [of "slotTable c" "nextGlobalSlot c" "nextGlobalSlot c"]
  by (simp add: globalNames_def slotsInOrder_def)

lemma name_at_slot:
  assumes "slotsInOrder c" and "map_of (slotTable c) x = Some i"
  shows "i < length (globalNames c)" and "globalNames c ! i = x"
proof -
  let ?T = "slotTable c" and ?k = "nextGlobalSlot c"
  have T: "map snd ?T = rev [0 ..< ?k]" using assms(1) by (simp add: slotsInOrder_def)
  then have len: "length ?T = ?k" using length_map [of snd ?T] by simp
  obtain j where j: "j < length ?T" "?T ! j = (x, i)"
    using map_of_SomeD [OF assms(2)] by (auto simp: in_set_conv_nth)
  have "i = map snd ?T ! j" using j by simp
  then have i: "i = ?k - Suc j" using j(1) len by (simp add: T rev_nth)
  then show "i < length (globalNames c)" "globalNames c ! i = x"
    using j len by (simp_all add: globalNames_in_order [OF assms(1)] rev_nth)
qed


text \<open>What \<open>compileFrom\<close> makes of such a program.\<close>

lemma fresh_atMain: "atMain ((newCompiler b)\<lparr>declaredTypes := ts\<rparr>)"
  by (simp add: atMain_def plainMain_def newCompiler_def newFunction_def cur_def slotsInOrder_def)

lemma compiled_program:
  assumes "compileFrom (newCompiler b) ss = Inr r" and "okProgram (\<lambda>x. False) n ss" and "endsPlain ss"
    and "length ss \<le> 65536" and "length (code (chunk_of (crMain r))) \<le> 0xFFFFFFFB"
  obtains z C where "slotsInOrder z" "crGlobals r = globalNames z" "fnLocalCount (header (crMain r)) = 0"
    "code (chunk_of (crMain r)) = C @ [opcodeByte OP_LOAD_NIL, opcodeByte OP_RETURN]"
    "listCode env (slotTable z) n ss C (constants (chunk_of (crMain r)))"
proof -
  let ?c = "(newCompiler b)\<lparr>declaredTypes := concat (map scanDeclaredType ss)\<rparr>" and ?d = "programFuel ss"
  have c: "atMain ?c" by (rule fresh_atMain)
  have none: "inReach ?c = (\<lambda>x. False)"
    using c by (intro ext) (simp add: atMain_def inReach_main newCompiler_def)
  obtain z y where z: "compileProgram (compileExpr ?d) (compileStmt ?d) ss ?c = Inr ((), z)"
      "(if compiler.hadError z then cret () else cseq [emitOp OP_LOAD_NIL, emitReturn]) z = Inr ((), y)"
      "\<not> compiler.hadError y" "r = \<lparr>crMain = mainFunction y, crGlobals = globalNames y\<rparr>"
    using assms(1) by (auto simp: compileFrom_def Let_def compiled split: sum.splits if_splits)
  have "nextGlobalSlot ?c + length ss \<le> 65536" using assms(4) by (simp add: newCompiler_def)
  with z(1) c assms(2,3) obtain C X where C: "grows ?c C X z" "accepted z \<Longrightarrow> listCode env (slotTable z) n ss C (poolOf z)"
    using program_code [of ?d ss ?c z n env] none by auto
  have z': "\<not> compiler.hadError z" using z(2,3) by (auto simp: cret_Inr)
  have mz: "atMain z" by (rule grows_main [OF C(1) c])
  then have ne: "fns z \<noteq> []" using plainMain_main(1) by (simp add: atMain_def)
  obtain w where w: "emitOp OP_LOAD_NIL z = Inr ((), w)" "emitOp OP_RETURN w = Inr ((), y)"
    using z(2) z' by (auto simp: compiled emitReturn_def)
  have zw: "emits z [opcodeByte OP_LOAD_NIL] [] w" by (rule emits_emitOp [OF w(1) ne])
  have zy: "emits z [opcodeByte OP_LOAD_NIL, opcodeByte OP_RETURN] [] y"
    using emits_trans [OF zw emits_emitOp [OF w(2) emits_names(3) [OF zw]]] by simp
  have "grows ?c (C @ [opcodeByte OP_LOAD_NIL, opcodeByte OP_RETURN]) X y"
    using grows_emits [OF C(1) c zy] by simp
  then obtain ch where ch: "fns y = [(cur ?c)\<lparr>fcChunk := ch\<rparr>]" "slotsInOrder y" "codeOf y = C @ [opcodeByte OP_LOAD_NIL, opcodeByte OP_RETURN]"
    by (auto simp: grows_def codeOf_def newCompiler_def newFunction_def emptyChunk_def cur_def)
  have main: "chunk_of (crMain r) = ch" "fnLocalCount (header (crMain r)) = 0"
    using ch(1) by (simp_all add: z(4) mainFunction_def finishedFunction_def newCompiler_def newFunction_def cur_def)
  have "codeOf y = code ch" "poolOf y = constants ch" using ch(1) by (simp_all add: codeOf_def poolOf_def cur_def)
  moreover have "poolOf y = poolOf z" "slotTable y = slotTable z" using zy by (simp_all add: emits_def)
  moreover have "accepted z" using accepted_earlier [OF zy] z(3) assms(5) main(1) \<open>codeOf y = code ch\<close> by (simp add: accepted_def)
  ultimately show thesis
    using that [of y C] ch(2,3) z(4) main C(2) by simp
qed

subsection \<open>Leaving the main function\<close>

lemma run_return:
  assumes "ready s" and "codeAt s [opcodeByte OP_RETURN]" and "top s = Suc k" and "length (frames s) = 1"
    and "fslots (curFrame s) > 0" and "startFrames s = 1" and "openUpvalues s = []"
  shows "\<exists>t. (\<forall>callF. dispatch env callF s = Exit t) \<and> printed t = printed s \<and> globalSlots t = globalSlots s \<and>
    pendingException t = pendingException s \<and> mtop t > 0 \<and> mem t (mtop t - 1) = mem s k"
proof -
  obtain fr where fr: "frames s = [fr]" using assms(4) by (cases "frames s") auto
  show ?thesis
    using assms fr
    by (cases "fslots fr") (simp_all add: dispatch_begun returnOp_def Let_def bnd_def rawPop_def curFrame_def syncIp_def updFrame_def begun_def
       closeUpvalues_def dropTryBlocks_def popFrame_def clearSlots_def settle_def finish_def)
qed


subsection \<open>From the compiler to the output\<close>

definition programVm :: "(string \<times> val) list \<Rightarrow> heap \<Rightarrow> nat \<Rightarrow> compile_result \<Rightarrow> vm" where
  "programVm builtins h stack r = initGlobalSlots (crGlobals r) (newVm builtins h stack (layOut 0 (crMain r)))"

definition startValues :: "(string \<times> val) list \<Rightarrow> string \<Rightarrow> val" where
  "startValues builtins x = (case seedOf builtins x of Some v \<Rightarrow> v | None \<Rightarrow> VNil)"

lemma slot_of_name:
  assumes "slotsInOrder c" and "i < length (globalNames c)"
  shows "map_of (slotTable c) (globalNames c ! i) = Some i"
proof -
  let ?T = "slotTable c" and ?k = "nextGlobalSlot c"
  have T: "map snd ?T = rev [0 ..< ?k]" "distinct (map fst ?T)" using assms(1) by (simp_all add: slotsInOrder_def)
  then have len: "length ?T = ?k" using length_map [of snd ?T] by simp
  have i: "i < length ?T" using assms(2) by (simp add: globalNames_in_order [OF assms(1)])
  let ?e = "?T ! (?k - Suc i)"
  have "snd ?e = map snd ?T ! (?k - Suc i)" "fst ?e = globalNames c ! i"
    using i len by (simp_all add: globalNames_in_order [OF assms(1)] rev_nth)
  then have "?e = (globalNames c ! i, i)" using i len by (simp add: T(1) rev_nth prod_eq_iff)
  moreover have "?e \<in> set ?T" using i len by (intro nth_mem) simp
  ultimately show ?thesis using map_of_is_SomeI [OF T(2)] by simp
qed

lemma start_holds:
  assumes "slotsInOrder z" and "crGlobals r = globalNames z"
  shows "holds (slotTable z) (startValues builtins) (globalSlots (programVm builtins h stack r))"
  using name_at_slot [OF assms(1)]
  by (auto simp: holds_def programVm_def initGlobalSlots_def newVm_def assms(2) startValues_def split: option.splits)

text \<open>Where \<open>execute\<close> hands the fresh machine to the dispatch loop.\<close>

definition mainStart :: "vm \<Rightarrow> vm" where
  "mainStart s = s\<lparr>mem := (mem s)(0 := VNil), mtop := 1, top := 1, ip := 0, running := True, startFrames := 1,
     frames := [\<lparr>ffun = 0, fip = 0, fslots = 1, flocalCount = 0, fline = 0, fsuperCalled = False\<rparr>],
     frameUpvalues := [[]]\<rparr>"

lemma layOut_first: "layOut k f ! 0 = \<lparr>cuHeader = header f, cuChunk = chunk_of f, cuNested = cuNested (layOut k f ! 0)\<rparr>"
  by (cases f) (simp add: Let_def split: prod.splits)

lemma execute_program:
  assumes "fnLocalCount (header (crMain r)) = 0" and "0 < stack"
  shows "execute fuel env 0 [] (programVm builtins h stack r) =
    map_sum (map_prod id (\<lambda>t. t\<lparr>cxxFrameDepth := 0\<rparr>)) (map_prod id (\<lambda>t. t\<lparr>cxxFrameDepth := 0\<rparr>))
      (finishMain (programVm builtins h stack r) (runN fuel env (mainStart (programVm builtins h stack r))))"
proof -
  let ?s = "programVm builtins h stack r"
  have "cuHeader (layOut 0 (crMain r) ! 0) = header (crMain r)" using layOut_first [of 0 "crMain r"] by (metis code_unit.select_convs(1))
  then have "startMain 0 [] (?s\<lparr>frames := [], frameUpvalues := [], tryStack := [], cxxFrameDepth := 0, running := True\<rparr>) =
      Inr ((), ?s\<lparr>frames := [\<lparr>ffun = 0, fip = 0, fslots = 1, flocalCount = 0, fline = 0, fsuperCalled = False\<rparr>],
        frameUpvalues := [[]], mem := (mem ?s)(0 := VNil), mtop := 1, running := True\<rparr>)"
    using assms
    by (simp add: startMain_def thn_def bnd_def push_def act_ret_def act_get_def act_upd_def unitOf_def Let_def
        programVm_def initGlobalSlots_def newVm_def)
  then show ?thesis
    by (simp add: execute_def Let_def run_def mainStart_def loadFrame_def curFrame_def programVm_def initGlobalSlots_def newVm_def)
qed



text \<open>\<open>x = 1; while x < 3 { out x; x = x + 1 }\<close>.\<close>

definition loopProgram :: "stmt list" where
  "loopProgram = (let x = Expr 1 1 (IdentifierExpr ''x'');
     assign = (\<lambda>e. Stmt 1 (ExpressionStmt (Expr 1 1 (AssignExpr ''x'' e NoExpr NoExpr None))))
   in [assign (litInt 1), Stmt 1 (WhileStmt (Expr 1 1 (BinaryExpr x TK_LESS (litInt 3)))
     (Stmt 1 (BlockStmt [Stmt 1 (OutStmt x), assign (Expr 1 1 (BinaryExpr x TK_PLUS (litInt 1)))])))])"

text \<open>Fuel written as a numeral, for evaluating the compiler on a program.\<close>

lemma compile_numeral:
  "compileExpr (numeral k) e = (case e of NoExpr \<Rightarrow> emitOp OP_LOAD_NIL | Expr line col nd \<Rightarrow> depthGuard line
     (exprNode (compileExpr (pred_numeral k)) (compileLambda (compileExpr (pred_numeral k)) (compileStmt (pred_numeral k))) nd))"
  "compileStmt (numeral k) s = (case s of NoStmt \<Rightarrow> cret () | Stmt line nd \<Rightarrow> depthGuard line
     (stmtNode (compileExpr (pred_numeral k)) (compileStmt (pred_numeral k)) nd))"
  unfolding numeral_eq_Suc by simp_all

lemma loop_fuel: "programFuel loopProgram = 35"
  by (simp add: programFuel_def loopProgram_def litInt_def Let_def)
lemma loop_compiles:
  obtains r where "compileFrom (newCompiler False) loopProgram = Inr r" "length (code (chunk_of (crMain r))) \<le> 0xFFFFFFFB"
    "crGlobals r = [''x'']"
proof -
  have "case compileFrom (newCompiler False) loopProgram of Inl _ \<Rightarrow> False
      | Inr r \<Rightarrow> length (code (chunk_of (crMain r))) \<le> 0xFFFFFFFB \<and> crGlobals r = [''x'']"
    unfolding compileFrom_def loop_fuel
    by (simp add: compile_numeral loopProgram_def litInt_def Let_def newCompiler_def newFunction_def newHeader_def
      emptyChunk_def cbnd_def cret_def cget_def cupd_def clift_def cur_def setCur_def depthGuard_def maxDepth_def
      exprNode_def stmtNode_def onChunk_def emitByte_def emitOp_def emitShort_def emitOpShort_def emitLoop_def writeLoop_def
      writeOp_def writeByte_def writeBytes_eq resolveLocal_def resolveUpvalue_def loadGlobalSlotOf_def storeGlobalSlotOf_def storeName_def
      globalSlotFor_def emitJump_def writeJump_def patchJumpAt_def patchJump_def be4_def compileAssign_def
      codeSize_def compileBinary_def compileIdentifier_def compileLiteral_def emitReturn_def
      makeConstant_def emitConstant_def addConstant_def binaryOpcode_def identityOperand_def 
      compileExpressionStmt_def compileCompoundAssignFast_def fastGlobal_def fastGlobalSlot_def narrowLocal_def
      compileOutStmt_def compileBlock_def compileWhile_def startLoop_def markLoopStart_def setLoop_def finishLoop_def endLoop_def
      beginScope_def endScope_def deeperLocals_def predeclareLocalTasks_def atTop_def
      mainFunction_def finishedFunction_def globalNames_def)
  then show thesis using that by (auto split: sum.splits)
qed

lemma loop_interpreted:
  "\<exists>g. execList (execStmt (Suc (Suc (Suc (Suc (Suc 0))))) plainEnv []) loopProgram (startValues []) = Some (g, [''1'', ''2''])"
proof -
  have "showInt 1 = ''1''" "showInt 2 = ''2''" by code_simp+
  then show ?thesis
    by (simp add: loopProgram_def litInt_def Let_def assignedBy_def andThen_def valueOf_def binaryResult_def
        vmBinary_def vm_ops wrapAdd_def printText_def word_sless_alt)
qed


subsection \<open>Constant conditions\<close>


end
