(* ===== verification/Compile_Inv.thy ===== *)
theory Compile_Inv
  imports Compile_Main
begin

text \<open>
  What every operation of the compiler keeps, for the operations of \<open>Compiler_Core\<close>: the functions
  being compiled stay well-formed, and the frame of the state (open try blocks and scope depth of
  every function, and the contract in force) is known. \<open>runsTo F m G Q\<close> says that \<open>m\<close> takes a
  well-formed state of frame \<open>F\<close> to one of frame \<open>G\<close> with a result in \<open>Q\<close>, or stops for another reason
  than missing fuel.
\<close>

subsection \<open>Well-formed functions\<close>

text \<open>
  The table of call sites that \<open>calleeNameAt\<close> searches: strictly sorted, inside the code. The offsets
  are 32 bits wide, so the code must be shorter than that.
\<close>

definition sitesOk :: "nat \<Rightarrow> callSite list \<Rightarrow> bool" where
  "sitesOk n cs \<longleftrightarrow> n < 2 ^ 32 \<longrightarrow>
     sorted_wrt (<) (map csOffset cs) \<and> (\<forall>x\<in>set cs. unat (csOffset x) \<le> n)"

definition headerOk :: "fn_header \<Rightarrow> bool" where
  "headerOk h \<longleftrightarrow> fnUpvalueCount h = length (fnUpvalues h)"

fun wfFunction :: "bfunction \<Rightarrow> bool" where
  "wfFunction (BFunction h c ns) \<longleftrightarrow> chunk_inv c \<and> sitesOk (length (code c)) (fnCallSites h) \<and>
     headerOk h \<and> length (fnUpvalues h) \<le> 255 \<and> fnLocalCount h \<le> 65535 \<and> (\<forall>f\<in>set ns. wfFunction f)"

text \<open>
  The same for a function being compiled; the two limits are enforced until an error is recorded,
  and after that no program results.
\<close>

definition wfNested :: "bool \<Rightarrow> bfunction list \<Rightarrow> bool" where
  "wfNested failed fs \<longleftrightarrow> failed \<or> (\<forall>f\<in>set fs. wfFunction f)"

definition wfFc :: "bool \<Rightarrow> fn_compiler \<Rightarrow> bool" where
  "wfFc failed c \<longleftrightarrow> chunk_inv (fcChunk c) \<and>
     sitesOk (length (code (fcChunk c))) (fnCallSites (fcHeader c)) \<and>
     headerOk (fcHeader c) \<and> fnUpvalues (fcHeader c) = fcUpvalues c \<and>
     (failed \<or> length (fcUpvalues c) \<le> 255) \<and>
     length (fcLocals c) \<le> fcMaxLocals c \<and> (failed \<or> fcMaxLocals c \<le> 65535) \<and>
     wfNested failed (fcNested c)"

definition wfCompiler :: "compiler \<Rightarrow> bool" where
  "wfCompiler s \<longleftrightarrow> fns s \<noteq> [] \<and> (\<forall>c\<in>set (fns s). wfFc (hadError s) c)"

record cframe =
  frActives :: "activeTry list list"
  frDepths :: "nat list"
  frEnsures :: "(expr \<times> string) list"

definition frameOf :: "compiler \<Rightarrow> cframe" where
  "frameOf s = \<lparr>frActives = map fcActives (fns s), frDepths = map fcDepth (fns s), frEnsures = ensures s\<rparr>"

definition runsTo :: "cframe \<Rightarrow> 'a cact \<Rightarrow> cframe \<Rightarrow> ('a \<Rightarrow> bool) \<Rightarrow> bool" where
  "runsTo F m G Q \<longleftrightarrow> (\<forall>s. wfCompiler s \<and> frameOf s = F \<longrightarrow>
     (case m s of Inl e \<Rightarrow> e \<noteq> OutOfFuel | Inr (a, t) \<Rightarrow> wfCompiler t \<and> frameOf t = G \<and> Q a))"

abbreviation runs :: "cframe \<Rightarrow> 'a cact \<Rightarrow> bool" where
  "runs F m \<equiv> runsTo F m F (\<lambda>_. True)"

named_theorems running \<open>what the operations of the compiler keep\<close>

lemma runsToI:
  assumes "\<And>s. wfCompiler s \<Longrightarrow> frameOf s = F \<Longrightarrow>
     (case m s of Inl e \<Rightarrow> e \<noteq> OutOfFuel | Inr (a, t) \<Rightarrow> wfCompiler t \<and> frameOf t = G \<and> Q a)"
  shows "runsTo F m G Q"
  unfolding runsTo_def using assms by blast

lemma runsToD:
  assumes "runsTo F m G Q" and "wfCompiler s" and "frameOf s = F"
  shows "m s \<noteq> Inl OutOfFuel" and "m s = Inr (a, t) \<Longrightarrow> wfCompiler t \<and> frameOf t = G \<and> Q a"
proof -
  have r: "case m s of Inl e \<Rightarrow> e \<noteq> OutOfFuel | Inr (a, t) \<Rightarrow> wfCompiler t \<and> frameOf t = G \<and> Q a"
    using assms unfolding runsTo_def by blast
  show "m s \<noteq> Inl OutOfFuel" using r by (cases "m s") auto
  show "m s = Inr (a, t) \<Longrightarrow> wfCompiler t \<and> frameOf t = G \<and> Q a" using r by simp
qed

lemma runsTo_weaken:
  assumes "runsTo F m G Q" and "\<And>a. Q a \<Longrightarrow> R a"
  shows "runsTo F m G R"
proof (rule runsToI)
  fix s assume s: "wfCompiler s" "frameOf s = F"
  show "case m s of Inl e \<Rightarrow> e \<noteq> OutOfFuel | Inr (a, t) \<Rightarrow> wfCompiler t \<and> frameOf t = G \<and> R a"
    using runsToD [OF assms(1) s] assms(2) by (cases "m s") auto
qed

subsection \<open>Composition\<close>

lemma runsTo_cbnd:
  assumes "runsTo F m G Q" and "\<And>a. Q a \<Longrightarrow> runsTo G (n a) H R"
  shows "runsTo F (cbnd m n) H R"
proof (rule runsToI)
  fix s assume s: "wfCompiler s" "frameOf s = F"
  show "case cbnd m n s of Inl e \<Rightarrow> e \<noteq> OutOfFuel | Inr (a, t) \<Rightarrow> wfCompiler t \<and> frameOf t = H \<and> R a"
  proof (cases "m s")
    case (Inl e)
    then show ?thesis using runsToD(1) [OF assms(1) s] by (simp add: cbnd_def)
  next
    case (Inr r)
    obtain a t where r: "r = (a, t)" by (cases r)
    then have "wfCompiler t" "frameOf t = G" "Q a"
      using runsToD(2) [OF assms(1) s] Inr by auto
    then show ?thesis using assms(2) Inr r by (simp add: cbnd_def runsTo_def)
  qed
qed

lemma runs_cbnd [running]:
  assumes "runs F m" and "\<And>a. runsTo F (n a) G Q"
  shows "runsTo F (cbnd m n) G Q"
  using runsTo_cbnd [OF assms(1)] assms(2) by blast

lemma runs_cret [running]: "runs F (cret a)"
  by (simp add: runsTo_def cret_def)

lemma runs_cret_value: "Q a \<Longrightarrow> runsTo F (cret a) F Q"
  by (simp add: runsTo_def cret_def)

lemma runs_cget [running]: "runs F (cget f)"
  by (simp add: runsTo_def cget_def)

lemma runs_clift [running]: "runs F (clift r)"
  by (auto simp: runsTo_def clift_def split: sum.splits)

lemma runs_stop [running]: "e \<noteq> OutOfFuel \<Longrightarrow> runsTo F (\<lambda>s. Inl e) G Q"
  by (simp add: runsTo_def)

lemma runs_cseq_Nil [running]: "runs F (cseq [])"
  by (simp add: runs_cret)

lemma runs_cseq_Cons [running]: "runs F m \<Longrightarrow> runsTo F (cseq ms) G Q \<Longrightarrow> runsTo F (cseq (m # ms)) G Q"
  by (simp add: runs_cbnd)

lemma runsTo_cseq:
  "runsTo F m G (\<lambda>_. True) \<Longrightarrow> runsTo G (cseq ms) H Q \<Longrightarrow> runsTo F (cseq (m # ms)) H Q"
  by (auto intro: runsTo_cbnd)

lemma runs_if [running]:
  "(b \<Longrightarrow> runsTo F m G Q) \<Longrightarrow> (\<not> b \<Longrightarrow> runsTo F n G Q) \<Longrightarrow> runsTo F (if b then m else n) G Q"
  by simp

lemma runs_option [running]:
  "(x = None \<Longrightarrow> runsTo F m G Q) \<Longrightarrow> (\<And>a. x = Some a \<Longrightarrow> runsTo F (n a) G Q) \<Longrightarrow>
     runsTo F (case x of None \<Rightarrow> m | Some a \<Rightarrow> n a) G Q"
  by (cases x) auto

lemma runs_prod [running]:
  "(\<And>a b. x = (a, b) \<Longrightarrow> runsTo F (n a b) G Q) \<Longrightarrow> runsTo F (case x of (a, b) \<Rightarrow> n a b) G Q"
  by (cases x) auto

lemma runs_list [running]:
  "(x = [] \<Longrightarrow> runsTo F m G Q) \<Longrightarrow> (\<And>a as. x = a # as \<Longrightarrow> runsTo F (n a as) G Q) \<Longrightarrow>
     runsTo F (case x of [] \<Rightarrow> m | a # as \<Rightarrow> n a as) G Q"
  by (cases x) auto

text \<open>Reading something the frame determines.\<close>

lemma runs_frame_get:
  assumes "\<And>s. fns s \<noteq> [] \<Longrightarrow> frameOf s = F \<Longrightarrow> g s = x" and "runsTo F (n x) G Q"
  shows "runsTo F (cbnd (cget g) n) G Q"
  using assms by (auto simp: runsTo_def cbnd_def cget_def wfCompiler_def)

subsection \<open>Updates\<close>

lemma runs_cupd:
  assumes "\<And>s. wfCompiler s \<Longrightarrow> frameOf s = F \<Longrightarrow> wfCompiler (f s) \<and> frameOf (f s) = G"
  shows "runsTo F (cupd f) G (\<lambda>_. True)"
  using assms by (simp add: runsTo_def cupd_def)

lemma frameOf_setCur:
  assumes "fns s \<noteq> []" and "fcActives (f (cur s)) = fcActives (cur s)" and "fcDepth (f (cur s)) = fcDepth (cur s)"
  shows "frameOf (setCur f s) = frameOf s"
  using assms by (cases "fns s") (auto simp: frameOf_def setCur_def cur_def)

lemma wfCompiler_setCur:
  assumes "wfCompiler s" and "wfFc (hadError s) (cur s) \<Longrightarrow> wfFc (hadError s) (f (cur s))"
  shows "wfCompiler (setCur f s)"
  using assms by (cases "fns s") (auto simp: wfCompiler_def setCur_def cur_def)

lemma wfCompiler_cur: "wfCompiler s \<Longrightarrow> wfFc (hadError s) (cur s) \<and> fns s \<noteq> []"
  by (cases "fns s") (auto simp: wfCompiler_def cur_def)

lemma runs_setCur:
  assumes "\<And>b c s. wfFc b c \<Longrightarrow> wfFc b (f s c) \<and> fcActives (f s c) = fcActives c \<and> fcDepth (f s c) = fcDepth c"
  shows "runs F (cupd (\<lambda>s. setCur (f s) s))"
proof (rule runs_cupd)
  fix s assume "wfCompiler s" "frameOf s = F"
  moreover from this have "wfFc (hadError s) (cur s)" "fns s \<noteq> []" using wfCompiler_cur by auto
  ultimately show "wfCompiler (setCur (f s) s) \<and> frameOf (setCur (f s) s) = F"
    using assms [of "hadError s" "cur s"] wfCompiler_setCur [of s "f s"] frameOf_setCur [of s "f s"] by simp
qed

lemma wfFc_irrelevant:
  "wfFc b (c\<lparr>fcStatics := x\<rparr>) = wfFc b c" "wfFc b (c\<lparr>fcClass := y\<rparr>) = wfFc b c"
  "wfFc b (c\<lparr>fcParentClass := y\<rparr>) = wfFc b c" "wfFc b (c\<lparr>fcActives := A\<rparr>) = wfFc b c"
  "wfFc b (c\<lparr>fcDepth := n\<rparr>) = wfFc b c" "wfFc b (c\<lparr>fcCaches := n\<rparr>) = wfFc b c"
  by (simp_all add: wfFc_def)

text \<open>A change of fields outside the functions and the contract.\<close>

lemma runs_outer:
  assumes "\<And>s. fns (f s) = fns s" and "\<And>s. ensures (f s) = ensures s" and "\<And>s. hadError (f s) = hadError s"
  shows "runs F (cupd f)"
  using assms by (intro runs_cupd) (simp add: wfCompiler_def frameOf_def)

lemma runs_outer_updates [running]:
  "runs F (cupd (\<lambda>s. s\<lparr>currentLine := n\<rparr>))"
  "runs F (cupd (\<lambda>s. s\<lparr>currentDepth := g s\<rparr>))"
  "runs F (cupd (\<lambda>s. s\<lparr>oldCaptures := h s\<rparr>))"
  "runs F (cupd (\<lambda>s. s\<lparr>declaredTypes := k s\<rparr>))"
  "runs F (cupd (\<lambda>s. s\<lparr>loopStack := l s\<rparr>))"
  by (rule runs_outer; simp)+

subsection \<open>Errors\<close>

lemma runs_errorAt [running]: "runs F (errorAt msg)"
  by (simp add: runsTo_def errorAt_def)

lemma wfFc_failed: "wfFc b c \<Longrightarrow> wfFc True c"
  by (auto simp: wfFc_def wfNested_def)

lemma runs_recordError [running]: "runs F (recordError msg)"
  unfolding recordError_def
  by (rule runs_cupd) (auto simp: wfCompiler_def frameOf_def dest: wfFc_failed)

subsection \<open>Emission\<close>

lemma sitesOk_mono: "sitesOk m cs \<Longrightarrow> m \<le> n \<Longrightarrow> sitesOk n cs"
  by (fastforce simp: sitesOk_def)

lemma wfFc_chunk:
  assumes "wfFc b c" and "chunk_inv ch" and "length (code (fcChunk c)) \<le> length (code ch)"
  shows "wfFc b (c\<lparr>fcChunk := ch\<rparr>)"
  using assms sitesOk_mono by (fastforce simp: wfFc_def)

lemma runs_onChunk:
  assumes "\<And>l ch. chunk_inv ch \<Longrightarrow> chunk_inv (f l ch) \<and> length (code ch) \<le> length (code (f l ch))"
  shows "runs F (onChunk f)"
  unfolding onChunk_def
proof (rule runs_setCur)
  fix b c s assume "wfFc b c"
  moreover then have "chunk_inv (fcChunk c)" by (simp add: wfFc_def)
  ultimately show "wfFc b (c\<lparr>fcChunk := f (currentLine s) (fcChunk c)\<rparr>) \<and>
      fcActives (c\<lparr>fcChunk := f (currentLine s) (fcChunk c)\<rparr>) = fcActives c \<and>
      fcDepth (c\<lparr>fcChunk := f (currentLine s) (fcChunk c)\<rparr>) = fcDepth c"
    using assms wfFc_chunk by simp
qed

lemma runs_emitByte [running]: "runs F (emitByte b)"
  unfolding emitByte_def by (rule runs_onChunk) (simp add: chunk_inv_writers)

lemma runs_emitOp [running]: "runs F (emitOp k)"
  unfolding emitOp_def by (rule runs_onChunk) (simp add: chunk_inv_writers)

lemma runs_emitters [running]:
  "runs F (emitOpByte k b)" "runs F (emitShort n)" "runs F (emitOpShort k n)" "runs F emitReturn"
  unfolding emitOpByte_def emitShort_def emitOpShort_def emitReturn_def by (intro running)+

lemma length_writeLoop: "length (code ch) \<le> length (code (writeLoop n l ch))"
  by (simp add: writeLoop_def Let_def)

lemma runs_emitLoop [running]: "runs F (emitLoop n)"
  unfolding emitLoop_def by (rule runs_onChunk) (simp add: chunk_inv_writers length_writeLoop)

lemma runs_emitJump [running]: "runs F (emitJump k)"
proof -
  have "runs F (onChunk (writeJump k))" by (rule runs_onChunk) (simp add: chunk_inv_writers)
  then show ?thesis unfolding emitJump_def by (intro running)
qed

lemma addConstant_chunk:
  assumes "addConstant ch c = (i, ch')"
  shows "code ch' = code ch" and "clines ch' = clines ch"
  using assms by (auto simp: addConstant_def split: option.splits)

lemma runs_makeConstant [running]: "runs F (makeConstant c)"
proof (rule runsToI)
  fix s assume s: "wfCompiler s" "frameOf s = F"
  obtain i ch where a: "addConstant (fcChunk (cur s)) c = (i, ch)" by fastforce
  have w: "wfFc (hadError s) (cur s)" "fns s \<noteq> []" using wfCompiler_cur [OF s(1)] by auto
  then have "wfFc (hadError s) ((cur s)\<lparr>fcChunk := ch\<rparr>)"
    using addConstant_chunk [OF a] by (intro wfFc_chunk) (auto simp: wfFc_def chunk_inv_def)
  then show "case makeConstant c s of Inl e \<Rightarrow> e \<noteq> OutOfFuel
      | Inr (a, t) \<Rightarrow> wfCompiler t \<and> frameOf t = F \<and> True"
    using s w a wfCompiler_setCur [of s "\<lambda>fc. fc\<lparr>fcChunk := ch\<rparr>"] frameOf_setCur [of s "\<lambda>fc. fc\<lparr>fcChunk := ch\<rparr>"]
    by (simp add: makeConstant_def)
qed

lemma runs_constants [running]:
  "runs F (identifierConstant name)" "runs F (emitConstant c)" "runs F (emitNamed k name)"
  unfolding identifierConstant_def emitConstant_def emitNamed_def by (intro running)+

lemma patchJump_length: "patchJump n ch = Some ch' \<Longrightarrow> length (code ch') = length (code ch)"
  by (auto simp: patchJump_def Let_def split: if_splits)

lemma runs_patchJumpAt [running]: "runs F (patchJumpAt offset)"
proof (rule runsToI)
  fix s assume s: "wfCompiler s" "frameOf s = F"
  have w: "wfFc (hadError s) (cur s)" "fns s \<noteq> []" using wfCompiler_cur [OF s(1)] by auto
  show "case patchJumpAt offset s of Inl e \<Rightarrow> e \<noteq> OutOfFuel
      | Inr (a, t) \<Rightarrow> wfCompiler t \<and> frameOf t = F \<and> True"
  proof (cases "patchJump offset (fcChunk (cur s))")
    case None
    then show ?thesis by (simp add: patchJumpAt_def)
  next
    case (Some ch)
    then have "wfFc (hadError s) ((cur s)\<lparr>fcChunk := ch\<rparr>)"
      using w patchJump_length [OF Some] chunk_inv_writers(6) [OF _ Some]
      by (intro wfFc_chunk) (auto simp: wfFc_def)
    then show ?thesis
      using s w Some wfCompiler_setCur [of s "\<lambda>fc. fc\<lparr>fcChunk := ch\<rparr>"] frameOf_setCur [of s "\<lambda>fc. fc\<lparr>fcChunk := ch\<rparr>"]
      by (simp add: patchJumpAt_def)
  qed
qed

lemma runs_emitCacheIndex [running]: "runs F (emitCacheIndex)"
proof -
  have "runs F (cupd (\<lambda>s. setCur (\<lambda>c. c\<lparr>fcCaches := fcCaches c + 1\<rparr>) s))"
    by (rule runs_setCur) (simp add: wfFc_irrelevant)
  then show ?thesis unfolding emitCacheIndex_def by (intro running) simp
qed

lemma runs_locals [running]: "runs F (emitLoadLocal n)" "runs F (emitStoreLocal n)"
  unfolding emitLoadLocal_def emitStoreLocal_def by (intro running)+

subsection \<open>Call sites\<close>

text \<open>A call site is recorded right after code was emitted, so its offset is new.\<close>

lemma sitesOk_snoc:
  assumes "sitesOk m cs" and "m < n"
  shows "sitesOk n (cs @ [\<lparr>csOffset = word_of_nat n, csName = x\<rparr>])"
proof (cases "n < 2 ^ 32")
  case True
  then have n: "unat (word_of_nat n :: u32) = n" by (simp add: unat_of_nat take_bit_eq_mod)
  have "csOffset y < word_of_nat n" if "y \<in> set cs" for y
    using assms that True n by (auto simp: sitesOk_def word_less_nat_alt)
  then show ?thesis
    using assms True n by (fastforce simp: sitesOk_def sorted_wrt_append)
next
  case False
  then show ?thesis by (simp add: sitesOk_def)
qed

definition strictSites :: "fn_compiler \<Rightarrow> bool" where
  "strictSites c \<longleftrightarrow> (\<exists>m < length (code (fcChunk c)). sitesOk m (fnCallSites (fcHeader c)))"

lemma emitByte_strict:
  assumes "wfCompiler s" and "emitByte b s = Inr (a, t)"
  shows "strictSites (cur t)"
  using assms wfCompiler_cur [OF assms(1)]
  by (cases "fns s") (auto simp: emitByte_def onChunk_def cupd_def setCur_def cur_def strictSites_def wfFc_def)

lemma emitOp_strict:
  assumes "wfCompiler s" and "emitOp k s = Inr (a, t)"
  shows "strictSites (cur t)"
  using assms wfCompiler_cur [OF assms(1)]
  by (cases "fns s") (auto simp: emitOp_def onChunk_def cupd_def setCur_def cur_def strictSites_def wfFc_def)

lemma recordCallSite_runs:
  assumes s: "wfCompiler s" "frameOf s = F" and strict: "strictSites (cur s)"
  shows "case recordCallSite name s of Inl e \<Rightarrow> e \<noteq> OutOfFuel
    | Inr (a, t) \<Rightarrow> wfCompiler t \<and> frameOf t = F \<and> True"
proof -
  let ?f = "\<lambda>c. c\<lparr>fcHeader := (fcHeader c)\<lparr>fnCallSites := fnCallSites (fcHeader c) @
       [\<lparr>csOffset = word_of_nat (codeSize s), csName = name\<rparr>]\<rparr>\<rparr>"
  have w: "wfFc (hadError s) (cur s)" "fns s \<noteq> []" using wfCompiler_cur [OF s(1)] by auto
  have "wfFc (hadError s) (?f (cur s))"
    using w strict sitesOk_snoc by (auto simp: wfFc_def strictSites_def codeSize_def headerOk_def)
  then show ?thesis
    using s w wfCompiler_setCur [of s ?f] frameOf_setCur [of s ?f]
    by (simp add: recordCallSite_def cret_def cupd_def)
qed

lemma runs_record_after:
  assumes "runs F m" and strict: "\<And>s a t. wfCompiler s \<Longrightarrow> m s = Inr (a, t) \<Longrightarrow> strictSites (cur t)"
  shows "runs F (cseq [m, recordCallSite name])"
proof (rule runsToI)
  fix s assume s: "wfCompiler s" "frameOf s = F"
  show "case cseq [m, recordCallSite name] s of Inl e \<Rightarrow> e \<noteq> OutOfFuel
    | Inr (a, t) \<Rightarrow> wfCompiler t \<and> frameOf t = F \<and> True"
  proof (cases "m s")
    case (Inl e)
    then show ?thesis using runsToD(1) [OF assms(1) s] by (simp add: cbnd_def)
  next
    case (Inr r)
    obtain a t where r: "r = (a, t)" by (cases r)
    then have t: "wfCompiler t" "frameOf t = F" "strictSites (cur t)"
      using runsToD(2) [OF assms(1) s] strict [OF s(1)] Inr by auto
    from recordCallSite_runs [OF this, of name] show ?thesis
      using Inr r by (auto simp: cbnd_def cret_def split: sum.splits)
  qed
qed

lemma emitOpByte_strict:
  assumes s: "wfCompiler s" and e: "emitOpByte k b s = Inr (a, t)"
  shows "strictSites (cur t)"
proof -
  from e obtain x u where u: "emitOp k s = Inr (x, u)" and t: "emitByte b u = Inr ((), t)"
    by (auto simp: emitOpByte_def cbnd_def cret_def split: sum.splits)
  have "wfCompiler u" using runsToD(2) [OF runs_emitOp s refl u] by blast
  then show ?thesis using t by (rule emitByte_strict)
qed

lemma runs_record [running]:
  "runs F (cseq [emitByte b, recordCallSite name])"
  "runs F (cseq [emitOp k, recordCallSite name])"
  "runs F (cseq [emitOpByte k b, recordCallSite name])"
  by (rule runs_record_after, intro running, erule emitByte_strict emitOp_strict emitOpByte_strict, assumption)+

subsection \<open>Scopes and locals\<close>

definition mapHead :: "('a \<Rightarrow> 'a) \<Rightarrow> 'a list \<Rightarrow> 'a list" where
  "mapHead f xs = (case xs of [] \<Rightarrow> [] | x # xs \<Rightarrow> f x # xs)"

lemma mapHead_simps [simp]: "mapHead f [] = []" "mapHead f (x # xs) = f x # xs"
  by (simp_all add: mapHead_def)

definition deeper :: "cframe \<Rightarrow> cframe" where
  "deeper F = F\<lparr>frDepths := mapHead Suc (frDepths F)\<rparr>"

lemma runs_beginScope: "runsTo F beginScope (deeper F) (\<lambda>_. True)"
  unfolding beginScope_def
proof (rule runs_cupd)
  fix s assume s: "wfCompiler s" "frameOf s = F"
  then have "wfCompiler (setCur (\<lambda>c. c\<lparr>fcDepth := fcDepth c + 1\<rparr>) s)"
    by (intro wfCompiler_setCur) (simp_all add: wfFc_irrelevant)
  with s show "wfCompiler (setCur (\<lambda>c. c\<lparr>fcDepth := fcDepth c + 1\<rparr>) s) \<and>
      frameOf (setCur (\<lambda>c. c\<lparr>fcDepth := fcDepth c + 1\<rparr>) s) = deeper F"
    by (cases "fns s") (auto simp: wfCompiler_def frameOf_def setCur_def deeper_def)
qed

text \<open>Leaving the scope undoes exactly what entering it did to the frame.\<close>

lemma runs_lowerDepth:
  "runsTo (deeper F) (cupd (setCur (\<lambda>c. c\<lparr>fcDepth := fcDepth c - 1\<rparr>))) F (\<lambda>_. True)"
proof (rule runs_cupd)
  fix s assume s: "wfCompiler s" "frameOf s = deeper F"
  then have "wfCompiler (setCur (\<lambda>c. c\<lparr>fcDepth := fcDepth c - 1\<rparr>) s)"
    by (intro wfCompiler_setCur) (simp_all add: wfFc_irrelevant)
  moreover obtain ds where "frDepths F = ds" by blast
  ultimately show "wfCompiler (setCur (\<lambda>c. c\<lparr>fcDepth := fcDepth c - 1\<rparr>) s) \<and>
      frameOf (setCur (\<lambda>c. c\<lparr>fcDepth := fcDepth c - 1\<rparr>) s) = F"
    using s by (cases "fns s"; cases ds; cases F) (auto simp: wfCompiler_def frameOf_def setCur_def deeper_def)
qed

lemma headerOk_setInfoEnd: "headerOk (setInfoEnd i pc h) = headerOk h"
  "fnUpvalues (setInfoEnd i pc h) = fnUpvalues h" "fnCallSites (setInfoEnd i pc h) = fnCallSites h"
  by (simp_all add: headerOk_def setInfoEnd_def)

lemma runs_dropLocal [running]: "runs F dropLocal"
proof -
  have info: "runs F (cupd (\<lambda>s. setCur (\<lambda>c. c\<lparr>fcHeader := setInfoEnd i (codeSize s) (fcHeader c)\<rparr>) s))" for i
    by (rule runs_setCur) (simp add: wfFc_def headerOk_setInfoEnd)
  have but: "runs F (cupd (\<lambda>s. setCur (\<lambda>c. c\<lparr>fcLocals := butlast (fcLocals c)\<rparr>) s))"
    by (rule runs_setCur) (auto simp: wfFc_def)
  show ?thesis unfolding dropLocal_def by (intro running info) (rule but)
qed

lemma runs_dropLocals [running]: "runs F (dropLocals n)"
proof (induction n)
  case (Suc n)
  show ?case unfolding dropLocals.simps by (intro running Suc)
qed (simp add: runs_cret)

lemma runs_endScope: "runsTo (deeper F) endScope F (\<lambda>_. True)"
  unfolding endScope_def
  by (rule runsTo_cbnd [OF runs_lowerDepth]) (intro running)

text \<open>Code between entering and leaving a scope.\<close>

lemma runs_scoped [running]:
  "runs (deeper F) m \<Longrightarrow> runs F (cseq [beginScope, m, endScope])"
  "runs (deeper F) m \<Longrightarrow> runs (deeper F) n \<Longrightarrow> runs F (cseq [beginScope, m, n, endScope])"
  unfolding cseq.simps
  by (rule runsTo_cbnd [OF runs_beginScope], rule runs_cbnd, assumption,
      (rule runs_cbnd, assumption)?, rule runsTo_cbnd [OF runs_endScope], rule runs_cret)+

lemma runs_addLocal [running]: "runs F (addLocal name b)"
proof (rule runsToI)
  fix s assume s: "wfCompiler s" "frameOf s = F"
  then obtain c cs where c: "fns s = c # cs" by (cases "fns s") (auto simp: wfCompiler_def)
  then have "wfFc (hadError s) c" "\<forall>d\<in>set cs. wfFc (hadError s) d" using s(1) by (auto simp: wfCompiler_def)
  then show "case addLocal name b s of Inl e \<Rightarrow> e \<noteq> OutOfFuel
      | Inr (a, t) \<Rightarrow> wfCompiler t \<and> frameOf t = F \<and> True"
    using s(2) c
    by (auto simp: addLocal_def cbnd_def cupd_def cget_def cret_def errorAt_def setCur_def cur_def Let_def
        wfCompiler_def frameOf_def wfFc_def headerOk_def)
qed

lemma runs_onLastLocal [running]: "runs F (onLastLocal f)"
proof (rule runsToI)
  fix s assume s: "wfCompiler s" "frameOf s = F"
  let ?g = "\<lambda>c. c\<lparr>fcLocals := butlast (fcLocals c) @ [f (last (fcLocals c))]\<rparr>"
  show "case onLastLocal f s of Inl e \<Rightarrow> e \<noteq> OutOfFuel | Inr (a, t) \<Rightarrow> wfCompiler t \<and> frameOf t = F \<and> True"
  proof (cases "fcLocals (cur s) = []")
    case False
    have w: "wfFc (hadError s) (cur s)" "fns s \<noteq> []" using wfCompiler_cur [OF s(1)] by auto
    then have "wfFc (hadError s) (?g (cur s))" using False by (simp add: wfFc_def)
    then show ?thesis
      using s w False wfCompiler_setCur [of s ?g] frameOf_setCur [of s ?g] by (simp add: onLastLocal_def)
  qed (simp add: onLastLocal_def)
qed

lemma runs_markInitialized [running]: "runs F markInitialized"
  unfolding markInitialized_def by (intro running)

lemma runs_newLocals [running]: "runs F (addFloatingLocal name)" "runs F (addResidentLocal name)"
  unfolding addFloatingLocal_def addResidentLocal_def by (intro running)+

subsection \<open>Captured variables\<close>

lemma wfFc_addUpvalue:
  assumes "addUpvalue g u c = Some (i, c')" and "wfFc g c"
  shows "wfFc g c' \<and> fcActives c' = fcActives c \<and> fcDepth c' = fcDepth c"
  using assms by (auto simp: addUpvalue_def wfFc_def headerOk_def split: option.splits if_splits)

lemma wfFc_markCaptured:
  "wfFc g (markCaptured i c) = wfFc g c \<and> fcActives (markCaptured i c) = fcActives c
    \<and> fcDepth (markCaptured i c) = fcDepth c"
  by (simp add: markCaptured_def wfFc_def)

lemma resolveUp_keeps:
  assumes "resolveUp g name cs = Inr (r, cs')" and "\<forall>c\<in>set cs. wfFc g c"
  shows "(\<forall>c\<in>set cs'. wfFc g c) \<and> map fcActives cs' = map fcActives cs \<and> map fcDepth cs' = map fcDepth cs"
  using assms
proof (induction g name cs arbitrary: r cs' rule: resolveUp.induct)
  case (3 g name c e es)
  show ?case
  proof (cases "lastNamed name (fcLocals e)")
    case (Some i)
    then show ?thesis using 3 wfFc_addUpvalue [of g _ c] wfFc_markCaptured
      by (fastforce split: option.splits)
  next
    case None
    then obtain q es' where q: "resolveUp g name (e # es) = Inr (q, es')"
      using 3 by (auto split: sum.splits)
    then have "(\<forall>c\<in>set es'. wfFc g c) \<and> map fcActives es' = map fcActives (e # es)
        \<and> map fcDepth es' = map fcDepth (e # es)"
      using 3 None by auto
    then show ?thesis using 3 None q wfFc_addUpvalue [of g _ c]
      by (fastforce split: option.splits)
  qed
qed auto

lemma runs_resolveUpvalue [running]: "runs F (resolveUpvalue name)"
proof (rule runsToI)
  fix s assume s: "wfCompiler s" "frameOf s = F"
  show "case resolveUpvalue name s of Inl e \<Rightarrow> e \<noteq> OutOfFuel | Inr (a, t) \<Rightarrow> wfCompiler t \<and> frameOf t = F \<and> True"
  proof (cases "resolveUp (hadError s) name (fns s)")
    case (Inr q)
    obtain r cs where q: "q = (r, cs)" by (cases q)
    have k: "(\<forall>c\<in>set cs. wfFc (hadError s) c) \<and> map fcActives cs = map fcActives (fns s) \<and> map fcDepth cs = map fcDepth (fns s)"
      using resolveUp_keeps Inr q s(1) by (simp add: wfCompiler_def)
    moreover from this have "cs \<noteq> []" using s(1) by (auto simp: wfCompiler_def)
    ultimately show ?thesis using Inr q s by (simp add: resolveUpvalue_def wfCompiler_def frameOf_def)
  qed (simp add: resolveUpvalue_def)
qed

subsection \<open>Globals\<close>

lemma runs_globalSlotFor [running]: "runs F (globalSlotFor name)"
  by (auto simp: runsTo_def globalSlotFor_def cbnd_def cret_def errorAt_def wfCompiler_def frameOf_def
      split: option.splits)

lemma runs_globals [running]:
  "runs F (loadGlobalSlotOf name)" "runs F (storeGlobalSlotOf name)" "runs F (loadClass name)"
  unfolding loadGlobalSlotOf_def storeGlobalSlotOf_def loadClass_def by (intro running)+

end
