(* ===== verification/Compile_Sub.thy ===== *)
theory Compile_Sub
  imports Compile_Inv
begin

text \<open>
  The interface between a handler of the compiler and the compilers of what is inside the node:
  \<open>sub_compilers ce cs d\<close> promises that both keep the compiler well-formed and its frame as it was,
  for anything of a size below \<open>d\<close>. A statement may replay the open finally bodies and check the
  contract in force, so their sizes count too. Every handler of an expression is shown to keep the
  same promise.
\<close>

fun activeSize :: "activeTry \<Rightarrow> nat" where
  "activeSize NoFinally = 0"
| "activeSize (Finally st slot) = size st"

definition clausesSize :: "(expr \<times> string) list \<Rightarrow> nat" where
  "clausesSize cls = sum_list (map (\<lambda>c. size (fst c)) cls)"

definition owed :: "cframe \<Rightarrow> nat" where
  "owed F = (case frActives F of [] \<Rightarrow> 0 | A # As \<Rightarrow> sum_list (map activeSize A)) + clausesSize (frEnsures F)"

lemma owed_deeper [simp]: "owed (deeper F) = owed F"
  by (simp add: owed_def deeper_def)

lemma size_in_list: "x \<in> set xs \<Longrightarrow> f x < size_list f xs"
  by (induction xs) auto

lemma clausesSize_in: "c \<in> set cls \<Longrightarrow> size (fst c) \<le> clausesSize cls"
  by (auto simp: clausesSize_def member_le_sum_list)

locale sub_compilers =
  fixes ce :: "expr \<Rightarrow> unit cact" and cs :: "stmt \<Rightarrow> unit cact" and d :: nat
  assumes ce_runs: "size e < d \<Longrightarrow> runs F (ce e)"
    and cs_runs: "0 < d \<Longrightarrow> size st + owed F \<le> d \<Longrightarrow> runs F (cs st)"
begin

subsection \<open>Lists of expressions\<close>

lemma all_runs: "\<forall>e\<in>set es. size e < d \<Longrightarrow> runs F (compileAll ce es)"
  by (induction es) (auto intro!: running ce_runs)

lemma extend_runs: "\<forall>e\<in>set es. size e < d \<Longrightarrow> runs F (extendArray ce es)"
proof (induction es)
  case (Cons e es)
  then have "size e < d" "runs F (extendArray ce es)" by auto
  then show ?case unfolding extendArray.simps
    by (cases e rule: isSpread.cases) (auto intro!: runs_cbnd running ce_runs split del: if_split)
qed (simp add: runs_cret)

lemma pairs_runs: "\<forall>(k, v)\<in>set ps. size k < d \<and> size v < d \<Longrightarrow> runs F (compilePairs ce ps)"
  by (induction ps) (auto intro!: running ce_runs)

subsection \<open>Operators\<close>

lemma shortCircuit_runs:
  "size l < d \<Longrightarrow> size r < d \<Longrightarrow> runs F (compileLogicalShortCircuit ce l k r)"
  unfolding compileLogicalShortCircuit_def by (intro running ce_runs)

lemma binary_runs:
  assumes l: "size l < d" and r: "size r < d"
  shows "runs F (compileBinary ce l k r)"
proof -
  have ident: "size e < d" if "identityOperand l k r lc rc = Some e" for e lc rc
    using l r that by (auto simp: identityOperand_def split: if_splits)
  show ?thesis
    unfolding compileBinary_def by (intro running shortCircuit_runs ce_runs l r) (rule ident)
qed

lemma unary_runs: "size e < d \<Longrightarrow> runs F (compileUnary ce k e)"
  unfolding compileUnary_def by (intro running ce_runs)

lemma await_runs: "size e < d \<Longrightarrow> runs F (compileAwait ce e)"
  unfolding compileAwait_def by (intro running ce_runs)

lemma logical_runs: "size l < d \<Longrightarrow> size r < d \<Longrightarrow> runs F (compileLogical ce l k r)"
  unfolding compileLogical_def by (intro running ce_runs)

lemma ternary_runs: "size c < d \<Longrightarrow> size a < d \<Longrightarrow> size b < d \<Longrightarrow> runs F (compileTernary ce c a b)"
  unfolding compileTernary_def by (intro running ce_runs)

subsection \<open>Calls\<close>

lemma positional_runs: "\<forall>a\<in>set as. size (fst a) < d \<Longrightarrow> runs F (pushPositional ce as)"
proof (induction as)
  case (Cons a as)
  then show ?case by (cases a) (auto intro!: running ce_runs split del: if_split)
qed (simp add: runs_cret)

lemma keywords_runs: "\<forall>a\<in>set as. size (fst a) < d \<Longrightarrow> runs F (pushKeywords ce as)"
proof (induction as)
  case (Cons a as)
  then have "size (fst a) < d" "runs F (pushKeywords ce as)" by auto
  then show ?case by (cases a) (auto intro!: running ce_runs simp del: cseq.simps split del: if_split)
qed (simp add: runs_cret)

lemma callKeywords_runs:
  assumes "size callee < d" and "\<forall>e\<in>set args. size e < d"
  shows "runs F (callKeywords ce callee args names)"
proof -
  have "\<forall>a\<in>set (zip args names). size (fst a) < d"
    using assms(2) by (auto dest: set_zip_leftD)
  note zipped = positional_runs [OF this] keywords_runs [OF this]
  show ?thesis
    unfolding callKeywords_def Let_def
    by (rule runs_record zipped ce_runs assms running | simp)+
qed

lemma invoke_runs:
  assumes "size obj < d" and "\<forall>e\<in>set args. size e < d"
  shows "runs F (invokeMethod ce callee obj prop args)"
  unfolding invokeMethod_def
  by (rule runs_record ce_runs all_runs assms running)+

lemma runs_foldCall [running]: "runs F (foldCall callee args)"
  unfolding foldCall_def
  by (cases callee; (simp only: expr.case)?)
    (auto split: expr_form.splits list.splits split del: if_split intro!: running)

lemma methodCall_size: "methodCall e = Some (obj, prop) \<Longrightarrow> size obj < size e"
  by (cases e rule: methodCall.cases) (auto split: if_splits)

lemma callPlain_runs:
  assumes "size callee < d" and "\<forall>e\<in>set args. size e < d"
  shows "runs F (callPlain ce callee args)"
proof -
  have obj: "size obj < d" if "methodCall callee = Some (obj, p)" for obj p
    using methodCall_size [OF that] assms(1) by simp
  show ?thesis
    unfolding callPlain_def
    by (rule runs_record invoke_runs all_runs assms ce_runs running | erule obj | (hypsubst, erule obj))+
qed

lemma callSpread_runs:
  assumes "size callee < d" and "\<forall>e\<in>set args. size e < d"
  shows "runs F (callSpread ce callee args)"
  unfolding callSpread_def
  by (rule runs_record extend_runs assms ce_runs running)+

lemma call_runs:
  assumes "size callee < d" and "\<forall>e\<in>set args. size e < d"
  shows "runs F (compileCall ce callee args names)"
  unfolding compileCall_def
  by (intro running callKeywords_runs callPlain_runs callSpread_runs assms)

subsection \<open>Containers\<close>

lemma index_runs: "size obj < d \<Longrightarrow> size idx < d \<Longrightarrow> runs F (compileIndex ce obj idx)"
  unfolding compileIndex_def by (intro running ce_runs)

lemma array_runs: "\<forall>e\<in>set es. size e < d \<Longrightarrow> runs F (compileArray ce es)"
  unfolding compileArray_def by (intro running all_runs extend_runs)

lemma tuple_runs: "\<forall>e\<in>set es. size e < d \<Longrightarrow> runs F (compileTuple ce es)"
  unfolding compileTuple_def by (intro running all_runs)

lemma dictionary_runs: "\<forall>(k, v)\<in>set ps. size k < d \<and> size v < d \<Longrightarrow> runs F (compileDictionary ce ps)"
  unfolding compileDictionary_def by (intro running pairs_runs)

subsection \<open>Assignment\<close>

lemma runs_storeName [running]: "runs F (storeName name)"
  unfolding storeName_def by (intro running)

lemma assign_runs:
  assumes "size value < d" and "size idx < d" and "size obj < d"
  shows "runs F (compileAssign ce name value idx obj compound)"
  unfolding compileAssign_def by (intro running ce_runs assms)

lemma runs_loadElement [running]: "runs F (loadElement tempVar i)"
  unfolding loadElement_def by (intro running)

lemma destructureTarget_runs:
  assumes "size t < d"
  shows "runs F (destructureTarget ce tempVar i t)"
proof (cases t)
  case (Expr l c n)
  then show ?thesis
    using assms unfolding destructureTarget_def
    by (cases n) (auto simp del: cseq.simps intro!: running ce_runs)
qed (simp add: destructureTarget_def runs_cret)

lemma destructureFrom_runs: "\<forall>t\<in>set ts. size t < d \<Longrightarrow> runs F (destructureFrom ce tempVar i ts)"
  by (induction ts arbitrary: i) (auto intro!: running destructureTarget_runs)

lemma destructure_runs:
  assumes "\<forall>t\<in>set ts. size t < d" and "size value < d"
  shows "runs F (compileDestructureAssign ce ts value)"
  unfolding compileDestructureAssign_def by (intro running ce_runs destructureFrom_runs assms)

subsection \<open>Properties, instances and the rest\<close>

lemma propertyAccess_runs: "size obj < d \<Longrightarrow> runs F (compilePropertyAccess ce obj prop opt)"
  unfolding compilePropertyAccess_def by (intro running ce_runs)

lemma new_runs: "\<forall>e\<in>set args. size e < d \<Longrightarrow> runs F (compileNew ce className args)"
  unfolding compileNew_def by (intro running all_runs)

lemma set_runs:
  assumes "size obj < d" and "size value < d"
  shows "runs F (compileSet ce obj name value compound)"
  unfolding compileSet_def by (intro running ce_runs assms)

lemma runs_literal [running]: "runs F (compileLiteral v)"
  unfolding compileLiteral_def by (cases v) (auto intro!: running split del: if_split)

lemma runs_loadSelf [running]: "runs F emitLoadSelf"
  unfolding emitLoadSelf_def by (intro running)

lemma runs_loadSuper [running]: "runs F (loadSuper parent)"
  unfolding loadSuper_def by (intro running)

lemma runs_names [running]: "runs F (compileIdentifier name)" "runs F compileSuper" "runs F compileSpread"
  unfolding compileIdentifier_def compileSuper_def compileSpread_def by (intro running)+

lemma exprNode_runs:
  assumes lam: "\<And>ps body ss v a. n = LambdaExpr ps body ss v a \<Longrightarrow> runs F (lambda ps body ss v a)"
    and n: "nodeSize n < d"
  shows "runs F (exprNode ce lambda n)"
proof (cases n)
  case (CallExpr callee args names)
  then have "size callee < d" "\<forall>e\<in>set args. size e < d" using n by (auto dest: size_in_list [of _ _ size])
  then show ?thesis using CallExpr by (simp add: exprNode_def call_runs)
qed (use n lam in \<open>auto simp: exprNode_def dest: size_in_list [of _ _ size]
   size_in_list [of _ _ "size_prod size size"] intro!: running binary_runs unary_runs index_runs array_runs
   tuple_runs assign_runs logical_runs propertyAccess_runs new_runs set_runs dictionary_runs ternary_runs
   await_runs destructure_runs\<close>)

end

lemma runs_depthGuard [running]: "runs F m \<Longrightarrow> runs F (depthGuard line m)"
  unfolding depthGuard_def by (intro running)

end
