(* ===== verification/Compile_Safe.thy ===== *)
theory Compile_Safe
  imports Compile_Sub
begin

text \<open>
  The handlers of the statements keep the promise of \<open>sub_compilers\<close> too, and so does every function
  compiled on the way: its bytecode is finished and well-formed before it joins the enclosing one.
  Induction on the fuel closes the recursion; with the size of the program as fuel, compiling never
  stops for the lack of it.
\<close>

subsection \<open>Open try blocks\<close>

definition withActives :: "activeTry list \<Rightarrow> cframe \<Rightarrow> cframe" where
  "withActives A F = F\<lparr>frActives := mapHead (\<lambda>_. A) (frActives F)\<rparr>"

definition activesOf :: "cframe \<Rightarrow> activeTry list" where
  "activesOf F = (case frActives F of [] \<Rightarrow> [] | A # As \<Rightarrow> A)"

lemma withActives_twice [simp]: "withActives A (withActives B F) = withActives A F"
  by (cases "frActives F") (simp_all add: withActives_def)

lemma withActives_same [simp]: "withActives (activesOf F) F = F"
  by (cases "frActives F") (simp_all add: withActives_def activesOf_def)

lemma frames_simps [simp]:
  "activesOf (deeper F) = activesOf F" "frEnsures (deeper F) = frEnsures F"
  "withActives A (deeper F) = deeper (withActives A F)" "frEnsures (withActives A F) = frEnsures F"
  by (simp_all add: activesOf_def deeper_def withActives_def)

lemma activesOf_withActives: "frActives F \<noteq> [] \<Longrightarrow> activesOf (withActives A F) = A"
  by (cases "frActives F") (simp_all add: activesOf_def withActives_def)

lemma owed_withActives:
  "owed (withActives A F) \<le> sum_list (map activeSize A) + clausesSize (frEnsures F)"
  by (cases "frActives F") (simp_all add: owed_def withActives_def)

lemma owed_eq: "owed F = sum_list (map activeSize (activesOf F)) + clausesSize (frEnsures F)"
  by (cases "frActives F") (simp_all add: owed_def activesOf_def)

lemma frameOf_setActives:
  assumes "fns s \<noteq> []"
  shows "frameOf (setCur (\<lambda>c. c\<lparr>fcActives := f (fcActives c)\<rparr>) s) = withActives (f (activesOf (frameOf s))) (frameOf s)"
  using assms by (cases "fns s") (auto simp: frameOf_def setCur_def withActives_def activesOf_def)

lemma runs_changeActives:
  "runsTo F (cupd (setCur (\<lambda>c. c\<lparr>fcActives := f (fcActives c)\<rparr>))) (withActives (f (activesOf F)) F) (\<lambda>_. True)"
proof (rule runs_cupd)
  fix s assume s: "wfCompiler s" "frameOf s = F"
  then have "wfCompiler (setCur (\<lambda>c. c\<lparr>fcActives := f (fcActives c)\<rparr>) s)" "fns s \<noteq> []"
    by (auto intro!: wfCompiler_setCur simp: wfFc_irrelevant dest: wfCompiler_cur)
  with s show "wfCompiler (setCur (\<lambda>c. c\<lparr>fcActives := f (fcActives c)\<rparr>) s) \<and>
      frameOf (setCur (\<lambda>c. c\<lparr>fcActives := f (fcActives c)\<rparr>) s) = withActives (f (activesOf F)) F"
    using frameOf_setActives by auto
qed

lemma runs_setActives: "runsTo F (setActives A) (withActives A F) (\<lambda>_. True)"
  unfolding setActives_def by (rule runs_changeActives)

lemma runs_pushActive: "runsTo F (pushActive a) (withActives (activesOf F @ [a]) F) (\<lambda>_. True)"
  unfolding pushActive_def by (rule runs_changeActives)

lemma runs_popActive:
  assumes "frActives F \<noteq> []"
  shows "runsTo (withActives (A @ [a]) F) popActive (withActives A F) (\<lambda>_. True)"
  using runs_changeActives [of "withActives (A @ [a]) F" butlast] activesOf_withActives [OF assms]
  by (simp add: popActive_def)

lemma runsTo_vacuous: "frActives F = [] \<Longrightarrow> runsTo F m G Q"
  by (auto simp: runsTo_def wfCompiler_def frameOf_def)

lemma runs_get_actives:
  assumes "runsTo F (n (activesOf F)) G Q"
  shows "runsTo F (cbnd (cget (\<lambda>s. fcActives (cur s))) n) G Q"
proof (rule runs_frame_get)
  show "runsTo F (n (activesOf F)) G Q" by (rule assms)
qed (auto simp: frameOf_def activesOf_def cur_def neq_Nil_conv)

text \<open>Code inside an open try block, and what follows.\<close>

lemma runs_open_close:
  assumes "\<And>F. P F \<Longrightarrow> runs (withActives (activesOf F @ [a]) F) m" and "P F" and "runsTo F (cseq ms) G Q"
  shows "runsTo F (cseq (pushActive a # m # popActive # ms)) G Q"
proof (cases "frActives F = []")
  case False
  have pop: "runsTo (withActives (activesOf F @ [a]) F) popActive F (\<lambda>_. True)"
    using runs_popActive [OF False, of "activesOf F" a] by simp
  show ?thesis
    unfolding cseq.simps
    by (rule runsTo_cbnd [OF runs_pushActive], rule runs_cbnd [OF assms(1) [OF assms(2)]],
        rule runsTo_cbnd [OF pop], rule assms(3))
qed (rule runsTo_vacuous)

subsection \<open>Statements without sub-statements, loops\<close>

lemma runs_patchAll [running]: "runs F (patchAll js)"
  by (induction js) (auto intro!: running)

lemma runs_loops [running]:
  "runs F startLoop" "runs F (setLoop f)" "runs F endLoop" "runs F finishLoop" "runs F markLoopStart"
proof -
  show set: "runs F (setLoop f)" for f unfolding setLoop_def by (intro running)
  show start: "runs F startLoop" and stop: "runs F endLoop"
    unfolding startLoop_def endLoop_def by (intro running)+
  show "runs F finishLoop" unfolding finishLoop_def by (intro running stop)
  show "runs F markLoopStart" unfolding markLoopStart_def by (intro running set)
qed

lemma runs_predeclare [running]: "runs F (predeclareTasks ss)" "runs F (predeclareLocalTasks ss)"
proof -
  have one: "runs F (case s of Stmt _ (TaskStmt t) \<Rightarrow> cbnd (cget (resolveLocal (tName t))) (\<lambda>l.
         if tName t \<noteq> [] \<and> l = None then cbnd (addFloatingLocal (tName t)) (\<lambda>_. cret ()) else cret ())
     | _ \<Rightarrow> cret ())" for s
    by (auto split: stmt.split stmt_form.split intro!: running split del: if_split)
  show p: "runs F (predeclareTasks ss)" by (induction ss) (auto intro!: running one split del: if_split)
  show "runs F (predeclareLocalTasks ss)" unfolding predeclareLocalTasks_def by (intro running p)
qed

lemma runs_fast [running]:
  "runs F (fastLocal dst k r)" "runs F (fastGlobalSlot name)" "runs F (fastGlobal name k r)"
  "runs F (compileCompoundAssignFast name value idx)"
proof -
  show l: "runs F (fastLocal dst k r)" for dst k r unfolding fastLocal_def by (intro running)
  show s: "runs F (fastGlobalSlot name)" unfolding fastGlobalSlot_def by (intro running)
  show g: "runs F (fastGlobal name k r)" for k r unfolding fastGlobal_def by (intro running s)
  show "runs F (compileCompoundAssignFast name value idx)"
    unfolding compileCompoundAssignFast_def by (intro running l g)
qed

lemma runs_repeat_parts [running]:
  "runs F (repeatTest loopVar endVar j)" "runs F (stepCheck stepVar)" "runs F (stepTest loopVar endVar stepVar)"
  "runs F (nilLocal name)" "runs F (takeElement loopVar v)"
  unfolding repeatTest_def stepCheck_def stepTest_def nilLocal_def takeElement_def by (intro running)+

context sub_compilers
begin

lemma expressionStmt_runs:
  assumes "size e < d"
  shows "runs F (compileExpressionStmt ce e)"
proof -
  have "runs F (case e of Expr _ _ (AssignExpr name value idx obj compound) \<Rightarrow> compileCompoundAssignFast name value idx
      | _ \<Rightarrow> cret False)"
    by (auto split: expr.split expr_form.split intro!: running)
  then show ?thesis
    unfolding compileExpressionStmt_def by (intro running ce_runs assms)
qed

lemma out_runs: "size e < d \<Longrightarrow> runs F (compileOutStmt ce e)"
  unfolding compileOutStmt_def by (intro running ce_runs)

lemma throw_runs: "size e < d \<Longrightarrow> runs F (compileThrow ce e)"
  unfolding compileThrow_def by (intro running ce_runs)

lemma varDecl_runs: "size e < d \<Longrightarrow> runs F (compileVarDecl ce name e)"
  unfolding compileVarDecl_def by (intro running ce_runs)

lemma stmts_runs: "0 < d \<Longrightarrow> \<forall>s\<in>set ss. size s + owed F \<le> d \<Longrightarrow> runs F (compileStmts cs ss)"
  by (induction ss) (auto intro!: running cs_runs)

lemma block_runs:
  assumes "0 < d" and "\<forall>s\<in>set ss. size s + owed F \<le> d"
  shows "runs F (compileBlock cs ss)"
  unfolding compileBlock_def by (rule runs_scoped) (use assms in \<open>auto intro!: running stmts_runs\<close>)

lemma when_runs:
  assumes "size c < d" and "size a + owed F \<le> d" and "size b + owed F \<le> d"
  shows "runs F (compileWhen ce cs c a b)"
proof -
  have "0 < d" using assms(1) by simp
  then show ?thesis unfolding compileWhen_def by (intro running ce_runs cs_runs assms)
qed

lemma while_runs:
  assumes "size c < d" and "size body + owed F \<le> d"
  shows "runs F (compileWhile ce cs c body)"
proof -
  have "0 < d" using assms(1) by simp
  then show ?thesis unfolding compileWhile_def by (intro running ce_runs cs_runs assms)
qed

lemma localFrom_runs: "size e < d \<Longrightarrow> runs F (localFrom ce name e)"
  unfolding localFrom_def by (intro running ce_runs)

lemma repeat_runs:
  assumes "size from < d" and "size til < d" and "size stp < d" and "size body + owed F \<le> d"
  shows "runs F (compileRepeat ce cs var from til stp body)"
proof -
  have body: "runs (deeper F) (cs body)" using assms by (intro cs_runs) auto
  show ?thesis
    unfolding compileRepeat_def repeatPlain_def repeatStep_def
    by (rule runs_scoped) (intro running localFrom_runs body assms)
qed

lemma get_runs:
  assumes "size it < d" and "size body + owed F \<le> d"
  shows "runs F (compileGet ce cs var valueVar it body)"
proof -
  have body: "runs (deeper F) (cs body)" using assms by (intro cs_runs) auto
  show ?thesis
    unfolding compileGet_def iterLocal_def
    by (rule runs_scoped) (intro running ce_runs body assms)
qed

subsection \<open>Leaving loops and functions\<close>

lemma take_owed:
  assumes "i < length (activesOf F)"
  shows "activeSize (activesOf F ! i) + owed (withActives (take i (activesOf F)) F) \<le> owed F"
proof -
  let ?A = "activesOf F"
  have "activeSize (?A ! i) + sum_list (map activeSize (take i ?A)) = sum_list (map activeSize (take (Suc i) ?A))"
    using assms by (simp add: take_Suc_conv_app_nth)
  also have "\<dots> \<le> sum_list (map activeSize (take (Suc i) ?A)) + sum_list (map activeSize (drop (Suc i) ?A))"
    by simp
  also have "\<dots> = sum_list (map activeSize ?A)"
    by (metis append_take_drop_id map_append sum_list_append)
  finally show ?thesis
    using owed_withActives [of "take i ?A" F] by (simp add: owed_eq)
qed

lemma finally_runs:
  assumes "owed F \<le> d" and "0 < d" and "i < length (activesOf F)" and "activesOf F ! i = Finally body slot"
  shows "runs (withActives (take i (activesOf F)) F) (cs body)"
  using assms take_owed [OF assms(3)] by (intro cs_runs) auto

lemma replayLeaving_runs:
  assumes "owed F \<le> d" and "0 < d" and "n \<le> length (activesOf F)"
  shows "runsTo (withActives X F) (replayLeaving cs depth (activesOf F) n)
     (withActives (if n \<le> depth then X else take depth (activesOf F)) F) (\<lambda>_. True)"
  using assms(3)
proof (induction n arbitrary: X)
  case (Suc i)
  let ?A = "activesOf F"
  have body: "runs (withActives (take i ?A) F) (case ?A ! i of Finally body slot \<Rightarrow> cs body | NoFinally \<Rightarrow> cret ())"
    using Suc.prems finally_runs [OF assms(1,2), of i] by (auto split: activeTry.split intro!: running)
  have set: "runsTo (withActives X F) (setActives (take i ?A)) (withActives (take i ?A) F) (\<lambda>_. True)"
    using runs_setActives [of "withActives X F" "take i ?A"] by simp
  have rest: "runsTo (withActives (take i ?A) F) (replayLeaving cs depth ?A i)
      (withActives (take depth ?A) F) (\<lambda>_. True)" if "depth \<le> i"
    using Suc.IH [of "take i ?A"] Suc.prems that by (cases "i = depth") auto
  show ?case
  proof (cases "i < depth")
    case False
    then show ?thesis
      unfolding replayLeaving.simps cseq.simps
      by (auto intro!: runsTo_cbnd [OF set] runs_cbnd [OF body] runs_emitOp runs_cret runs_cbnd
          runsTo_cbnd [OF rest] simp del: cseq.simps)
  qed (simp add: runs_cret)
qed (simp add: runs_cret)

lemma runs_popDeeper [running]: "runs F (popDeeper depth ls n)"
  by (induction n) (auto intro!: running simp del: cseq.simps split del: if_split)

lemma leaveLoop_runs:
  assumes "owed F \<le> d" and "0 < d"
  shows "runs F (leaveLoop cs lp)"
proof -
  let ?A = "activesOf F"
  obtain Y where replay: "runsTo F (replayLeaving cs (lpTryDepth lp) ?A (length ?A)) (withActives Y F) (\<lambda>_. True)"
    using replayLeaving_runs [OF assms order_refl, of ?A "lpTryDepth lp"] by auto
  have home: "runsTo (withActives Y F) (setActives ?A) F (\<lambda>_. True)"
    using runs_setActives [of "withActives Y F" ?A] by simp
  show ?thesis
    unfolding leaveLoop_def cseq.simps
    by (rule runs_get_actives, rule runsTo_cbnd [OF replay], rule runsTo_cbnd [OF home]) (intro running)
qed

lemma escape_runs: "owed F \<le> d \<Longrightarrow> 0 < d \<Longrightarrow> runs F (compileEscape cs)"
  unfolding compileEscape_def by (intro running leaveLoop_runs)

lemma skip_runs: "owed F \<le> d \<Longrightarrow> 0 < d \<Longrightarrow> runs F (compileSkip cs)"
  unfolding compileSkip_def by (intro running leaveLoop_runs)

subsection \<open>Matching and exceptions\<close>

lemma runs_typeMatch [running]: "runs F (isTypeMatchPattern name)" "runs F (typePattern p)"
proof -
  show t: "runs F (isTypeMatchPattern name)" for name unfolding isTypeMatchPattern_def by (intro running)
  show "runs F (typePattern p)"
    unfolding typePattern_def by (auto split: expr.split expr_form.split intro!: running t)
qed

lemma matchArm_runs:
  assumes "size p < d" and "size body + owed F \<le> d"
  shows "runs F (matchArm ce cs p body)"
proof -
  have "0 < d" using assms(1) by simp
  then show ?thesis
    unfolding matchArm_def matchTest_def by (intro running ce_runs cs_runs assms)
qed

lemma matchArms_runs:
  "\<forall>(p, body)\<in>set arms. size p < d \<and> size body + owed F \<le> d \<Longrightarrow> runs F (matchArms ce cs arms)"
  by (induction arms) (auto intro!: running matchArm_runs)

lemma match_runs:
  assumes "size subject < d" and "\<forall>(p, body)\<in>set arms. size p < d \<and> size body + owed F \<le> d"
  shows "runs F (compileMatch ce cs subject arms)"
  unfolding compileMatch_def by (intro running ce_runs matchArms_runs assms)

lemma runs_hiddenLocal [running]: "runs F (hiddenLocal prefix)"
  unfolding hiddenLocal_def by (intro running)

lemma catchBody_runs:
  assumes "0 < d" and "size (cbBody cb) + owed F \<le> d"
  shows "runs F (catchBody cs cb)"
  unfolding catchBody_def by (rule runs_scoped) (use assms in \<open>auto intro!: running cs_runs\<close>)

lemma catchBlocks_runs:
  assumes "0 < d"
  shows "\<forall>cb\<in>set cbs. size (cbBody cb) + owed F \<le> d \<Longrightarrow> runs F (catchBlocks cs cbs)"
proof (induction cbs)
  case (Cons cb cbs)
  then have "runs F (catchBody cs cb)" "runs F (catchBlocks cs cbs)" using assms catchBody_runs by auto
  then show ?case unfolding catchBlocks.simps by (intro running)
qed (simp add: runs_cret)

lemma tryPart_runs:
  assumes "0 < d" and "size body + owed F \<le> d" and "\<forall>cb\<in>set cbs. size (cbBody cb) + owed F \<le> d"
  shows "runs F (tryPart cs body cbs pending)"
proof -
  have "runs F (catchPart cs cbs pending)"
    unfolding catchPart_def by (intro running catchBlocks_runs assms) simp
  then show ?thesis unfolding tryPart_def by (intro running cs_runs assms)
qed

lemma finallyPart_runs:
  assumes "0 < d" and "size fin + owed F \<le> d"
  shows "runsTo (deeper F) (finallyPart cs fin pending) F (\<lambda>_. True)"
proof -
  have fin: "runs (deeper F) (cs fin)" using assms by (intro cs_runs) auto
  have stop: "runsTo (deeper F) (cseq [endScope]) F (\<lambda>_. True)"
    by (simp add: runsTo_cbnd [OF runs_endScope] runs_cret)
  have rethrow: "runs (deeper F) (cbnd (emitJump OP_JUMP_IF_NIL) (\<lambda>skipRethrow.
      cseq [emitOp OP_THROW, patchJumpAt skipRethrow, emitOp OP_POP]))"
    by (intro running)
  show ?thesis
    unfolding finallyPart_def
    by (rule runs_cseq_Cons [OF fin], rule runs_cseq_Cons [OF runs_locals(1)],
        rule runs_cseq_Cons [OF runs_emitOp], rule runs_cseq_Cons [OF rethrow stop])
qed

lemma try_runs:
  assumes "0 < d" and "size body + size fin + owed F \<le> d"
    and "\<forall>cb\<in>set cbs. size (cbBody cb) + size fin + owed F \<le> d"
  shows "runs F (compileTry cs body cbs fin)"
proof -
  have owed: "owed (withActives (activesOf H @ [Finally fin slot]) H) \<le> owed F + size fin"
      "owed (withActives (activesOf H @ [NoFinally]) H) \<le> owed F"
    if "owed H = owed F" for H slot
    using that owed_withActives [of "activesOf H @ [Finally fin slot]" H]
      owed_withActives [of "activesOf H @ [NoFinally]" H] by (simp_all add: owed_eq)
  have part: "runs (withActives (activesOf H @ [a]) H) (tryPart cs body cbs pending)"
    if "owed H = owed F" "a = Finally fin slot \<or> a = NoFinally" for H a slot pending
    using assms owed(1) [OF that(1), of slot] owed(2) [OF that(1)] that(2)
    by (intro tryPart_runs) fastforce+
  have last: "runsTo (deeper F) (cseq [finallyPart cs fin p]) F (\<lambda>_. True)" for p
    using finallyPart_runs [of fin F p] assms
    by (auto intro!: runsTo_cbnd [where G = F] runs_cret)
  have "runsTo (deeper F) (cseq [pushActive (Finally fin r), tryPart cs body cbs (Some p), popActive,
      finallyPart cs fin p]) F (\<lambda>_. True)" for p r
    by (rule runs_open_close [where P = "\<lambda>H. owed H = owed F"]) (use part last in auto)
  moreover have "runs F (cseq [pushActive NoFinally, tryPart cs body cbs None, popActive])"
    by (rule runs_open_close [where P = "\<lambda>H. owed H = owed F"]) (use part in \<open>auto intro: runs_cret\<close>)
  ultimately show ?thesis
    unfolding compileTry_def by (intro runs_if runsTo_cbnd [OF runs_beginScope] runs_cbnd runs_hiddenLocal)
qed

subsection \<open>Contracts and returning\<close>

lemma contractChecks_runs: "\<forall>c\<in>set cls. size (fst c) < d \<Longrightarrow> runs F (contractChecks ce pre cls)"
proof (induction cls)
  case (Cons c cls)
  then have "size (fst c) < d" "runs F (contractChecks ce pre cls)" by auto
  then show ?case by (cases c) (auto intro!: running ce_runs simp del: cseq.simps)
qed (simp add: runs_cret)

lemma contracts_runs: "\<forall>c\<in>set cls. size (fst c) < d \<Longrightarrow> runs F (compileContractChecks ce pre cls)"
  unfolding compileContractChecks_def by (intro running contractChecks_runs)

lemma runs_cachedName [running]: "runs F (cachedName k)"
  unfolding cachedName_def by (intro running)

lemma postconditions_runs:
  assumes "owed F < d"
  shows "runs F (postconditions ce)"
proof -
  have "\<forall>c\<in>set (frEnsures F). size (fst c) < d"
    using assms clausesSize_in by (fastforce simp: owed_eq)
  then have "runs F (compileContractChecks ce False cls)" if "cls = [] \<or> cls = frEnsures F" for cls
    using that contracts_runs by auto
  then have body: "runs F (if cls = [] then cret () else cbnd (addFloatingLocal ''__result__'') (\<lambda>resultSlot.
       cbnd (cseq [emitStoreLocal resultSlot, emitOp OP_POP]) (\<lambda>_.
       cbnd (addFloatingLocal ''result'') (\<lambda>aliasSlot. cseq [
         emitLoadLocal resultSlot, emitStoreLocal aliasSlot, emitOp OP_POP,
         compileContractChecks ce False cls, emitLoadLocal resultSlot]))))"
    if "cls = [] \<or> cls = frEnsures F" for cls
    using that by (intro running)
  have "runsTo F (cget (\<lambda>s. if disableContracts s then [] else ensures s)) F (\<lambda>cls. cls = [] \<or> cls = frEnsures F)"
    by (auto simp: runsTo_def cget_def frameOf_def)
  then show ?thesis unfolding postconditions_def by (rule runsTo_cbnd) (rule body)
qed

lemma replayReturning_runs:
  assumes "owed F \<le> d" and "0 < d" and "n \<le> length (activesOf F)"
  shows "runsTo (withActives X F) (replayReturning cs (activesOf F) n)
     (withActives (if n = 0 then X else []) F) (\<lambda>_. True)"
  using assms(3)
proof (induction n arbitrary: X)
  case (Suc i)
  let ?A = "activesOf F"
  have body: "runs (withActives (take i ?A) F) (case ?A ! i of
        Finally body slot \<Rightarrow> cseq [emitStoreLocal slot, emitOp OP_POP, cs body, emitLoadLocal slot]
      | NoFinally \<Rightarrow> cret ())"
    using Suc.prems finally_runs [OF assms(1,2), of i]
    by (auto split: activeTry.split intro!: running simp del: cseq.simps)
  have set: "runsTo (withActives X F) (setActives (take i ?A)) (withActives (take i ?A) F) (\<lambda>_. True)"
    using runs_setActives [of "withActives X F" "take i ?A"] by simp
  have rest: "runsTo (withActives (take i ?A) F) (replayReturning cs ?A i) (withActives [] F) (\<lambda>_. True)"
    using Suc.IH [of "take i ?A"] Suc.prems by (cases "i = 0") auto
  show ?case
    unfolding replayReturning.simps
    by (rule runsTo_cseq [OF set], rule runsTo_cseq [OF body], rule runsTo_cseq [OF rest]) (simp add: runs_cret)
qed (simp add: runs_cret)

lemma tailArguments_size:
  "tailArguments e s = Some (callee, args) \<Longrightarrow> size callee < size e \<and> (\<forall>a\<in>set args. size a < size e)"
  by (auto simp: tailArguments_def split: if_splits expr.splits expr_form.splits dest: size_in_list [of _ _ size])

lemma give_runs:
  assumes e: "size e < d" and F: "owed F < d"
  shows "runs F (compileGive ce cs e)"
proof -
  let ?A = "activesOf F"
  have "runsTo (withActives (activesOf F) F) (replayReturning cs ?A (length ?A))
      (withActives (if length ?A = 0 then ?A else []) F) (\<lambda>_. True)"
    using F by (intro replayReturning_runs) auto
  then obtain Y where replay: "runsTo F (replayReturning cs ?A (length ?A)) (withActives Y F) (\<lambda>_. True)"
    by auto
  have home: "runsTo (withActives Y F) (setActives ?A) F (\<lambda>_. True)"
    using runs_setActives [of "withActives Y F" ?A] by simp
  have finallies: "runs F (cbnd (cget (\<lambda>s. fcActives (cur s))) (\<lambda>pending.
      cseq [replayReturning cs pending (length pending), setActives pending]))"
    unfolding cseq.simps
    by (rule runs_get_actives, rule runsTo_cbnd [OF replay], rule runsTo_cbnd [OF home]) (rule runs_cret)
  have tail: "runsTo F (cget (tailArguments e)) F
      (\<lambda>r. \<forall>callee args. r = Some (callee, args) \<longrightarrow> size callee < d \<and> (\<forall>a\<in>set args. size a < d))"
    using e tailArguments_size by (fastforce simp: runsTo_def cget_def)
  show ?thesis
    unfolding compileGive_def
    by (rule runsTo_cbnd [OF tail])
      (intro running finallies postconditions_runs F e ce_runs all_runs; simp)
qed

end

subsection \<open>Functions\<close>

definition pushed :: "cframe \<Rightarrow> cframe" where
  "pushed F = F\<lparr>frActives := [] # frActives F, frDepths := 0 # frDepths F\<rparr>"

definition withEnsures :: "(expr \<times> string) list \<Rightarrow> cframe \<Rightarrow> cframe" where
  "withEnsures cls F = F\<lparr>frEnsures := cls\<rparr>"

lemma owed_function [simp]: "owed (withEnsures cls (pushed F)) = clausesSize cls"
  by (simp add: owed_def withEnsures_def pushed_def)

lemma withEnsures_simps [simp]:
  "withEnsures c (withEnsures c' F) = withEnsures c F" "withEnsures (frEnsures F) F = F"
  "frEnsures (withEnsures c F) = c" "frEnsures (pushed F) = frEnsures F"
  by (simp_all add: withEnsures_def pushed_def)

lemma frameOf_pushed:
  assumes "frameOf s = pushed F"
  shows "ensures s = frEnsures F" and "map fcActives (fns s) = [] # frActives F"
    and "map fcDepth (fns s) = 0 # frDepths F"
  using assms by (cases F; simp add: frameOf_def pushed_def)+

lemma frameOf_ensures:
  "frameOf (s\<lparr>ensures := c\<rparr>) = withEnsures c (frameOf s)"
  "frameOf (s\<lparr>ensures := c, oldCaptures := olds\<rparr>) = withEnsures c (frameOf s)"
  "withEnsures (frEnsures F) (pushed F) = pushed F"
  by (simp_all add: frameOf_def withEnsures_def pushed_def)

definition taskOk :: "nat \<Rightarrow> task \<Rightarrow> bool" where
  "taskOk d t \<longleftrightarrow> 0 < d \<and> (\<forall>e\<in>set (tDefaults t). size e < d) \<and> (\<forall>c\<in>set (tRequires t). size (fst c) < d)
     \<and> clausesSize (tEnsures t) < d \<and> (\<forall>s\<in>set (tBody t). size s + clausesSize (tEnsures t) \<le> d)"

lemma runs_pushFunction: "runsTo F (pushFunction t name) (pushed F) (\<lambda>_. True)"
  unfolding pushFunction_def
  by (rule runs_cupd) (auto simp: wfCompiler_def frameOf_def pushed_def Let_def newFunction_def newHeader_def
      wfFc_def wfNested_def sitesOk_def headerOk_def chunk_inv_def emptyChunk_def)

lemma oldArguments_size: "a \<in> set (oldArguments e) \<Longrightarrow> size a < size e"
proof (induction e rule: oldArguments.induct)
  case (1 l c callee args names)
  show ?case
  proof (cases "isOldCall callee args")
    case True
    then show ?thesis using 1 by (cases args) (auto simp: isOldCall_def)
  next
    case False
    then show ?thesis using 1 by (fastforce dest: size_in_list [of _ _ size])
  qed
qed fastforce+

lemma runs_addParams [running]: "runs F (addParams ps)"
proof (induction ps)
  case (Cons p ps)
  have "runs F (cupd (\<lambda>s. setCur (\<lambda>c. c\<lparr>fcHeader := (fcHeader c)\<lparr>fnParams := fnParams (fcHeader c) @ [p]\<rparr>\<rparr>) s))"
    by (rule runs_setCur) (simp add: wfFc_def headerOk_def)
  then show ?case unfolding addParams.simps by (intro running Cons)
qed (simp add: runs_cret)

lemma runs_prologue_parts [running]: "runs F (cachePrologue name)" "runs F (rateLimitCheck t)"
  unfolding cachePrologue_def rateLimitCheck_def by (intro running)+

context sub_compilers
begin

lemma captureOlds_runs: "\<forall>a\<in>set as. size a < d \<Longrightarrow> runs F (captureOlds ce as)"
proof (induction as)
  case (Cons a as)
  then have a: "size a < d" and as: "runs F (captureOlds ce as)" by auto
  show ?case unfolding captureOlds.simps captureOld_def by (intro running ce_runs a as)
qed (simp add: runs_cret)

lemma defaultParams_runs: "\<forall>e\<in>set es. size e < d \<Longrightarrow> runs F (defaultParams ce i es)"
proof (induction es arbitrary: i)
  case (Cons e es)
  then have e: "size e < d" and es: "runs F (defaultParams ce (i + 1) es)" by auto
  show ?case unfolding defaultParams.simps by (intro running ce_runs e es)
qed (simp add: runs_cret)

lemma prologue_runs:
  assumes "taskOk d t"
  shows "runs F (prologue ce t name)"
proof -
  have olds: "\<forall>a\<in>set (concat (map (\<lambda>c. oldArguments (fst c)) (tEnsures t))). size a < d"
    using assms clausesSize_in oldArguments_size by (fastforce simp: taskOk_def)
  have "\<forall>e\<in>set (tDefaults t). size e < d" "\<forall>c\<in>set (tRequires t). size (fst c) < d"
    using assms by (simp_all add: taskOk_def)
  then show ?thesis
    unfolding prologue_def by (intro running defaultParams_runs contracts_runs captureOlds_runs olds)
qed

lemma functionBody_runs:
  assumes "taskOk d t"
  shows "runs (pushed F) (functionBody cs t)"
proof -
  let ?F = "pushed F" let ?G = "withEnsures (tEnsures t) (pushed F)"
  have saved: "runsTo ?F (cget (\<lambda>s. (ensures s, oldCaptures s))) ?F (\<lambda>p. fst p = frEnsures F)"
    by (auto simp: runsTo_def cget_def frameOf_pushed)
  have enter: "runsTo ?F (cupd (\<lambda>s. s\<lparr>ensures := tEnsures t\<rparr>)) ?G (\<lambda>_. True)"
    by (rule runs_cupd) (simp add: wfCompiler_def frameOf_ensures)
  have body: "runs (deeper ?G) (compileStmts cs (tBody t))"
    using assms by (intro stmts_runs) (auto simp: taskOk_def)
  have leave: "runsTo ?G (cupd (\<lambda>s. s\<lparr>ensures := frEnsures F, oldCaptures := olds\<rparr>)) ?F (\<lambda>_. True)" for olds
    by (rule runs_cupd) (simp add: wfCompiler_def frameOf_ensures)
  have "runsTo ?F (cseq [cupd (\<lambda>s. s\<lparr>ensures := tEnsures t\<rparr>), beginScope, predeclareLocalTasks (tBody t),
      compileStmts cs (tBody t), endScope, cupd (\<lambda>s. s\<lparr>ensures := frEnsures F, oldCaptures := olds\<rparr>)]) ?F (\<lambda>_. True)"
    for olds
    by (rule runsTo_cseq [OF enter], rule runsTo_cseq [OF runs_beginScope],
        rule runsTo_cseq [OF runs_predeclare(2)], rule runsTo_cseq [OF body],
        rule runsTo_cseq [OF runs_endScope], rule runsTo_cseq [OF leave]) (simp add: runs_cret)
  then show ?thesis
    unfolding functionBody_def by (intro runsTo_cbnd [OF saved]) auto
qed

end

text \<open>The finished function is well-formed unless the compiler has failed.\<close>

lemma popFunction_result:
  assumes s: "wfCompiler s" "frameOf s = pushed F" and F: "frActives F \<noteq> []"
    and r: "popFunction s = Inr (f, t)"
  shows "wfCompiler t \<and> frameOf t = F \<and> wfNested (hadError t) [f]"
proof -
  obtain c cs where c: "fns s = c # cs" using s(1) by (cases "fns s") (auto simp: wfCompiler_def)
  have w: "wfFc (hadError s) c" "\<forall>x\<in>set cs. wfFc (hadError s) x" "cs \<noteq> []"
    using s(1) c F frameOf_pushed(2) [OF s(2)] by (auto simp: wfCompiler_def)
  have t: "t = s\<lparr>fns := cs\<rparr>" "f = finishedFunction c"
    using r c by (auto simp: popFunction_def cur_def)
  have "frameOf t = F"
    using s(2) c t(1) by (cases F) (simp add: frameOf_def pushed_def)
  moreover have "wfNested (hadError s) [f]"
    using w(1) by (auto simp: t(2) wfNested_def wfFc_def finishedFunction_def headerOk_def)
  ultimately show ?thesis using w c t(1) by (simp add: wfCompiler_def)
qed

subsection \<open>Closures\<close>

lemma runs_emitCaptures [running]: "runs F (emitCaptures us)"
  by (induction us) (auto intro!: running simp del: cseq.simps)

lemma closeOver_runs:
  assumes s: "wfCompiler s" "frameOf s = F" and f: "wfNested (hadError s) [f]"
  shows "case closeOver f i s of Inl e \<Rightarrow> e \<noteq> OutOfFuel | Inr (a, t) \<Rightarrow> wfCompiler t \<and> frameOf t = F \<and> True"
proof -
  let ?g = "\<lambda>c. c\<lparr>fcNested := fcNested c @ [f]\<rparr>"
  have w: "wfFc (hadError s) (cur s)" "fns s \<noteq> []" using wfCompiler_cur [OF s(1)] by auto
  then have "wfFc (hadError s) (?g (cur s))" using f by (auto simp: wfFc_def wfNested_def)
  then have t: "wfCompiler (setCur ?g s)" "frameOf (setCur ?g s) = F"
    using s w wfCompiler_setCur [of s ?g] frameOf_setCur [of s ?g] by simp_all
  have "runs F (cseq [emitOpShort OP_CLOSURE i, emitCaptures (fnUpvalues (header f))])"
    by (intro running)
  from runsToD [OF this t] show ?thesis
    unfolding closeOver_def by (auto simp: cbnd_def cupd_def split: sum.splits)
qed

lemma wfNested_setMethod: "wfNested b [setMethod m f] = wfNested b [f]"
  by (cases f) (simp add: wfNested_def setMethod_def headerOk_def)

context sub_compilers
begin

lemma compileFunction_result:
  assumes s: "wfCompiler s" "frameOf s = F" and t: "taskOk d t"
  shows "case compileFunction ce cs t name s of Inl e \<Rightarrow> e \<noteq> OutOfFuel
    | Inr (f, u) \<Rightarrow> wfCompiler u \<and> frameOf u = F \<and> wfNested (hadError u) [f]"
proof -
  let ?m = "cseq [pushFunction t name, prologue ce t name, functionBody cs t, emitOp OP_LOAD_NIL,
     if tCached t then emitNamed OP_STORE_CACHED_RESULT name else cret (), emitReturn]"
  have m: "runsTo F ?m (pushed F) (\<lambda>_. True)"
    by (rule runsTo_cseq [OF runs_pushFunction]) (intro running prologue_runs functionBody_runs t)
  show ?thesis
  proof (cases "?m s")
    case (Inl e)
    then show ?thesis using runsToD(1) [OF m s] by (simp add: compileFunction_def cbnd_def)
  next
    case (Inr r)
    obtain a u where r: "r = (a, u)" by (cases r)
    have u: "wfCompiler u" "frameOf u = pushed F" using runsToD(2) [OF m s] Inr r by auto
    have "frActives F \<noteq> []" using s by (auto simp: wfCompiler_def frameOf_def)
    moreover obtain f v where f: "popFunction u = Inr (f, v)" by (simp add: popFunction_def)
    ultimately have "wfCompiler v \<and> frameOf v = F \<and> wfNested (hadError v) [f]"
      using popFunction_result [OF u] by blast
    then show ?thesis using Inr r f by (simp add: compileFunction_def cbnd_def)
  qed
qed

lemma close_runs:
  assumes "taskOk d t"
    and "\<And>f s. wfCompiler s \<Longrightarrow> frameOf s = F \<Longrightarrow> wfNested (hadError s) [f] \<Longrightarrow>
      (case n f s of Inl e \<Rightarrow> e \<noteq> OutOfFuel | Inr (a, u) \<Rightarrow> wfCompiler u \<and> frameOf u = F \<and> True)"
  shows "runs F (cbnd (compileFunction ce cs t name) n)"
proof (rule runsToI)
  fix s assume s: "wfCompiler s" "frameOf s = F"
  from compileFunction_result [OF s assms(1), of name]
  show "case cbnd (compileFunction ce cs t name) n s of Inl e \<Rightarrow> e \<noteq> OutOfFuel
      | Inr (a, u) \<Rightarrow> wfCompiler u \<and> frameOf u = F \<and> True"
    using assms(2) by (cases "compileFunction ce cs t name s") (auto simp: cbnd_def)
qed

lemma closure_runs: "taskOk d t \<Longrightarrow> runs F (emitClosure ce cs t m)"
  unfolding emitClosure_def
  by (intro running close_runs) (auto intro: closeOver_runs simp: wfNested_setMethod)

lemma lambda_runs:
  assumes "size body + 2 \<le> d" and "\<forall>s\<in>set ss. size s \<le> d"
  shows "runs F (compileLambda ce cs params body ss v a)"
proof -
  have "taskOk d (Task ''<lambda>'' params [] (if body \<noteq> NoExpr then [Stmt 0 (GiveStmt body)] else ss)
      v a [] [] False None [])"
    using assms by (simp add: taskOk_def clausesSize_def)
  moreover have "case cbnd (cget (\<lambda>s. length (fcNested (cur s)))) (closeOver f) s of Inl e \<Rightarrow> e \<noteq> OutOfFuel
      | Inr (a, t) \<Rightarrow> wfCompiler t \<and> frameOf t = F \<and> True"
    if "wfCompiler s" "frameOf s = F" "wfNested (hadError s) [f]" for f s
    using closeOver_runs [OF that] by (simp add: cbnd_def cget_def)
  ultimately show ?thesis
    unfolding compileLambda_def by (rule close_runs)
qed

subsection \<open>Declarations\<close>

lemma task_runs:
  assumes "taskOk d t" and "\<forall>e\<in>set (tDecorators t). size e < d"
  shows "runs F (compileTask ce cs t)"
proof -
  have reserve: "runs F (reserveTask name)" for name
    unfolding reserveTask_def by (intro running)
  have decorate: "runs F (applyDecorators n)" for n
    by (induction n) (auto intro!: running)
  show ?thesis
    unfolding compileTask_def by (intro running reserve decorate all_runs closure_runs assms)
qed

lemma export_runs:
  assumes "0 < d" and "size inner + owed F \<le> d"
  shows "runs F (compileExport cs inner)"
proof -
  have mark: "runs F (cupd (setCur (\<lambda>c. c\<lparr>fcLocals := markExported slot (fcLocals c)\<rparr>)))" for slot
    using runs_setCur [of "\<lambda>_ c. c\<lparr>fcLocals := markExported slot (fcLocals c)\<rparr>"]
    by (simp add: wfFc_def markExported_def)
  have created: "runs F (cupd (setCur (\<lambda>c. c\<lparr>fcLocals := take n (fcLocals c)
      @ map (\<lambda>l. l\<lparr>lExported := True\<rparr>) (drop n (fcLocals c))\<rparr>)))" for n
    by (rule runs_setCur [where f = "\<lambda>_ c. c\<lparr>fcLocals := take n (fcLocals c)
      @ map (\<lambda>l. l\<lparr>lExported := True\<rparr>) (drop n (fcLocals c))\<rparr>"]) (auto simp: wfFc_def min_def)
  show ?thesis
    unfolding compileExport_def by (intro running mark created cs_runs assms)
qed

lemma static_runs: "size e < d \<Longrightarrow> runs F (compileStatic ce name e)"
proof -
  assume e: "size e < d"
  have "runs F (cupd (setCur (\<lambda>c. c\<lparr>fcStatics := p # fcStatics c\<rparr>)))" for p
    using runs_setCur [of "\<lambda>_ c. c\<lparr>fcStatics := p # fcStatics c\<rparr>"] by (simp add: wfFc_def)
  then show ?thesis
    unfolding compileStatic_def by (intro running ce_runs e)
qed

subsection \<open>Models\<close>

lemma member_runs:
  assumes "taskOk d (methodTask m)" and "\<forall>e\<in>set (mDecorators m). size e < d" and "size (mInit m) < d"
  shows "runs F (compileMember ce cs m)"
proof -
  have decorate: "runs F (applyDecorators n)" for n
    by (induction n) (auto intro!: running)
  show ?thesis
    unfolding compileMember_def by (intro running decorate all_runs closure_runs ce_runs assms)
qed

lemma members_runs:
  "\<forall>m\<in>set ms. taskOk d (methodTask m) \<and> (\<forall>e\<in>set (mDecorators m). size e < d) \<and> size (mInit m) < d \<Longrightarrow>
     runs F (compileMembers ce cs ms)"
  by (induction ms) (auto intro!: running member_runs)

lemma validators_runs: "\<forall>v\<in>set vs. size (vParam (snd v)) < d \<Longrightarrow> runs F (compileValidators ce vs)"
proof (induction vs)
  case (Cons v vs)
  then have v: "size (vParam (snd v)) < d" and vs: "runs F (compileValidators ce vs)" by auto
  have "runs F (compileValidator ce v)"
    unfolding compileValidator_def by (cases v) (use v in \<open>auto intro!: running ce_runs simp del: cseq.simps\<close>)
  then show ?case unfolding compileValidators.simps by (intro running vs)
qed (simp add: runs_cret)

lemma runs_emitNames [running]: "runs F (emitNames ns)"
  by (induction ns) (auto intro!: running)

lemma runs_loadClasses [running]: "runs F (loadClasses ns)"
  by (induction ns) (auto intro!: running)

lemma runs_setClass [running]: "runs F (setClass c p)"
  unfolding setClass_def
  by (rule runs_setCur [where f = "\<lambda>_ fc. fc\<lparr>fcClass := c, fcParentClass := p\<rparr>"]) (simp add: wfFc_def)

lemma model_runs:
  assumes init: "taskOk d (initTask m)"
    and "\<forall>x\<in>set (mdMembers m). taskOk d (methodTask x) \<and> (\<forall>e\<in>set (mDecorators x). size e < d) \<and> size (mInit x) < d"
    and "\<forall>e\<in>set (mdDecorators m). size e < d"
    and "\<forall>v\<in>set (validatorsOf (mdMembers m)). size (vParam (snd v)) < d"
  shows "runs F (compileModel ce cs m)"
proof -
  have decorate: "runs F (applyDecorators n)" for n
    by (induction n) (auto intro!: running)
  have injected: "runs F (injectedStatics m)"
    unfolding injectedStatics_def by (intro running)
  have make: "runs F (makeClass ce m)"
    unfolding makeClass_def limited_def by (intro running validators_runs assms)
  have store: "runs F (storeModel name)" for name
    unfolding storeModel_def by (intro running)
  show ?thesis
    unfolding compileModel_def
    by (intro running decorate injected make store all_runs members_runs closure_runs assms)
qed

lemma runs_interface [running]: "runs F (compileInterface name names)"
  unfolding compileInterface_def by (intro running)

subsection \<open>The nodes of a statement\<close>

lemma clausesSize_le: "clausesSize cls \<le> size_list (size_prod size (\<lambda>_. 0)) cls"
  by (induction cls) (auto simp: clausesSize_def)

lemma clausesSize_less: "cls \<noteq> [] \<Longrightarrow> clausesSize cls < size_list (size_prod size (\<lambda>_. 0)) cls"
  using clausesSize_le by (cases cls) (auto simp: clausesSize_def less_Suc_eq_le intro!: add_mono)

lemma all_in_list:
  assumes "size_list f xs \<le> n"
  shows "\<forall>x\<in>set xs. f x < n"
  using assms size_in_list [of _ xs f] less_le_trans by blast

lemma clauses_in:
  assumes "size_list (size_prod size (\<lambda>_. 0)) cls \<le> n"
  shows "\<forall>c\<in>set cls. size (fst c) < n"
  using all_in_list [OF assms] by (fastforce dest: Suc_lessD)

lemma taskOk_parts:
  assumes "0 < d" and "size_list size (tDefaults t) + size_list size (tBody t)
     + size_list (size_prod size (\<lambda>_. 0)) (tRequires t) + size_list (size_prod size (\<lambda>_. 0)) (tEnsures t) \<le> d"
  shows "taskOk d t"
proof -
  have "clausesSize (tEnsures t) < d"
    using assms clausesSize_less [of "tEnsures t"] by (cases "tEnsures t = []") (auto simp: clausesSize_def)
  moreover have "\<forall>s\<in>set (tBody t). size s < d - clausesSize (tEnsures t)"
    using assms clausesSize_le [of "tEnsures t"] by (intro all_in_list) simp
  ultimately show ?thesis
    using assms all_in_list [of size "tDefaults t" d] clauses_in [of "tRequires t"] by (auto simp: taskOk_def)
qed

lemma taskOk_size:
  assumes "size_task_form size size t \<le> d"
  shows "taskOk d t" and "\<forall>e\<in>set (tDecorators t). size e < d"
  using assms by (cases t; auto intro!: taskOk_parts all_in_list; fail)+

lemma memberOk_size:
  assumes "size_member_form size size m \<le> d"
  shows "taskOk d (methodTask m)" and "\<forall>e\<in>set (mDecorators m). size e < d" and "size (mInit m) < d"
    and "\<forall>v\<in>set (mValidators m). size (vParam v) < d"
proof -
  show "taskOk d (methodTask m)"
    using assms by (cases m) (auto intro!: taskOk_parts simp: methodTask_def)
  show "\<forall>e\<in>set (mDecorators m). size e < d"
    by (rule all_in_list) (use assms in \<open>cases m; simp\<close>)
  show "size (mInit m) < d"
    using assms by (cases m) simp
  have "\<forall>v\<in>set (mValidators m). size_validator size v < d"
    by (rule all_in_list) (use assms in \<open>cases m; simp\<close>)
  moreover have "size (vParam v) \<le> size_validator size v" for v :: "expr validator"
    by (cases v) simp
  ultimately show "\<forall>v\<in>set (mValidators m). size (vParam v) < d"
    using le_less_trans by blast
qed

lemma model_node_runs:
  assumes "size_model_form size size m \<le> d"
  shows "runs F (compileModel ce cs m)"
proof -
  obtain name pa ifs ps defaults init ms au sn pe decorators where
    m: "m = Model name pa ifs ps defaults init ms au sn pe decorators" by (cases m)
  have "size_member_form size size x < d" if "x \<in> set ms" for x
    using assms size_in_list [OF that, of "size_member_form size size"] by (simp add: m)
  then have members: "size_member_form size size x \<le> d" if "x \<in> set ms" for x
    using that by (simp add: less_imp_le)
  have "taskOk d (initTask m)"
    using assms by (intro taskOk_parts) (auto simp: m initTask_def)
  moreover have "\<forall>e\<in>set (mdDecorators m). size e < d"
    by (rule all_in_list) (use assms in \<open>simp add: m\<close>)
  moreover have "\<forall>x\<in>set (mdMembers m). taskOk d (methodTask x) \<and> (\<forall>e\<in>set (mDecorators x). size e < d) \<and> size (mInit x) < d"
    using members memberOk_size(1-3) by (auto simp: m)
  moreover have "\<forall>v\<in>set (validatorsOf (mdMembers m)). size (vParam (snd v)) < d"
    using members memberOk_size(4) by (fastforce simp: m validatorsOf_def)
  ultimately show ?thesis by (intro model_runs)
qed

lemma stmtNode_runs:
  assumes "size_stmt_form size size n + owed F \<le> d"
  shows "runs F (Compile_Main.stmtNode ce cs n)"
proof -
  have d: "0 < d" using assms by (cases n) auto
  show ?thesis
  proof (cases n)
    case (BlockStmt ss)
    then show ?thesis using assms d size_in_list [of _ ss size]
      by (fastforce simp: Compile_Main.stmtNode_def intro!: block_runs)
  next
    case (MatchStmt subject arms)
    have "size p < d \<and> size body + owed F \<le> d" if "(p, body) \<in> set arms" for p body
      using assms size_in_list [OF that, of "size_prod size size"] by (simp add: MatchStmt)
    then show ?thesis using MatchStmt assms by (auto simp: Compile_Main.stmtNode_def intro!: match_runs)
  next
    case (TryStmt body cbs fin)
    have "size (cbBody cb) + size fin + owed F \<le> d" if "cb \<in> set cbs" for cb
      using assms size_in_list [OF that, of "size_catch_block size"] by (cases cb) (simp add: TryStmt)
    then show ?thesis using TryStmt assms d by (auto simp: Compile_Main.stmtNode_def intro!: try_runs)
  next
    case (TaskStmt t)
    then show ?thesis using assms taskOk_size [of t] by (auto simp: Compile_Main.stmtNode_def intro!: task_runs)
  next
    case (ModelStmt m)
    then show ?thesis using assms by (auto simp: Compile_Main.stmtNode_def intro!: model_node_runs)
  qed (use assms d in \<open>auto simp: Compile_Main.stmtNode_def intro!: running expressionStmt_runs out_runs
     varDecl_runs when_runs while_runs repeat_runs get_runs give_runs escape_runs skip_runs static_runs
     throw_runs export_runs\<close>)
qed

end

subsection \<open>The recursion\<close>

lemma compilers_run: "sub_compilers (compileExpr d) (compileStmt d) d"
proof (induction d)
  case (Suc d)
  note sub = sub_compilers.exprNode_runs [OF Suc] sub_compilers.lambda_runs [OF Suc] sub_compilers.stmtNode_runs [OF Suc]
  show ?case
  proof
    fix e :: expr and F assume e: "size e < Suc d"
    show "runs F (compileExpr (Suc d) e)"
    proof (cases e)
      case (Expr line col n)
      have "runs F (compileLambda (compileExpr d) (compileStmt d) ps body ss v a)"
        if "n = LambdaExpr ps body ss v a" for ps body ss v a
        using e Expr that size_in_list [of _ ss size] by (fastforce intro!: sub(2))
      then show ?thesis using e Expr by (auto intro!: running sub(1))
    qed (simp add: runs_emitOp)
  next
    fix st :: stmt and F assume "size st + owed F \<le> Suc d"
    then show "runs F (compileStmt (Suc d) st)"
      by (cases st) (auto intro!: running sub(3))
  qed
qed (unfold_locales; simp)

interpretation ez: sub_compilers "compileExpr d" "compileStmt d" d for d
  by (rule compilers_run)

lemma compileProgram_runs:
  "size_list size ss < d \<Longrightarrow> owed F = 0 \<Longrightarrow> runs F (compileProgram (compileExpr d) (compileStmt d) ss)"
proof (induction ss)
  case (Cons s ss)
  then have rest: "runs F (compileProgram (compileExpr d) (compileStmt d) ss)" by simp
  have "runs F (case lastExpression (s # ss) of Some e \<Rightarrow> cseq [compileExpr d e, emitReturn]
      | None \<Rightarrow> compileStmt d s)"
  proof (cases "lastExpression (s # ss)")
    case None
    then show ?thesis using Cons.prems by (simp add: ez.cs_runs)
  next
    case (Some e)
    then have "size e < d"
      using Cons.prems by (cases "s # ss" rule: lastExpression.cases) auto
    then have "runs F (cseq [compileExpr d e, emitReturn])" by (intro running ez.ce_runs)
    then show ?thesis using Some by simp
  qed
  then show ?case unfolding compileProgram.simps by (rule runs_cbnd) (rule rest)
qed (simp add: runs_cret)

definition programFrame :: cframe where
  "programFrame = \<lparr>frActives = [[]], frDepths = [0], frEnsures = []\<rparr>"

lemma newCompiler_ok:
  "wfCompiler (newCompiler b\<lparr>declaredTypes := ts\<rparr>) \<and> frameOf (newCompiler b\<lparr>declaredTypes := ts\<rparr>) = programFrame"
  by (simp add: wfCompiler_def newCompiler_def frameOf_def programFrame_def newFunction_def newHeader_def
      wfFc_def wfNested_def sitesOk_def headerOk_def chunk_inv_def emptyChunk_def)

lemma wholeProgram_runs:
  "runs programFrame (cbnd (compileProgram (compileExpr (programFuel ss)) (compileStmt (programFuel ss)) ss)
     (\<lambda>_. cbnd (cget hadError) (\<lambda>failed. if failed then cret () else cseq [emitOp OP_LOAD_NIL, emitReturn])))"
proof -
  have "runs programFrame (compileProgram (compileExpr (programFuel ss)) (compileStmt (programFuel ss)) ss)"
    by (rule compileProgram_runs) (simp_all add: programFuel_def programFrame_def owed_def clausesSize_def)
  then show ?thesis by (intro running)
qed

lemma compileFrom_result:
  "case compileFrom (newCompiler b) ss of Inl e \<Rightarrow> e \<noteq> OutOfFuel | Inr r \<Rightarrow> wfFunction (crMain r)"
proof -
  let ?m = "cbnd (compileProgram (compileExpr (programFuel ss)) (compileStmt (programFuel ss)) ss)
     (\<lambda>_. cbnd (cget hadError) (\<lambda>failed. if failed then cret () else cseq [emitOp OP_LOAD_NIL, emitReturn]))"
  let ?s = "newCompiler b\<lparr>declaredTypes := concat (map scanDeclaredType ss)\<rparr>"
  have s: "wfCompiler ?s" "frameOf ?s = programFrame" using newCompiler_ok by auto
  note r = runsToD [OF wholeProgram_runs [of ss] s]
  show ?thesis
  proof (cases "?m ?s")
    case (Inl e)
    then show ?thesis using r(1) by (simp add: compileFrom_def Let_def)
  next
    case (Inr q)
    obtain a t where q: "q = (a, t)" by (cases q)
    then have "wfCompiler t" using r(2) Inr by auto
    then have "\<not> hadError t \<Longrightarrow> wfFunction (mainFunction t)"
      using wfCompiler_cur [of t]
      by (auto simp: mainFunction_def finishedFunction_def wfFc_def wfNested_def headerOk_def)
    then show ?thesis using Inr q by (simp add: compileFrom_def Let_def)
  qed
qed

text \<open>A function with all the functions nested in it.\<close>

fun withNested :: "bfunction \<Rightarrow> bfunction list" where
  "withNested (BFunction h c ns) = BFunction h c ns # concat (map withNested ns)"

lemma wfFunction_nested: "wfFunction f \<Longrightarrow> g \<in> set (withNested f) \<Longrightarrow> wfFunction g"
  by (induction f rule: withNested.induct) auto

lemmas compiler_eval = compileFrom_def programFuel_def Let_def newCompiler_def newFunction_def newHeader_def
  emptyChunk_def cbnd_def cret_def cget_def cupd_def clift_def cur_def setCur_def depthGuard_def maxDepth_def
  exprNode_def stmtNode_def onChunk_def emitByte_def emitOp_def emitOpByte_def emitShort_def emitOpShort_def
  emitReturn_def writeOp_def writeByte_def codeSize_def resolveLocal_def resolveUpvalue_def
  loadGlobalSlotOf_def globalSlotFor_def recordCallSite_def mainFunction_def finishedFunction_def

text \<open>The program \<open>f()\<close>.\<close>

definition callProgram :: "stmt list" where
  "callProgram = [Stmt 1 (ExpressionStmt (Expr 1 1 (CallExpr (Expr 1 1 (IdentifierExpr ''f'')) [] [])))]"

lemma callProgram_compiles:
  obtains r where "compileFrom (newCompiler False) callProgram = Inr r"
    and "code (chunk_of (crMain r)) = map opcodeByte [OP_LOAD_GLOBAL_SLOT] @ [0, 0] @ [opcodeByte OP_CALL, 0]
      @ map opcodeByte [OP_RETURN, OP_LOAD_NIL, OP_RETURN]"
    and "fnCallSites (header (crMain r)) = [\<lparr>csOffset = 5, csName = ''f''\<rparr>]"
proof -
  have "case compileFrom (newCompiler False) callProgram of Inl _ \<Rightarrow> False
      | Inr r \<Rightarrow> code (chunk_of (crMain r)) = map opcodeByte [OP_LOAD_GLOBAL_SLOT] @ [0, 0] @ [opcodeByte OP_CALL, 0]
            @ map opcodeByte [OP_RETURN, OP_LOAD_NIL, OP_RETURN]
          \<and> fnCallSites (header (crMain r)) = [\<lparr>csOffset = 5, csName = ''f''\<rparr>]"
    by (simp add: compiler_eval callProgram_def compileCall_def oldSlot_def callPlain_def foldCall_def
        compileIdentifier_def)
  then show ?thesis using that by (auto split: sum.splits)
qed

lemma withNested_self: "f \<in> set (withNested f)"
  by (cases f) simp

text \<open>
  C8. Compiling a program always ends: the recursion over expressions and statements, with the finally
  bodies it replays and the contracts it repeats, needs no more fuel than the size of the program.
\<close>

theorem compile_needs_no_more_fuel: "compileFrom (newCompiler noContracts) ss \<noteq> Inl OutOfFuel"
  using compileFrom_result [of noContracts ss] by auto

text \<open>
  C9. Every function of a compiled program is well-formed: its line table has one entry for each byte
  of its code, its count of captured variables is the length of their list and at most 255, and its
  frame has no more locals than a wide operand reaches.
\<close>

theorem compiled_functions_wellformed:
  assumes "compileFrom (newCompiler noContracts) ss = Inr r" and "f \<in> set (withNested (crMain r))"
  shows "length (clines (chunk_of f)) = length (code (chunk_of f))
     \<and> fnUpvalueCount (header f) = length (fnUpvalues (header f)) \<and> length (fnUpvalues (header f)) \<le> 255
     \<and> fnLocalCount (header f) \<le> 65535"
proof -
  have "wfFunction f"
    using compileFrom_result [of noContracts ss] assms wfFunction_nested by auto
  then show ?thesis by (cases f) (simp add: headerOk_def chunk_inv_def)
qed

theorem compiled_functions_wellformed_witness:
  "\<exists>r. compileFrom (newCompiler False) callProgram = Inr r \<and> fnLocalCount (header (crMain r)) \<le> 65535"
proof -
  obtain r where r: "compileFrom (newCompiler False) callProgram = Inr r" by (rule callProgram_compiles)
  from compiled_functions_wellformed [OF r withNested_self] r show ?thesis by blast
qed

text \<open>
  C13. In every function of a compiled program shorter than 4 GiB the binary search for the name of a
  callee finds each recorded call under its own offset: the compiler records the calls in the order of
  the code, never two at the same offset, and none past its end.
\<close>

theorem compiled_call_sites_found:
  assumes "compileFrom (newCompiler noContracts) ss = Inr r" and "f \<in> set (withNested (crMain r))"
    and "length (code (chunk_of f)) < 2 ^ 32" and "x \<in> set (fnCallSites (header f))"
  shows "calleeNameAt (fnCallSites (header f)) (csOffset x) = Some (csName x)
     \<and> unat (csOffset x) \<le> length (code (chunk_of f))"
proof -
  have "wfFunction f"
    using compileFrom_result [of noContracts ss] assms wfFunction_nested by auto
  then have "sitesOk (length (code (chunk_of f))) (fnCallSites (header f))" by (cases f) simp
  then show ?thesis using assms(3,4) calleeNameAt_member by (auto simp: sitesOk_def)
qed

theorem compiled_call_sites_found_witness:
  "\<exists>r. compileFrom (newCompiler False) callProgram = Inr r
     \<and> calleeNameAt (fnCallSites (header (crMain r))) 5 = Some ''f''"
proof -
  obtain r where r: "compileFrom (newCompiler False) callProgram = Inr r"
    and c: "code (chunk_of (crMain r)) = map opcodeByte [OP_LOAD_GLOBAL_SLOT] @ [0, 0] @ [opcodeByte OP_CALL, 0]
      @ map opcodeByte [OP_RETURN, OP_LOAD_NIL, OP_RETURN]"
    and x: "fnCallSites (header (crMain r)) = [\<lparr>csOffset = 5, csName = ''f''\<rparr>]" by (rule callProgram_compiles)
  from compiled_call_sites_found [OF r withNested_self, of "\<lparr>csOffset = 5, csName = ''f''\<rparr>"] r show ?thesis
    by (simp add: c x)
qed

end
