(* ===== verification/Compile_Scope.thy ===== *)
theory Compile_Scope
  imports Compile_Safe
begin

text \<open>
  Where the compiler loses track of what a name means: the fast path of a compound assignment looks
  for a local and a global but not for a captured variable, and compiling a function forgets the
  values the enclosing one keeps for \<open>old\<close>.
\<close>

subsection \<open>Compound assignment in a nested function\<close>

definition nameExpr :: "string \<Rightarrow> expr" where
  "nameExpr x = Expr 1 1 (IdentifierExpr x)"

text \<open>The statement \<open>x = x + y\<close>.\<close>

definition addAssign :: "string \<Rightarrow> string \<Rightarrow> expr" where
  "addAssign x y = Expr 1 1 (AssignExpr x (Expr 1 1 (BinaryExpr (nameExpr x) TK_PLUS (nameExpr y))) NoExpr NoExpr None)"

text \<open>
  C35. When a nested function uses a variable \<open>x\<close> of the enclosing function and some global is called
  \<open>x\<close> as well, reading \<open>x\<close> compiles to a load of the captured variable, but \<open>x = x + y\<close> with a local
  \<open>y\<close> compiles to an addition to the global: the two statements mean different variables.
\<close>

theorem compound_assignment_misses_captures:
  assumes "resolveStatic x (fns s) = []" and "resolveLocal x s = None"
    and "resolveUpvalue x s = Inr (Some u, t)" and "map_of (slotTable s) x = Some slot"
    and "\<not> fcHarvesting (cur s)" and "resolveLocal y s = Some i" and "i \<le> 255"
  shows "compileIdentifier x s = emitOpByte OP_LOAD_UPVALUE u t
    \<and> compileExpressionStmt ce (addAssign x y) s = cseq [emitOpShort OP_ADD_GLOBAL_LOCAL slot, emitByte i] s"
proof -
  obtain v where "cseq [emitOpShort OP_ADD_GLOBAL_LOCAL slot, emitByte i] s = Inr ((), v)"
    by (simp add: cbnd_def cret_def emitOpShort_def emitShort_def emitOp_def emitByte_def onChunk_def cupd_def)
  then show ?thesis
    using assms
    by (simp add: compileIdentifier_def compileExpressionStmt_def addAssign_def nameExpr_def
        compileCompoundAssignFast_def fastGlobal_def fastGlobalSlot_def narrowLocal_def cbnd_def cget_def cret_def)
qed

text \<open>A function with a local \<open>y\<close> inside one with a local \<open>x\<close>, and a global \<open>x\<close> in slot 7.\<close>

definition plainLocal :: "string \<Rightarrow> localVar" where
  "plainLocal x = \<lparr>lName = x, lDepth = 1, lCaptured = False, lConst = False, lResident = True,
     lExported = False, lInfo = 0\<rparr>"

definition nestedScope :: compiler where
  "nestedScope = (newCompiler False)\<lparr>fns := [(newFunction ''inner'' 0 3)\<lparr>fcLocals := [plainLocal ''y'']\<rparr>,
     (newFunction ''outer'' 0 2)\<lparr>fcLocals := [plainLocal ''x'']\<rparr>, newFunction ''<main>'' 0 1],
     slotTable := [(''x'', 7)], nextGlobalSlot := 8\<rparr>"

theorem compound_assignment_misses_captures_witness:
  "\<exists>t. compileIdentifier ''x'' nestedScope = emitOpByte OP_LOAD_UPVALUE 0 t
     \<and> compileExpressionStmt (compileExpr 9) (addAssign ''x'' ''y'') nestedScope
       = cseq [emitOpShort OP_ADD_GLOBAL_LOCAL 7, emitByte 0] nestedScope"
proof -
  obtain t where "resolveUpvalue ''x'' nestedScope = Inr (Some 0, t)"
    by (simp add: nestedScope_def newCompiler_def newFunction_def resolveUpvalue_def plainLocal_def addUpvalue_def)
  from compound_assignment_misses_captures [OF _ _ this, of 7 "''y''" 0 "compileExpr 9"] show ?thesis
    by (auto simp: nestedScope_def newCompiler_def newFunction_def resolveLocal_def plainLocal_def cur_def)
qed

subsection \<open>Contracts around nested functions\<close>

text \<open>Looking at what a step of the compiler leaves in one field.\<close>

lemma cbnd_result:
  assumes "cbnd m n s = Inr (b, u)"
  obtains a t where "m s = Inr (a, t)" and "n a t = Inr (b, u)"
  using assms by (auto simp: cbnd_def split: sum.splits)

definition keepsOlds :: "'a cact \<Rightarrow> bool" where
  "keepsOlds m \<longleftrightarrow> (\<forall>s a t. m s = Inr (a, t) \<longrightarrow> oldCaptures t = oldCaptures s)"

lemma keepsOldsI:
  assumes "\<And>s a t. m s = Inr (a, t) \<Longrightarrow> oldCaptures t = oldCaptures s"
  shows "keepsOlds m"
  using assms by (simp add: keepsOlds_def)

lemma keepsOldsD: "keepsOlds m \<Longrightarrow> m s = Inr (a, t) \<Longrightarrow> oldCaptures t = oldCaptures s"
  by (simp add: keepsOlds_def)

lemma keepsOlds_cbnd: "keepsOlds m \<Longrightarrow> (\<And>a. keepsOlds (n a)) \<Longrightarrow> keepsOlds (cbnd m n)"
  by (rule keepsOldsI) (metis cbnd_result keepsOldsD)

lemma keepsOlds_setCur: "keepsOlds (cupd (\<lambda>s. setCur (f s) s))"
  by (rule keepsOldsI) (auto simp: cupd_def setCur_def split: list.splits)

lemma keepsOlds_emit: "keepsOlds (emitOp k)" "keepsOlds (emitByte b)" "keepsOlds (cret x)" "keepsOlds emitReturn"
  unfolding emitOp_def emitByte_def onChunk_def emitReturn_def
  by (rule keepsOlds_setCur keepsOldsI; simp add: cret_def)+

lemma keepsOlds_makeConstant: "keepsOlds (makeConstant c)"
  by (rule keepsOldsI) (auto simp: makeConstant_def setCur_def split: list.splits prod.splits)

lemma keepsOlds_emitNamed: "keepsOlds (emitNamed k name)"
  unfolding emitNamed_def identifierConstant_def emitOpShort_def emitShort_def cseq.simps
  by (intro keepsOlds_cbnd keepsOlds_emit keepsOlds_makeConstant)

lemma functionBody_olds:
  assumes "functionBody cs t s = Inr (a, u)"
  shows "oldCaptures u = oldCaptures s"
  using assms by (auto simp: functionBody_def cget_def cupd_def cret_def elim!: cbnd_result)

lemma prologue_olds:
  assumes "prologue ce t name s = Inr (a, u)" and "tEnsures t = []"
  shows "oldCaptures u = []"
  using assms by (auto simp: prologue_def cget_def cupd_def cret_def elim!: cbnd_result split: if_splits)

text \<open>
  C36. Compiling a task or lambda without \<open>ensures\<close> clauses clears the table of the values kept for
  \<open>old\<close>, whatever the enclosing function had recorded: the table is saved only after it was cleared.
  From there on \<open>old(e)\<close> in a postcondition of the enclosing function no longer finds its value and
  compiles as a call of a function named \<open>old\<close>.
\<close>

theorem nested_function_forgets_old_values:
  assumes "compileFunction ce cs t name s = Inr (f, u)" and "tEnsures t = []"
  shows "oldCaptures u = [] \<and> oldSlot callee args u = None"
proof -
  let ?tail = "cseq [emitOp OP_LOAD_NIL, if tCached t then emitNamed OP_STORE_CACHED_RESULT name else cret (), emitReturn]"
  have rest: "keepsOlds ?tail"
    unfolding cseq.simps by (intro keepsOlds_cbnd keepsOlds_emit) (simp add: keepsOlds_emit keepsOlds_emitNamed)
  from assms(1) obtain a b v w x where "prologue ce t name v = Inr (a, w)" and "functionBody cs t w = Inr (b, x)"
    and e: "\<exists>c y. ?tail x = Inr (c, y) \<and> popFunction y = Inr (f, u)"
    by (auto simp: compileFunction_def elim!: cbnd_result) (auto simp: cbnd_def)
  then have "oldCaptures x = []" using functionBody_olds prologue_olds assms(2) by fastforce
  then have "oldCaptures u = []"
    using e keepsOldsD [OF rest] by (auto simp: popFunction_def)
  then show ?thesis by (simp add: oldSlot_def split: expr.split expr_form.split list.split)
qed

text \<open>The empty lambda, compiled where the value of \<open>old(e)\<close> is kept in local 2.\<close>

definition emptyLambda :: task where
  "emptyLambda = Task ''<lambda>'' [] [] [] False False [] [] False None []"

definition contractScope :: compiler where
  "contractScope = (newCompiler False)\<lparr>oldCaptures := [(''old_1_5'', 2)]\<rparr>"

theorem nested_function_forgets_old_values_witness:
  "\<exists>f u. compileFunction (compileExpr 9) (compileStmt 9) emptyLambda ''<lambda>'' contractScope = Inr (f, u)
     \<and> oldSlot (nameExpr ''old'') [Expr 1 5 SelfExpr] contractScope = Some 2
     \<and> oldSlot (nameExpr ''old'') [Expr 1 5 SelfExpr] u = None"
proof -
  have "\<exists>f u. compileFunction (compileExpr 9) (compileStmt 9) emptyLambda ''<lambda>'' contractScope = Inr (f, u)"
    by (simp add: compiler_eval compileFunction_def pushFunction_def prologue_def functionBody_def emptyLambda_def
        contractScope_def rateLimitCheck_def popFunction_def beginScope_def endScope_def deeperLocals_def
        predeclareLocalTasks_def atTop_def)
  then obtain f u where u: "compileFunction (compileExpr 9) (compileStmt 9) emptyLambda ''<lambda>'' contractScope = Inr (f, u)"
    by blast
  have key: "showNat (Suc 0) @ CHR ''_'' # showNat 5 = ''1_5''" by code_simp
  have "oldSlot (nameExpr ''old'') [Expr 1 5 SelfExpr] u = None"
    using nested_function_forgets_old_values [OF u] by (simp add: emptyLambda_def)
  then show ?thesis
    using u by (auto simp: contractScope_def oldSlot_def nameExpr_def oldKey_def key)
qed

end
