(* ===== verification/Parser_Core.thy ===== *)
theory Parser_Core
  imports Ast Name_Distance
begin

text \<open>
  The state of the parser and its token navigation, from \<open>src/parser/Parser.h\<close>, \<open>Parser.cpp\<close> and
  the start of \<open>ParserExpr.cpp\<close>. The parser keeps the vector of tokens and an index into it; an
  access past either end stops as undefined behaviour. A \<open>ParseError\<close> stops with the state it was
  thrown in, as \<open>declaration\<close> catches it and goes on from there. \<open>pDiags\<close> collects what \<open>error\<close>
  prints: the message and the token it points at.
\<close>

subsection \<open>State\<close>

record pstate =
  pTokens :: "token list"
  pCurrent :: nat
  pHadError :: bool
  pDepth :: nat
  pDiags :: "(string \<times> token) list"

datatype pstop = ParseError string int | ParserThrows cxx_exn | NoFuel

type_synonym 'a pact = "pstate \<Rightarrow> (pstop \<times> pstate) + 'a \<times> pstate"

definition pbind :: "'a pact \<Rightarrow> ('a \<Rightarrow> 'b pact) \<Rightarrow> 'b pact" where
  "pbind m f s = (case m s of Inl e \<Rightarrow> Inl e | Inr (a, t) \<Rightarrow> f a t)"

definition pthen :: "'a pact \<Rightarrow> 'b pact \<Rightarrow> 'b pact" where
  "pthen m n = pbind m (\<lambda>_. n)"

definition pret :: "'a \<Rightarrow> 'a pact" where
  "pret a s = Inr (a, s)"

definition pfail :: "string \<Rightarrow> int \<Rightarrow> 'a pact" where
  "pfail msg line s = Inl (ParseError msg line, s)"

definition pundefined :: "string \<Rightarrow> 'a pact" where
  "pundefined what s = Inl (ParserThrows (Undefined what), s)"

text \<open>What a \<open>catch (const ParseError&)\<close> does.\<close>

definition catching :: "'a pact \<Rightarrow> (string \<Rightarrow> int \<Rightarrow> 'a pact) \<Rightarrow> 'a pact" where
  "catching m h s = (case m s of Inl (ParseError msg line, t) \<Rightarrow> h msg line t | r \<Rightarrow> r)"

text \<open>
  A loop that goes on with \<open>Inl\<close> and ends with \<open>Inr\<close>. Every turn of a loop of the parser takes a
  token, so the tokens left bound the turns.
\<close>

fun loopFor :: "nat \<Rightarrow> ('a \<Rightarrow> ('a + 'b) pact) \<Rightarrow> 'a \<Rightarrow> 'b pact" where
  "loopFor 0 f a s = Inl (NoFuel, s)"
| "loopFor (Suc n) f a s = pbind (f a) (\<lambda>r. case r of Inl b \<Rightarrow> loopFor n f b | Inr c \<Rightarrow> pret c) s"

definition left :: "pstate \<Rightarrow> nat" where
  "left s = length (pTokens s) - pCurrent s"

definition ploop :: "('a \<Rightarrow> ('a + 'b) pact) \<Rightarrow> 'a \<Rightarrow> 'b pact" where
  "ploop f a s = loopFor (Suc (left s)) f a s"

subsection \<open>Navigation\<close>

definition peekTok :: "token pact" where
  "peekTok s = (if pCurrent s < length (pTokens s) then Inr (pTokens s ! pCurrent s, s)
     else pundefined ''token past the end'' s)"

definition peekNextTok :: "token pact" where
  "peekNextTok s =
     (if pTokens s = [] then pundefined ''back of no tokens'' s
      else Inr (if pCurrent s + 1 \<ge> length (pTokens s) then last (pTokens s) else pTokens s ! (pCurrent s + 1), s))"

definition previousTok :: "token pact" where
  "previousTok s = (if 0 < pCurrent s \<and> pCurrent s \<le> length (pTokens s)
     then Inr (pTokens s ! (pCurrent s - 1), s) else pundefined ''token before the first'' s)"

definition atEnd :: "bool pact" where
  "atEnd = pbind peekTok (\<lambda>t. pret (ttype t = TK_END_OF_FILE))"

definition advanceTok :: "token pact" where
  "advanceTok = pbind atEnd (\<lambda>e s. previousTok (if e then s else s\<lparr>pCurrent := pCurrent s + 1\<rparr>))"

text \<open>\<open>check\<close>, both forms of \<open>match\<close>, and \<open>consume\<close>.\<close>

definition check :: "token_kind \<Rightarrow> bool pact" where
  "check k = pbind atEnd (\<lambda>e. if e then pret False else pbind peekTok (\<lambda>t. pret (ttype t = k)))"

definition matchTok :: "token_kind \<Rightarrow> bool pact" where
  "matchTok k = pbind (check k) (\<lambda>b. if b then pbind advanceTok (\<lambda>_. pret True) else pret False)"

fun matchAny :: "token_kind list \<Rightarrow> bool pact" where
  "matchAny [] = pret False"
| "matchAny (k # ks) = pbind (check k) (\<lambda>b. if b then pbind advanceTok (\<lambda>_. pret True) else matchAny ks)"

text \<open>The keywords stand between \<open>OUT\<close> and \<open>ENSURES\<close> in the enumeration.\<close>

definition isKeywordToken :: "token_kind \<Rightarrow> bool" where
  "isKeywordToken k = (case k of TKw x \<Rightarrow> True | TOop x \<Rightarrow> x \<noteq> K_AT | _ \<Rightarrow> False)"

definition isPropertyNameToken :: "token_kind \<Rightarrow> bool" where
  "isPropertyNameToken k =
     (k = TK_IDENTIFIER \<or> k = TK_TRUE \<or> k = TK_FALSE \<or> k = TK_NIL \<or> isKeywordToken k)"

definition consume :: "token_kind \<Rightarrow> string \<Rightarrow> token pact" where
  "consume k msg = pbind (check k) (\<lambda>b. if b then advanceTok
     else pbind peekTok (\<lambda>t.
       if k = TK_IDENTIFIER \<and> isKeywordToken (ttype t)
       then pfail (msg @ '' -- '' @ sq (lexeme t) @ '' is a reserved keyword and can't be used as a name'') (tline t)
       else pfail msg (tline t)))"

definition skipNewlines :: "unit pact" where
  "skipNewlines = ploop (\<lambda>_. pbind (matchTok TK_NEWLINE) (\<lambda>b. pret (if b then Inl () else Inr ()))) ()"

subsection \<open>Errors\<close>

definition parserError :: "token \<Rightarrow> string \<Rightarrow> unit pact" where
  "parserError t msg s = Inr ((), s\<lparr>pHadError := True, pDiags := pDiags s @ [(msg, t)]\<rparr>)"

text \<open>
  \<open>synchronize\<close>: past one token, then up to a newline or a statement keyword outside every bracket
  opened on the way.
\<close>

definition opensBracket :: "token_kind \<Rightarrow> bool" where
  "opensBracket k \<longleftrightarrow> k = TK_LBRACE \<or> k = TK_LPAREN \<or> k = TK_LBRACKET"

definition closesBracket :: "token_kind \<Rightarrow> bool" where
  "closesBracket k \<longleftrightarrow> k = TK_RBRACE \<or> k = TK_RPAREN \<or> k = TK_RBRACKET"

definition resumesAt :: "token_kind \<Rightarrow> bool" where
  "resumesAt k \<longleftrightarrow> k \<in> {TK_TASK, TK_WHEN, TK_WHILE, TK_REPEAT, TK_GET, TK_OUT, TK_GIVE, TK_ESCAPE, TK_SKIP}"

definition syncDepth :: "token_kind \<Rightarrow> nat \<Rightarrow> nat" where
  "syncDepth k depth = (if opensBracket k then depth + 1 else if closesBracket k then depth - 1 else depth)"

definition synchronize :: "unit pact" where
  "synchronize = pthen advanceTok (ploop (\<lambda>depth. pbind atEnd (\<lambda>e.
     if e then pret (Inr ())
     else pbind previousTok (\<lambda>p.
       if ttype p = TK_NEWLINE \<and> depth = 0 then pret (Inr ())
       else pbind peekTok (\<lambda>t.
         if resumesAt (ttype t) \<and> depth = 0 then pret (Inr ())
         else pthen advanceTok (pret (Inl (syncDepth (ttype t) depth))))))) 0)"

text \<open>
  \<open>DepthGuard\<close>. Its destructor lowers the depth again however the guarded code is left, but does not
  run when the constructor itself throws.
\<close>

definition maxParseDepth :: nat where "maxParseDepth = 100"

definition tooDeep :: string where
  "tooDeep = ''Maximum nesting depth exceeded''"

definition guarded :: "'a pact \<Rightarrow> 'a pact" where
  "guarded m = pbind peekTok (\<lambda>t s.
     let s1 = s\<lparr>pDepth := pDepth s + 1\<rparr> in
     if pDepth s1 > maxParseDepth then pthen (parserError t tooDeep) (pfail tooDeep (tline t)) s1
     else (case m s1 of
         Inl (e, u) \<Rightarrow> Inl (e, u\<lparr>pDepth := pDepth u - 1\<rparr>)
       | Inr (a, u) \<Rightarrow> Inr (a, u\<lparr>pDepth := pDepth u - 1\<rparr>)))"

text \<open>\<open>describeMisplacedKeyword\<close>.\<close>

definition misplacedKeyword :: "token_kind \<Rightarrow> string option" where
  "misplacedKeyword k =
     (if k = TK_FINALLY then Some '''finally' can only appear after a 'try' block (and any 'catch' blocks), not on its own''
      else if k = TK_CATCH then Some '''catch' can only appear directly after a 'try' block, not on its own''
      else if k = TK_OTHER then Some '''other' can only appear as a branch inside a 'when' statement''
      else if k = TK_TO then Some '''to' is only valid inside a 'repeat <var> = <start> to <end>' loop''
      else if k = TK_STEP then Some '''step' is only valid inside a 'repeat ... to ... step ...' loop''
      else if k = TK_IMPLEMENTS then Some '''implements' can only appear right after a model's name (and optional 'extends') in a 'model' declaration''
      else if k = TK_EXTENDS then Some '''extends' can only appear right after a model's name in a 'model' declaration''
      else if k = TK_REQUIRES then Some '''requires' can only appear as a task precondition, directly after the task signature''
      else if k = TK_ENSURES then Some '''ensures' can only appear as a task postcondition, directly after the task signature''
      else if k = TK_HIDDEN then Some '''hidden' is a field-visibility modifier and can only appear inside a 'model' body''
      else if k = TK_SHOWN then Some '''shown' is a field-visibility modifier and can only appear inside a 'model' body''
      else if k = TK_INIT then Some '''init' can only be used to define a model's constructor, inside a 'model' body''
      else None)"

text \<open>\<open>suggestStatementKeyword\<close>: the first keyword at the least distance below two.\<close>

definition statementKeywords :: "string list" where
  "statementKeywords = [''when'', ''other'', ''while'', ''repeat'', ''task'', ''model'', ''struct'', ''enum'',
     ''try'', ''catch'', ''finally'', ''throw'', ''match'', ''static'', ''interface'',
     ''get'', ''test'', ''use'', ''export'', ''give'', ''escape'', ''skip'', ''out'']"

definition suggestStatementKeyword :: "string \<Rightarrow> string" where
  "suggestStatementKeyword name = snd (foldl (\<lambda>(bd, best) kw.
     let d = nameDistance name kw 2 in if d < bd then (d, kw) else (bd, best)) (2, []) statementKeywords)"

subsection \<open>Nodes\<close>

text \<open>A node at the position of a token; the lexer's lines and columns start at one.\<close>

definition exprAt :: "token \<Rightarrow> expr_node \<Rightarrow> expr" where
  "exprAt t n = Expr (nat (tline t)) (nat (tcolumn t)) n"

definition stmtAt :: "token \<Rightarrow> stmt_node \<Rightarrow> stmt" where
  "stmtAt t n = Stmt (nat (tline t)) n"

text \<open>\<open>std::get<std::string>(t.literal)\<close>.\<close>

definition stringOf :: "token \<Rightarrow> string pact" where
  "stringOf t = (case literal t of LStr x \<Rightarrow> pret x | _ \<Rightarrow> (\<lambda>s. Inl (ParserThrows BadVariantAccess, s)))"

text \<open>Something, then further ones after commas.\<close>

definition commaSep :: "'a pact \<Rightarrow> 'a list pact" where
  "commaSep m = ploop (\<lambda>xs. pbind m (\<lambda>x. pbind (matchTok TK_COMMA) (\<lambda>b.
     pret (if b then Inl (xs @ [x]) else Inr (xs @ [x]))))) []"

text \<open>
  A type: only the base name of a property's type is used after parsing, so the arguments are
  parsed and dropped. The depth of the recursion is counted by fuel.
\<close>

fun parseType :: "nat \<Rightarrow> string pact" where
  "parseType 0 s = Inl (NoFuel, s)"
| "parseType (Suc d) s = pbind (consume TK_IDENTIFIER ''Expected type name'') (\<lambda>t.
     pbind (matchTok TK_LBRACKET) (\<lambda>b.
       if b then pthen (commaSep (parseType d))
         (pthen (consume TK_RBRACKET ''Expected ']' after type arguments'') (pret (lexeme t)))
       else pret (lexeme t))) s"

text \<open>Generic parameters: parsed, and only the type checker reads them.\<close>

definition typeParameters :: "unit pact" where
  "typeParameters = pbind (matchTok TK_LBRACKET) (\<lambda>b.
     if b then pthen (commaSep (consume TK_IDENTIFIER ''Expected generic type parameter name''))
       (pthen (consume TK_RBRACKET ''Expected ']' after generic type parameters'') (pret ()))
     else pret ())"

end
