(* ===== verification/Parser_Expr.thy ===== *)
theory Parser_Expr
  imports Parser_Core
begin

text \<open>
  The expression grammar of \<open>src/parser/ParserExpr.cpp\<close>, one definition per member function, lowest
  precedence last. A function that calls one above itself in the grammar takes it as an argument:
  \<open>pe\<close> is \<open>expression\<close>, \<open>pt\<close> is \<open>ternary\<close>, \<open>pd\<close> is \<open>declaration\<close>, \<open>pty\<close> is \<open>parseType\<close>. The lengths
  and the file names of the nodes, and the marks only the type checker reads, are left out.
\<close>

subsection \<open>Binary operators\<close>

text \<open>A level of left-associative operators over the next tighter level.\<close>

definition binLevel :: "token_kind list \<Rightarrow> (token \<Rightarrow> expr \<Rightarrow> expr \<Rightarrow> expr) \<Rightarrow> expr pact \<Rightarrow> expr pact" where
  "binLevel ks mk sub = pbind sub (ploop (\<lambda>e. pbind (matchAny ks) (\<lambda>b.
     if b then pbind previousTok (\<lambda>op. pbind sub (\<lambda>r. pret (Inl (mk op e r)))) else pret (Inr e))))"

definition binaryNode :: "token \<Rightarrow> expr \<Rightarrow> expr \<Rightarrow> expr" where
  "binaryNode op l r = exprAt op (BinaryExpr l (ttype op) r)"

definition logicalNode :: "token_kind \<Rightarrow> token \<Rightarrow> expr \<Rightarrow> expr \<Rightarrow> expr" where
  "logicalNode k op l r = exprAt op (LogicalExpr l k r)"

definition factor :: "expr pact \<Rightarrow> expr pact" where
  "factor pw = binLevel [TK_STAR, TK_SLASH, TK_PERCENT] binaryNode pw"

definition term_level :: "expr pact \<Rightarrow> expr pact" where
  "term_level pw = binLevel [TK_PLUS, TK_MINUS] binaryNode (factor pw)"

definition bitwiseShift :: "expr pact \<Rightarrow> expr pact" where
  "bitwiseShift pw = binLevel [TK_LSHIFT, TK_RSHIFT] binaryNode (term_level pw)"

definition comparison :: "expr pact \<Rightarrow> expr pact" where
  "comparison pw =
     binLevel [TK_GREATER, TK_GREATER_EQUAL, TK_LESS, TK_LESS_EQUAL, TK_IN] binaryNode (bitwiseShift pw)"

definition equality :: "expr pact \<Rightarrow> expr pact" where
  "equality pw = binLevel [TK_EQUAL_EQUAL, TK_BANG_EQUAL] binaryNode (comparison pw)"

definition bitwiseAnd :: "expr pact \<Rightarrow> expr pact" where
  "bitwiseAnd pw = binLevel [TK_AMPERSAND] binaryNode (equality pw)"

definition bitwiseXor :: "expr pact \<Rightarrow> expr pact" where
  "bitwiseXor pw = binLevel [TK_CARET] binaryNode (bitwiseAnd pw)"

definition bitwiseOr :: "expr pact \<Rightarrow> expr pact" where
  "bitwiseOr pw = binLevel [TK_PIPE] binaryNode (bitwiseXor pw)"

definition logicalAnd :: "expr pact \<Rightarrow> expr pact" where
  "logicalAnd pw = binLevel [TK_AND] (logicalNode TK_AND) (bitwiseOr pw)"

definition logicalOr :: "expr pact \<Rightarrow> expr pact" where
  "logicalOr pw = binLevel [TK_OR] (logicalNode TK_OR) (logicalAnd pw)"

definition nullCoalescing :: "expr pact \<Rightarrow> expr pact" where
  "nullCoalescing pw = binLevel [TK_QUESTION_QUESTION] (logicalNode TK_QUESTION_QUESTION) (logicalOr pw)"

subsection \<open>Assignment, ternary, power\<close>

definition isTuple :: "expr \<Rightarrow> bool" where
  "isTuple e = (case e of Expr _ _ (TupleExpr es) \<Rightarrow> True | _ \<Rightarrow> False)"

definition compoundBinary :: "token_kind \<Rightarrow> token_kind" where
  "compoundBinary k =
     (if k = TK_PLUS_EQUAL then TK_PLUS else if k = TK_MINUS_EQUAL then TK_MINUS
      else if k = TK_STAR_EQUAL then TK_STAR else if k = TK_STAR_STAR_EQUAL then TK_STAR_STAR
      else if k = TK_SLASH_EQUAL then TK_SLASH else TK_PLUS)"

definition compoundOf :: "token \<Rightarrow> token_kind option" where
  "compoundOf op = (if ttype op \<noteq> TK_EQUAL then Some (ttype op) else None)"

definition assignTo :: "expr \<Rightarrow> token \<Rightarrow> expr \<Rightarrow> expr pact" where
  "assignTo target op value =
     (if ttype op \<noteq> TK_EQUAL \<and> isTuple target
      then pfail ''Compound assignment is not allowed for tuple destructuring'' (tline op)
      else (case target of
          Expr _ _ (IdentifierExpr name) \<Rightarrow> pret (exprAt op (AssignExpr name
            (if ttype op \<noteq> TK_EQUAL then exprAt op (BinaryExpr target (compoundBinary (ttype op)) value) else value)
            NoExpr NoExpr None))
        | Expr _ _ (IndexExpr obj idx) \<Rightarrow> pret (exprAt op (AssignExpr [] value idx obj (compoundOf op)))
        | Expr _ _ (PropertyAccessExpr obj p opt) \<Rightarrow> pret (exprAt op (SetExpr obj p value (compoundOf op)))
        | Expr _ _ (TupleExpr es) \<Rightarrow> pret (exprAt op (DestructureAssignExpr es value))
        | _ \<Rightarrow> pfail ''Invalid assignment target'' (tline op)))"

definition assignment :: "expr pact \<Rightarrow> expr pact \<Rightarrow> expr pact" where
  "assignment pt pasg = pbind pt (\<lambda>e.
     pbind (matchAny [TK_EQUAL, TK_PLUS_EQUAL, TK_MINUS_EQUAL, TK_STAR_EQUAL, TK_STAR_STAR_EQUAL, TK_SLASH_EQUAL]) (\<lambda>b.
       if b then pbind previousTok (\<lambda>op. pbind pasg (assignTo e op)) else pret e))"

definition ternary :: "expr pact \<Rightarrow> expr pact \<Rightarrow> expr pact \<Rightarrow> expr pact" where
  "ternary pw pe pt = pbind (nullCoalescing pw) (\<lambda>e. pbind (matchTok TK_QUESTION_MARK) (\<lambda>b.
     if b then pbind previousTok (\<lambda>op. pbind pe (\<lambda>a.
       pthen (consume TK_COLON ''Expected ':' after then branch of ternary operator'')
         (pbind pt (\<lambda>c. pret (exprAt op (TernaryExpr e a c))))))
     else pret e))"

definition power :: "expr pact \<Rightarrow> expr pact \<Rightarrow> expr pact" where
  "power pu pw = pbind pu (\<lambda>e. pbind (matchAny [TK_STAR_STAR]) (\<lambda>b.
     if b then pbind previousTok (\<lambda>op. pbind pw (\<lambda>r. pret (binaryNode op e r))) else pret e))"

definition unary :: "expr pact \<Rightarrow> expr pact \<Rightarrow> expr pact" where
  "unary pu pcall = pbind (matchAny [TK_BANG, TK_MINUS, TK_NOT, TK_TILDE]) (\<lambda>b.
     if b then pbind previousTok (\<lambda>op. pbind pu (\<lambda>r. pret (exprAt op (UnaryExpr (ttype op) r))))
     else pbind (matchTok TK_AWAIT) (\<lambda>c.
       if c then pbind previousTok (\<lambda>op. pbind pu (\<lambda>r. pret (exprAt op (AwaitExpr r))))
       else pcall))"

subsection \<open>Calls, indices and properties\<close>

text \<open>One argument: named, spread or plain.\<close>

definition callArgument :: "expr pact \<Rightarrow> token \<Rightarrow> (string \<times> expr) pact" where
  "callArgument pe opn = pbind (check TK_IDENTIFIER) (\<lambda>i. pbind peekNextTok (\<lambda>nx.
     if i \<and> ttype nx = TK_EQUAL
     then pbind advanceTok (\<lambda>n. pthen advanceTok (pbind pe (\<lambda>e. pret (lexeme n, e))))
     else pbind (matchTok TK_ELLIPSIS) (\<lambda>b.
       if b then pbind pe (\<lambda>e. pret ([], exprAt opn (SpreadExpr e)))
       else pbind pe (\<lambda>e. pret ([], e)))))"

definition finishCall :: "expr pact \<Rightarrow> expr \<Rightarrow> expr pact" where
  "finishCall pe callee = pbind previousTok (\<lambda>opn. pbind (check TK_RPAREN) (\<lambda>b.
     pbind (if b then pret [] else commaSep (callArgument pe opn)) (\<lambda>args.
       pthen (consume TK_RPAREN ''Expected ')' after arguments'')
         (pret (exprAt opn (CallExpr callee (map snd args) (map fst args)))))))"

definition indexAfter :: "expr pact \<Rightarrow> expr \<Rightarrow> expr pact" where
  "indexAfter pe e = pbind previousTok (\<lambda>op. pbind pe (\<lambda>i.
     pthen (consume TK_RBRACKET ''Expected ']' after index'') (pret (exprAt op (IndexExpr e i)))))"

definition propertyAfter :: "token \<Rightarrow> expr \<Rightarrow> expr pact" where
  "propertyAfter op e = pbind atEnd (\<lambda>fin. pbind peekTok (\<lambda>t.
     if fin \<or> \<not> isPropertyNameToken (ttype t)
     then pfail (''Expected property name after '' @ sq (lexeme op)) (tline op)
     else pbind advanceTok (\<lambda>name.
       pret (exprAt name (PropertyAccessExpr e (lexeme name) (ttype op = TK_QUESTION_DOT))))))"

text \<open>A chain may go on with a dot on a later line: the first token that is no newline.\<close>

definition pastNewlines :: "pstate \<Rightarrow> nat" where
  "pastNewlines s = pCurrent s
     + length (takeWhile (\<lambda>t. ttype t = TK_NEWLINE) (drop (pCurrent s) (pTokens s)))"

definition dotAt :: "nat \<Rightarrow> pstate \<Rightarrow> bool" where
  "dotAt i s \<longleftrightarrow> i < length (pTokens s)
     \<and> (ttype (pTokens s ! i) = TK_DOT \<or> ttype (pTokens s ! i) = TK_QUESTION_DOT)"

definition chainNext :: "expr \<Rightarrow> (expr + expr) pact" where
  "chainNext e s =
     (if dotAt (pastNewlines s) s
      then pbind advanceTok (\<lambda>op. pbind (propertyAfter op e) (\<lambda>e'. pret (Inl e'))) (s\<lparr>pCurrent := pastNewlines s\<rparr>)
      else Inr (Inr e, s))"

definition callStep :: "expr pact \<Rightarrow> expr \<Rightarrow> (expr + expr) pact" where
  "callStep pe e = pbind (matchTok TK_LPAREN) (\<lambda>b. if b then pbind (finishCall pe e) (\<lambda>e'. pret (Inl e'))
     else pbind (matchTok TK_LBRACKET) (\<lambda>b. if b then pbind (indexAfter pe e) (\<lambda>e'. pret (Inl e'))
     else pbind (matchAny [TK_DOT, TK_QUESTION_DOT]) (\<lambda>b.
       if b then pbind previousTok (\<lambda>op. pbind (propertyAfter op e) (\<lambda>e'. pret (Inl e')))
       else chainNext e)))"

definition call :: "expr pact \<Rightarrow> expr pact \<Rightarrow> expr pact" where
  "call pe pprim = pbind pprim (ploop (callStep pe))"

subsection \<open>Lambdas\<close>

text \<open>The statements of a body up to the closing brace; a declaration that failed yields none.\<close>

definition blockBody :: "stmt pact \<Rightarrow> string \<Rightarrow> stmt list pact" where
  "blockBody pd msg = pthen skipNewlines (pbind (ploop (\<lambda>ss. pbind (check TK_RBRACE) (\<lambda>b. pbind atEnd (\<lambda>e.
       if b \<or> e then pret (Inr ss)
       else pbind pd (\<lambda>st. pthen skipNewlines (pret (Inl (if st = NoStmt then ss else ss @ [st]))))))) [])
     (\<lambda>ss. pthen (consume TK_RBRACE msg) (pret ss)))"

text \<open>The names between the bars, and whether the last is a rest parameter.\<close>

definition lambdaParams :: "(string list \<times> bool) pact" where
  "lambdaParams = pbind (check TK_PIPE) (\<lambda>b. if b then pret ([], False)
     else ploop (\<lambda>(ps, v). pbind (matchTok TK_ELLIPSIS) (\<lambda>r.
       if r then pbind (consume TK_IDENTIFIER (''Expected parameter name after '...'' @ [CHR 0x27])) (\<lambda>t.
         pbind (check TK_COMMA) (\<lambda>c.
           pthen (if c then pbind peekTok (\<lambda>u. parserError u ''Rest parameter must be the last parameter'') else pret ())
             (pret (Inr (ps @ [lexeme t], True)))))
       else pbind (consume TK_IDENTIFIER ''Expected parameter name'') (\<lambda>t.
         pbind (matchTok TK_COMMA) (\<lambda>c. pret (if c then Inl (ps @ [lexeme t], v) else Inr (ps @ [lexeme t], v))))))
       ([], False))"

definition lambdaBody :: "expr pact \<Rightarrow> stmt pact \<Rightarrow> token \<Rightarrow> bool \<Rightarrow> string list \<times> bool \<Rightarrow> expr pact" where
  "lambdaBody pe pd start async pv = (case pv of (ps, v) \<Rightarrow> pbind (matchTok TK_ARROW) (\<lambda>b.
     if b then pthen skipNewlines (pbind pe (\<lambda>e. pret (exprAt start (LambdaExpr ps e [] v async))))
     else pbind (matchTok TK_LBRACE) (\<lambda>c.
       if c then pbind (blockBody pd ''Expected '}' after lambda body'') (\<lambda>ss.
         pret (exprAt start (LambdaExpr ps NoExpr ss v async)))
       else pbind pe (\<lambda>e. pret (exprAt start (LambdaExpr ps e [] v async))))))"

definition lambdaExpression :: "expr pact \<Rightarrow> stmt pact \<Rightarrow> bool \<Rightarrow> bool \<Rightarrow> expr pact" where
  "lambdaExpression pe pd async noParams = pbind previousTok (\<lambda>start.
     pbind (if noParams then pret ([], False)
       else pbind lambdaParams (\<lambda>pv. pthen (consume TK_PIPE ''Expected '|' after lambda parameters'')
         (pthen skipNewlines (pret pv))))
       (lambdaBody pe pd start async))"

subsection \<open>Primary expressions\<close>

definition newExpression :: "expr pact \<Rightarrow> string pact \<Rightarrow> expr pact" where
  "newExpression pe pty = pbind previousTok (\<lambda>t.
     pbind (consume TK_IDENTIFIER (''Expected model name after 'new'' @ [CHR 0x27])) (\<lambda>name.
     pbind (matchTok TK_LBRACKET) (\<lambda>b.
     pthen (if b then pthen (commaSep pty) (pthen (consume TK_RBRACKET ''Expected ']' after type arguments'') (pret ()))
            else pret ())
     (pbind (matchTok TK_LPAREN) (\<lambda>c.
       pbind (if c then pbind (check TK_RPAREN) (\<lambda>r. pbind (if r then pret [] else commaSep pe) (\<lambda>args.
                pthen (consume TK_RPAREN ''Expected ')' after arguments'') (pret args)))
              else pret [])
         (\<lambda>args. pret (exprAt t (NewExpr (lexeme name) args))))))))"

definition arrayElement :: "expr pact \<Rightarrow> token \<Rightarrow> expr pact" where
  "arrayElement pe opn = pthen skipNewlines (pbind (matchTok TK_ELLIPSIS) (\<lambda>b.
     pbind pe (\<lambda>e. pthen skipNewlines (pret (if b then exprAt opn (SpreadExpr e) else e)))))"

definition arrayLiteral :: "expr pact \<Rightarrow> token \<Rightarrow> expr pact" where
  "arrayLiteral pe opn = pbind (check TK_RBRACKET) (\<lambda>b.
     pbind (if b then pret [] else commaSep (arrayElement pe opn)) (\<lambda>es.
       pthen (consume TK_RBRACKET ''Expected ']' after array elements'') (pret (exprAt opn (ArrayExpr es)))))"

text \<open>A key that is a bare name stands for the string.\<close>

definition dictKey :: "expr \<Rightarrow> expr" where
  "dictKey k = (case k of Expr l c (IdentifierExpr name) \<Rightarrow> Expr l c (LiteralExpr (LStr name)) | _ \<Rightarrow> k)"

definition dictEntry :: "expr pact \<Rightarrow> expr pact \<Rightarrow> (expr \<times> expr) pact" where
  "dictEntry pe pt = pbind pt (\<lambda>k. pthen (consume TK_COLON ''Expected ':' after dictionary key'')
     (pbind pe (\<lambda>v. pbind (matchTok TK_COMMA) (\<lambda>b.
       pthen (if b then skipNewlines
         else pbind (check TK_NEWLINE) (\<lambda>n. if n then skipNewlines
           else pbind (check TK_RBRACE) (\<lambda>r. if r then pret ()
             else pbind peekTok (\<lambda>t. pfail ''Expected ',' or newline between dictionary entries'' (tline t)))))
       (pret (dictKey k, v))))))"

definition dictLiteral :: "expr pact \<Rightarrow> expr pact \<Rightarrow> expr pact" where
  "dictLiteral pe pt = pbind previousTok (\<lambda>opn. pthen skipNewlines
     (pbind (ploop (\<lambda>ps. pbind (check TK_RBRACE) (\<lambda>b. pbind atEnd (\<lambda>e.
         if b \<or> e then pret (Inr ps) else pbind (dictEntry pe pt) (\<lambda>p. pret (Inl (ps @ [p])))))) [])
       (\<lambda>ps. pthen (consume TK_RBRACE ''Expected '}' after dictionary'') (pret (exprAt opn (DictionaryExpr ps))))))"

text \<open>After a parenthesis: the empty tuple, a tuple, or one expression.\<close>

definition parenthesized :: "expr pact \<Rightarrow> token \<Rightarrow> expr pact" where
  "parenthesized pe opn = pbind (matchTok TK_RPAREN) (\<lambda>b. if b then pret (exprAt opn (TupleExpr []))
     else pbind pe (\<lambda>e. pbind (matchTok TK_COMMA) (\<lambda>c.
       if c then pbind (check TK_RPAREN) (\<lambda>r.
           pbind (if r then pret [] else commaSep (pthen skipNewlines (pbind pe (\<lambda>x. pthen skipNewlines (pret x)))))
             (\<lambda>es. pthen (consume TK_RPAREN ''Expected ')' after tuple elements'') (pret (exprAt opn (TupleExpr (e # es))))))
       else pthen (consume TK_RPAREN ''Expected ')' after expression'') (pret e))))"

definition asyncExpression :: "expr pact \<Rightarrow> stmt pact \<Rightarrow> expr pact" where
  "asyncExpression pe pd = pbind previousTok (\<lambda>t. pbind (matchTok TK_PIPE) (\<lambda>b.
     if b then lambdaExpression pe pd True False
     else pbind (check TK_LBRACE) (\<lambda>c.
       if c then pbind (lambdaExpression pe pd True True) (\<lambda>f. pret (exprAt t (CallExpr f [] [])))
       else pbind previousTok (\<lambda>p. pfail (''Expected '|' or '{' after 'async'' @ [CHR 0x27]) (tline p)))))"

definition numberLiteral :: "token \<Rightarrow> expr pact" where
  "numberLiteral t = (case literal t of
       LInt i \<Rightarrow> pret (exprAt t (LiteralExpr (LInt i)))
     | LDouble d \<Rightarrow> pret (exprAt t (LiteralExpr (LDouble d)))
     | _ \<Rightarrow> (\<lambda>s. Inl (ParserThrows BadVariantAccess, s)))"

text \<open>The alternatives of \<open>primary\<close> are told apart by the next token, which each of them takes.\<close>

definition primaryAfter :: "expr pact \<Rightarrow> expr pact \<Rightarrow> stmt pact \<Rightarrow> string pact \<Rightarrow> token \<Rightarrow> expr pact option" where
  "primaryAfter pe pt pd pty t =
     (let k = ttype t in
      if k = TK_FALSE then Some (pret (exprAt t (LiteralExpr (LBool False))))
      else if k = TK_TRUE then Some (pret (exprAt t (LiteralExpr (LBool True))))
      else if k = TK_NIL then Some (pret (exprAt t (LiteralExpr LNull)))
      else if k = TK_NEW then Some (newExpression pe pty)
      else if k = TK_NUMBER then Some (numberLiteral t)
      else if k = TK_STRING then Some (pbind (stringOf t) (\<lambda>x. pret (exprAt t (LiteralExpr (LStr x)))))
      else if k = TK_IDENTIFIER then Some (pret (exprAt t (IdentifierExpr (lexeme t))))
      else if k = TK_SUPER then Some (pret (exprAt t SuperExpr))
      else if k = TK_SELF then Some (pret (exprAt t SelfExpr))
      else if k = TK_IN then Some (pret (exprAt t (CallExpr (exprAt t (IdentifierExpr ''__input__'')) [] [])))
      else if k = TK_PIPE then Some (lambdaExpression pe pd False False)
      else if k = TK_ASYNC then Some (asyncExpression pe pd)
      else if k = TK_LBRACKET then Some (arrayLiteral pe t)
      else if k = TK_LBRACE then Some (dictLiteral pe pt)
      else if k = TK_LPAREN then Some (parenthesized pe t)
      else None)"

definition primary :: "expr pact \<Rightarrow> expr pact \<Rightarrow> stmt pact \<Rightarrow> string pact \<Rightarrow> expr pact" where
  "primary pe pt pd pty = pbind peekTok (\<lambda>t. case primaryAfter pe pt pd pty t of
       Some m \<Rightarrow> pthen advanceTok m
     | None \<Rightarrow> pfail (case misplacedKeyword (ttype t) of
           Some hint \<Rightarrow> ''Expected expression -- '' @ hint | None \<Rightarrow> ''Expected expression'') (tline t))"

end
