(* ===== verification/Parser_Stmt.thy ===== *)
theory Parser_Stmt
  imports Parser_Expr
begin

text \<open>
  The statement grammar of \<open>src/parser/ParserStmt.cpp\<close>, one definition per member function, in the
  order of the file; beside the arguments of \<open>Parser_Expr\<close>, \<open>ps\<close> is \<open>statement\<close>. A null statement is
  \<open>NoStmt\<close>. Type annotations are parsed; only the base name of a property's type is kept.
\<close>

subsection \<open>Simple statements\<close>

definition optionalType :: "string pact \<Rightarrow> string option pact" where
  "optionalType pty = pbind (matchTok TK_COLON) (\<lambda>b. if b then pbind pty (\<lambda>t. pret (Some t)) else pret None)"

definition varDeclStatement :: "expr pact \<Rightarrow> string pact \<Rightarrow> stmt pact" where
  "varDeclStatement pe pty = pbind (consume TK_IDENTIFIER ''Expected variable name'') (\<lambda>name.
     pthen (consume TK_COLON ''Expected ':' after variable name'') (pthen pty
       (pbind (matchTok TK_EQUAL) (\<lambda>b. pbind (if b then pe else pret NoExpr) (\<lambda>e.
         pret (stmtAt name (VarDeclStmt (lexeme name) e)))))))"

definition outStatement :: "expr pact \<Rightarrow> stmt pact" where
  "outStatement pe = pbind previousTok (\<lambda>op. pbind pe (\<lambda>e. pret (stmtAt op (OutStmt e))))"

definition throwStatement :: "expr pact \<Rightarrow> stmt pact" where
  "throwStatement pe = pbind previousTok (\<lambda>op. pbind pe (\<lambda>e. pret (stmtAt op (ThrowStmt e))))"

definition escapeStatement :: "stmt pact" where
  "escapeStatement = pbind previousTok (\<lambda>op. pret (stmtAt op EscapeStmt))"

definition skipStatement :: "stmt pact" where
  "skipStatement = pbind previousTok (\<lambda>op. pret (stmtAt op SkipStmt))"

definition staticStatement :: "expr pact \<Rightarrow> stmt pact" where
  "staticStatement pe = pbind previousTok (\<lambda>op.
     pbind (consume TK_IDENTIFIER (''Expected variable name after 'static'' @ [CHR 0x27])) (\<lambda>name.
     pthen (consume TK_EQUAL ''Expected '=' after static variable name'')
       (pbind pe (\<lambda>e. pret (stmtAt op (StaticStmt (lexeme name) e))))))"

text \<open>
  Several values after \<open>give\<close> become an array. The test for the end of the file never holds, as
  \<open>check\<close> is false there.
\<close>

definition giveStatement :: "expr pact \<Rightarrow> stmt pact" where
  "giveStatement pe = pbind previousTok (\<lambda>op.
     pbind (check TK_NEWLINE) (\<lambda>n. pbind (check TK_END_OF_FILE) (\<lambda>e. pbind (check TK_RBRACE) (\<lambda>r.
       if n \<or> e \<or> r then pret (stmtAt op (GiveStmt NoExpr))
       else pbind pe (\<lambda>v. pbind (matchTok TK_COMMA) (\<lambda>c.
         if c then pbind (commaSep pe) (\<lambda>vs. pret (stmtAt op (GiveStmt (exprAt op (ArrayExpr (v # vs))))))
         else pret (stmtAt op (GiveStmt v))))))))"

definition useStatement :: "stmt pact" where
  "useStatement = pbind previousTok (\<lambda>op. pbind (matchTok TK_STRING) (\<lambda>b.
     if \<not> b then pbind peekTok (\<lambda>t. pfail
       (''Expected a string module path after 'use' (e.g. use '' @ [CHR 0x22] @ ''module_name'' @ [CHR 0x22] @ ''), got ''
        @ sq (lexeme t)) (tline t))
     else pbind previousTok (\<lambda>p. pbind (stringOf p) (\<lambda>path. pbind peekTok (\<lambda>t.
       pbind (if lexeme t = ''as''
         then pthen advanceTok (pbind (matchTok TK_STAR) (\<lambda>st. if st then pret ''*''
           else pbind (consume TK_IDENTIFIER (''Expected alias name or '*' after 'as'' @ [CHR 0x27])) (\<lambda>a. pret (lexeme a))))
         else pret []) (\<lambda>alias. pret (stmtAt op (UseStmt path alias))))))))"

subsection \<open>Blocks and branches\<close>

definition blockStatement :: "stmt pact \<Rightarrow> stmt pact" where
  "blockStatement pd = pbind previousTok (\<lambda>op.
     pbind (blockBody pd ''Expected '}' after block'') (\<lambda>ss. pret (stmtAt op (BlockStmt ss))))"

text \<open>A block in braces, or one statement.\<close>

definition blockOrStatement :: "stmt pact \<Rightarrow> stmt pact \<Rightarrow> stmt pact" where
  "blockOrStatement pd ps = pbind (matchTok TK_LBRACE) (\<lambda>b. if b then blockStatement pd else ps)"

fun checkAny :: "token_kind list \<Rightarrow> bool pact" where
  "checkAny [] = pret False"
| "checkAny (k # ks) = pbind (check k) (\<lambda>b. if b then pret True else checkAny ks)"

definition bareThen :: "stmt pact \<Rightarrow> stmt list pact" where
  "bareThen ps = ploop (\<lambda>ss. pbind atEnd (\<lambda>e. pbind (checkAny [TK_OTHER, TK_TASK, TK_WHEN, TK_WHILE, TK_REPEAT, TK_GET]) (\<lambda>b.
     if e \<or> b then pret (Inr ss)
     else pbind ps (\<lambda>st. pthen skipNewlines (pbind (check TK_OTHER) (\<lambda>c.
       let ss' = (if st = NoStmt then ss else ss @ [st]) in
       pret (if length ss' = 1 \<and> \<not> c then Inr ss' else Inl ss'))))))) []"

definition thenPart :: "stmt pact \<Rightarrow> stmt pact \<Rightarrow> token \<Rightarrow> stmt pact" where
  "thenPart pd ps op = pbind (matchTok TK_LBRACE) (\<lambda>b.
     if b then blockStatement pd
     else pthen skipNewlines (pbind (bareThen ps) (\<lambda>ss.
       pret (case ss of [s] \<Rightarrow> s | _ \<Rightarrow> stmtAt op (BlockStmt ss)))))"

definition whenStatement :: "expr pact \<Rightarrow> stmt pact \<Rightarrow> stmt pact \<Rightarrow> stmt pact \<Rightarrow> stmt pact" where
  "whenStatement pe pd ps pwhen = pbind previousTok (\<lambda>op. pbind pe (\<lambda>c. pthen skipNewlines
     (pbind (thenPart pd ps op) (\<lambda>a. pthen skipNewlines (pbind (matchTok TK_OTHER) (\<lambda>b.
       pbind (if \<not> b then pret NoStmt
         else pthen skipNewlines (pbind (matchTok TK_WHEN) (\<lambda>w. if w then pwhen else blockOrStatement pd ps)))
         (\<lambda>d. pret (stmtAt op (WhenStmt c a d)))))))))"

definition whileStatement :: "expr pact \<Rightarrow> stmt pact \<Rightarrow> stmt pact \<Rightarrow> stmt pact" where
  "whileStatement pe pd ps = pbind previousTok (\<lambda>op. pbind pe (\<lambda>c. pthen skipNewlines
     (pbind (blockOrStatement pd ps) (\<lambda>b. pret (stmtAt op (WhileStmt c b))))))"

definition repeatStatement :: "expr pact \<Rightarrow> stmt pact \<Rightarrow> stmt pact \<Rightarrow> stmt pact" where
  "repeatStatement pe pd ps = pbind previousTok (\<lambda>op.
     pbind (consume TK_IDENTIFIER (''Expected variable name after 'repeat'' @ [CHR 0x27])) (\<lambda>v.
     pthen (consume TK_EQUAL ''Expected '=' after variable name'') (pbind pe (\<lambda>from.
     pthen (consume TK_TO ''Expected 'to' in repeat statement'') (pbind pe (\<lambda>til.
     pbind (matchTok TK_STEP) (\<lambda>b. pbind (if b then pe else pret NoExpr) (\<lambda>stp.
     pthen skipNewlines (pbind (blockOrStatement pd ps) (\<lambda>body.
       pret (stmtAt op (RepeatStmt (lexeme v) from til stp body))))))))))))"

definition getVariables :: "(string \<times> string) pact" where
  "getVariables = pbind (matchTok TK_LBRACKET) (\<lambda>b.
     if b then pbind (consume TK_IDENTIFIER (''Expected key variable name after '['' @ [CHR 0x27])) (\<lambda>k.
       pthen (consume TK_COMMA ''Expected ',' between key and value variables'')
       (pbind (consume TK_IDENTIFIER ''Expected value variable name'') (\<lambda>v.
       pthen (consume TK_RBRACKET ''Expected ']' after value variable'') (pret (lexeme k, lexeme v)))))
     else pbind (consume TK_IDENTIFIER (''Expected variable name after 'get'' @ [CHR 0x27])) (\<lambda>v. pret (lexeme v, [])))"

definition getStatement :: "expr pact \<Rightarrow> stmt pact \<Rightarrow> stmt pact \<Rightarrow> stmt pact" where
  "getStatement pe pd ps = pbind previousTok (\<lambda>op. pbind getVariables (\<lambda>(k, v).
     pthen (consume TK_IN ''Expected 'in' after variable name'') (pbind pe (\<lambda>it.
     pthen skipNewlines (pbind (blockOrStatement pd ps) (\<lambda>body.
       pret (stmtAt op (GetStmt k v it body))))))))"

definition matchArmOf :: "expr pact \<Rightarrow> stmt pact \<Rightarrow> stmt pact \<Rightarrow> (expr \<times> stmt) pact" where
  "matchArmOf pe pd ps = pbind (matchTok TK_OTHER) (\<lambda>b. pbind (if b then pret NoExpr else pe) (\<lambda>p.
     pthen (consume TK_ARROW ''Expected '=>' after match pattern'')
       (pbind (blockOrStatement pd ps) (\<lambda>body. pret (p, body)))))"

text \<open>Entries between here and a closing brace, which is left for the caller.\<close>

definition untilBrace :: "('a \<Rightarrow> 'a pact) \<Rightarrow> 'a \<Rightarrow> 'a pact" where
  "untilBrace f = ploop (\<lambda>a. pbind (check TK_RBRACE) (\<lambda>b. pbind atEnd (\<lambda>e.
     if b \<or> e then pret (Inr a) else pbind (f a) (\<lambda>a'. pret (Inl a')))))"

definition matchStatement :: "expr pact \<Rightarrow> stmt pact \<Rightarrow> stmt pact \<Rightarrow> stmt pact" where
  "matchStatement pe pd ps = pbind previousTok (\<lambda>op. pbind pe (\<lambda>subject. pthen skipNewlines
     (pthen (consume TK_LBRACE ''Expected '{' before match arms'') (pthen skipNewlines
     (pbind (untilBrace (\<lambda>arms. pbind (matchArmOf pe pd ps) (\<lambda>arm. pthen skipNewlines (pret (arms @ [arm])))) []) (\<lambda>arms.
     pthen (consume TK_RBRACE ''Expected '}' after match arms'') (pret (stmtAt op (MatchStmt subject arms)))))))))"

subsection \<open>Exceptions\<close>

text \<open>\<open>catch (Type var)\<close>, \<open>catch (var)\<close>, the same without parentheses, or nothing.\<close>

definition catchNames :: "token \<Rightarrow> (string \<times> string) pact" where
  "catchNames t = pbind (check TK_IDENTIFIER) (\<lambda>b.
     if b then pbind advanceTok (\<lambda>v. pret (lexeme t, lexeme v)) else pret ([], lexeme t))"

definition catchHead :: "(string \<times> string) pact" where
  "catchHead = pbind (matchTok TK_LPAREN) (\<lambda>b.
     if b then pbind (consume TK_IDENTIFIER ''Expected type name or variable name'') (\<lambda>t.
       pbind (catchNames t) (\<lambda>r. pthen (consume TK_RPAREN ''Expected ')' after catch configuration'') (pret r)))
     else pbind (check TK_IDENTIFIER) (\<lambda>c. if c then pbind advanceTok catchNames else pret ([], [])))"

definition catchClauses :: "stmt pact \<Rightarrow> stmt catch_block list pact" where
  "catchClauses pd = ploop (\<lambda>cbs. pbind (matchTok TK_CATCH) (\<lambda>b.
     if \<not> b then pret (Inr cbs)
     else pbind catchHead (\<lambda>(ty, v). pthen skipNewlines (pthen (consume TK_LBRACE ''Expected '{' after catch'')
       (pbind (blockStatement pd) (\<lambda>body. pthen skipNewlines (pret (Inl (cbs @ [Catch ty v body]))))))))) []"

definition tryStatement :: "stmt pact \<Rightarrow> stmt pact" where
  "tryStatement pd = pbind previousTok (\<lambda>op. pthen skipNewlines
     (pthen (consume TK_LBRACE (''Expected '{' after 'try'' @ [CHR 0x27])) (pbind (blockStatement pd) (\<lambda>body.
     pthen skipNewlines (pbind (catchClauses pd) (\<lambda>cbs.
     pbind (matchTok TK_FINALLY) (\<lambda>f.
     pbind (if f then pthen skipNewlines (pthen (consume TK_LBRACE (''Expected '{' after 'finally'' @ [CHR 0x27])) (blockStatement pd))
            else pret NoStmt) (\<lambda>fin.
       if cbs = [] \<and> fin = NoStmt
       then pbind peekTok (\<lambda>t. pfail ''Expected at least one 'catch' or 'finally' block'' (tline t))
       else pret (stmtAt op (TryStmt body cbs fin))))))))))"

subsection \<open>Tasks\<close>

text \<open>
  The parameters of a task or method: a rest parameter ends the list, and after one with a default
  every further one needs a default.
\<close>

record param_list =
  plNames :: "string list"
  plDefaults :: "expr list"
  plVariadic :: bool
  plHadDefault :: bool

definition noParams :: param_list where
  "noParams = \<lparr>plNames = [], plDefaults = [], plVariadic = False, plHadDefault = False\<rparr>"

definition restParam :: "string pact \<Rightarrow> param_list \<Rightarrow> param_list pact" where
  "restParam pty pl = pbind (consume TK_IDENTIFIER (''Expected parameter name after '...'' @ [CHR 0x27])) (\<lambda>t.
     pthen (optionalType pty) (pbind (check TK_COMMA) (\<lambda>c.
       if c then pbind peekTok (\<lambda>u. pfail ''Rest parameter must be the last parameter'' (tline u))
       else pret (pl\<lparr>plNames := plNames pl @ [lexeme t], plDefaults := plDefaults pl @ [NoExpr], plVariadic := True\<rparr>))))"

definition plainParam :: "expr pact \<Rightarrow> string pact \<Rightarrow> param_list \<Rightarrow> param_list pact" where
  "plainParam pt pty pl = pbind (consume TK_IDENTIFIER ''Expected parameter name'') (\<lambda>t.
     pthen (optionalType pty) (pbind (matchTok TK_EQUAL) (\<lambda>b.
       if b then pbind pt (\<lambda>e. pret (pl\<lparr>plNames := plNames pl @ [lexeme t],
         plDefaults := plDefaults pl @ [e], plHadDefault := True\<rparr>))
       else if plHadDefault pl then pfail ''Required parameter cannot follow optional parameter'' (tline t)
       else pret (pl\<lparr>plNames := plNames pl @ [lexeme t], plDefaults := plDefaults pl @ [NoExpr]\<rparr>))))"

definition paramStep :: "bool \<Rightarrow> expr pact \<Rightarrow> string pact \<Rightarrow> param_list \<Rightarrow> (param_list + param_list) pact" where
  "paramStep rest pt pty pl = pbind (if rest then matchTok TK_ELLIPSIS else pret False) (\<lambda>r.
     if r then pbind (restParam pty pl) (\<lambda>pl'. pret (Inr pl'))
     else pbind (plainParam pt pty pl) (\<lambda>pl'. pbind (matchTok TK_COMMA) (\<lambda>c.
       pret (if c then Inl pl' else Inr pl'))))"

definition parameters :: "bool \<Rightarrow> expr pact \<Rightarrow> string pact \<Rightarrow> param_list pact" where
  "parameters rest pt pty = pbind (check TK_RPAREN) (\<lambda>b.
     if b then pret noParams else ploop (paramStep rest pt pty) noParams)"

text \<open>
  Contract clauses: conditions with optional messages. A comma after a condition or message goes on
  with the next one unless a new clause or the body follows.
\<close>

type_synonym clauses = "(expr \<times> string) list"

definition clauseEnds :: "bool pact" where
  "clauseEnds = checkAny [TK_REQUIRES, TK_ENSURES, TK_LBRACE]"

definition afterClause :: "clauses \<Rightarrow> (clauses + clauses) pact" where
  "afterClause cls = pthen skipNewlines (pbind clauseEnds (\<lambda>e. pret (if e then Inr cls else Inl cls)))"

definition clauseStep :: "expr pact \<Rightarrow> clauses \<Rightarrow> (clauses + clauses) pact" where
  "clauseStep pe cls = pthen skipNewlines (pbind pe (\<lambda>c. pbind (matchTok TK_COMMA) (\<lambda>b.
     if \<not> b then pret (Inr (cls @ [(c, [])]))
     else pbind (check TK_STRING) (\<lambda>t.
       if \<not> t then afterClause (cls @ [(c, [])])
       else pbind advanceTok (\<lambda>m. pbind (stringOf m) (\<lambda>msg.
         pbind (matchTok TK_COMMA) (\<lambda>d.
           if d then afterClause (cls @ [(c, msg)]) else pret (Inr (cls @ [(c, msg)])))))))))"

definition contractStep :: "expr pact \<Rightarrow> clauses \<times> clauses \<Rightarrow> (clauses \<times> clauses + clauses \<times> clauses) pact" where
  "contractStep pe cc = (case cc of (rs, es) \<Rightarrow> pbind (matchTok TK_REQUIRES) (\<lambda>r.
     if r then pbind (ploop (clauseStep pe) rs) (\<lambda>rs'. pthen skipNewlines (pret (Inl (rs', es))))
     else pbind (matchTok TK_ENSURES) (\<lambda>n.
       if n then pbind (ploop (clauseStep pe) es) (\<lambda>es'. pthen skipNewlines (pret (Inl (rs, es'))))
       else pret (Inr (rs, es)))))"

definition contracts :: "expr pact \<Rightarrow> (clauses \<times> clauses) pact" where
  "contracts pe = ploop (contractStep pe) ([], [])"

definition returnType :: "string pact \<Rightarrow> string pact" where
  "returnType pty = pbind (matchTok TK_ARROW) (\<lambda>b. if b then pty else pret ''Any'')"

text \<open>Any token may name a task, so that operators can be overloaded.\<close>

definition taskStatement ::
    "expr pact \<Rightarrow> expr pact \<Rightarrow> string pact \<Rightarrow> stmt pact \<Rightarrow> stmt pact \<Rightarrow> bool \<Rightarrow> stmt pact" where
  "taskStatement pe pt pty pd ps async = pbind previousTok (\<lambda>op. pthen advanceTok (pbind previousTok (\<lambda>name.
     pthen typeParameters (pthen (consume TK_LPAREN ''Expected '(' after function name'')
     (pbind (parameters True pt pty) (\<lambda>pl.
     pthen (consume TK_RPAREN ''Expected ')' after parameters'') (pthen (returnType pty) (pthen skipNewlines
     (pbind (contracts pe) (\<lambda>(rs, es).
     pbind (matchTok TK_LBRACE) (\<lambda>b.
     pbind (if b then blockBody pd ''Expected '}' after function body''
            else pbind ps (\<lambda>st. pret (if st = NoStmt then [] else [st]))) (\<lambda>body.
       pret (stmtAt op (TaskStmt (Task (lexeme name) (plNames pl) (plDefaults pl) body (plVariadic pl) async
         rs es False None [])))))))))))))))"

end
