(* ===== verification/Parser_Decl.thy ===== *)
theory Parser_Decl
  imports Parser_Stmt
begin

text \<open>
  Models, enums, structs and interfaces, decorators, the dispatch over statements and declarations,
  and the recursion of the grammar with \<open>parse\<close>, from \<open>src/parser/ParserStmt.cpp\<close>.
\<close>

subsection \<open>Enums and structs\<close>

text \<open>Both are lowered to a model. The auto-numbering of an enum counts on from an explicit integer.\<close>

definition enumMember :: "string \<Rightarrow> expr \<Rightarrow> member" where
  "enumMember name e = Member True True False False False False name ''Any'' e [] [] [] [] [] [] []"

definition enumNext :: "i64 \<Rightarrow> i64 pact" where
  "enumNext i = (if sint i = 2 ^ 63 - 1 then pundefined ''signed overflow'' else pret (i + 1))"

definition enumValue :: "expr pact \<Rightarrow> i64 \<Rightarrow> token \<Rightarrow> (expr \<times> i64) pact" where
  "enumValue pe nx t = pbind (matchTok TK_EQUAL) (\<lambda>b.
     if b then pbind pe (\<lambda>e. case e of
         Expr _ _ (LiteralExpr (LInt i)) \<Rightarrow> pbind (enumNext i) (\<lambda>nx'. pret (e, nx'))
       | _ \<Rightarrow> pret (e, nx))
     else pbind (enumNext nx) (\<lambda>nx'. pret (exprAt t (LiteralExpr (LInt nx)), nx')))"

definition enumStep :: "expr pact \<Rightarrow> string \<Rightarrow> i64 \<times> member list \<Rightarrow> (i64 \<times> member list) pact" where
  "enumStep pe name acc = (case acc of (nx, ms) \<Rightarrow>
     pbind (consume TK_IDENTIFIER ''Expected enum member name'') (\<lambda>t.
       if lexeme t \<in> set (map mName ms)
       then pfail (''Duplicate enum member '' @ sq (lexeme t) @ '' in enum '' @ sq name) (tline t)
       else pbind (enumValue pe nx t) (\<lambda>(e, nx'). pthen (matchTok TK_COMMA) (pthen skipNewlines
         (pret (nx', ms @ [enumMember (lexeme t) e]))))))"

definition enumStatement :: "expr pact \<Rightarrow> stmt pact" where
  "enumStatement pe = pbind previousTok (\<lambda>op. pbind (consume TK_IDENTIFIER ''Expected enum name'') (\<lambda>name.
     pthen skipNewlines (pthen (consume TK_LBRACE ''Expected '{' before enum body'') (pthen skipNewlines
     (pbind (untilBrace (enumStep pe (lexeme name)) (0, [])) (\<lambda>(nx, ms).
       if ms = [] then pfail (''Enum '' @ sq (lexeme name) @ '' has no members'') (tline op)
       else pthen (consume TK_RBRACE ''Expected '}' after enum body'')
         (pret (stmtAt op (ModelStmt (Model (lexeme name) [] [] [] [] [] ms False False [] []))))))))))"

text \<open>A field without a default gets a zero of its type.\<close>

definition zeroOf :: "string \<Rightarrow> literal" where
  "zeroOf ty =
     (if ty \<in> {''int'', ''int64'', ''byte'', ''number''} then LInt 0
      else if ty \<in> {''float'', ''double''} then LDouble 0
      else if ty = ''ptr'' then LInt 0
      else if ty \<in> {''string'', ''str''} then LStr []
      else if ty = ''bool'' then LBool False
      else LNull)"

definition fieldStep :: "expr pact \<Rightarrow> string pact \<Rightarrow> (string \<times> string \<times> expr) list \<Rightarrow> (string \<times> string \<times> expr) list pact" where
  "fieldStep pe pty fs = pbind (consume TK_IDENTIFIER ''Expected field name'') (\<lambda>t.
     pbind (optionalType pty) (\<lambda>ty. pbind (matchTok TK_EQUAL) (\<lambda>b. pbind (if b then pe else pret NoExpr) (\<lambda>e.
       pbind (matchTok TK_COMMA) (\<lambda>c. pbind (check TK_NEWLINE) (\<lambda>n.
         pthen (if c \<or> n then skipNewlines else pret ())
           (pret (fs @ [(lexeme t, case ty of Some x \<Rightarrow> x | None \<Rightarrow> ''Any'', e)]))))))))"

definition fieldInit :: "token \<Rightarrow> string \<times> string \<times> expr \<Rightarrow> stmt" where
  "fieldInit op f = stmtAt op (ExpressionStmt (exprAt op
     (SetExpr (exprAt op SelfExpr) (fst f) (exprAt op (IdentifierExpr (fst f))) None)))"

definition fieldDefault :: "token \<Rightarrow> string \<times> string \<times> expr \<Rightarrow> expr" where
  "fieldDefault op f = (case f of (name, ty, e) \<Rightarrow>
     if e \<noteq> NoExpr then e else exprAt op (LiteralExpr (zeroOf ty)))"

definition structStatement :: "expr pact \<Rightarrow> string pact \<Rightarrow> stmt pact" where
  "structStatement pe pty = pbind previousTok (\<lambda>op. pbind (consume TK_IDENTIFIER ''Expected struct name'') (\<lambda>name.
     pthen typeParameters (pthen skipNewlines (pthen (consume TK_LBRACE ''Expected '{' before struct body'')
     (pthen skipNewlines (pbind (untilBrace (fieldStep pe pty) []) (\<lambda>fs.
     pthen (consume TK_RBRACE ''Expected '}' after struct body'')
       (pret (stmtAt op (ModelStmt (Model (lexeme name) [] [] (map fst fs) (map (fieldDefault op) fs)
         (map (fieldInit op) fs) [] False False [] [])))))))))))"

subsection \<open>Models\<close>

definition validateArgs :: "expr pact \<Rightarrow> (expr \<times> string) pact" where
  "validateArgs pe = pbind (matchTok TK_COMMA) (\<lambda>b.
     if \<not> b then pret (NoExpr, [])
     else pbind (check TK_STRING) (\<lambda>st.
       if st then pbind advanceTok (\<lambda>m. pbind (stringOf m) (\<lambda>x. pbind (matchTok TK_COMMA) (\<lambda>c.
         if c then pbind (consume TK_STRING ''Expected message string in @validate'') (\<lambda>u.
           pbind (stringOf u) (\<lambda>msg. pret (exprAt m (LiteralExpr (LStr x)), msg)))
         else pret (NoExpr, x))))
       else pbind pe (\<lambda>e. pbind (matchTok TK_COMMA) (\<lambda>c.
         if c then pbind (consume TK_STRING ''Expected message string in @validate'') (\<lambda>u.
           pbind (stringOf u) (\<lambda>msg. pret (e, msg)))
         else pret (e, [])))))"

definition validateRule :: "expr pact \<Rightarrow> expr validator pact" where
  "validateRule pe = pthen advanceTok (pthen advanceTok (pthen (consume TK_LPAREN ''Expected '(' after @validate'')
     (pbind (consume TK_STRING ''Expected rule name string in @validate'') (\<lambda>r. pbind (stringOf r) (\<lambda>rule.
     pbind (validateArgs pe) (\<lambda>(p, msg). pthen (consume TK_RPAREN ''Expected ')' after @validate arguments'')
       (pret (Validator rule p (if msg = [] then ''Validation failed: '' @ rule else msg)))))))))"

definition validators :: "expr pact \<Rightarrow> expr validator list pact" where
  "validators pe = ploop (\<lambda>vs. pbind (check TK_AT) (\<lambda>a. pbind peekNextTok (\<lambda>n.
     if a \<and> ttype n = TK_IDENTIFIER \<and> lexeme n = ''validate''
     then pbind (validateRule pe) (\<lambda>v. pthen skipNewlines (pret (Inl (vs @ [v]))))
     else pret (Inr vs)))) []"

definition propertyMember :: "expr pact \<Rightarrow> string pact \<Rightarrow> bool \<Rightarrow> bool \<Rightarrow> bool \<Rightarrow> member pact" where
  "propertyMember pe pty public hasModifier static = pbind advanceTok (\<lambda>name.
     pbind (optionalType pty) (\<lambda>ty. pbind (matchTok TK_EQUAL) (\<lambda>b. pbind (if b then pe else pret NoExpr) (\<lambda>e.
       if e = NoExpr \<and> \<not> hasModifier \<and> ty = None
       then pfail (''Property '' @ sq (lexeme name) @ '' must be initialized, given a type annotation, or declared with 'hidden' or 'shown'' @ [CHR 0x27])
         (tline name)
       else pthen skipNewlines (pbind (validators pe) (\<lambda>vs.
         pret (Member public static False False False False (lexeme name) (case ty of Some x \<Rightarrow> x | None \<Rightarrow> ''Any'')
           e [] [] [] vs [] [] [])))))))"

text \<open>The decorators of a method: \<open>@cached\<close> is built in, every other one is an expression.\<close>

definition isCachedName :: "expr \<Rightarrow> bool" where
  "isCachedName e = (case e of Expr _ _ (IdentifierExpr name) \<Rightarrow> name = ''cached'' | _ \<Rightarrow> False)"

definition methodDecorators :: "expr pact \<Rightarrow> (bool \<times> expr list) pact" where
  "methodDecorators pe = ploop (\<lambda>(c, ds). pbind (matchTok TK_AT) (\<lambda>b.
     if b then pbind pe (\<lambda>e. pthen skipNewlines
       (pret (Inl (if isCachedName e then (True, ds) else (c, ds @ [e])))))
     else pret (Inr (c, ds)))) (False, [])"

definition methodMember ::
    "expr pact \<Rightarrow> expr pact \<Rightarrow> string pact \<Rightarrow> stmt pact \<Rightarrow> bool \<Rightarrow> bool \<Rightarrow> bool \<Rightarrow> bool \<times> expr list \<Rightarrow> member pact" where
  "methodMember pe pt pty pd public static async cd = pthen advanceTok (pbind previousTok (\<lambda>name.
     pthen typeParameters (pthen (consume TK_LPAREN ''Expected '(' after method name'')
     (pbind (parameters True pt pty) (\<lambda>pl.
     pthen (consume TK_RPAREN ''Expected ')' after method parameters'') (pthen skipNewlines
     (pbind (returnType pty) (\<lambda>ty. pthen skipNewlines (pbind (contracts pe) (\<lambda>(rs, es).
     pbind (matchTok TK_LBRACE) (\<lambda>b.
     pbind (if b then blockBody pd ''Expected '}' after method body'' else pret []) (\<lambda>body.
       pret (Member public static True async (fst cd) (plVariadic pl) (lexeme name) ty NoExpr (plNames pl)
         (plDefaults pl) body [] rs es (snd cd))))))))))))))"

text \<open>What the body of a model collects: the constructor, whose parts add up, and the members.\<close>

record model_body =
  mbParams :: "string list"
  mbDefaults :: "expr list"
  mbInit :: "stmt list"
  mbMembers :: "member list"

definition initMember :: "expr pact \<Rightarrow> string pact \<Rightarrow> stmt pact \<Rightarrow> bool \<Rightarrow> model_body \<Rightarrow> model_body pact" where
  "initMember pt pty pd static mb =
     (if static then pbind previousTok (\<lambda>t. pfail ''Constructor cannot be static'' (tline t))
      else pthen (consume TK_LPAREN (''Expected '(' after 'init'' @ [CHR 0x27])) (pbind (parameters False pt pty) (\<lambda>pl.
        pthen (consume TK_RPAREN ''Expected ')' after init parameters'') (pthen skipNewlines
        (pbind (matchTok TK_LBRACE) (\<lambda>b.
        pbind (if b then blockBody pd ''Expected '}' after init body'' else pret []) (\<lambda>body.
          pret (mb\<lparr>mbParams := mbParams mb @ plNames pl, mbDefaults := mbDefaults mb @ plDefaults pl,
            mbInit := mbInit mb @ body\<rparr>))))))))"

definition unexpectedMember :: "'a pact" where
  "unexpectedMember = pbind peekTok (\<lambda>t. pfail (case misplacedKeyword (ttype t) of
       Some hint \<Rightarrow> ''Unexpected token in model body -- '' @ hint
     | None \<Rightarrow> ''Unexpected token in model body -- expected a property name, 'task', 'init', ''
         @ '''static', or a visibility modifier ('hidden'/'shown'), but got '' @ sq (lexeme t)) (tline t))"

definition otherMember ::
    "expr pact \<Rightarrow> expr pact \<Rightarrow> string pact \<Rightarrow> stmt pact \<Rightarrow> bool \<Rightarrow> bool \<Rightarrow> bool \<Rightarrow> member pact" where
  "otherMember pe pt pty pd public hasModifier static = pbind (matchTok TK_ASYNC) (\<lambda>async.
     pbind (methodDecorators pe) (\<lambda>cd. pbind (matchTok TK_TASK) (\<lambda>t.
       if t then methodMember pe pt pty pd public static async cd
       else if async then pbind peekTok (\<lambda>u. pfail (''Expected 'task' after 'async' modifier'') (tline u))
       else pbind (check TK_IDENTIFIER) (\<lambda>i.
         if i then propertyMember pe pty public hasModifier static else unexpectedMember))))"

definition memberStep ::
    "expr pact \<Rightarrow> expr pact \<Rightarrow> string pact \<Rightarrow> stmt pact \<Rightarrow> model_body \<Rightarrow> model_body pact" where
  "memberStep pe pt pty pd mb = pbind (matchTok TK_HIDDEN) (\<lambda>h.
     pbind (if h then pret False else matchTok TK_SHOWN) (\<lambda>sh.
     pbind (matchTok TK_STATIC) (\<lambda>st. pthen (if st then skipNewlines else pret ())
     (pbind (matchTok TK_INIT) (\<lambda>i.
     pbind (if i then initMember pt pty pd st mb
            else pbind (otherMember pe pt pty pd (\<not> h) (h \<or> sh) st) (\<lambda>m. pret (mb\<lparr>mbMembers := mbMembers mb @ [m]\<rparr>)))
       (\<lambda>mb'. pthen skipNewlines (pret mb')))))))"

definition modelStatement :: "expr pact \<Rightarrow> expr pact \<Rightarrow> string pact \<Rightarrow> stmt pact \<Rightarrow> stmt pact" where
  "modelStatement pe pt pty pd = pbind previousTok (\<lambda>op.
     pbind (consume TK_IDENTIFIER ''Expected model name'') (\<lambda>name. pthen typeParameters
     (pbind (matchTok TK_EXTENDS) (\<lambda>b.
     pbind (if b then pbind (consume TK_IDENTIFIER ''Expected parent model name'') (\<lambda>p. pret (lexeme p)) else pret []) (\<lambda>parent.
     pbind (matchTok TK_IMPLEMENTS) (\<lambda>c.
     pbind (if c then commaSep (pbind (consume TK_IDENTIFIER ''Expected interface name'') (\<lambda>p. pret (lexeme p))) else pret []) (\<lambda>ifs.
     pthen skipNewlines (pthen (consume TK_LBRACE ''Expected '{' after model name'') (pthen skipNewlines
     (pbind (untilBrace (memberStep pe pt pty pd) \<lparr>mbParams = [], mbDefaults = [], mbInit = [], mbMembers = []\<rparr>) (\<lambda>mb.
     pthen (consume TK_RBRACE ''Expected '}' after model body'')
       (pret (stmtAt op (ModelStmt (Model (lexeme name) parent ifs (mbParams mb) (mbDefaults mb) (mbInit mb)
         (mbMembers mb) False False [] [])))))))))))))))"

subsection \<open>Interfaces\<close>

definition interfaceMethod :: "string pact \<Rightarrow> string pact" where
  "interfaceMethod pty = pthen (consume TK_TASK ''Expected 'task' in interface definition'')
     (pbind (consume TK_IDENTIFIER ''Expected method name'') (\<lambda>name.
     pthen (consume TK_LPAREN ''Expected '(' after method name'') (pbind (check TK_RPAREN) (\<lambda>b.
     pthen (if b then pret [] else commaSep (pthen (consume TK_IDENTIFIER ''Expected parameter name'') (optionalType pty)))
     (pthen (consume TK_RPAREN ''Expected ')' after method parameters'') (pthen (returnType pty) (pret (lexeme name))))))))"

definition interfaceStatement :: "string pact \<Rightarrow> stmt pact" where
  "interfaceStatement pty = pbind previousTok (\<lambda>op.
     pbind (consume TK_IDENTIFIER ''Expected interface name'') (\<lambda>name. pthen typeParameters (pthen skipNewlines
     (pthen (consume TK_LBRACE ''Expected '{' after interface name'') (pthen skipNewlines
     (pbind (untilBrace (\<lambda>ms. pbind (interfaceMethod pty) (\<lambda>m. pthen skipNewlines (pret (ms @ [m])))) []) (\<lambda>ms.
     pthen (consume TK_RBRACE ''Expected '}' after interface body'')
       (pret (stmtAt op (InterfaceStmt (lexeme name) ms))))))))))"

subsection \<open>Tests, exports, expressions\<close>

definition testStatement :: "expr pact \<Rightarrow> stmt pact \<Rightarrow> stmt pact" where
  "testStatement pe pd = pbind previousTok (\<lambda>op.
     pbind (consume TK_STRING ''Expected string literal for test name'') (\<lambda>name. pbind (stringOf name) (\<lambda>x.
     pbind (lambdaExpression pe pd False True) (\<lambda>f.
       pret (stmtAt op (ExpressionStmt (exprAt op (CallExpr (exprAt op (IdentifierExpr ''ez_register_test''))
         [exprAt op (LiteralExpr (LStr x)), f] []))))))))"

definition afterExport :: "token \<Rightarrow> bool \<Rightarrow> stmt \<Rightarrow> stmt pact" where
  "afterExport tok hadError inner s =
     (if inner \<noteq> NoStmt then pret (stmtAt tok (ExportStmt inner)) s
      else if pHadError s \<and> \<not> hadError then pret NoStmt s
      else pfail (''Expected declaration after 'export'' @ [CHR 0x27]) (tline tok) s)"

definition exportStatement :: "stmt pact \<Rightarrow> stmt pact" where
  "exportStatement pd = pbind previousTok (\<lambda>tok. pthen skipNewlines
     (\<lambda>s. pbind pd (afterExport tok (pHadError s)) s))"

definition bareName :: "expr \<Rightarrow> string option" where
  "bareName e = (case e of Expr _ _ (IdentifierExpr name) \<Rightarrow> Some name | _ \<Rightarrow> None)"

definition strayName :: "string \<Rightarrow> string" where
  "strayName name = ''Unexpected token after '' @ sq name @
     (if suggestStatementKeyword name \<noteq> [] then '' -- did you mean the keyword '' @ sq (suggestStatementKeyword name) @ ''?''
      else '' -- two names can't appear back-to-back like this; did you forget an operator, or misspell a keyword?'')"

definition expressionStatement :: "expr pact \<Rightarrow> stmt pact" where
  "expressionStatement pe = pbind peekTok (\<lambda>op. pbind pe (\<lambda>e.
     pbind (checkAny [TK_IDENTIFIER, TK_LBRACE]) (\<lambda>b. case bareName e of
       Some name \<Rightarrow> if b then pfail (strayName name) (tline op) else pret (stmtAt op (ExpressionStmt e))
     | None \<Rightarrow> pret (stmtAt op (ExpressionStmt e)))))"

subsection \<open>Decorators\<close>

record decorations =
  deUser :: "expr list"
  dePersist :: string
  deRate :: "(int \<times> string) option"
  deCached :: bool
  deAudited :: bool
  deSnapshot :: bool

definition plainDecorations :: decorations where
  "plainDecorations = \<lparr>deUser = [], dePersist = [], deRate = None, deCached = False, deAudited = False,
     deSnapshot = False\<rparr>"

text \<open>The conversion of a literal count to \<open>int\<close>: the low 32 bits, or a truncation that must fit.\<close>

definition intOf :: "literal \<Rightarrow> (cxx_exn + int) option" where
  "intOf v = (case v of
       LInt i \<Rightarrow> Some (Inr (signed_take_bit 31 (sint i)))
     | LDouble d \<Rightarrow> Some (case i64_of_d d of
           Some w \<Rightarrow> if - (2 ^ 31) \<le> sint w \<and> sint w < 2 ^ 31 then Inr (sint w) else Inl (Undefined ''double out of range of int'')
         | None \<Rightarrow> Inl (Undefined ''double out of range of int''))
     | _ \<Rightarrow> None)"

definition literalOf :: "expr \<Rightarrow> literal option" where
  "literalOf e = (case e of Expr _ _ (LiteralExpr v) \<Rightarrow> Some v | _ \<Rightarrow> None)"

definition persistArg :: "expr list \<Rightarrow> string option" where
  "persistArg args = (case args of
       [a] \<Rightarrow> (case literalOf a of Some (LStr p) \<Rightarrow> Some p | _ \<Rightarrow> None)
     | _ \<Rightarrow> None)"

definition rateArgs :: "expr list \<Rightarrow> ((cxx_exn + int) \<times> string) option" where
  "rateArgs args = (case args of
       a # b # _ \<Rightarrow> (case (literalOf a, literalOf b) of
           (Some v, Some (LStr per)) \<Rightarrow> map_option (\<lambda>n. (n, per)) (intOf v)
         | _ \<Rightarrow> None)
     | _ \<Rightarrow> None)"

definition addUser :: "expr \<Rightarrow> decorations \<Rightarrow> decorations" where
  "addUser e de = de\<lparr>deUser := deUser de @ [e]\<rparr>"

definition decorateWith :: "expr \<Rightarrow> decorations \<Rightarrow> decorations pact" where
  "decorateWith e de = (case e of
       Expr _ _ (IdentifierExpr name) \<Rightarrow> pret
         (if name = ''cached'' then de\<lparr>deCached := True\<rparr>
          else if name = ''audited'' then de\<lparr>deAudited := True\<rparr>
          else if name = ''snapshot'' then de\<lparr>deSnapshot := True\<rparr>
          else addUser e de)
     | Expr _ _ (CallExpr callee args names) \<Rightarrow>
         (if bareName callee = Some ''persist'' then
            (case persistArg args of Some p \<Rightarrow> pret (de\<lparr>dePersist := p\<rparr>) | None \<Rightarrow> pret (addUser e de))
          else if bareName callee = Some ''ratelimit'' then
            (case rateArgs args of
               Some (Inr n, per) \<Rightarrow> pret (de\<lparr>deRate := Some (n, per)\<rparr>)
             | Some (Inl x, per) \<Rightarrow> (\<lambda>s. Inl (ParserThrows x, s))
             | None \<Rightarrow> pret (addUser e de))
          else pret (addUser e de))
     | _ \<Rightarrow> pret (addUser e de))"

definition decorators :: "expr pact \<Rightarrow> decorations pact" where
  "decorators pe = ploop (\<lambda>de. pbind (matchTok TK_AT) (\<lambda>b.
     if b then pbind pe (\<lambda>e. pbind (decorateWith e de) (\<lambda>de'. pthen skipNewlines (pret (Inl de'))))
     else pret (Inr de))) plainDecorations"

definition decorateTask :: "decorations \<Rightarrow> stmt \<Rightarrow> stmt" where
  "decorateTask de st = (case st of
       Stmt l (TaskStmt (Task name ps ds body v a rs es c rate _)) \<Rightarrow>
         Stmt l (TaskStmt (Task name ps ds body v a rs es (c \<or> deCached de)
           (if deRate de \<noteq> None then deRate de else rate) (deUser de)))
     | _ \<Rightarrow> st)"

definition decorateModel :: "decorations \<Rightarrow> stmt \<Rightarrow> stmt" where
  "decorateModel de st = (case st of
       Stmt l (ModelStmt (Model name p ifs ps ds i ms au sn pe _)) \<Rightarrow>
         Stmt l (ModelStmt (Model name p ifs ps ds i ms (au \<or> deAudited de) (sn \<or> deSnapshot de)
           (if dePersist de \<noteq> [] then dePersist de else pe) (deUser de)))
     | _ \<Rightarrow> st)"

definition decorated :: "decorations \<Rightarrow> bool" where
  "decorated de \<longleftrightarrow> deCached de \<or> deAudited de \<or> deSnapshot de \<or> dePersist de \<noteq> [] \<or> deRate de \<noteq> None \<or> deUser de \<noteq> []"

subsection \<open>Statements\<close>

text \<open>The first alternative whose keyword is next, which is taken.\<close>

fun firstOf :: "(token_kind \<times> 'a pact) list \<Rightarrow> 'a pact \<Rightarrow> 'a pact" where
  "firstOf [] other = other"
| "firstOf ((k, m) # alts) other = pbind (matchTok k) (\<lambda>b. if b then m else firstOf alts other)"

definition undecorated ::
    "expr pact \<Rightarrow> stmt pact \<Rightarrow> stmt pact \<Rightarrow> string pact \<Rightarrow> stmt pact" where
  "undecorated pe pd ps pty = firstOf [(TK_GIVE, giveStatement pe), (TK_ESCAPE, escapeStatement),
     (TK_SKIP, skipStatement), (TK_LBRACE, blockStatement pd), (TK_STRUCT, structStatement pe pty),
     (TK_ENUM, enumStatement pe), (TK_USE, useStatement), (TK_TRY, tryStatement pd),
     (TK_THROW, throwStatement pe), (TK_EXPORT, exportStatement pd), (TK_TEST, testStatement pe pd)]
     (expressionStatement pe)"

definition decoratedStatement ::
    "expr pact \<Rightarrow> expr pact \<Rightarrow> stmt pact \<Rightarrow> stmt pact \<Rightarrow> string pact \<Rightarrow> stmt pact" where
  "decoratedStatement pe pt pd ps pty = pbind (decorators pe) (\<lambda>de. pbind (matchTok TK_ASYNC) (\<lambda>async.
     pbind (matchAny [TK_TASK, TK_DECORATOR_KW]) (\<lambda>t.
       if t then pbind (taskStatement pe pt pty pd ps async) (\<lambda>st. pret (decorateTask de st))
       else if async then pbind previousTok (\<lambda>u. pfail ''Expected 'task' after 'async' modifier'' (tline u))
       else pbind (matchTok TK_MODEL) (\<lambda>m.
         if m then pbind (modelStatement pe pt pty pd) (\<lambda>st. pret (decorateModel de st))
         else if decorated de
         then pbind peekTok (\<lambda>u. pfail ''Decorators can only be applied to 'model' or 'task' declarations'' (tline u))
         else undecorated pe pd ps pty))))"

definition statement ::
    "expr pact \<Rightarrow> expr pact \<Rightarrow> stmt pact \<Rightarrow> stmt pact \<Rightarrow> stmt pact \<Rightarrow> string pact \<Rightarrow> stmt pact" where
  "statement pe pt pd ps pwhen pty = guarded (firstOf [(TK_INTERFACE, interfaceStatement pty),
     (TK_OUT, outStatement pe), (TK_WHEN, pwhen), (TK_WHILE, whileStatement pe pd ps),
     (TK_REPEAT, repeatStatement pe pd ps), (TK_GET, getStatement pe pd ps),
     (TK_MATCH, matchStatement pe pd ps), (TK_STATIC, staticStatement pe)]
     (decoratedStatement pe pt pd ps pty))"

text \<open>A declaration that fails is reported and skipped; it yields no statement.\<close>

definition startsVarDecl :: "bool pact" where
  "startsVarDecl = pbind (check TK_IDENTIFIER) (\<lambda>b s. Inr (b \<and> pCurrent s + 1 < length (pTokens s)
     \<and> ttype (pTokens s ! (pCurrent s + 1)) = TK_COLON, s))"

definition recover :: "stmt pact \<Rightarrow> stmt pact" where
  "recover m = catching m (\<lambda>msg line. pbind peekTok (\<lambda>u. pthen (parserError u msg)
     (pthen synchronize (pret NoStmt))))"

definition declaration1 :: "expr pact \<Rightarrow> stmt pact \<Rightarrow> string pact \<Rightarrow> stmt pact" where
  "declaration1 pe ps pty = recover (pbind startsVarDecl (\<lambda>b. if b then varDeclStatement pe pty else ps))"

subsection \<open>The recursion\<close>

text \<open>
  Fuel counts the depth of the recursion; \<open>Parser_Total\<close> shows how much the number of tokens needs.
\<close>

fun pAssignment :: "nat \<Rightarrow> expr pact" and pTernary :: "nat \<Rightarrow> expr pact" and pPower :: "nat \<Rightarrow> expr pact"
  and pUnary :: "nat \<Rightarrow> expr pact" and pWhen :: "nat \<Rightarrow> stmt pact" and pStatement :: "nat \<Rightarrow> stmt pact"
  and pDeclaration :: "nat \<Rightarrow> stmt pact" where
  "pAssignment 0 s = Inl (NoFuel, s)"
| "pAssignment (Suc d) s = assignment (pTernary d) (pAssignment d) s"
| "pTernary 0 s = Inl (NoFuel, s)"
| "pTernary (Suc d) s = ternary (pPower d) (guarded (pAssignment d)) (pTernary d) s"
| "pPower 0 s = Inl (NoFuel, s)"
| "pPower (Suc d) s = power (pUnary d) (pPower d) s"
| "pUnary 0 s = Inl (NoFuel, s)"
| "pUnary (Suc d) s = unary (pUnary d) (call (guarded (pAssignment d))
     (primary (guarded (pAssignment d)) (pTernary d) (pDeclaration d) (parseType d))) s"
| "pWhen 0 s = Inl (NoFuel, s)"
| "pWhen (Suc d) s = whenStatement (guarded (pAssignment d)) (pDeclaration d) (pStatement d) (pWhen d) s"
| "pStatement 0 s = Inl (NoFuel, s)"
| "pStatement (Suc d) s = statement (guarded (pAssignment d)) (pTernary d) (pDeclaration d) (pStatement d)
     (pWhen d) (parseType d) s"
| "pDeclaration 0 s = Inl (NoFuel, s)"
| "pDeclaration (Suc d) s = declaration1 (guarded (pAssignment d)) (pStatement d) (parseType d) s"

definition expression :: "nat \<Rightarrow> expr pact" where
  "expression d = guarded (pAssignment d)"

text \<open>
  \<open>parse\<close>: the statements, and the state with what was reported. The \<open>catch\<close> around the loop finds
  nothing left to catch, as \<open>declaration\<close> catches every \<open>ParseError\<close>, but is there.
\<close>

definition parseStep :: "nat \<Rightarrow> stmt list \<Rightarrow> (stmt list + stmt list) pact" where
  "parseStep d ss = pbind atEnd (\<lambda>e. if e then pret (Inr ss)
     else catching (pbind (pDeclaration d) (\<lambda>st. pthen skipNewlines (pret (Inl (if st = NoStmt then ss else ss @ [st])))))
       (\<lambda>msg line. pthen synchronize (pret (Inl ss))))"

definition parseFuel :: "token list \<Rightarrow> nat" where
  "parseFuel ts = 8 * length ts + 8"

definition newParser :: "token list \<Rightarrow> pstate" where
  "newParser ts = \<lparr>pTokens = ts, pCurrent = 0, pHadError = False, pDepth = 0, pDiags = []\<rparr>"

definition parse :: "token list \<Rightarrow> (pstop \<times> pstate) + stmt list \<times> pstate" where
  "parse ts = pthen skipNewlines (ploop (parseStep (parseFuel ts)) []) (newParser ts)"

end
