(* ===== verification/Parser_Goes.thy ===== *)
theory Parser_Goes
  imports Parser_Decl
begin

text \<open>
  Where an action of the parser can go. \<open>goes ts n m P\<close> runs \<open>m\<close> at position \<open>n\<close> of the tokens \<open>ts\<close>:
  it stops, if it does, in an allowed way, keeps the tokens, never moves back and never leaves
  them, and a result \<open>a\<close> at position \<open>n'\<close> satisfies \<open>P a n'\<close>. The rules below have one form: what
  is bound comes first and the continuation is run at each position it may reach.
\<close>

subsection \<open>The judgement\<close>

text \<open>
  The stops a parser may end with: not \<open>NoFuel\<close>, and no access outside the tokens. What is left is a
  literal that is not of its token's kind, an enumeration past the largest integer, and a rate limit
  that fits no \<open>int\<close>.
\<close>

definition allowedThrow :: "cxx_exn \<Rightarrow> bool" where
  "allowedThrow x \<longleftrightarrow> x = BadVariantAccess \<or> x = Undefined ''signed overflow''
     \<or> x = Undefined ''double out of range of int''"

fun allowedStop :: "pstop \<Rightarrow> bool" where
  "allowedStop (ParseError msg line) \<longleftrightarrow> True"
| "allowedStop (ParserThrows x) \<longleftrightarrow> allowedThrow x"
| "allowedStop NoFuel \<longleftrightarrow> False"

definition posAt :: "token list \<Rightarrow> nat \<Rightarrow> pstate \<Rightarrow> bool" where
  "posAt ts n s \<longleftrightarrow> pTokens s = ts \<and> pCurrent s = n \<and> n < length ts \<and> ttype (last ts) = TK_END_OF_FILE"

definition goes :: "token list \<Rightarrow> nat \<Rightarrow> 'a pact \<Rightarrow> ('a \<Rightarrow> nat \<Rightarrow> bool) \<Rightarrow> bool" where
  "goes ts n m P \<longleftrightarrow> (\<forall>s. posAt ts n s \<longrightarrow> (case m s of
       Inl (e, t) \<Rightarrow> allowedStop e \<and> (\<exists>n'\<ge>n. posAt ts n' t)
     | Inr (a, t) \<Rightarrow> \<exists>n'\<ge>n. posAt ts n' t \<and> P a n'))"

definition finalAt :: "token list \<Rightarrow> nat \<Rightarrow> bool" where
  "finalAt ts n \<longleftrightarrow> ttype (ts ! n) = TK_END_OF_FILE"

lemma goesI [intro?]:
  "(\<And>s. posAt ts n s \<Longrightarrow> case m s of Inl (e, t) \<Rightarrow> allowedStop e \<and> (\<exists>n'\<ge>n. posAt ts n' t)
     | Inr (a, t) \<Rightarrow> \<exists>n'\<ge>n. posAt ts n' t \<and> P a n') \<Longrightarrow> goes ts n m P"
  by (simp add: goes_def)

lemma goes_apply: "goes ts n m P \<Longrightarrow> posAt ts n s \<Longrightarrow> case m s of
     Inl (e, t) \<Rightarrow> allowedStop e \<and> (\<exists>n'\<ge>n. posAt ts n' t)
   | Inr (a, t) \<Rightarrow> \<exists>n'\<ge>n. posAt ts n' t \<and> P a n'"
  by (simp add: goes_def)

lemma goes_cases:
  assumes "goes ts n m P" "posAt ts n s"
  obtains (stop) e t n' where "m s = Inl (e, t)" "allowedStop e" "n \<le> n'" "posAt ts n' t"
  | (result) a t n' where "m s = Inr (a, t)" "n \<le> n'" "posAt ts n' t" "P a n'"
  using goes_apply [OF assms] by (cases "m s") auto

lemma goes_conseq:
  assumes "goes ts n m P" "\<And>a n'. n \<le> n' \<Longrightarrow> n' < length ts \<Longrightarrow> P a n' \<Longrightarrow> Q a n'"
  shows "goes ts n m Q"
proof
  fix s assume "posAt ts n s"
  from assms(1) this show "case m s of Inl (e, t) \<Rightarrow> allowedStop e \<and> (\<exists>n'\<ge>n. posAt ts n' t)
     | Inr (a, t) \<Rightarrow> \<exists>n'\<ge>n. posAt ts n' t \<and> Q a n'"
    by (cases rule: goes_cases) (auto simp: posAt_def intro: assms(2))
qed

lemma goes_bound: "(n < length ts \<Longrightarrow> goes ts n m P) \<Longrightarrow> goes ts n m P"
  by (auto simp: goes_def posAt_def)

lemma goes_bind:
  assumes "goes ts n m P" "\<And>a n'. n \<le> n' \<Longrightarrow> n' < length ts \<Longrightarrow> P a n' \<Longrightarrow> goes ts n' (f a) Q"
  shows "goes ts n (pbind m f) Q"
proof
  fix s assume s: "posAt ts n s"
  from assms(1) s show "case pbind m f s of Inl (e, t) \<Rightarrow> allowedStop e \<and> (\<exists>n'\<ge>n. posAt ts n' t)
     | Inr (a, t) \<Rightarrow> \<exists>n'\<ge>n. posAt ts n' t \<and> Q a n'"
  proof (cases rule: goes_cases)
    case (result a t k)
    with assms(2) have "goes ts k (f a) Q" by (simp add: posAt_def)
    from this result(3) show ?thesis
      by (cases rule: goes_cases) (use result in \<open>auto simp: pbind_def intro: order_trans\<close>)
  qed (auto simp: pbind_def)
qed

lemma pthen_pbind: "pthen m k = pbind m (\<lambda>_. k)"
  by (simp add: pthen_def)

lemma pbind_assoc: "pbind (pbind m f) g = pbind m (\<lambda>a. pbind (f a) g)"
  by (rule ext) (simp add: pbind_def split: sum.splits)

lemma pbind_pret: "pbind (pret a) f = f a"
  by (rule ext) (simp add: pbind_def pret_def)

lemma goes_pret: "P a n \<Longrightarrow> goes ts n (pret a) P"
  by (simp add: goes_def pret_def) blast

lemma goes_pfail: "goes ts n (pfail msg line) P"
  by (auto simp: goes_def pfail_def)

lemma goes_throw: "allowedThrow x \<Longrightarrow> goes ts n (\<lambda>s. Inl (ParserThrows x, s)) P"
  by (auto simp: goes_def)

lemma goes_peekTok: "goes ts n peekTok (\<lambda>t n'. n' = n \<and> t = ts ! n)"
  by (auto simp: goes_def peekTok_def posAt_def)

lemma goes_peekNextTok: "goes ts n peekNextTok (\<lambda>t n'. n' = n)"
  by (auto simp: goes_def peekNextTok_def posAt_def)

lemma goes_previousTok: "0 < n \<Longrightarrow> goes ts n previousTok (\<lambda>t n'. n' = n)"
  by (auto simp: goes_def previousTok_def posAt_def)

lemma goes_atEnd: "goes ts n atEnd (\<lambda>e n'. n' = n \<and> e = finalAt ts n)"
  unfolding atEnd_def by (rule goes_bind [OF goes_peekTok]) (auto intro!: goes_pret simp: finalAt_def)

lemma goes_check: "goes ts n (check k) (\<lambda>b n'. n' = n \<and> (b \<longrightarrow> \<not> finalAt ts n \<and> ttype (ts ! n) = k))"
  unfolding check_def
  by (rule goes_bind [OF goes_atEnd]) (auto intro!: goes_pret goes_bind [OF goes_peekTok])

lemma last_at: "Suc n = length ts \<Longrightarrow> last ts = ts ! n"
  by (cases ts rule: rev_cases) auto

lemma goes_advanceTok:
  assumes "finalAt ts n \<Longrightarrow> 0 < n"
  shows "goes ts n advanceTok (\<lambda>_ n'. if finalAt ts n then n' = n else n' = Suc n)"
proof
  fix s assume "posAt ts n s"
  moreover note assms
  moreover from this have "Suc n < length ts" if "\<not> finalAt ts n"
    using that \<open>posAt ts n s\<close> by (cases "Suc n = length ts") (auto simp: posAt_def finalAt_def last_at)
  ultimately show "case advanceTok s of Inl (e, t) \<Rightarrow> allowedStop e \<and> (\<exists>n'\<ge>n. posAt ts n' t)
     | Inr (a, t) \<Rightarrow> \<exists>n'\<ge>n. posAt ts n' t \<and> (if finalAt ts n then n' = n else n' = Suc n)"
    by (auto simp: advanceTok_def atEnd_def peekTok_def previousTok_def posAt_def pbind_def pret_def finalAt_def)
qed

subsection \<open>Rules\<close>

named_theorems going

lemmas pact_norm = pthen_pbind pbind_assoc pbind_pret

text \<open>An action that takes a token if it succeeds, and one that may leave everything as it is.\<close>

abbreviation advances :: "token list \<Rightarrow> nat \<Rightarrow> 'a pact \<Rightarrow> bool" where
  "advances ts n m \<equiv> goes ts n m (\<lambda>_ n'. n < n')"

abbreviation stays :: "token list \<Rightarrow> nat \<Rightarrow> 'a pact \<Rightarrow> bool" where
  "stays ts n m \<equiv> goes ts n m (\<lambda>_ n'. n \<le> n')"

lemma goes_matchTok: "goes ts n (matchTok k) (\<lambda>b n'. n' = (if b then Suc n else n))"
  unfolding matchTok_def
  by (rule goes_bind [OF goes_check]) (auto intro!: goes_pret goes_bind [OF goes_advanceTok])

lemma goes_matchAny: "goes ts n (matchAny ks) (\<lambda>b n'. n' = (if b then Suc n else n))"
proof (induction ks)
  case (Cons k ks)
  show ?case unfolding matchAny.simps
    by (rule goes_bind [OF goes_check])
      (auto intro!: goes_pret goes_bind [OF goes_advanceTok] Cons.IH)
qed (simp add: goes_pret)

lemma goes_checkAny: "goes ts n (checkAny ks) (\<lambda>b n'. n' = n)"
proof (induction ks)
  case (Cons k ks)
  show ?case unfolding checkAny.simps
    by (rule goes_bind [OF goes_check]) (auto intro!: goes_pret Cons.IH)
qed (simp add: goes_pret)

lemma goes_consume: "goes ts n (consume k msg) (\<lambda>_ n'. n' = Suc n)"
  unfolding consume_def
  by (rule goes_bind [OF goes_check])
    (auto intro!: goes_pfail goes_bind [OF goes_peekTok] goes_conseq [OF goes_advanceTok])

declare matchAny.simps [simp del] checkAny.simps [simp del]

lemma bind_pret [going]: "goes ts n (f a) Q \<Longrightarrow> goes ts n (pbind (pret a) f) Q"
  by (simp add: pbind_pret)

lemma bind_peek [going]: "goes ts n (f (ts ! n)) Q \<Longrightarrow> goes ts n (pbind peekTok f) Q"
  by (rule goes_bind [OF goes_peekTok]) auto

lemma bind_peekNext [going]: "(\<And>t. goes ts n (f t) Q) \<Longrightarrow> goes ts n (pbind peekNextTok f) Q"
  by (rule goes_bind [OF goes_peekNextTok]) auto

lemma bind_previous [going]: "0 < n \<Longrightarrow> (\<And>t. goes ts n (f t) Q) \<Longrightarrow> goes ts n (pbind previousTok f) Q"
  by (rule goes_bind [OF goes_previousTok]) auto

lemma bind_atEnd [going]:
  "(finalAt ts n \<Longrightarrow> goes ts n (f True) Q) \<Longrightarrow> (\<not> finalAt ts n \<Longrightarrow> goes ts n (f False) Q) \<Longrightarrow>
   goes ts n (pbind atEnd f) Q"
  by (rule goes_bind [OF goes_atEnd]) (metis (full_types))

lemma bind_check [going]:
  "(\<not> finalAt ts n \<Longrightarrow> ttype (ts ! n) = k \<Longrightarrow> goes ts n (f True) Q) \<Longrightarrow> goes ts n (f False) Q \<Longrightarrow>
   goes ts n (pbind (check k) f) Q"
  by (rule goes_bind [OF goes_check]) (metis (full_types))

lemma bind_checkAny [going]: "(\<And>b. goes ts n (f b) Q) \<Longrightarrow> goes ts n (pbind (checkAny ks) f) Q"
  by (rule goes_bind [OF goes_checkAny]) auto

lemma bind_advance [going]:
  "(finalAt ts n \<Longrightarrow> 0 < n) \<Longrightarrow> (finalAt ts n \<Longrightarrow> \<forall>a. goes ts n (f a) Q) \<Longrightarrow>
   (\<not> finalAt ts n \<Longrightarrow> Suc n < length ts \<Longrightarrow> \<forall>a. goes ts (Suc n) (f a) Q) \<Longrightarrow> goes ts n (pbind advanceTok f) Q"
  by (rule goes_bind [OF goes_advanceTok]) (auto split: if_splits)

lemma bind_match [going]:
  "(Suc n < length ts \<Longrightarrow> goes ts (Suc n) (f True) Q) \<Longrightarrow> goes ts n (f False) Q \<Longrightarrow>
   goes ts n (pbind (matchTok k) f) Q"
  by (rule goes_bind [OF goes_matchTok]) (auto split: if_splits)

lemma bind_matchAny [going]:
  "(Suc n < length ts \<Longrightarrow> goes ts (Suc n) (f True) Q) \<Longrightarrow> goes ts n (f False) Q \<Longrightarrow>
   goes ts n (pbind (matchAny ks) f) Q"
  by (rule goes_bind [OF goes_matchAny]) (auto split: if_splits)

lemma bind_consume [going]:
  "(\<And>t. Suc n < length ts \<Longrightarrow> goes ts (Suc n) (f t) Q) \<Longrightarrow> goes ts n (pbind (consume k msg) f) Q"
  by (rule goes_bind [OF goes_consume]) auto

lemma bind_fail [going]: "goes ts n (pbind (pfail msg line) f) Q"
  by (rule goes_bind [OF goes_pfail [where P = "\<lambda>_ _. False"]]) simp

lemma bind_throw: "allowedThrow x \<Longrightarrow> goes ts n (pbind (\<lambda>s. Inl (ParserThrows x, s)) f) Q"
  by (rule goes_bind [OF goes_throw [where P = "\<lambda>_ _. False"]]) simp_all

lemma allowed [simp]: "allowedThrow BadVariantAccess" "allowedThrow (Undefined ''signed overflow'')"
  "allowedThrow (Undefined ''double out of range of int'')"
  by (simp_all add: allowedThrow_def)

lemma goes_stringOf: "goes ts n (stringOf t) (\<lambda>_ n'. n' = n)"
  by (auto simp: stringOf_def intro: goes_throw goes_pret split: literal.split)

lemma goes_parserError: "goes ts n (parserError t msg) (\<lambda>_ n'. n' = n)"
  by (auto simp: goes_def parserError_def posAt_def)

lemma goes_if: "(b \<Longrightarrow> goes ts n x Q) \<Longrightarrow> (\<not> b \<Longrightarrow> goes ts n y Q) \<Longrightarrow> goes ts n (if b then x else y) Q"
  by simp

lemma bind_if [going]: "(b \<Longrightarrow> goes ts n (pbind x f) Q) \<Longrightarrow> (\<not> b \<Longrightarrow> goes ts n (pbind y f) Q) \<Longrightarrow>
   goes ts n (pbind (if b then x else y) f) Q"
  by simp

lemmas going_base [going] = goes_pret goes_pfail goes_throw bind_throw goes_if
  goes_stringOf [THEN goes_bind] goes_parserError [THEN goes_bind]
  goes_consume [THEN goes_conseq] goes_matchTok [THEN goes_conseq] goes_advanceTok [THEN goes_conseq]

subsection \<open>Loops\<close>

lemma goes_loopFor:
  fixes f :: "'a \<Rightarrow> ('a + 'b) pact"
  assumes body: "\<And>a m. n \<le> m \<Longrightarrow> m < length ts \<Longrightarrow> goes ts m (f a) (\<lambda>r m'. if isl r then m < m' else P (projr r) m')"
  shows "n \<le> m \<Longrightarrow> length ts \<le> m + k \<Longrightarrow> goes ts m (loopFor (Suc k) f a) P"
proof (induction k arbitrary: m a)
  case 0
  then show ?case by (auto simp: goes_def posAt_def)
next
  case (Suc k)
  have "goes ts m (pbind (f a) (\<lambda>r. case r of Inl b \<Rightarrow> loopFor (Suc k) f b | Inr c \<Rightarrow> pret c)) P"
  proof (rule goes_bind)
    show "goes ts m (f a) (\<lambda>r m'. (if isl r then m < m' else P (projr r) m') \<and> m < length ts)"
      by (rule goes_bound, rule goes_conseq [OF body]) (use Suc.prems in auto)
  next
    fix r :: "'a + 'b" and m' assume "(if isl r then m < m' else P (projr r) m') \<and> m < length ts" "m \<le> m'"
    then show "goes ts m' (case r of Inl b \<Rightarrow> loopFor (Suc k) f b | Inr c \<Rightarrow> pret c) P"
      using Suc.prems by (cases r) (auto intro!: goes_pret goes_conseq [OF Suc.IH])
  qed
  then show ?case by (simp add: goes_def)
qed

lemma goes_ploop:
  assumes "\<And>a m. n \<le> m \<Longrightarrow> m < length ts \<Longrightarrow> goes ts m (f a) (\<lambda>r m'. if isl r then m < m' else P (projr r) m')"
  shows "goes ts n (ploop f a) P"
proof
  fix s assume s: "posAt ts n s"
  have "goes ts n (loopFor (Suc (left s)) f a) P"
    by (rule goes_loopFor [OF assms]) (use s in \<open>auto simp: left_def posAt_def\<close>)
  from goes_apply [OF this s]
  show "case ploop f a s of Inl (e, t) \<Rightarrow> allowedStop e \<and> (\<exists>n'\<ge>n. posAt ts n' t)
     | Inr (b, t) \<Rightarrow> \<exists>n'\<ge>n. posAt ts n' t \<and> P b n'"
    by (simp add: ploop_def)
qed

lemma ploop_stays:
  assumes "\<And>a m. n \<le> m \<Longrightarrow> m < length ts \<Longrightarrow> goes ts m (f a) (\<lambda>r m'. isl r \<longrightarrow> m < m')"
  shows "stays ts n (ploop f a)"
  by (rule goes_ploop, rule goes_conseq [OF assms]) auto

lemma ploop_advances:
  assumes "\<And>a m. n \<le> m \<Longrightarrow> m < length ts \<Longrightarrow> advances ts m (f a)"
  shows "advances ts n (ploop f a)"
  by (rule goes_ploop, rule goes_conseq [OF assms]) auto

lemmas ploop_going [going] = ploop_stays [THEN goes_bind] ploop_stays [THEN goes_conseq]

lemma skipNewlines_goes: "stays ts n skipNewlines"
  unfolding skipNewlines_def by (auto intro!: ploop_stays going)

lemma synchronize_goes: "(finalAt ts n \<Longrightarrow> 0 < n) \<Longrightarrow> goes ts n synchronize (\<lambda>_ n'. n \<le> n' \<and> (\<not> finalAt ts n \<longrightarrow> n < n'))"
  unfolding synchronize_def pthen_pbind
  by (auto intro!: ploop_stays going)

lemma commaSep_goes:
  assumes "\<And>m. n \<le> m \<Longrightarrow> advances ts m x"
  shows "advances ts n (commaSep x)"
  unfolding commaSep_def by (rule ploop_advances) (auto intro!: going assms [THEN goes_bind])

lemmas navigation_going [going] = skipNewlines_goes [THEN goes_bind] skipNewlines_goes [THEN goes_conseq]
  commaSep_goes [THEN goes_bind] commaSep_goes [THEN goes_conseq]

lemma parseType_goes: "length ts \<le> n + d \<Longrightarrow> advances ts n (parseType d)"
proof (induction d arbitrary: n)
  case 0
  then show ?case by (auto simp: goes_def posAt_def)
next
  case (Suc d)
  have "advances ts n (pbind (consume TK_IDENTIFIER ''Expected type name'') (\<lambda>t.
     pbind (matchTok TK_LBRACKET) (\<lambda>b.
       if b then pthen (commaSep (parseType d))
         (pthen (consume TK_RBRACKET ''Expected ']' after type arguments'') (pret (lexeme t)))
       else pret (lexeme t))))" (is "advances ts n ?m")
    unfolding pthen_pbind using Suc.prems by (auto intro!: going Suc.IH)
  moreover have "parseType (Suc d) = ?m" by (rule ext) simp
  ultimately show ?case by (simp only:)
qed

lemma typeParameters_goes: "stays ts n typeParameters"
  unfolding typeParameters_def pthen_pbind pbind_assoc by (auto intro!: going)

lemma guarded_goes:
  assumes "goes ts n m P"
  shows "goes ts n (guarded m) P"
proof
  fix s assume s: "posAt ts n s"
  then have d: "posAt ts n (s\<lparr>pDepth := Suc (pDepth s)\<rparr>)" by (simp add: posAt_def)
  from goes_apply [OF assms d]
  show "case guarded m s of Inl (e, t) \<Rightarrow> allowedStop e \<and> (\<exists>n'\<ge>n. posAt ts n' t)
     | Inr (a, t) \<Rightarrow> \<exists>n'\<ge>n. posAt ts n' t \<and> P a n'"
    using s by (auto simp: guarded_def pbind_def pthen_def peekTok_def parserError_def pfail_def posAt_def Let_def
        split: sum.splits)
qed

lemma goes_catching:
  assumes "goes ts n m P" "\<And>k msg line. n \<le> k \<Longrightarrow> goes ts k (h msg line) P"
  shows "goes ts n (catching m h) P"
proof
  fix s assume "posAt ts n s"
  from assms(1) this show "case catching m h s of
       Inl (e, t) \<Rightarrow> allowedStop e \<and> (\<exists>n'\<ge>n. posAt ts n' t) | Inr (a, t) \<Rightarrow> \<exists>n'\<ge>n. posAt ts n' t \<and> P a n'"
  proof (cases rule: goes_cases)
    case (stop e t k)
    show ?thesis
    proof (cases e)
      case (ParseError msg line)
      from assms(2) [OF stop(3), of msg line] stop(4) show ?thesis
        by (cases rule: goes_cases) (use stop ParseError in \<open>auto simp: catching_def intro: order_trans\<close>)
    qed (use stop in \<open>auto simp: catching_def\<close>)
  qed (auto simp: catching_def)
qed

end
