(* ===== verification/Parser_Handlers.thy ===== *)
theory Parser_Handlers
  imports Parser_Goes
begin

text \<open>
  The interface between a function of the grammar and the ones it calls back: \<open>sub_parsers\<close> promises
  that each of them goes on where at most \<open>K\<close> tokens are left, and takes a token if it succeeds (a
  declaration at the end of the file takes none). Every function of the grammar is then shown to go
  on after its own keyword.
\<close>

subsection \<open>Operators\<close>

lemma assignTo_goes: "stays ts n (assignTo target op e)"
  unfolding assignTo_def by (auto intro!: going split: expr.split expr_form.split)

lemma assignment_goes:
  assumes "advances ts n pt'" "\<And>m. n < m \<Longrightarrow> advances ts m pa"
  shows "advances ts n (assignment pt' pa)"
  unfolding assignment_def
  by (rule goes_bind [OF assms(1)])
    (auto intro!: going assms(2) [THEN goes_bind] assignTo_goes [THEN goes_conseq])

lemma binLevel_goes:
  assumes "\<And>m. n \<le> m \<Longrightarrow> advances ts m sub"
  shows "advances ts n (binLevel ks mk sub)"
  unfolding binLevel_def by (auto intro!: going assms [THEN goes_bind])

lemma nullCoalescing_goes:
  assumes "\<And>m. n \<le> m \<Longrightarrow> advances ts m pw"
  shows "advances ts n (nullCoalescing pw)"
  unfolding nullCoalescing_def logicalOr_def logicalAnd_def bitwiseOr_def bitwiseXor_def bitwiseAnd_def
    equality_def comparison_def bitwiseShift_def term_level_def factor_def
  by (intro binLevel_goes assms) auto

lemma ternary_goes:
  assumes "\<And>m. n \<le> m \<Longrightarrow> advances ts m pw" "\<And>m. n < m \<Longrightarrow> advances ts m pe'" "\<And>m. n < m \<Longrightarrow> advances ts m pt'"
  shows "advances ts n (ternary pw pe' pt')"
  unfolding ternary_def pact_norm
  by (rule goes_bind [OF nullCoalescing_goes [OF assms(1)]])
    (auto simp: pact_norm intro!: going assms(2,3) [THEN goes_bind])

lemma power_goes:
  assumes "advances ts n pu" "\<And>m. n < m \<Longrightarrow> advances ts m pw"
  shows "advances ts n (power pu pw)"
  unfolding power_def by (rule goes_bind [OF assms(1)]) (auto intro!: going assms(2) [THEN goes_bind])

lemma unary_goes:
  assumes "\<And>m. n < m \<Longrightarrow> advances ts m pu" "advances ts n pcall"
  shows "advances ts n (unary pu pcall)"
  unfolding unary_def by (auto intro!: going assms(1) [THEN goes_bind] assms(2))

subsection \<open>The interface\<close>

locale sub_parsers =
  fixes ts :: "token list" and K :: nat and pe :: "expr pact" and pt :: "expr pact"
    and pd :: "stmt pact" and ps :: "stmt pact" and pty :: "string pact" and pwhen :: "stmt pact"
  assumes pe: "length ts \<le> n + K \<Longrightarrow> advances ts n pe"
    and pt: "length ts \<le> n + K \<Longrightarrow> advances ts n pt"
    and ps: "length ts \<le> n + K \<Longrightarrow> advances ts n ps"
    and pty: "length ts \<le> n + K \<Longrightarrow> advances ts n pty"
    and pwhen: "length ts \<le> n + K \<Longrightarrow> 0 < n \<Longrightarrow> stays ts n pwhen"
    and pd: "length ts \<le> n + K \<Longrightarrow> 0 < n \<Longrightarrow> goes ts n pd (\<lambda>_ n'. n \<le> n' \<and> (\<not> finalAt ts n \<longrightarrow> n < n'))"
begin

lemmas sub_going [going] = pe [THEN goes_bind] pe [THEN goes_conseq] pt [THEN goes_bind] pt [THEN goes_conseq]
  ps [THEN goes_bind] ps [THEN goes_conseq] pty [THEN goes_bind] pty [THEN goes_conseq]
  pwhen [THEN goes_bind] pwhen [THEN goes_conseq] pd [THEN goes_bind] pd [THEN goes_conseq]

subsection \<open>Expressions\<close>

lemma callArgument_goes: "length ts \<le> n + K \<Longrightarrow> advances ts n (callArgument pe opn)"
  unfolding callArgument_def pact_norm by (auto intro!: going)

lemmas callArgument_going [going] = callArgument_goes [THEN goes_bind] callArgument_goes [THEN goes_conseq]

lemma finishCall_goes: "length ts \<le> n + K \<Longrightarrow> 0 < n \<Longrightarrow> stays ts n (finishCall pe callee)"
  unfolding finishCall_def pact_norm by (auto intro!: going)

lemma indexAfter_goes: "length ts \<le> n + K \<Longrightarrow> 0 < n \<Longrightarrow> stays ts n (indexAfter pe e)"
  unfolding indexAfter_def pact_norm by (auto intro!: going)

lemma propertyAfter_goes: "stays ts n (propertyAfter op e)"
  unfolding propertyAfter_def pact_norm by (auto intro!: going)

lemmas after_going [going] = finishCall_goes [THEN goes_bind] indexAfter_goes [THEN goes_bind]
  propertyAfter_goes [THEN goes_bind]

lemma pastNewlines_at: "posAt ts n s \<Longrightarrow> pastNewlines s = n + length (takeWhile (\<lambda>t. ttype t = TK_NEWLINE) (drop n ts))"
  by (auto simp: pastNewlines_def posAt_def)

lemma chainNext_goes: "0 < n \<Longrightarrow> goes ts n (chainNext e) (\<lambda>r m'. isl r \<longrightarrow> n < m')"
proof
  fix s assume n: "0 < n" and s: "posAt ts n s"
  let ?i = "pastNewlines s"
  have i: "n \<le> ?i" using s by (simp add: pastNewlines_at)
  show "case chainNext e s of Inl (x, t) \<Rightarrow> allowedStop x \<and> (\<exists>n'\<ge>n. posAt ts n' t)
     | Inr (a, t) \<Rightarrow> \<exists>n'\<ge>n. posAt ts n' t \<and> (isl a \<longrightarrow> n < n')"
  proof (cases "dotAt ?i s")
    case True
    then have at: "posAt ts ?i (s\<lparr>pCurrent := ?i\<rparr>)" and nf: "\<not> finalAt ts ?i"
      using s by (auto simp: dotAt_def posAt_def finalAt_def)
    have "advances ts ?i (pbind advanceTok (\<lambda>op. pbind (propertyAfter op e) (\<lambda>e'. pret (Inl e' :: expr + expr))))"
      using nf by (auto intro!: going)
    from this at show ?thesis
    proof (cases rule: goes_cases)
      case (stop x t k)
      with True i show ?thesis by (auto simp: chainNext_def intro!: exI [of _ k])
    next
      case (result r t k)
      with True i show ?thesis by (auto simp: chainNext_def intro!: exI [of _ k])
    qed
  qed (use s in \<open>auto simp: chainNext_def\<close>)
qed

lemma callStep_goes: "length ts \<le> n + K \<Longrightarrow> 0 < n \<Longrightarrow> goes ts n (callStep pe e) (\<lambda>r m'. isl r \<longrightarrow> n < m')"
  unfolding callStep_def pact_norm by (auto intro!: going chainNext_goes)

lemma call_goes: "length ts \<le> n + Suc K \<Longrightarrow> advances ts n pprim \<Longrightarrow> advances ts n (call pe pprim)"
  unfolding call_def pact_norm
  by (rule goes_bind, assumption) (auto intro!: ploop_stays [THEN goes_conseq] callStep_goes)

lemma blockBody_goes: "length ts \<le> n + K \<Longrightarrow> 0 < n \<Longrightarrow> stays ts n (blockBody pd msg)"
  unfolding blockBody_def pact_norm by (auto intro!: going)

lemmas blockBody_going [going] = blockBody_goes [THEN goes_bind]

lemma lambdaParams_goes: "stays ts n lambdaParams"
  unfolding lambdaParams_def pact_norm by (auto simp: pact_norm intro!: going)

lemmas lambdaParams_going [going] = lambdaParams_goes [THEN goes_bind]

lemma lambdaBody_goes: "length ts \<le> n + K \<Longrightarrow> 0 < n \<Longrightarrow> stays ts n (lambdaBody pe pd start async pv)"
  unfolding lambdaBody_def pact_norm by (cases pv) (auto simp: pact_norm intro!: going)

lemma lambdaExpression_goes: "length ts \<le> n + K \<Longrightarrow> 0 < n \<Longrightarrow> stays ts n (lambdaExpression pe pd async np)"
  unfolding lambdaExpression_def pact_norm
  by (auto simp: pact_norm intro!: going lambdaBody_goes [THEN goes_conseq])

lemma newExpression_goes: "length ts \<le> n + K \<Longrightarrow> 0 < n \<Longrightarrow> stays ts n (newExpression pe pty)"
  unfolding newExpression_def pact_norm by (auto simp: pact_norm intro!: going)

lemma arrayElement_goes: "length ts \<le> n + K \<Longrightarrow> advances ts n (arrayElement pe opn)"
  unfolding arrayElement_def pact_norm by (auto intro!: going)

lemmas arrayElement_going [going] = arrayElement_goes [THEN goes_bind] arrayElement_goes [THEN goes_conseq]

lemma arrayLiteral_goes: "length ts \<le> n + K \<Longrightarrow> stays ts n (arrayLiteral pe opn)"
  unfolding arrayLiteral_def pact_norm by (auto intro!: going)

lemma dictEntry_goes: "length ts \<le> n + K \<Longrightarrow> advances ts n (dictEntry pe pt)"
  unfolding dictEntry_def pact_norm by (auto simp: pact_norm intro!: going)

lemmas dictEntry_going [going] = dictEntry_goes [THEN goes_bind]

lemma dictLiteral_goes: "length ts \<le> n + K \<Longrightarrow> 0 < n \<Longrightarrow> stays ts n (dictLiteral pe pt)"
  unfolding dictLiteral_def pact_norm by (auto intro!: going)

lemma parenthesized_goes: "length ts \<le> n + K \<Longrightarrow> stays ts n (parenthesized pe opn)"
  unfolding parenthesized_def pact_norm by (auto simp: pact_norm intro!: going)

lemma asyncExpression_goes: "length ts \<le> n + K \<Longrightarrow> 0 < n \<Longrightarrow> stays ts n (asyncExpression pe pd)"
  unfolding asyncExpression_def pact_norm
  by (auto intro!: going lambdaExpression_goes [THEN goes_bind] lambdaExpression_goes [THEN goes_conseq])

lemma numberLiteral_goes: "stays ts n (numberLiteral t)"
  unfolding numberLiteral_def by (auto intro!: going split: literal.split)

lemma primaryAfter_goes:
  "length ts \<le> n + K \<Longrightarrow> 0 < n \<Longrightarrow> primaryAfter pe pt pd pty t = Some m \<Longrightarrow> stays ts n m"
  unfolding primaryAfter_def Let_def
  by (auto intro!: going newExpression_goes numberLiteral_goes lambdaExpression_goes asyncExpression_goes
      arrayLiteral_goes dictLiteral_goes parenthesized_goes split: if_splits)

lemma primaryAfter_not_final: "primaryAfter pe pt pd pty (ts ! n) = Some m \<Longrightarrow> \<not> finalAt ts n"
  by (auto simp: primaryAfter_def finalAt_def Let_def split: if_splits)

lemma primary_goes:
  assumes n: "length ts \<le> n + Suc K"
  shows "advances ts n (primary pe pt pd pty)"
proof (cases "primaryAfter pe pt pd pty (ts ! n)")
  case (Some m)
  then have "advances ts n (pbind advanceTok (\<lambda>_. m))"
    using n by (auto intro!: bind_advance primaryAfter_goes [THEN goes_conseq] dest: primaryAfter_not_final)
  with Some show ?thesis unfolding primary_def pact_norm by (auto intro!: bind_peek)
qed (auto simp: primary_def intro!: going split: option.split)

subsection \<open>Statements\<close>

lemma optionalType_goes: "length ts \<le> n + K \<Longrightarrow> stays ts n (optionalType pty)"
  unfolding optionalType_def by (auto intro!: going)

lemmas optionalType_going [going] = optionalType_goes [THEN goes_bind] optionalType_goes [THEN goes_conseq]

lemma blockStatement_goes: "length ts \<le> n + K \<Longrightarrow> 0 < n \<Longrightarrow> stays ts n (blockStatement pd)"
  unfolding blockStatement_def by (auto intro!: going)

lemmas blockStatement_going [going] = blockStatement_goes [THEN goes_bind] blockStatement_goes [THEN goes_conseq]

lemma blockOrStatement_goes: "length ts \<le> n + K \<Longrightarrow> advances ts n (blockOrStatement pd ps)"
  unfolding blockOrStatement_def by (auto intro!: going)

lemmas blockOrStatement_going [going] = blockOrStatement_goes [THEN goes_bind] blockOrStatement_goes [THEN goes_conseq]

lemma thenPart_goes: "length ts \<le> n + K \<Longrightarrow> stays ts n (thenPart pd ps op)"
  unfolding thenPart_def bareThen_def pact_norm by (auto simp: pact_norm Let_def intro!: going)

lemmas thenPart_going [going] = thenPart_goes [THEN goes_bind]

lemma simple_statements_go:
  assumes "length ts \<le> n + K" "0 < n"
  shows "stays ts n (outStatement pe)" "stays ts n (throwStatement pe)" "stays ts n escapeStatement"
    "stays ts n skipStatement" "stays ts n (staticStatement pe)"
  unfolding outStatement_def throwStatement_def escapeStatement_def skipStatement_def staticStatement_def pact_norm
  using assms by (auto intro!: going)

lemma giveStatement_goes: "length ts \<le> n + K \<Longrightarrow> 0 < n \<Longrightarrow> stays ts n (giveStatement pe)"
  unfolding giveStatement_def pact_norm by (auto intro!: going)

lemma useStatement_goes: "0 < n \<Longrightarrow> stays ts n useStatement"
  unfolding useStatement_def pact_norm by (auto simp: pact_norm intro!: going)

lemma whenStatement_goes:
  assumes "length ts \<le> n + Suc K" "0 < n" "advances ts n pe'"
  shows "stays ts n (whenStatement pe' pd ps pwhen)"
  unfolding whenStatement_def pact_norm
  using assms(1,2) by (auto simp: pact_norm intro!: going assms(3) [THEN goes_bind])

lemma loop_statements_go:
  assumes "length ts \<le> n + K" "0 < n"
  shows "stays ts n (whileStatement pe pd ps)" "stays ts n (repeatStatement pe pd ps)"
    "stays ts n (getStatement pe pd ps)"
  unfolding whileStatement_def repeatStatement_def getStatement_def getVariables_def pact_norm
  using assms by (auto simp: pact_norm intro!: going)

lemma untilBrace_goes:
  assumes "\<And>a m. n \<le> m \<Longrightarrow> advances ts m (f a)"
  shows "stays ts n (untilBrace f a)"
  unfolding untilBrace_def by (auto intro!: going assms [THEN goes_bind])

lemmas untilBrace_going [going] = untilBrace_goes [THEN goes_bind]

lemma matchStatement_goes: "length ts \<le> n + K \<Longrightarrow> 0 < n \<Longrightarrow> stays ts n (matchStatement pe pd ps)"
  unfolding matchStatement_def matchArmOf_def pact_norm by (auto simp: pact_norm intro!: going)

lemma catchHead_goes: "stays ts n catchHead"
  unfolding catchHead_def catchNames_def pact_norm by (auto simp: pact_norm intro!: going)

lemma catchClauses_goes: "length ts \<le> n + K \<Longrightarrow> 0 < n \<Longrightarrow> stays ts n (catchClauses pd)"
  unfolding catchClauses_def pact_norm by (auto simp: pact_norm intro!: going catchHead_goes [THEN goes_bind])

lemma tryStatement_goes: "length ts \<le> n + K \<Longrightarrow> 0 < n \<Longrightarrow> stays ts n (tryStatement pd)"
  unfolding tryStatement_def pact_norm
  by (auto simp: pact_norm intro!: going catchClauses_goes [THEN goes_bind])

subsection \<open>Tasks\<close>

lemma parameters_goes: "length ts \<le> n + K \<Longrightarrow> stays ts n (parameters rest pt pty)"
  unfolding parameters_def paramStep_def restParam_def plainParam_def pact_norm
  by (auto simp: pact_norm intro!: going)

lemma clauses_goes: "length ts \<le> n + K \<Longrightarrow> advances ts n (ploop (clauseStep pe) cls)"
  by (rule ploop_advances)
    (auto simp: clauseStep_def afterClause_def clauseEnds_def pact_norm intro!: going)

lemma contracts_goes: "length ts \<le> n + K \<Longrightarrow> stays ts n (contracts pe)"
  unfolding contracts_def contractStep_def pact_norm
  by (auto simp: pact_norm intro!: going clauses_goes [THEN goes_bind])

lemma returnType_goes: "length ts \<le> n + K \<Longrightarrow> stays ts n (returnType pty)"
  unfolding returnType_def by (auto intro!: going)

lemmas task_going [going] = typeParameters_goes [THEN goes_bind] parameters_goes [THEN goes_bind]
  contracts_goes [THEN goes_bind] returnType_goes [THEN goes_bind]

lemma taskStatement_goes: "length ts \<le> n + K \<Longrightarrow> 0 < n \<Longrightarrow> stays ts n (taskStatement pe pt pty pd ps async)"
  unfolding taskStatement_def pact_norm by (auto simp: pact_norm intro!: going)

end

end
