(* ===== verification/Parser_Total.thy ===== *)
theory Parser_Total
  imports Parser_Handlers
begin

text \<open>
  The parser always ends: the declarations keep the promise of \<open>sub_parsers\<close>, and fuel eight times
  the number of tokens left is more than the recursion uses, so \<open>parse\<close> returns a program or stops
  in one of the allowed ways.
\<close>

context sub_parsers begin

subsection \<open>Enums, structs, models and interfaces\<close>

lemma enumNext_goes: "stays ts n (enumNext i)"
  unfolding enumNext_def pundefined_def by (auto intro!: going)

lemma enumValue_goes: "length ts \<le> n + K \<Longrightarrow> stays ts n (enumValue pe nx t)"
  unfolding enumValue_def pact_norm
  by (auto intro!: going enumNext_goes [THEN goes_bind] split: expr.split expr_form.split literal.split)

lemma enumStep_goes: "length ts \<le> n + K \<Longrightarrow> advances ts n (enumStep pe name acc)"
  unfolding enumStep_def pact_norm
  by (auto intro!: going enumValue_goes [THEN goes_bind] split: prod.split)

lemma enumStatement_goes: "length ts \<le> n + K \<Longrightarrow> 0 < n \<Longrightarrow> stays ts n (enumStatement pe)"
  unfolding enumStatement_def pact_norm
  by (auto intro!: going enumStep_goes [THEN goes_conseq])

lemma fieldStep_goes: "length ts \<le> n + K \<Longrightarrow> advances ts n (fieldStep pe pty fs)"
  unfolding fieldStep_def pact_norm by (auto simp: pact_norm intro!: going)

lemma structStatement_goes: "length ts \<le> n + K \<Longrightarrow> 0 < n \<Longrightarrow> stays ts n (structStatement pe pty)"
  unfolding structStatement_def pact_norm
  by (auto intro!: going fieldStep_goes [THEN goes_conseq])

lemma validateArgs_goes: "length ts \<le> n + K \<Longrightarrow> stays ts n (validateArgs pe)"
  unfolding validateArgs_def pact_norm by (auto simp: pact_norm intro!: going)

lemma validateRule_goes: "length ts \<le> n + K \<Longrightarrow> 0 < n \<Longrightarrow> advances ts n (validateRule pe)"
  unfolding validateRule_def pact_norm
  by (auto simp: pact_norm intro!: going validateArgs_goes [THEN goes_bind])

lemma validators_goes: "length ts \<le> n + K \<Longrightarrow> 0 < n \<Longrightarrow> stays ts n (validators pe)"
  unfolding validators_def pact_norm
  by (auto simp: pact_norm intro!: going validateRule_goes [THEN goes_bind])

lemma propertyMember_goes:
  "length ts \<le> n + K \<Longrightarrow> \<not> finalAt ts n \<Longrightarrow> advances ts n (propertyMember pe pty public hasModifier static)"
  unfolding propertyMember_def pact_norm
  by (auto simp: pact_norm intro!: going validators_goes [THEN goes_bind])

lemma methodDecorators_goes: "length ts \<le> n + K \<Longrightarrow> stays ts n (methodDecorators pe)"
  unfolding methodDecorators_def pact_norm by (auto simp: pact_norm intro!: going)

lemma methodMember_goes:
  "length ts \<le> n + K \<Longrightarrow> 0 < n \<Longrightarrow> stays ts n (methodMember pe pt pty pd public static async cd)"
  unfolding methodMember_def pact_norm by (auto simp: pact_norm intro!: going)

lemma initMember_goes: "length ts \<le> n + K \<Longrightarrow> 0 < n \<Longrightarrow> stays ts n (initMember pt pty pd static mb)"
  unfolding initMember_def pact_norm by (auto simp: pact_norm intro!: going)

lemma otherMember_goes:
  "length ts \<le> n + K \<Longrightarrow> advances ts n (otherMember pe pt pty pd public hasModifier static)"
  unfolding otherMember_def unexpectedMember_def pact_norm
  by (auto simp: pact_norm intro!: going methodDecorators_goes [THEN goes_bind]
      methodMember_goes [THEN goes_conseq] propertyMember_goes [THEN goes_conseq])

lemma memberStep_goes: "length ts \<le> n + K \<Longrightarrow> advances ts n (memberStep pe pt pty pd mb)"
  unfolding memberStep_def pact_norm
  by (auto simp: pact_norm intro!: going initMember_goes [THEN goes_bind] otherMember_goes [THEN goes_bind])

lemma modelStatement_goes: "length ts \<le> n + K \<Longrightarrow> 0 < n \<Longrightarrow> stays ts n (modelStatement pe pt pty pd)"
  unfolding modelStatement_def pact_norm
  by (auto simp: pact_norm intro!: going memberStep_goes [THEN goes_conseq])

lemma interfaceMethod_goes: "length ts \<le> n + K \<Longrightarrow> advances ts n (interfaceMethod pty)"
  unfolding interfaceMethod_def pact_norm by (auto simp: pact_norm intro!: going)

lemma interfaceStatement_goes: "length ts \<le> n + K \<Longrightarrow> 0 < n \<Longrightarrow> stays ts n (interfaceStatement pty)"
  unfolding interfaceStatement_def pact_norm
  by (auto simp: pact_norm intro!: going interfaceMethod_goes [THEN goes_bind])

subsection \<open>Tests, exports, expressions and decorators\<close>

lemma testStatement_goes: "length ts \<le> n + K \<Longrightarrow> 0 < n \<Longrightarrow> stays ts n (testStatement pe pd)"
  unfolding testStatement_def pact_norm
  by (auto simp: pact_norm intro!: going lambdaExpression_goes [THEN goes_bind])

lemma goes_state: "(\<And>s. goes ts n (F s) P) \<Longrightarrow> goes ts n (\<lambda>s. F s s) P"
  by (simp add: goes_def)

lemma afterExport_goes: "stays ts n (afterExport tok h inner)"
  by (auto simp: goes_def afterExport_def pret_def pfail_def)

lemma exportStatement_goes: "length ts \<le> n + K \<Longrightarrow> 0 < n \<Longrightarrow> stays ts n (exportStatement pd)"
  unfolding exportStatement_def pthen_pbind
  by (auto intro!: going goes_state [where F = "\<lambda>s. pbind pd (afterExport tok (pHadError s))" for tok]
      afterExport_goes [THEN goes_conseq])

lemma expressionStatement_goes:
  assumes "advances ts n pe'"
  shows "advances ts n (expressionStatement pe')"
  unfolding expressionStatement_def
  by (auto intro!: going assms [THEN goes_bind] split: option.split)

lemma decorateWith_goes: "stays ts n (decorateWith e de)"
proof -
  have "allowedThrow x" if "rateArgs args = Some (Inl x, per)" for args x per
    using that by (auto simp: rateArgs_def intOf_def split: list.splits option.splits literal.splits if_splits)
  then show ?thesis
    unfolding decorateWith_def
    by (auto intro!: going split: expr.split expr_form.split option.split sum.split prod.split)
qed

lemma decorators_goes: "length ts \<le> n + Suc K \<Longrightarrow> stays ts n (decorators pe)"
  unfolding decorators_def pact_norm
  by (auto simp: pact_norm intro!: going decorateWith_goes [THEN goes_bind])

lemma firstOf_goes:
  assumes "\<And>k m. (k, m) \<in> set alts \<Longrightarrow> stays ts (Suc n) m" "advances ts n other"
  shows "advances ts n (firstOf alts other)"
  using assms
proof (induction alts)
  case (Cons alt alts)
  obtain k m where alt: "alt = (k, m)" by force
  have "stays ts (Suc n) m" using Cons.prems alt by auto
  then show ?case unfolding alt firstOf.simps using Cons
    by (auto intro!: going elim!: goes_conseq)
qed simp

lemma undecorated_goes:
  assumes "length ts \<le> n + Suc K" "\<And>m. length ts \<le> m + Suc K \<Longrightarrow> advances ts m pe"
  shows "advances ts n (undecorated pe pd ps pty)"
  unfolding undecorated_def using assms
  by (intro firstOf_goes expressionStatement_goes)
    (auto intro!: giveStatement_goes simple_statements_go blockStatement_goes structStatement_goes
      enumStatement_goes useStatement_goes tryStatement_goes exportStatement_goes testStatement_goes)

lemma decoratedStatement_goes:
  assumes "length ts \<le> n + Suc K" "\<And>m. length ts \<le> m + Suc K \<Longrightarrow> advances ts m pe"
  shows "advances ts n (decoratedStatement pe pt pd ps pty)"
  unfolding decoratedStatement_def using assms
  by (auto intro!: going decorators_goes [THEN goes_bind] taskStatement_goes [THEN goes_bind]
      modelStatement_goes [THEN goes_bind] undecorated_goes [OF _ assms(2), THEN goes_conseq])

lemma statement_goes:
  assumes "length ts \<le> n + Suc K" "\<And>m. length ts \<le> m + Suc K \<Longrightarrow> advances ts m pe"
  shows "advances ts n (statement pe pt pd ps pwhen pty)"
  unfolding statement_def using assms
  by (intro guarded_goes firstOf_goes decoratedStatement_goes)
    (auto intro!: interfaceStatement_goes simple_statements_go pwhen loop_statements_go matchStatement_goes)

end

subsection \<open>Declarations\<close>

lemma recover_goes:
  assumes m: "advances ts n m" and n: "finalAt ts n \<Longrightarrow> 0 < n"
  shows "goes ts n (recover m) (\<lambda>_ n'. n \<le> n' \<and> (\<not> finalAt ts n \<longrightarrow> n < n'))"
  unfolding recover_def pthen_pbind
proof (rule goes_catching)
  fix k msg assume "n \<le> k"
  with n show "goes ts k (pbind peekTok (\<lambda>u. pbind (parserError u msg) (\<lambda>_. pbind synchronize (\<lambda>_. pret NoStmt))))
      (\<lambda>_ n'. n \<le> n' \<and> (\<not> finalAt ts n \<longrightarrow> n < n'))"
    by (cases "k = n"; cases "k = 0") (auto intro!: going synchronize_goes [THEN goes_bind])
qed (use m in \<open>auto elim: goes_conseq\<close>)

lemma varDeclStatement_goes:
  assumes "\<And>m. n < m \<Longrightarrow> advances ts m pe" "\<And>m. n < m \<Longrightarrow> advances ts m pty"
  shows "advances ts n (varDeclStatement pe pty)"
  unfolding varDeclStatement_def pact_norm
  by (auto simp: pact_norm intro!: going assms [THEN goes_bind])

lemma startsVarDecl_goes: "goes ts n startsVarDecl (\<lambda>_ n'. n' = n)"
  unfolding startsVarDecl_def by (rule goes_bind [OF goes_check]) (auto simp: goes_def)

lemma declaration_goes:
  assumes "\<And>m. n < m \<Longrightarrow> advances ts m pe" "\<And>m. n < m \<Longrightarrow> advances ts m pty" "advances ts n ps"
    "finalAt ts n \<Longrightarrow> 0 < n"
  shows "goes ts n (declaration1 pe ps pty) (\<lambda>_ n'. n \<le> n' \<and> (\<not> finalAt ts n \<longrightarrow> n < n'))"
  unfolding declaration1_def
  by (intro recover_goes goes_bind [OF startsVarDecl_goes])
    (auto intro!: varDeclStatement_goes assms)

subsection \<open>Fuel\<close>

text \<open>
  With \<open>k\<close> tokens left, \<open>8 * k\<close> is enough for a unary expression and a few more for what calls it
  without a token in between: power, ternary, assignment, statement, declaration.
\<close>

definition fuelled :: "nat \<Rightarrow> bool" where
  "fuelled d \<longleftrightarrow> (\<forall>ts n.
     (8 * (length ts - n) \<le> d \<longrightarrow> advances ts n (pUnary d)) \<and>
     (8 * (length ts - n) + 1 \<le> d \<longrightarrow> advances ts n (pPower d)) \<and>
     (8 * (length ts - n) + 2 \<le> d \<longrightarrow> advances ts n (pTernary d)) \<and>
     (8 * (length ts - n) + 3 \<le> d \<longrightarrow> advances ts n (pAssignment d)) \<and>
     (8 * (length ts - n) + 4 \<le> d \<longrightarrow> advances ts n (pStatement d)) \<and>
     (8 * (length ts - n) + 4 \<le> d \<longrightarrow> 0 < n \<longrightarrow> stays ts n (pWhen d)) \<and>
     (8 * (length ts - n) + 5 \<le> d \<longrightarrow> (finalAt ts n \<longrightarrow> 0 < n) \<longrightarrow>
        goes ts n (pDeclaration d) (\<lambda>_ n'. n \<le> n' \<and> (\<not> finalAt ts n \<longrightarrow> n < n'))))"

lemma fuelled_sub_parsers:
  assumes "fuelled d" "8 * K + 5 \<le> d"
  shows "sub_parsers ts K (guarded (pAssignment d)) (pTernary d) (pDeclaration d) (pStatement d) (parseType d) (pWhen d)"
proof
  fix n assume n: "length ts \<le> n + K"
  then have "8 * (length ts - n) + 5 \<le> d" using assms(2) by linarith
  with assms(1) show "advances ts n (guarded (pAssignment d))" "advances ts n (pTernary d)"
    "advances ts n (pStatement d)"
    by (auto simp: fuelled_def intro!: guarded_goes)
  show "advances ts n (parseType d)" using n assms(2) by (intro parseType_goes) linarith
  assume "0 < n"
  with assms(1) \<open>8 * (length ts - n) + 5 \<le> d\<close> show "stays ts n (pWhen d)"
    "goes ts n (pDeclaration d) (\<lambda>_ n'. n \<le> n' \<and> (\<not> finalAt ts n \<longrightarrow> n < n'))"
    by (auto simp: fuelled_def)
qed

lemma goes_past_end: "length ts \<le> n \<Longrightarrow> goes ts n m P"
  by (auto simp: goes_def posAt_def)

lemma recursion_steps:
  "pUnary (Suc d) = unary (pUnary d) (call (guarded (pAssignment d))
     (primary (guarded (pAssignment d)) (pTernary d) (pDeclaration d) (parseType d)))"
  "pPower (Suc d) = power (pUnary d) (pPower d)"
  "pTernary (Suc d) = ternary (pPower d) (guarded (pAssignment d)) (pTernary d)"
  "pAssignment (Suc d) = assignment (pTernary d) (pAssignment d)"
  "pStatement (Suc d) = statement (guarded (pAssignment d)) (pTernary d) (pDeclaration d) (pStatement d)
     (pWhen d) (parseType d)"
  "pWhen (Suc d) = whenStatement (guarded (pAssignment d)) (pDeclaration d) (pStatement d) (pWhen d)"
  "pDeclaration (Suc d) = declaration1 (guarded (pAssignment d)) (pStatement d) (parseType d)"
  by (rule ext, simp)+

lemma later: "n < m \<Longrightarrow> n < length ts \<Longrightarrow> 8 * (length ts - m) + 8 \<le> 8 * (length ts - n)"
  by arith

text \<open>One more unit of fuel, for each function of the recursion in turn.\<close>

lemma more_fuel:
  assumes d: "fuelled d" and n: "n < length ts"
  shows
    unary_more: "8 * (length ts - n) \<le> Suc d \<Longrightarrow> advances ts n (pUnary (Suc d))" and
    power_more: "8 * (length ts - n) + 1 \<le> Suc d \<Longrightarrow> advances ts n (pPower (Suc d))" and
    ternary_more: "8 * (length ts - n) + 2 \<le> Suc d \<Longrightarrow> advances ts n (pTernary (Suc d))" and
    assignment_more: "8 * (length ts - n) + 3 \<le> Suc d \<Longrightarrow> advances ts n (pAssignment (Suc d))" and
    statement_more: "8 * (length ts - n) + 4 \<le> Suc d \<Longrightarrow> advances ts n (pStatement (Suc d))" and
    when_more: "8 * (length ts - n) + 4 \<le> Suc d \<Longrightarrow> 0 < n \<Longrightarrow> stays ts n (pWhen (Suc d))" and
    declaration_more: "8 * (length ts - n) + 5 \<le> Suc d \<Longrightarrow> (finalAt ts n \<Longrightarrow> 0 < n) \<Longrightarrow>
      goes ts n (pDeclaration (Suc d)) (\<lambda>_ n'. n \<le> n' \<and> (\<not> finalAt ts n \<longrightarrow> n < n'))"
proof -
  let ?K = "length ts - Suc n"
  have K: "length ts \<le> n + Suc ?K" using n by simp
  have sub: "8 * (length ts - n) \<le> Suc d \<Longrightarrow> sub_parsers ts ?K (guarded (pAssignment d)) (pTernary d)
      (pDeclaration d) (pStatement d) (parseType d) (pWhen d)"
    using n by (intro fuelled_sub_parsers [OF d]) arith
  have now: "8 * (length ts - m) \<le> d \<Longrightarrow> advances ts m (pUnary d)"
    "8 * (length ts - m) + 1 \<le> d \<Longrightarrow> advances ts m (pPower d)"
    "8 * (length ts - m) + 2 \<le> d \<Longrightarrow> advances ts m (pTernary d)"
    "8 * (length ts - m) + 3 \<le> d \<Longrightarrow> advances ts m (pAssignment d)"
    "8 * (length ts - m) + 3 \<le> d \<Longrightarrow> advances ts m (guarded (pAssignment d))"
    "8 * (length ts - m) + 4 \<le> d \<Longrightarrow> advances ts m (pStatement d)"
    "length ts \<le> m + d \<Longrightarrow> advances ts m (parseType d)" for m
    using d by (auto simp: fuelled_def intro!: guarded_goes parseType_goes)
  note after = later [OF _ n]
  show "advances ts n (pUnary (Suc d))" if f: "8 * (length ts - n) \<le> Suc d"
    unfolding recursion_steps
    by (intro unary_goes now sub_parsers.call_goes [OF sub [OF f] K] sub_parsers.primary_goes [OF sub [OF f] K])
      (use f in \<open>auto dest: after\<close>)
  show "advances ts n (pPower (Suc d))" if f: "8 * (length ts - n) + 1 \<le> Suc d"
    unfolding recursion_steps by (intro power_goes now) (use f in \<open>auto dest: after\<close>)
  show "advances ts n (pTernary (Suc d))" if f: "8 * (length ts - n) + 2 \<le> Suc d"
    unfolding recursion_steps by (intro ternary_goes now) (use f in \<open>auto dest: after\<close>)
  show "advances ts n (pAssignment (Suc d))" if f: "8 * (length ts - n) + 3 \<le> Suc d"
    unfolding recursion_steps by (intro assignment_goes now) (use f in \<open>auto dest: after\<close>)
  show "advances ts n (pStatement (Suc d))" if f: "8 * (length ts - n) + 4 \<le> Suc d"
    unfolding recursion_steps
    by (rule sub_parsers.statement_goes [OF sub K])
      (use f n in \<open>auto intro!: now(5)\<close>)
  show "stays ts n (pWhen (Suc d))" if f: "8 * (length ts - n) + 4 \<le> Suc d" "0 < n"
    unfolding recursion_steps
    by (rule sub_parsers.whenStatement_goes [OF sub K]) (use f in \<open>auto intro!: now(5)\<close>)
  show "goes ts n (pDeclaration (Suc d)) (\<lambda>_ n'. n \<le> n' \<and> (\<not> finalAt ts n \<longrightarrow> n < n'))"
    if f: "8 * (length ts - n) + 5 \<le> Suc d" "finalAt ts n \<Longrightarrow> 0 < n"
    unfolding recursion_steps
    by (intro declaration_goes now) (use f in \<open>auto dest: after\<close>)
qed

lemma all_fuelled: "fuelled d"
proof (induction d)
  case 0
  show ?case by (auto simp: fuelled_def intro!: goes_past_end)
next
  case (Suc d)
  show ?case unfolding fuelled_def
    by (intro allI conjI impI; rule goes_bound; rule more_fuel [OF Suc.IH]; blast)
qed

interpretation ez: sub_parsers ts K "guarded (pAssignment (8 * K + 5))" "pTernary (8 * K + 5)" "pDeclaration (8 * K + 5)"
  "pStatement (8 * K + 5)" "parseType (8 * K + 5)" "pWhen (8 * K + 5)" for ts K
  by (rule fuelled_sub_parsers [OF all_fuelled]) simp

subsection \<open>Programs\<close>

lemma declaration_everywhere:
  "length ts \<le> n + K \<Longrightarrow> (finalAt ts n \<Longrightarrow> 0 < n) \<Longrightarrow> 8 * K + 5 \<le> d \<Longrightarrow>
   goes ts n (pDeclaration d) (\<lambda>_ n'. n \<le> n' \<and> (\<not> finalAt ts n \<longrightarrow> n < n'))"
proof -
  assume *: "length ts \<le> n + K" "finalAt ts n \<Longrightarrow> 0 < n" "8 * K + 5 \<le> d"
  then have "8 * (length ts - n) + 5 \<le> d" by linarith
  with *(2) show ?thesis using all_fuelled [of d] unfolding fuelled_def by blast
qed

lemma synchronize_after:
  assumes "n \<le> k" "\<not> finalAt ts n"
  shows "goes ts k synchronize (\<lambda>_ n'. n < n')"
  by (rule goes_conseq [OF synchronize_goes]) (use assms in \<open>cases "k = n"; auto\<close>)+

lemma parseStep_goes:
  assumes "8 * length ts + 5 \<le> d"
  shows "goes ts n (parseStep d ss) (\<lambda>r n'. if isl r then n < n' else finalAt ts n')"
  unfolding parseStep_def pthen_pbind
  by (auto intro!: going goes_catching synchronize_after [THEN goes_bind]
      declaration_everywhere [where K = "length ts", OF _ _ assms, THEN goes_bind])

text \<open>No \<open>ParseError\<close> leaves the program level.\<close>

definition quiet :: "'a pact \<Rightarrow> bool" where
  "quiet m \<longleftrightarrow> (\<forall>s msg line t. m s \<noteq> Inl (ParseError msg line, t))"

named_theorems quieting

lemma quiet_bind [quieting]: "quiet m \<Longrightarrow> (\<And>a. quiet (f a)) \<Longrightarrow> quiet (pbind m f)"
  by (auto simp: quiet_def pbind_def split: sum.splits)

lemma quiet_navigation [quieting]: "quiet (pret a)" "quiet peekTok" "quiet previousTok"
  by (auto simp: quiet_def pret_def peekTok_def previousTok_def pundefined_def)

lemma quiet_if [quieting]: "quiet x \<Longrightarrow> quiet y \<Longrightarrow> quiet (if b then x else y)"
  by simp

lemma quiet_atEnd [quieting]: "quiet atEnd"
  unfolding atEnd_def by (intro quieting)

lemma quiet_advanceTok [quieting]: "quiet advanceTok"
proof -
  have "quiet (\<lambda>s. previousTok (if e then s else s\<lparr>pCurrent := pCurrent s + 1\<rparr>))" for e
    by (auto simp: quiet_def previousTok_def pundefined_def)
  then show ?thesis unfolding advanceTok_def by (intro quieting)
qed

lemma quiet_match [quieting]: "quiet (matchTok k)"
  unfolding matchTok_def check_def by (intro quieting)

lemma quiet_loopFor: "(\<And>a. quiet (f a)) \<Longrightarrow> quiet (loopFor n f a)"
proof (induction n arbitrary: a)
  case (Suc n)
  have "quiet (pbind (f a) (\<lambda>r. case r of Inl b \<Rightarrow> loopFor n f b | Inr c \<Rightarrow> pret c))"
    by (rule quiet_bind) (auto intro: Suc quieting split: sum.split)
  then show ?case by (simp add: quiet_def)
qed (simp add: quiet_def)

lemma quiet_ploop [quieting]: "(\<And>a. quiet (f a)) \<Longrightarrow> quiet (ploop f a)"
  using quiet_loopFor [of f] by (simp add: quiet_def ploop_def del: loopFor.simps)

lemma quiet_catching [quieting]: "(\<And>msg line. quiet (h msg line)) \<Longrightarrow> quiet (catching m h)"
  by (auto simp: quiet_def catching_def split: sum.splits pstop.splits)

lemma quiet_synchronize [quieting]: "quiet synchronize"
  unfolding synchronize_def pthen_def by (intro quieting)

lemma quiet_skipNewlines [quieting]: "quiet skipNewlines"
  unfolding skipNewlines_def by (intro quieting)

lemma quiet_parse: "quiet (pthen skipNewlines (ploop (parseStep d) []))"
  unfolding pthen_def parseStep_def by (intro quieting)

lemma parse_goes: "goes ts 0 (pthen skipNewlines (ploop (parseStep (parseFuel ts)) [])) (\<lambda>_ n'. finalAt ts n')"
  unfolding pthen_pbind
  by (rule goes_bind [OF skipNewlines_goes], rule goes_ploop, rule goes_conseq [OF parseStep_goes])
    (auto simp: parseFuel_def)

lemma parse_result:
  assumes "ts \<noteq> []" "ttype (last ts) = TK_END_OF_FILE"
  shows "case parse ts of
       Inr (program, s) \<Rightarrow> pTokens s = ts \<and> ttype (ts ! pCurrent s) = TK_END_OF_FILE
     | Inl (stop, s) \<Rightarrow> \<exists>x. stop = ParserThrows x \<and> allowedThrow x"
proof -
  have "posAt ts 0 (newParser ts)" using assms by (simp add: posAt_def newParser_def)
  from parse_goes this show ?thesis
  proof (cases rule: goes_cases)
    case (stop e t n)
    then show ?thesis using quiet_parse [of "parseFuel ts"]
      by (cases e) (auto simp: parse_def quiet_def)
  next
    case (result a t n)
    then show ?thesis by (auto simp: parse_def posAt_def finalAt_def)
  qed
qed

text \<open>
  C6. The parser always ends: on tokens that end with \<open>END_OF_FILE\<close> it returns statements after the
  whole input was read, never runs out of the fuel it starts with, never reads outside the tokens and
  lets no \<open>ParseError\<close> out; what else it may stop with is a literal not of its token's kind, an
  enumeration counted past the largest integer, or a rate limit out of the range of \<open>int\<close>.
\<close>

theorem parse_ends:
  assumes "ts \<noteq> []" "ttype (last ts) = TK_END_OF_FILE"
  shows "case parse ts of
       Inr (program, s) \<Rightarrow> pTokens s = ts \<and> ttype (ts ! pCurrent s) = TK_END_OF_FILE
     | Inl (stop, s) \<Rightarrow> \<exists>x. stop = ParserThrows x \<and> allowedThrow x"
  by (rule parse_result [OF assms])

definition tokenOf :: "token_kind \<Rightarrow> string \<Rightarrow> literal \<Rightarrow> token" where
  "tokenOf k txt lit = \<lparr>ttype = k, lexeme = txt, literal = lit, tfile = [], tline = 1, tcolumn = 1\<rparr>"

definition outOne :: "token list" where
  "outOne = [tokenOf TK_OUT ''out'' LNull, tokenOf TK_NUMBER ''1'' (LInt 1), tokenOf TK_END_OF_FILE [] LNull]"

lemma parse_outOne:
  "case parse outOne of
     Inr (ss, s) \<Rightarrow> ss = [Stmt 1 (OutStmt (Expr 1 1 (LiteralExpr (LInt 1))))] \<and> pCurrent s = 2 \<and> \<not> pHadError s
   | Inl _ \<Rightarrow> False"
  by code_simp

theorem parse_ends_witness:
  "\<exists>program s. parse outOne = Inr (program, s) \<and> pTokens s = outOne \<and> ttype (outOne ! pCurrent s) = TK_END_OF_FILE"
proof -
  have "outOne \<noteq> []" "ttype (last outOne) = TK_END_OF_FILE" by (simp_all add: outOne_def tokenOf_def)
  from parse_ends [OF this] parse_outOne show ?thesis by (auto split: sum.splits)
qed

end
