(* ===== verification/Front_End.thy ===== *)
theory Front_End
  imports Lexer Parser_Total Compile_Safe
begin

text \<open>
  The front end as \<open>runFromSource\<close> of \<open>src/cli/CLI.cpp\<close> composes it: lexer, parser, type checker and
  compiler, each of which ends the process with status 65 when it reports an error. The type checker
  is a parameter that accepts a program or not; running the compiled function is the machine's part.
\<close>

datatype outcome =
    Exits nat
  | Escapes cxx_exn
  | LetsOut string int
  | Unmodelled string
  | Starves
  | Runs compile_result

definition compileStage :: "bool \<Rightarrow> (stmt list \<Rightarrow> bool) \<Rightarrow> stmt list \<Rightarrow> outcome" where
  "compileStage noContracts accepts ss =
     (if \<not> accepts ss then Exits 65
      else (case compileFrom (newCompiler noContracts) ss of
          Inl (CompileFail msg) \<Rightarrow> Exits 65
        | Inl (CompilerThrows x) \<Rightarrow> Escapes x
        | Inl (Outside what) \<Rightarrow> Unmodelled what
        | Inl OutOfFuel \<Rightarrow> Starves
        | Inr r \<Rightarrow> Runs r))"

definition parseStage :: "bool \<Rightarrow> (stmt list \<Rightarrow> bool) \<Rightarrow> token list \<Rightarrow> outcome" where
  "parseStage noContracts accepts ts = (case parse ts of
       Inl (ParserThrows x, _) \<Rightarrow> Escapes x
     | Inl (ParseError msg where_, _) \<Rightarrow> LetsOut msg where_
     | Inl (NoFuel, _) \<Rightarrow> Starves
     | Inr (ss, p) \<Rightarrow> if pHadError p then Exits 65 else compileStage noContracts accepts ss)"

definition runFromSource :: "bool \<Rightarrow> (stmt list \<Rightarrow> bool) \<Rightarrow> string \<Rightarrow> string \<Rightarrow> outcome" where
  "runFromSource noContracts accepts src path = (case tokenize src path of
       Inl x \<Rightarrow> Escapes x
     | Inr l \<Rightarrow> if lexer.hadError l then Exits 65 else parseStage noContracts accepts (tokens l))"

lemma compileStage_settles:
  "case compileStage b accepts ss of
     Exits n \<Rightarrow> n = 65 | LetsOut msg where_ \<Rightarrow> False | Starves \<Rightarrow> False
   | Runs r \<Rightarrow> accepts ss \<and> compileFrom (newCompiler b) ss = Inr r | _ \<Rightarrow> True"
  using compileFrom_result [of b ss] by (auto simp: compileStage_def split: sum.split cstop.split)

text \<open>
  C3. Every source text is settled: the front end ends, with a program to run, with status 65, or with
  one of the exceptions and unmodelled features its parts name. No \<open>ParseError\<close> gets out of the parser,
  and a program to run was accepted by the type checker, had no error of the lexer or the parser, and
  is what the compiler made of the parsed statements.
\<close>

theorem front_end_settles:
  "case runFromSource noContracts accepts src path of
     Exits n \<Rightarrow> n = 65
   | LetsOut msg where_ \<Rightarrow> False
   | Starves \<Rightarrow> False
   | Runs r \<Rightarrow> (\<exists>l ss p. tokenize src path = Inr l \<and> \<not> lexer.hadError l \<and> parse (tokens l) = Inr (ss, p)
       \<and> \<not> pHadError p \<and> accepts ss \<and> compileFrom (newCompiler noContracts) ss = Inr r)
   | _ \<Rightarrow> True"
proof (cases "tokenize src path")
  case (Inr l)
  then obtain ts t where "tokens l = ts @ [t]" "ttype t = TK_END_OF_FILE"
    using tokens_end by blast
  then have p: "case parse (tokens l) of Inr (ss, p) \<Rightarrow> True
      | Inl (stop, p) \<Rightarrow> \<exists>x. stop = ParserThrows x \<and> allowedThrow x"
    using parse_result [of "tokens l"] by (auto split: sum.splits)
  show ?thesis
  proof (cases "parse (tokens l)")
    case (Inl r)
    with p Inr(1) show ?thesis by (auto simp: runFromSource_def parseStage_def split: prod.splits)
  next
    case parsed: (Inr r)
    obtain ss p where "r = (ss, p)" by force
    with parsed Inr compileStage_settles [where b = noContracts and accepts = accepts and ss = ss] show ?thesis
      by (auto simp: runFromSource_def parseStage_def split: outcome.splits)
  qed
qed (simp add: runFromSource_def)

end
