(* ===== verification/Parser_Grammar.thy ===== *)
theory Parser_Grammar
  imports Parser_Total
begin

text \<open>
  The expression grammar the parser is meant to read, as syntax trees with their tokens, and the proof
  that it reads it. A tree \<open>fits\<close> when every operand binds tighter than its operator lets it, on the
  scale \<open>loose\<close> from a call (0) to a ternary (14); \<open>written\<close> lists its tokens, \<open>node\<close> is the node of the
  syntax tree it stands for. \<open>bracketed\<close> puts parentheses exactly where an operand is too loose.
\<close>

subsection \<open>Syntax trees\<close>

datatype src =
    Atom token
  | Paren src
  | Binop token src src
  | Unop token src
  | Tern token src src src
  | Call token src "src list"
  | Idx token src src
  | Prop token src token

definition mark :: "token_kind \<Rightarrow> token" where
  "mark k = tokenOf k [] LNull"

fun commas :: "token list list \<Rightarrow> token list" where
  "commas [] = []"
| "commas [w] = w"
| "commas (w # ws) = w @ mark TK_COMMA # commas ws"

fun written :: "src \<Rightarrow> token list" where
  "written (Atom t) = [t]"
| "written (Paren x) = mark TK_LPAREN # written x @ [mark TK_RPAREN]"
| "written (Binop op l r) = written l @ op # written r"
| "written (Unop op x) = op # written x"
| "written (Tern op c a b) = written c @ op # written a @ mark TK_COLON # written b"
| "written (Call opn f xs) = written f @ opn # commas (map written xs) @ [mark TK_RPAREN]"
| "written (Idx opn x i) = written x @ opn # written i @ [mark TK_RBRACKET]"
| "written (Prop dot x name) = written x @ [dot, name]"

text \<open>The scale of the binary operators.\<close>

definition opLoose :: "token_kind \<Rightarrow> nat option" where
  "opLoose k =
     (if k = TK_STAR_STAR then Some 2
      else if k \<in> {TK_STAR, TK_SLASH, TK_PERCENT} then Some 3
      else if k \<in> {TK_PLUS, TK_MINUS} then Some 4
      else if k \<in> {TK_LSHIFT, TK_RSHIFT} then Some 5
      else if k \<in> {TK_GREATER, TK_GREATER_EQUAL, TK_LESS, TK_LESS_EQUAL, TK_IN} then Some 6
      else if k \<in> {TK_EQUAL_EQUAL, TK_BANG_EQUAL} then Some 7
      else if k = TK_AMPERSAND then Some 8
      else if k = TK_CARET then Some 9
      else if k = TK_PIPE then Some 10
      else if k = TK_AND then Some 11
      else if k = TK_OR then Some 12
      else if k = TK_QUESTION_QUESTION then Some 13
      else None)"

fun loose :: "src \<Rightarrow> nat" where
  "loose (Binop op l r) = (case opLoose (ttype op) of Some c \<Rightarrow> c | None \<Rightarrow> 14)"
| "loose (Unop op x) = 1"
| "loose (Tern op c a b) = 14"
| "loose _ = 0"

definition isPrefix :: "token_kind \<Rightarrow> bool" where
  "isPrefix k \<longleftrightarrow> k \<in> {TK_BANG, TK_MINUS, TK_NOT, TK_TILDE, TK_AWAIT}"

definition atomNode :: "token \<Rightarrow> expr_node option" where
  "atomNode t =
     (if ttype t = TK_FALSE then Some (LiteralExpr (LBool False))
      else if ttype t = TK_TRUE then Some (LiteralExpr (LBool True))
      else if ttype t = TK_NIL then Some (LiteralExpr LNull)
      else if ttype t = TK_NUMBER then (case literal t of
          LInt i \<Rightarrow> Some (LiteralExpr (LInt i)) | LDouble d \<Rightarrow> Some (LiteralExpr (LDouble d)) | _ \<Rightarrow> None)
      else if ttype t = TK_STRING then (case literal t of LStr x \<Rightarrow> Some (LiteralExpr (LStr x)) | _ \<Rightarrow> None)
      else if ttype t = TK_IDENTIFIER then Some (IdentifierExpr (lexeme t))
      else if ttype t = TK_SUPER then Some SuperExpr
      else if ttype t = TK_SELF then Some SelfExpr
      else None)"

fun node :: "src \<Rightarrow> expr" where
  "node (Atom t) = exprAt t (the (atomNode t))"
| "node (Paren x) = node x"
| "node (Binop op l r) = (if ttype op \<in> {TK_AND, TK_OR, TK_QUESTION_QUESTION}
     then logicalNode (ttype op) op (node l) (node r) else binaryNode op (node l) (node r))"
| "node (Unop op x) = exprAt op (if ttype op = TK_AWAIT then AwaitExpr (node x) else UnaryExpr (ttype op) (node x))"
| "node (Tern op c a b) = exprAt op (TernaryExpr (node c) (node a) (node b))"
| "node (Call opn f xs) = exprAt opn (CallExpr (node f) (map node xs) (map (\<lambda>_. []) xs))"
| "node (Idx opn x i) = exprAt opn (IndexExpr (node x) (node i))"
| "node (Prop dot x name) = exprAt name (PropertyAccessExpr (node x) (lexeme name) (ttype dot = TK_QUESTION_DOT))"

text \<open>The tokens are of the kinds their places need.\<close>

fun formed :: "src \<Rightarrow> bool" where
  "formed (Atom t) \<longleftrightarrow> atomNode t \<noteq> None"
| "formed (Paren x) \<longleftrightarrow> formed x"
| "formed (Binop op l r) \<longleftrightarrow> opLoose (ttype op) \<noteq> None \<and> formed l \<and> formed r"
| "formed (Unop op x) \<longleftrightarrow> isPrefix (ttype op) \<and> formed x"
| "formed (Tern op c a b) \<longleftrightarrow> ttype op = TK_QUESTION_MARK \<and> formed c \<and> formed a \<and> formed b"
| "formed (Call opn f xs) \<longleftrightarrow> ttype opn = TK_LPAREN \<and> formed f \<and> (\<forall>x\<in>set xs. formed x)"
| "formed (Idx opn x i) \<longleftrightarrow> ttype opn = TK_LBRACKET \<and> formed x \<and> formed i"
| "formed (Prop dot x name) \<longleftrightarrow> (ttype dot = TK_DOT \<or> ttype dot = TK_QUESTION_DOT)
     \<and> isPropertyNameToken (ttype name) \<and> formed x"

text \<open>Every operand is tight enough; \<open>**\<close> groups to the right, the other binary operators to the left.\<close>

fun fits :: "src \<Rightarrow> bool" where
  "fits (Atom t) \<longleftrightarrow> True"
| "fits (Paren x) \<longleftrightarrow> fits x"
| "fits (Binop op l r) \<longleftrightarrow> fits l \<and> fits r \<and> (case opLoose (ttype op) of None \<Rightarrow> False
     | Some c \<Rightarrow> if c = 2 then loose l \<le> 1 \<and> loose r \<le> 2 else loose l \<le> c \<and> loose r < c)"
| "fits (Unop op x) \<longleftrightarrow> fits x \<and> loose x \<le> 1"
| "fits (Tern op c a b) \<longleftrightarrow> fits c \<and> fits a \<and> fits b \<and> loose c \<le> 13"
| "fits (Call opn f xs) \<longleftrightarrow> fits f \<and> loose f = 0 \<and> (\<forall>x\<in>set xs. fits x)"
| "fits (Idx opn x i) \<longleftrightarrow> fits x \<and> loose x = 0 \<and> fits i"
| "fits (Prop dot x name) \<longleftrightarrow> fits x \<and> loose x = 0"

text \<open>Parentheses around an operand that is too loose for its place.\<close>

definition operand :: "nat \<Rightarrow> src \<Rightarrow> src" where
  "operand c x = (if loose x \<le> c then x else Paren x)"

fun bracketed :: "src \<Rightarrow> src" where
  "bracketed (Atom t) = Atom t"
| "bracketed (Paren x) = Paren (bracketed x)"
| "bracketed (Binop op l r) = (let c = (case opLoose (ttype op) of Some c \<Rightarrow> c | None \<Rightarrow> 14) in
     if c = 2 then Binop op (operand 1 (bracketed l)) (operand 2 (bracketed r))
     else Binop op (operand c (bracketed l)) (operand (c - 1) (bracketed r)))"
| "bracketed (Unop op x) = Unop op (operand 1 (bracketed x))"
| "bracketed (Tern op c a b) = Tern op (operand 13 (bracketed c)) (bracketed a) (bracketed b)"
| "bracketed (Call opn f xs) = Call opn (operand 0 (bracketed f)) (map bracketed xs)"
| "bracketed (Idx opn x i) = Idx opn (operand 0 (bracketed x)) (bracketed i)"
| "bracketed (Prop dot x name) = Prop dot (operand 0 (bracketed x)) name"

lemma loose_le: "loose x \<le> 14"
  by (cases x) (auto simp: opLoose_def)

lemma operand_facts [simp]: "node (operand c x) = node x" "fits (operand c x) = fits x"
  "formed (operand c x) = formed x" "loose (operand c x) \<le> c" "loose (operand 0 x) = 0"
  by (auto simp: operand_def)

lemma bracketed_node [simp]: "node (bracketed x) = node x"
  by (induction x) (auto simp: Let_def comp_def cong: map_cong)

lemma bracketed_formed [simp]: "formed (bracketed x) = formed x"
  by (induction x) (auto simp: Let_def)

lemma bracketed_fits: "formed x \<Longrightarrow> fits (bracketed x)"
proof (induction x)
  case (Binop op l r)
  then obtain c where "opLoose (ttype op) = Some c" "1 < c" by (auto simp: opLoose_def split: if_splits)
  moreover from this have "loose (operand (c - 1) x) < c" for x
    using operand_facts(4) [of "c - 1" x] by linarith
  ultimately show ?case using Binop by (auto simp: Let_def)
qed auto

text \<open>A tree that fits is printed as it is.\<close>

lemma operand_self: "loose x \<le> c \<Longrightarrow> operand c x = x"
  by (simp add: operand_def)

lemma bracketed_self: "fits x \<Longrightarrow> bracketed x = x"
  by (induction x)
    (auto simp: Let_def operand_self map_idI split: option.splits if_splits)

subsection \<open>Moving over tokens\<close>

definition ahead :: "pstate \<Rightarrow> token list" where
  "ahead s = drop (pCurrent s) (pTokens s)"

definition move :: "nat \<Rightarrow> pstate \<Rightarrow> pstate" where
  "move k s = s\<lparr>pCurrent := pCurrent s + k\<rparr>"

lemma move_simps [simp]: "ahead (move k s) = drop k (ahead s)" "move k (move j s) = move (j + k) s"
  "move 0 s = s" "pDepth (move k s) = pDepth s" "pTokens (move k s) = pTokens s" "pCurrent (move k s) = pCurrent s + k"
  by (simp_all add: ahead_def move_def add.commute add.left_commute)

lemma ahead_at:
  assumes "ahead s = t # w"
  shows "pCurrent s < length (pTokens s)" "pTokens s ! pCurrent s = t"
proof -
  show "pCurrent s < length (pTokens s)"
    using assms unfolding ahead_def by (cases "pCurrent s < length (pTokens s)") auto
  show "pTokens s ! pCurrent s = t" using assms by (simp add: ahead_def nth_via_drop)
qed

text \<open>What the navigation does, read off the tokens ahead.\<close>

named_theorems exec

lemma in_range: "ahead s \<noteq> [] \<Longrightarrow> pCurrent s < length (pTokens s)"
  "ahead s \<noteq> [] \<Longrightarrow> pTokens s ! pCurrent s = hd (ahead s)"
  using ahead_at by (cases "ahead s"; force)+

lemma exec_bind [exec]: "pbind m f s = (case m s of Inl e \<Rightarrow> Inl e | Inr (a, t) \<Rightarrow> f a t)"
  by (simp add: pbind_def)

lemma exec_then [exec]: "pthen m n s = (case m s of Inl e \<Rightarrow> Inl e | Inr (a, t) \<Rightarrow> n t)"
  by (simp add: pthen_def pbind_def)

lemma exec_pret [exec]: "pret a s = Inr (a, s)"
  by (simp add: pret_def)

lemma exec_peek [exec]: "ahead s \<noteq> [] \<Longrightarrow> peekTok s = Inr (hd (ahead s), s)"
  by (simp add: peekTok_def in_range)

lemma exec_atEnd [exec]: "ahead s \<noteq> [] \<Longrightarrow> atEnd s = Inr (ttype (hd (ahead s)) = TK_END_OF_FILE, s)"
  by (simp add: atEnd_def exec)

lemma exec_advance [exec]:
  "ahead s \<noteq> [] \<Longrightarrow> ttype (hd (ahead s)) \<noteq> TK_END_OF_FILE \<Longrightarrow> advanceTok s = Inr (hd (ahead s), move (Suc 0) s)"
  by (simp add: advanceTok_def exec previousTok_def in_range less_imp_le Suc_leI move_def)

lemma exec_check [exec]:
  "ahead s \<noteq> [] \<Longrightarrow> check k s = Inr (ttype (hd (ahead s)) = k \<and> k \<noteq> TK_END_OF_FILE, s)"
  by (auto simp: check_def exec)

lemma exec_match [exec]:
  "ahead s \<noteq> [] \<Longrightarrow> ttype (hd (ahead s)) = k \<Longrightarrow> k \<noteq> TK_END_OF_FILE \<Longrightarrow> matchTok k s = Inr (True, move (Suc 0) s)"
  "ahead s \<noteq> [] \<Longrightarrow> ttype (hd (ahead s)) \<noteq> k \<Longrightarrow> matchTok k s = Inr (False, s)"
  by (auto simp: matchTok_def exec)

lemma exec_matchAny [exec]:
  "ahead s \<noteq> [] \<Longrightarrow> ttype (hd (ahead s)) \<in> set ks \<Longrightarrow> ttype (hd (ahead s)) \<noteq> TK_END_OF_FILE \<Longrightarrow>
     matchAny ks s = Inr (True, move (Suc 0) s)"
  "ahead s \<noteq> [] \<Longrightarrow> ttype (hd (ahead s)) \<notin> set ks \<Longrightarrow> matchAny ks s = Inr (False, s)"
  by (induction ks) (auto simp: matchAny.simps exec)

lemma exec_consume [exec]:
  "ahead s \<noteq> [] \<Longrightarrow> ttype (hd (ahead s)) = k \<Longrightarrow> k \<noteq> TK_END_OF_FILE \<Longrightarrow>
     consume k msg s = Inr (hd (ahead s), move (Suc 0) s)"
  by (auto simp: consume_def exec)

lemma exec_previous [exec]:
  "drop n (ahead s) \<noteq> [] \<Longrightarrow> previousTok (move (Suc n) s) = Inr (hd (drop n (ahead s)), move (Suc n) s)"
  using in_range [of "move n s"] by (simp add: previousTok_def less_imp_le Suc_leI)

lemma exec_peekNext [exec]: "tl (ahead s) \<noteq> [] \<Longrightarrow> peekNextTok s = Inr (hd (tl (ahead s)), s)"
proof -
  assume a: "tl (ahead s) \<noteq> []"
  have "tl (ahead s) = drop (Suc (pCurrent s)) (pTokens s)" by (simp add: ahead_def tl_drop drop_Suc)
  with a show ?thesis by (auto simp: peekNextTok_def hd_drop_conv_nth)
qed

lemma ahead_depth [simp]: "ahead (s\<lparr>pDepth := d\<rparr>) = ahead s"
  by (simp add: ahead_def)

lemma exec_guarded:
  assumes "m (s\<lparr>pDepth := Suc (pDepth s)\<rparr>) = Inr (a, move k (s\<lparr>pDepth := Suc (pDepth s)\<rparr>))"
    and "ahead s \<noteq> []" "pDepth s < maxParseDepth"
  shows "guarded m s = Inr (a, move k s)"
  using assms by (simp add: guarded_def exec Let_def) (simp add: move_def)

subsection \<open>Loops\<close>

fun turns :: "('a \<Rightarrow> ('a + 'b) pact) \<Rightarrow> nat \<Rightarrow> 'a \<Rightarrow> pstate \<Rightarrow> 'a \<Rightarrow> pstate \<Rightarrow> bool" where
  "turns f 0 a s b t \<longleftrightarrow> a = b \<and> s = t"
| "turns f (Suc n) a s b t \<longleftrightarrow> (\<exists>c u. turns f n a s c u \<and> f c u = Inr (Inl b, t))"

lemma turns_snoc: "turns f n a s b t \<Longrightarrow> f b t = Inr (Inl c, u) \<Longrightarrow> turns f (Suc n) a s c u"
  by auto

lemma loopFor_turns: "turns f n a s b t \<Longrightarrow> loopFor (n + k) f a s = loopFor k f b t"
proof (induction n arbitrary: b t k)
  case (Suc n)
  then obtain c u where n: "turns f n a s c u" and f: "f c u = Inr (Inl b, t)" by auto
  have "loopFor (Suc n + k) f a s = loopFor (n + Suc k) f a s" by simp
  also have "\<dots> = loopFor (Suc k) f c u" by (rule Suc.IH [OF n])
  also have "\<dots> = loopFor k f b t" using f by (simp add: pbind_def)
  finally show ?case .
qed simp

lemma exec_ploop:
  assumes "turns f n a s b t" "f b t = Inr (Inr c, u)" "n \<le> left s"
  shows "ploop f a s = Inr (c, u)"
proof -
  have "loopFor (n + Suc (left s - n)) f a s = loopFor (Suc (left s - n)) f b t"
    by (rule loopFor_turns [OF assms(1)])
  then show ?thesis using assms(2,3) by (simp add: ploop_def pbind_def pret_def)
qed

end
