(* ===== verification/Parser_Reads.thy ===== *)
theory Parser_Reads
  imports Parser_Grammar
begin

text \<open>
  Each function of the expression grammar reads the trees of its place on the scale: with enough fuel,
  room for the nesting and a token after it that does not go on with the expression, it consumes exactly
  what is written and gives the node.
\<close>

fun nodes :: "src \<Rightarrow> nat" where
  "nodes (Atom t) = 1"
| "nodes (Paren x) = Suc (nodes x)"
| "nodes (Binop op l r) = Suc (nodes l + nodes r)"
| "nodes (Unop op x) = Suc (nodes x)"
| "nodes (Tern op c a b) = Suc (nodes c + nodes a + nodes b)"
| "nodes (Call opn f xs) = Suc (nodes f + sum_list (map nodes xs))"
| "nodes (Idx opn x i) = Suc (nodes x + nodes i)"
| "nodes (Prop dot x name) = Suc (nodes x)"

text \<open>How many calls of \<open>expression\<close> are open at once.\<close>

fun nest :: "src \<Rightarrow> nat" where
  "nest (Atom t) = 0"
| "nest (Paren x) = Suc (nest x)"
| "nest (Binop op l r) = max (nest l) (nest r)"
| "nest (Unop op x) = nest x"
| "nest (Tern op c a b) = max (nest c) (max (Suc (nest a)) (nest b))"
| "nest (Call opn f xs) = foldr max (map (\<lambda>x. Suc (nest x)) xs) (nest f)"
| "nest (Idx opn x i) = max (nest x) (Suc (nest i))"
| "nest (Prop dot x name) = nest x"

lemma nest_arg: "x \<in> set xs \<Longrightarrow> Suc (nest x) \<le> foldr max (map (\<lambda>x. Suc (nest x)) xs) n"
  by (induction xs) auto

lemma nest_callee: "n \<le> foldr max (map (\<lambda>x. Suc (nest x)) xs) n"
  by (induction xs) auto

lemma nodes_arg: "x \<in> set xs \<Longrightarrow> nodes x \<le> sum_list (map nodes xs)"
  by (induction xs) auto

lemma nodes_positive [simp]: "0 < nodes x"
  by (cases x) auto

text \<open>Where on the scale a token is taken as the rest of an expression.\<close>

definition takenAt :: "token_kind \<Rightarrow> nat option" where
  "takenAt k =
     (if k \<in> {TK_LPAREN, TK_LBRACKET} then Some 0
      else if k = TK_QUESTION_MARK then Some 14
      else if k \<in> {TK_EQUAL, TK_PLUS_EQUAL, TK_MINUS_EQUAL, TK_STAR_EQUAL, TK_STAR_STAR_EQUAL, TK_SLASH_EQUAL} then Some 15
      else opLoose k)"

definition isDot :: "token_kind \<Rightarrow> bool" where
  "isDot k \<longleftrightarrow> k = TK_DOT \<or> k = TK_QUESTION_DOT"

definition ends :: "nat \<Rightarrow> token list \<Rightarrow> bool" where
  "ends c w \<longleftrightarrow> w \<noteq> [] \<and> (\<forall>k. takenAt (ttype (hd w)) = Some k \<longrightarrow> c < k)
     \<and> (case dropWhile (\<lambda>t. ttype t = TK_NEWLINE) w of [] \<Rightarrow> True | t # _ \<Rightarrow> \<not> isDot (ttype t))"

lemma ends_nonempty: "ends c w \<Longrightarrow> \<exists>t v. w = t # v"
  by (cases w) (auto simp: ends_def)

lemma ends_tighter: "ends c w \<Longrightarrow> b \<le> c \<Longrightarrow> ends b w"
  by (auto simp: ends_def)

lemma ends_Cons:
  "ttype t \<noteq> TK_NEWLINE \<Longrightarrow> ends c (t # w) \<longleftrightarrow> (\<forall>k. takenAt (ttype t) = Some k \<longrightarrow> c < k) \<and> \<not> isDot (ttype t)"
  by (simp add: ends_def)

lemma ends_other: "ends c (t # w) \<Longrightarrow> takenAt k = Some b \<Longrightarrow> b \<le> c \<Longrightarrow> ttype t \<noteq> k"
  by (auto simp: ends_def)

definition readable :: "(nat \<Rightarrow> expr pact) \<Rightarrow> nat \<Rightarrow> nat \<Rightarrow> src \<Rightarrow> bool" where
  "readable p c b x \<longleftrightarrow> (\<forall>d s w. ahead s = written x @ w \<longrightarrow> pDepth s + nest x \<le> maxParseDepth \<longrightarrow> ends c w \<longrightarrow>
     4 * nodes x + b \<le> d \<longrightarrow> p d s = Inr (node x, move (length (written x)) s))"

lemma readableI:
  "(\<And>d s w. ahead s = written x @ w \<Longrightarrow> pDepth s + nest x \<le> maxParseDepth \<Longrightarrow> ends c w \<Longrightarrow> 4 * nodes x + b \<le> d \<Longrightarrow>
     p d s = Inr (node x, move (length (written x)) s)) \<Longrightarrow> readable p c b x"
  by (simp add: readable_def)

lemma readableD:
  "readable p c b x \<Longrightarrow> ahead s = written x @ w \<Longrightarrow> pDepth s + nest x \<le> maxParseDepth \<Longrightarrow> ends c w \<Longrightarrow>
   4 * nodes x + b \<le> d \<Longrightarrow> n = length (written x) \<Longrightarrow> p d s = Inr (node x, move n s)"
  by (simp add: readable_def)

subsection \<open>Unary, power\<close>

lemma fuel_Suc: "4 * Suc n + b \<le> d \<Longrightarrow> \<exists>e. d = Suc e \<and> 4 * n + b + 3 \<le> e"
  by (cases d) auto

lemma written_nonempty [simp]: "written x \<noteq> []"
  by (induction x) auto

lemma prefix_kinds: "isPrefix k \<Longrightarrow> k \<noteq> TK_END_OF_FILE"
  by (auto simp: isPrefix_def)

lemma unary_reads:
  assumes x: "readable pUnary 1 0 x" and op: "isPrefix (ttype op)"
  shows "readable pUnary 1 0 (Unop op x)"
proof (rule readableI)
  fix d s w assume s: "ahead s = written (Unop op x) @ w" "pDepth s + nest (Unop op x) \<le> maxParseDepth" "ends 1 w"
    "4 * nodes (Unop op x) + 0 \<le> d"
  then obtain e where d: "d = Suc e" "4 * nodes x + 0 \<le> e" by (cases d) auto
  have r: "pUnary e (move (Suc 0) s) = Inr (node x, move (Suc (length (written x))) s)"
    using readableD [OF x, of "move (Suc 0) s" w e "length (written x)"] s d by simp
  show "pUnary d s = Inr (node (Unop op x), move (length (written (Unop op x))) s)"
    using s(1) op by (auto simp: d(1) unary_def exec r isPrefix_def)
qed

definition callable :: "src \<Rightarrow> bool" where
  "callable x \<longleftrightarrow> (\<forall>d s w. ahead s = written x @ w \<longrightarrow> w \<noteq> [] \<longrightarrow> pDepth s + nest x \<le> maxParseDepth \<longrightarrow>
     4 * nodes x \<le> Suc d \<longrightarrow> (\<exists>e0 s0 k.
       primary (guarded (pAssignment d)) (pTernary d) (pDeclaration d) (parseType d) s = Inr (e0, s0)
       \<and> turns (callStep (guarded (pAssignment d))) k e0 s0 (node x) (move (length (written x)) s)
       \<and> pCurrent s0 + k \<le> pCurrent s + length (written x) \<and> pTokens s0 = pTokens s))"

text \<open>What a tree of the tightest kind starts with.\<close>

lemma first_kind: "formed x \<Longrightarrow> fits x \<Longrightarrow> loose x = 0 \<Longrightarrow> \<not> isPrefix (ttype (hd (written x)))"
  by (induction x) (auto simp: atomNode_def isPrefix_def mark_def tokenOf_def opLoose_def split: if_splits option.splits)

lemma no_dot_ahead:
  assumes "ends c w" "ahead s = w"
  shows "\<not> dotAt (pastNewlines s) s"
proof -
  let ?P = "\<lambda>t. ttype t = TK_NEWLINE"
  have d: "drop (pastNewlines s) (pTokens s) = dropWhile ?P w"
    using assms(2) drop_drop [of "length (takeWhile ?P w)" "pCurrent s" "pTokens s"]
    by (simp add: pastNewlines_def ahead_def dropWhile_eq_drop add.commute)
  show ?thesis
  proof (cases "dropWhile ?P w")
    case Nil
    with d show ?thesis by (simp add: dotAt_def)
  next
    case (Cons t v)
    with d have "pTokens s ! pastNewlines s = t" by (simp add: nth_via_drop)
    with Cons assms(1) show ?thesis by (auto simp: dotAt_def ends_def isDot_def)
  qed
qed

lemma callStep_ends:
  assumes "ends c w" "ahead s = w"
  shows "callStep pe e s = Inr (Inr e, s)"
proof -
  obtain t v where w: "w = t # v" using ends_nonempty [OF assms(1)] by blast
  have "ttype t \<noteq> TK_LPAREN" "ttype t \<noteq> TK_LBRACKET" "\<not> isDot (ttype t)"
    using assms(1) w by (auto simp: ends_def takenAt_def isDot_def split: if_splits)
  then show ?thesis using no_dot_ahead [OF assms] assms(2) w
    by (simp add: callStep_def exec chainNext_def isDot_def)
qed

lemma left_bound:
  assumes "pTokens s0 = pTokens s" "pCurrent s0 + k \<le> pCurrent s + n" "ahead s = v @ w" "length v = n" "v \<noteq> []"
  shows "k \<le> left s0"
proof -
  have "length (pTokens s) - pCurrent s = length (v @ w)" using assms(3) by (metis ahead_def length_drop)
  moreover have "pCurrent s < length (pTokens s)" using in_range(1) [of s] assms(3,5) by simp
  ultimately show ?thesis using assms by (simp add: left_def)
qed

lemma call_reads:
  assumes x: "callable x" and f: "formed x" "fits x" "loose x = 0"
  shows "readable pUnary 1 0 x"
proof (rule readableI)
  fix d s w assume s: "ahead s = written x @ w" "pDepth s + nest x \<le> maxParseDepth" "ends 1 w" "4 * nodes x + 0 \<le> d"
  then obtain e where d: "d = Suc e" using nodes_positive [of x] by (cases d) auto
  let ?p = "primary (guarded (pAssignment e)) (pTernary e) (pDeclaration e) (parseType e)"
  have "w \<noteq> []" using s(3) by (simp add: ends_def)
  with x s d obtain e0 s0 k where p: "?p s = Inr (e0, s0)"
    and t: "turns (callStep (guarded (pAssignment e))) k e0 s0 (node x) (move (length (written x)) s)"
    and k: "pCurrent s0 + k \<le> pCurrent s + length (written x)" "pTokens s0 = pTokens s"
    unfolding callable_def by (metis add_0_right)
  have "callStep (guarded (pAssignment e)) (node x) (move (length (written x)) s)
      = Inr (Inr (node x), move (length (written x)) s)"
    by (rule callStep_ends [OF s(3)]) (simp add: s(1))
  from exec_ploop [OF t this left_bound [OF k(2,1) s(1) refl written_nonempty]] p
  have "call (guarded (pAssignment e)) ?p s = Inr (node x, move (length (written x)) s)"
    by (simp add: call_def exec)
  moreover have "ttype (hd (written x)) \<notin> {TK_BANG, TK_MINUS, TK_NOT, TK_TILDE, TK_AWAIT}"
    using first_kind [OF f] by (simp add: isPrefix_def)
  ultimately show "pUnary d s = Inr (node x, move (length (written x)) s)"
    using s(1) by (simp add: d unary_def exec)
qed

lemma unary_is_power:
  assumes x: "readable pUnary 1 0 x"
  shows "readable pPower 2 1 x"
proof (rule readableI)
  fix d s w assume s: "ahead s = written x @ w" "pDepth s + nest x \<le> maxParseDepth" "ends 2 w" "4 * nodes x + 1 \<le> d"
  then obtain e where d: "d = Suc e" "4 * nodes x + 0 \<le> e" by (cases d) auto
  have r: "pUnary e s = Inr (node x, move (length (written x)) s)"
    by (rule readableD [OF x s(1,2) ends_tighter [OF s(3)] d(2)]) simp_all
  obtain t v where w: "w = t # v" "ttype t \<noteq> TK_STAR_STAR"
    using s(3) ends_nonempty [OF s(3)] ends_other [of 2 _ _ TK_STAR_STAR 2] by (auto simp: takenAt_def opLoose_def)
  then show "pPower d s = Inr (node x, move (length (written x)) s)"
    using s(1) by (simp add: d power_def exec r)
qed

lemma power_reads:
  assumes l: "readable pUnary 1 0 l" and r: "readable pPower 2 1 r" and op: "ttype op = TK_STAR_STAR"
  shows "readable pPower 2 1 (Binop op l r)"
proof (rule readableI)
  fix d s w assume s: "ahead s = written (Binop op l r) @ w" "pDepth s + nest (Binop op l r) \<le> maxParseDepth" "ends 2 w"
    "4 * nodes (Binop op l r) + 1 \<le> d"
  then obtain e where d: "d = Suc e" "4 * nodes l + 0 \<le> e" "4 * nodes r + 1 \<le> e" by (cases d) auto
  let ?n = "length (written l)"
  have 1: "pUnary e s = Inr (node l, move ?n s)"
    by (rule readableD [OF l, of s "op # written r @ w"]) (use s d op in \<open>auto simp: ends_Cons takenAt_def opLoose_def isDot_def\<close>)
  have 2: "pPower e (move (Suc ?n) s) = Inr (node r, move (length (written (Binop op l r))) s)"
    using readableD [OF r, of "move (Suc ?n) s" w e "length (written r)"] s d by simp
  show "pPower d s = Inr (node (Binop op l r), move (length (written (Binop op l r))) s)"
    using s(1) 2 op by (simp add: d power_def exec 1)
qed

subsection \<open>The left-associative levels\<close>

definition levelOps :: "nat \<Rightarrow> token_kind list" where
  "levelOps n = [[TK_STAR, TK_SLASH, TK_PERCENT], [TK_PLUS, TK_MINUS], [TK_LSHIFT, TK_RSHIFT],
     [TK_GREATER, TK_GREATER_EQUAL, TK_LESS, TK_LESS_EQUAL, TK_IN], [TK_EQUAL_EQUAL, TK_BANG_EQUAL],
     [TK_AMPERSAND], [TK_CARET], [TK_PIPE], [TK_AND], [TK_OR], [TK_QUESTION_QUESTION]] ! n"

definition levelNode :: "nat \<Rightarrow> token \<Rightarrow> expr \<Rightarrow> expr \<Rightarrow> expr" where
  "levelNode n = (if n = 8 then logicalNode TK_AND else if n = 9 then logicalNode TK_OR
     else if n = 10 then logicalNode TK_QUESTION_QUESTION else binaryNode)"

fun chain :: "nat \<Rightarrow> expr pact \<Rightarrow> expr pact" where
  "chain 0 pw = pw"
| "chain (Suc n) pw = binLevel (levelOps n) (levelNode n) (chain n pw)"

lemma nullCoalescing_chain: "nullCoalescing pw = chain 11 pw"
  by (simp add: nullCoalescing_def logicalOr_def logicalAnd_def bitwiseOr_def bitwiseXor_def bitwiseAnd_def
      equality_def comparison_def bitwiseShift_def term_level_def factor_def levelOps_def levelNode_def eval_nat_numeral)

definition binStep :: "nat \<Rightarrow> expr pact \<Rightarrow> expr \<Rightarrow> (expr + expr) pact" where
  "binStep n m e = pbind (matchAny (levelOps n)) (\<lambda>b.
     if b then pbind previousTok (\<lambda>op. pbind m (\<lambda>r. pret (Inl (levelNode n op e r)))) else pret (Inr e))"

lemma chain_Suc: "chain (Suc n) pw = pbind (chain n pw) (ploop (binStep n (chain n pw)))"
  by (simp add: binLevel_def binStep_def [abs_def])

lemma upto_ten: "n \<le> 10 \<Longrightarrow> n \<in> set [0, 1, 2, 3, 4, 5, 6, 7, 8, 9, 10::nat]"
  by simp arith

lemma levelOps_loose: "n \<le> 10 \<Longrightarrow> k \<in> set (levelOps n) \<longleftrightarrow> opLoose k = Some (n + 3)"
  by (drule upto_ten, unfold list.set, elim insertE emptyE) (auto simp: levelOps_def opLoose_def)

lemma levelNode_node:
  "opLoose (ttype op) = Some (n + 3) \<Longrightarrow> levelNode n op (node l) (node r) = node (Binop op l r)"
  by (auto simp: levelNode_def opLoose_def split: if_splits)

lemma opLoose_token: "opLoose (ttype op) = Some c \<Longrightarrow> ttype op \<noteq> TK_NEWLINE \<and> ttype op \<noteq> TK_END_OF_FILE
   \<and> \<not> isDot (ttype op) \<and> takenAt (ttype op) = Some c"
  by (auto simp: opLoose_def isDot_def takenAt_def split: if_splits)

definition spinnable :: "nat \<Rightarrow> src \<Rightarrow> bool" where
  "spinnable n x \<longleftrightarrow> (\<forall>d s w. ahead s = written x @ w \<longrightarrow> pDepth s + nest x \<le> maxParseDepth \<longrightarrow> ends (n + 2) w \<longrightarrow>
     4 * nodes x + 1 \<le> d \<longrightarrow> (\<exists>e0 s0 k. chain n (pPower d) s = Inr (e0, s0)
       \<and> turns (binStep n (chain n (pPower d))) k e0 s0 (node x) (move (length (written x)) s)
       \<and> pCurrent s0 + k \<le> pCurrent s + length (written x) \<and> pTokens s0 = pTokens s))"

lemma readable_spins:
  assumes "readable (\<lambda>d. chain n (pPower d)) (n + 2) 1 x"
  shows "spinnable n x"
  unfolding spinnable_def
proof (intro allI impI)
  fix d s w assume "ahead s = written x @ w" "pDepth s + nest x \<le> maxParseDepth" "ends (n + 2) w" "4 * nodes x + 1 \<le> d"
  from readableD [OF assms this refl]
  show "\<exists>e0 s0 k. chain n (pPower d) s = Inr (e0, s0)
       \<and> turns (binStep n (chain n (pPower d))) k e0 s0 (node x) (move (length (written x)) s)
       \<and> pCurrent s0 + k \<le> pCurrent s + length (written x) \<and> pTokens s0 = pTokens s"
    by (intro exI [of _ "node x"] exI [of _ "move (length (written x)) s"] exI [of _ "0::nat"]) simp
qed

lemma binop_spins:
  assumes l: "spinnable n l" and r: "readable (\<lambda>d. chain n (pPower d)) (n + 2) 1 r"
    and op: "opLoose (ttype op) = Some (n + 3)" and n: "n \<le> 10"
  shows "spinnable n (Binop op l r)"
  unfolding spinnable_def
proof (intro allI impI)
  let ?x = "Binop op l r" and ?a = "length (written l)"
  fix d s w assume s: "ahead s = written ?x @ w" "pDepth s + nest ?x \<le> maxParseDepth" "ends (n + 2) w" "4 * nodes ?x + 1 \<le> d"
  let ?f = "binStep n (chain n (pPower d))"
  have "ends (n + 2) (op # written r @ w)" using opLoose_token [OF op] by (simp add: ends_Cons)
  with l s obtain e0 s0 k where sub: "chain n (pPower d) s = Inr (e0, s0)"
    and t: "turns ?f k e0 s0 (node l) (move ?a s)"
    and k: "pCurrent s0 + k \<le> pCurrent s + ?a" "pTokens s0 = pTokens s"
    unfolding spinnable_def by (auto dest!: spec [of _ d] spec [of _ s] spec [of _ "op # written r @ w"])
  have "chain n (pPower d) (move (Suc ?a) s) = Inr (node r, move (length (written ?x)) s)"
    using readableD [OF r, of "move (Suc ?a) s" w d "length (written r)"] s by simp
  then have "?f (node l) (move ?a s) = Inr (Inl (node ?x), move (length (written ?x)) s)"
    using s(1) op n opLoose_token [OF op]
    by (simp add: binStep_def exec levelOps_loose levelNode_node del: node.simps)
  with t have "turns ?f (Suc k) e0 s0 (node ?x) (move (length (written ?x)) s)" by (rule turns_snoc)
  with sub k show "\<exists>e0 s0 k. chain n (pPower d) s = Inr (e0, s0)
       \<and> turns ?f k e0 s0 (node ?x) (move (length (written ?x)) s)
       \<and> pCurrent s0 + k \<le> pCurrent s + length (written ?x) \<and> pTokens s0 = pTokens s"
    by (intro exI [of _ e0] exI [of _ s0] exI [of _ "Suc k"]) (simp del: node.simps turns.simps)
qed

lemma spins_read:
  assumes x: "spinnable n x" and n: "n \<le> 10"
  shows "readable (\<lambda>d. chain (Suc n) (pPower d)) (Suc n + 2) 1 x"
proof (rule readableI)
  fix d s w assume s: "ahead s = written x @ w" "pDepth s + nest x \<le> maxParseDepth" "ends (Suc n + 2) w" "4 * nodes x + 1 \<le> d"
  let ?f = "binStep n (chain n (pPower d))"
  obtain t v where w: "w = t # v" using ends_nonempty [OF s(3)] by blast
  have "ends (n + 2) w" by (rule ends_tighter [OF s(3)]) simp
  with x s obtain e0 s0 k where sub: "chain n (pPower d) s = Inr (e0, s0)"
    and t: "turns ?f k e0 s0 (node x) (move (length (written x)) s)"
    and k: "pCurrent s0 + k \<le> pCurrent s + length (written x)" "pTokens s0 = pTokens s"
    unfolding spinnable_def by blast
  have "opLoose (ttype t) \<noteq> Some (n + 3)"
    using s(3) opLoose_token [of t "n + 3"] by (auto simp: w ends_def)
  then have "?f (node x) (move (length (written x)) s) = Inr (Inr (node x), move (length (written x)) s)"
    using s(1) n by (simp add: binStep_def exec levelOps_loose w)
  from exec_ploop [OF t this left_bound [OF k(2,1) s(1) refl written_nonempty]] sub
  show "chain (Suc n) (pPower d) s = Inr (node x, move (length (written x)) s)"
    unfolding chain_Suc by (simp add: exec)
qed

subsection \<open>Ternary, assignment, expression\<close>

lemma chain_is_ternary:
  assumes x: "readable (\<lambda>d. chain 11 (pPower d)) 13 1 x"
  shows "readable pTernary 14 2 x"
proof (rule readableI)
  fix d s w assume s: "ahead s = written x @ w" "pDepth s + nest x \<le> maxParseDepth" "ends 14 w" "4 * nodes x + 2 \<le> d"
  then obtain e where d: "d = Suc e" "4 * nodes x + 1 \<le> e" by (cases d) auto
  obtain t v where w: "w = t # v" using ends_nonempty [OF s(3)] by blast
  have t: "ttype t \<noteq> TK_QUESTION_MARK"
    using s(3) ends_other [of 14 t v TK_QUESTION_MARK 14] by (simp add: w takenAt_def)
  have "chain 11 (pPower e) s = Inr (node x, move (length (written x)) s)"
    by (rule readableD [OF x s(1,2) ends_tighter [OF s(3)] d(2)]) simp_all
  then show "pTernary d s = Inr (node x, move (length (written x)) s)"
    using s(1) t by (simp add: d ternary_def nullCoalescing_chain exec w)
qed

lemma ternary_is_assignment:
  assumes x: "readable pTernary 14 2 x"
  shows "readable pAssignment 15 3 x"
proof (rule readableI)
  fix d s w assume s: "ahead s = written x @ w" "pDepth s + nest x \<le> maxParseDepth" "ends 15 w" "4 * nodes x + 3 \<le> d"
  then obtain e where d: "d = Suc e" "4 * nodes x + 2 \<le> e" by (cases d) auto
  obtain t v where w: "w = t # v" using ends_nonempty [OF s(3)] by blast
  have t: "ttype t \<notin> {TK_EQUAL, TK_PLUS_EQUAL, TK_MINUS_EQUAL, TK_STAR_EQUAL, TK_STAR_STAR_EQUAL, TK_SLASH_EQUAL}"
    using s(3) ends_other [of 15 t v "ttype t" 15] by (auto simp: w takenAt_def)
  have "pTernary e s = Inr (node x, move (length (written x)) s)"
    by (rule readableD [OF x s(1,2) ends_tighter [OF s(3)] d(2)]) simp_all
  then show "pAssignment d s = Inr (node x, move (length (written x)) s)"
    using s(1) t by (simp add: d assignment_def exec w)
qed

lemma expression_reads:
  assumes x: "readable pAssignment 15 3 x"
    and s: "ahead s = written x @ w" "pDepth s + Suc (nest x) \<le> maxParseDepth" "ends 15 w" "4 * nodes x + 3 \<le> d"
  shows "guarded (pAssignment d) s = Inr (node x, move (length (written x)) s)"
proof (rule exec_guarded)
  show "pAssignment d (s\<lparr>pDepth := Suc (pDepth s)\<rparr>)
      = Inr (node x, move (length (written x)) (s\<lparr>pDepth := Suc (pDepth s)\<rparr>))"
    by (rule readableD [OF x _ _ s(3,4) refl]) (use s in auto)
qed (use s in auto)

lemma ternary_reads:
  assumes c: "readable (\<lambda>d. chain 11 (pPower d)) 13 1 c" and a: "readable pAssignment 15 3 a"
    and b: "readable pTernary 14 2 b" and op: "ttype op = TK_QUESTION_MARK"
  shows "readable pTernary 14 2 (Tern op c a b)"
proof (rule readableI)
  let ?x = "Tern op c a b" and ?c = "length (written c)" and ?a = "length (written a)"
  fix d s w assume s: "ahead s = written ?x @ w" "pDepth s + nest ?x \<le> maxParseDepth" "ends 14 w" "4 * nodes ?x + 2 \<le> d"
  then obtain e where d: "d = Suc e" "4 * nodes c + 1 \<le> e" "4 * nodes a + 3 \<le> e" "4 * nodes b + 2 \<le> e"
    by (cases d) auto
  have 1: "chain 11 (pPower e) s = Inr (node c, move ?c s)"
    by (rule readableD [OF c, of s "op # written a @ mark TK_COLON # written b @ w"])
      (use s d op in \<open>auto simp: ends_Cons takenAt_def opLoose_def isDot_def\<close>)
  have 2: "guarded (pAssignment e) (move (Suc ?c) s) = Inr (node a, move (Suc (?c + ?a)) s)"
    using expression_reads [OF a, of "move (Suc ?c) s" "mark TK_COLON # written b @ w" e] s d
    by (simp add: ends_Cons takenAt_def opLoose_def isDot_def mark_def tokenOf_def)
  have 3: "pTernary e (move (Suc (Suc (?c + ?a))) s) = Inr (node b, move (length (written ?x)) s)"
    using readableD [OF b, of "move (Suc (Suc (?c + ?a))) s" w e "length (written b)"] s d by (simp add: add.assoc)
  show "pTernary d s = Inr (node ?x, move (length (written ?x)) s)"
    using s(1) 3 op by (simp add: d ternary_def nullCoalescing_chain exec 1 2 mark_def tokenOf_def)
qed

end
