(* ===== verification/Parser_Roundtrip.thy ===== *)
theory Parser_Roundtrip
  imports Parser_Reads
begin

text \<open>
  The tightest trees (names and literals, parentheses, calls, indices and properties), then every tree at
  once, and the round trip: what is written for an expression, in a program that prints it, is parsed
  back to its node.
\<close>

subsection \<open>Calls\<close>

text \<open>The first token of an expression is none of those that a caller looks for.\<close>

lemma first_token:
  "formed x \<Longrightarrow> ttype (hd (written x)) \<notin> {TK_RPAREN, TK_RBRACKET, TK_COMMA, TK_ELLIPSIS, TK_EQUAL, TK_COLON,
     TK_END_OF_FILE, TK_NEWLINE}"
  by (induction x) (auto simp: atomNode_def isPrefix_def mark_def tokenOf_def split: if_splits)

lemma name_kinds: "isPropertyNameToken k \<Longrightarrow> k \<noteq> TK_EQUAL \<and> k \<noteq> TK_COLON \<and> k \<noteq> TK_END_OF_FILE"
  by (auto simp: isPropertyNameToken_def isKeywordToken_def)

lemma commas_tokens: "t \<in> set (commas ws) \<Longrightarrow> (\<exists>w\<in>set ws. t \<in> set w) \<or> t = mark TK_COMMA"
  by (induction ws rule: commas.induct) auto

lemma no_equal_sign: "formed x \<Longrightarrow> t \<in> set (written x) \<Longrightarrow> ttype t \<noteq> TK_EQUAL"
proof (induction x arbitrary: t)
  case (Call opn f xs)
  then show ?case by (auto dest!: commas_tokens simp: mark_def tokenOf_def)
qed (auto simp: atomNode_def isPrefix_def opLoose_def mark_def tokenOf_def dest: name_kinds split: if_splits)

lemma mark_kind [simp]: "ttype (mark k) = k"
  by (simp add: mark_def tokenOf_def)

lemma argument_reads:
  assumes x: "readable pAssignment 15 3 x" "formed x"
    and s: "ahead s = written x @ c # w" "ttype c \<in> {TK_COMMA, TK_RPAREN}" "pDepth s + Suc (nest x) \<le> maxParseDepth"
      "4 * nodes x + 3 \<le> d"
  shows "callArgument (guarded (pAssignment d)) opn s = Inr (([], node x), move (length (written x)) s)"
proof -
  have r: "guarded (pAssignment d) s = Inr (node x, move (length (written x)) s)"
    by (rule expression_reads [OF x(1) s(1,3) _ s(4)]) (use s(2) in \<open>auto simp: ends_Cons takenAt_def opLoose_def isDot_def\<close>)
  have "hd (tl (written x @ c # w)) \<in> set (written x) \<union> {c}" "tl (written x @ c # w) \<noteq> []"
    by (cases "written x"; cases "tl (written x)"; auto)+
  then have "ttype (hd (tl (ahead s))) \<noteq> TK_EQUAL" "tl (ahead s) \<noteq> []"
    using no_equal_sign [OF x(2)] s(1,2) by auto
  then show ?thesis using first_token [OF x(2)] s(1)
    by (simp add: callArgument_def exec r)
qed

definition commaStep :: "'a pact \<Rightarrow> 'a list \<Rightarrow> ('a list + 'a list) pact" where
  "commaStep m xs = pbind m (\<lambda>x. pbind (matchTok TK_COMMA) (\<lambda>b. pret (if b then Inl (xs @ [x]) else Inr (xs @ [x]))))"

lemma commaSep_step: "commaSep m = ploop (commaStep m) []"
  by (simp add: commaSep_def commaStep_def [abs_def])

lemma commas_reads:
  assumes "xs \<noteq> []" "length xs \<le> k" "ahead s = commas (map written xs) @ mark TK_RPAREN # w" "pDepth s = D"
    and "\<And>x s c w. x \<in> set xs \<Longrightarrow> ahead s = written x @ c # w \<Longrightarrow> ttype c \<in> {TK_COMMA, TK_RPAREN} \<Longrightarrow> pDepth s = D \<Longrightarrow>
      m s = Inr (val x, move (length (written x)) s)"
  shows "loopFor k (commaStep m) acc s = Inr (acc @ map val xs, move (length (commas (map written xs))) s)"
  using assms
proof (induction xs arbitrary: acc s k)
  case (Cons x xs)
  obtain j where k: "k = Suc j" "length xs \<le> j" using Cons.prems(2) by (cases k) auto
  show ?case
  proof (cases xs)
    case Nil
    with Cons.prems have "m s = Inr (val x, move (length (written x)) s)" by (intro Cons.prems(5)) auto
    with Nil Cons.prems(3) show ?thesis by (simp add: k exec commaStep_def)
  next
    case tail: (Cons y ys)
    then have c: "commas (map written (x # xs)) = written x @ mark TK_COMMA # commas (map written xs)" by simp
    let ?s = "move (Suc (length (written x))) s"
    have "m s = Inr (val x, move (length (written x)) s)"
      using Cons.prems(3,4) unfolding c by (intro Cons.prems(5)) auto
    moreover have "loopFor j (commaStep m)
        (acc @ [val x]) ?s = Inr ((acc @ [val x]) @ map val xs, move (length (commas (map written xs))) ?s)"
      by (rule Cons.IH) (use Cons.prems k tail in \<open>auto simp: c\<close>)
    moreover from calculation have "commaStep m acc s = Inr (Inl (acc @ [val x]), ?s)"
      using Cons.prems(3) unfolding c by (simp add: commaStep_def exec)
    ultimately show ?thesis unfolding c by (simp add: k exec)
  qed
qed simp

lemma arguments_length: "length xs \<le> length (commas (map written xs))"
proof (induction xs rule: induct_list012)
  case (2 x)
  then show ?case by (simp add: Suc_le_eq)
next
  case (3 x y zs)
  then show ?case by simp
qed simp

lemma commaSep_reads:
  assumes "xs \<noteq> []" "ahead s = commas (map written xs) @ mark TK_RPAREN # w"
    and "\<And>x u c w. x \<in> set xs \<Longrightarrow> ahead u = written x @ c # w \<Longrightarrow> ttype c \<in> {TK_COMMA, TK_RPAREN} \<Longrightarrow>
      pDepth u = pDepth s \<Longrightarrow> m u = Inr (val x, move (length (written x)) u)"
  shows "commaSep m s = Inr (map val xs, move (length (commas (map written xs))) s)"
proof -
  have "length (ahead s) = length (pTokens s) - pCurrent s" by (simp add: ahead_def)
  then have "length xs \<le> Suc (left s)" using arguments_length [of xs] assms(2) by (simp add: left_def)
  from commas_reads [OF assms(1) this assms(2) refl, where m = m and val = val and acc = "[]"] assms(3) show ?thesis
    by (simp add: commaSep_step ploop_def)
qed

subsection \<open>The tightest trees\<close>

lemma callableI:
  assumes "\<And>d s w. ahead s = written x @ w \<Longrightarrow> w \<noteq> [] \<Longrightarrow> pDepth s + nest x \<le> maxParseDepth \<Longrightarrow> 4 * nodes x \<le> Suc d \<Longrightarrow>
     primary (guarded (pAssignment d)) (pTernary d) (pDeclaration d) (parseType d) s
       = Inr (node x, move (length (written x)) s)"
  shows "callable x"
  unfolding callable_def
proof (intro allI impI)
  fix d s w assume "ahead s = written x @ w" "w \<noteq> []" "pDepth s + nest x \<le> maxParseDepth" "4 * nodes x \<le> Suc d"
  from assms [OF this] show "\<exists>e0 s0 k. primary (guarded (pAssignment d)) (pTernary d) (pDeclaration d) (parseType d) s = Inr (e0, s0)
       \<and> turns (callStep (guarded (pAssignment d))) k e0 s0 (node x) (move (length (written x)) s)
       \<and> pCurrent s0 + k \<le> pCurrent s + length (written x) \<and> pTokens s0 = pTokens s"
    by (intro exI [of _ "node x"] exI [of _ "move (length (written x)) s"] exI [of _ "0::nat"]) simp
qed

lemma atom_callable: "formed (Atom t) \<Longrightarrow> callable (Atom t)"
proof (rule callableI)
  fix d s w assume t: "formed (Atom t)" and s: "ahead s = written (Atom t) @ w"
  show "primary (guarded (pAssignment d)) (pTernary d) (pDeclaration d) (parseType d) s
       = Inr (node (Atom t), move (length (written (Atom t))) s)"
    using s t
    by (auto simp: primary_def primaryAfter_def atomNode_def numberLiteral_def stringOf_def exec Let_def
        split: if_splits literal.splits)
qed

lemma paren_callable:
  assumes x: "readable pAssignment 15 3 x" "formed x"
  shows "callable (Paren x)"
proof (rule callableI)
  fix d s w assume s: "ahead s = written (Paren x) @ w" "pDepth s + nest (Paren x) \<le> maxParseDepth"
    "4 * nodes (Paren x) \<le> Suc d"
  have "guarded (pAssignment d) (move (Suc 0) s) = Inr (node x, move (Suc (length (written x))) s)"
    using expression_reads [OF x(1), of "move (Suc 0) s" "mark TK_RPAREN # w" d] s
    by (simp add: ends_Cons takenAt_def opLoose_def isDot_def)
  then show "primary (guarded (pAssignment d)) (pTernary d) (pDeclaration d) (parseType d) s
       = Inr (node (Paren x), move (length (written (Paren x))) s)"
    using s(1) first_token [OF x(2)]
    by (simp add: primary_def primaryAfter_def parenthesized_def exec Let_def)
qed

text \<open>One more turn of the loop over calls, indices and properties.\<close>

lemma turn_callable:
  assumes f: "callable f" and w: "written x = written f @ after" "nodes f < nodes x" "nest f \<le> nest x" "after \<noteq> []"
    and step: "\<And>d s w. ahead s = after @ w \<Longrightarrow> pDepth s + nest x \<le> maxParseDepth \<Longrightarrow> 4 * nodes x \<le> Suc d \<Longrightarrow>
      callStep (guarded (pAssignment d)) (node f) s = Inr (Inl (node x), move (length after) s)"
  shows "callable x"
  unfolding callable_def
proof (intro allI impI)
  fix d s v assume s: "ahead s = written x @ v" "v \<noteq> []" "pDepth s + nest x \<le> maxParseDepth" "4 * nodes x \<le> Suc d"
  let ?p = "primary (guarded (pAssignment d)) (pTernary d) (pDeclaration d) (parseType d)"
  let ?f = "callStep (guarded (pAssignment d))"
  from f s w obtain e0 s0 k where p: "?p s = Inr (e0, s0)"
    and t: "turns ?f k e0 s0 (node f) (move (length (written f)) s)"
    and k: "pCurrent s0 + k \<le> pCurrent s + length (written f)" "pTokens s0 = pTokens s"
    unfolding callable_def by (auto dest!: spec [of _ d] spec [of _ s] spec [of _ "after @ v"])
  have "?f (node f) (move (length (written f)) s) = Inr (Inl (node x), move (length (written x)) s)"
    using step [of "move (length (written f)) s" v d] s w by simp
  from turns_snoc [OF t this] p k w show "\<exists>e0 s0 k. ?p s = Inr (e0, s0)
       \<and> turns ?f k e0 s0 (node x) (move (length (written x)) s)
       \<and> pCurrent s0 + k \<le> pCurrent s + length (written x) \<and> pTokens s0 = pTokens s"
    by (intro exI [of _ e0] exI [of _ s0] exI [of _ "Suc k"]) (cases after; simp del: turns.simps)
qed

lemma call_callable:
  assumes f: "callable f" and xs: "\<And>x. x \<in> set xs \<Longrightarrow> readable pAssignment 15 3 x \<and> formed x" and opn: "ttype opn = TK_LPAREN"
  shows "callable (Call opn f xs)"
proof (rule turn_callable [OF f, where after = "opn # commas (map written xs) @ [mark TK_RPAREN]"])
  let ?x = "Call opn f xs" and ?after = "opn # commas (map written xs) @ [mark TK_RPAREN]"
  fix d s w assume s: "ahead s = ?after @ w" "pDepth s + nest ?x \<le> maxParseDepth" "4 * nodes ?x \<le> Suc d"
  show "callStep (guarded (pAssignment d)) (node f) s = Inr (Inl (node ?x), move (length ?after) s)"
  proof (cases "xs = []")
    case True
    with s opn show ?thesis by (simp add: callStep_def finishCall_def exec)
  next
    case False
    have "hd (commas (map written xs)) = hd (written (hd xs))"
      using False by (cases xs; cases "tl xs") auto
    then have "ttype (hd (commas (map written xs))) \<noteq> TK_RPAREN"
      using xs [of "hd xs"] first_token [of "hd xs"] False by auto
    moreover have "commas (map written xs) \<noteq> []" using arguments_length [of xs] False by auto
    moreover have "commaSep (callArgument (guarded (pAssignment d)) opn) (move (Suc 0) s)
        = Inr (map (\<lambda>x. ([], node x)) xs, move (Suc (length (commas (map written xs)))) s)"
    proof -
      have "commaSep (callArgument (guarded (pAssignment d)) opn) (move (Suc 0) s)
        = Inr (map (\<lambda>x. ([], node x)) xs, move (length (commas (map written xs))) (move (Suc 0) s))"
      proof (rule commaSep_reads [OF False])
        fix x u c v assume x: "x \<in> set xs" and u: "ahead u = written x @ c # v" "ttype c \<in> {TK_COMMA, TK_RPAREN}"
          "pDepth u = pDepth (move (Suc 0) s)"
        have "pDepth u + Suc (nest x) \<le> maxParseDepth" using nest_arg [OF x, of "nest f"] s(2) u(3) by simp
        moreover have "4 * nodes x + 3 \<le> d" using nodes_arg [OF x] s(3) by simp
        ultimately show "callArgument (guarded (pAssignment d)) opn u = Inr (([], node x), move (length (written x)) u)"
          using argument_reads [OF _ _ u(1,2)] xs [OF x] by blast
      qed (use s(1) in simp)
      then show ?thesis by simp
    qed
    ultimately show ?thesis using s(1) opn False
      by (simp add: callStep_def finishCall_def exec comp_def)
  qed
qed (use nest_callee in auto)

lemma index_callable:
  assumes x: "callable x" and i: "readable pAssignment 15 3 i" and opn: "ttype opn = TK_LBRACKET"
  shows "callable (Idx opn x i)"
proof (rule turn_callable [OF x, where after = "opn # written i @ [mark TK_RBRACKET]"])
  let ?x = "Idx opn x i" and ?after = "opn # written i @ [mark TK_RBRACKET]"
  fix d s w assume s: "ahead s = ?after @ w" "pDepth s + nest ?x \<le> maxParseDepth" "4 * nodes ?x \<le> Suc d"
  have "guarded (pAssignment d) (move (Suc 0) s) = Inr (node i, move (Suc (length (written i))) s)"
    using expression_reads [OF i, of "move (Suc 0) s" "mark TK_RBRACKET # w" d] s
    by (simp add: ends_Cons takenAt_def opLoose_def isDot_def)
  then show "callStep (guarded (pAssignment d)) (node x) s = Inr (Inl (node ?x), move (length ?after) s)"
    using s(1) opn by (simp add: callStep_def indexAfter_def exec)
qed auto

lemma property_callable:
  assumes x: "callable x" and t: "ttype dot = TK_DOT \<or> ttype dot = TK_QUESTION_DOT" "isPropertyNameToken (ttype name)"
  shows "callable (Prop dot x name)"
proof (rule turn_callable [OF x, where after = "[dot, name]"])
  fix d s w assume s: "ahead s = [dot, name] @ w"
  then show "callStep (guarded (pAssignment d)) (node x) s = Inr (Inl (node (Prop dot x name)), move (length [dot, name]) s)"
    using t name_kinds [OF t(2)] by (auto simp: callStep_def propertyAfter_def exec)
qed auto

subsection \<open>Every tree\<close>

definition reads_all :: "src \<Rightarrow> bool" where
  "reads_all x \<longleftrightarrow> (loose x \<le> 1 \<longrightarrow> readable pUnary 1 0 x) \<and> (loose x \<le> 2 \<longrightarrow> readable pPower 2 1 x)
     \<and> (\<forall>n\<le>11. loose x \<le> n + 2 \<longrightarrow> readable (\<lambda>d. chain n (pPower d)) (n + 2) 1 x)
     \<and> (\<forall>n\<le>10. loose x \<le> n + 3 \<longrightarrow> spinnable n x) \<and> readable pTernary 14 2 x \<and> readable pAssignment 15 3 x"

lemma reads_up:
  assumes "loose x \<le> 1 \<Longrightarrow> readable pUnary 1 0 x" "loose x = 2 \<Longrightarrow> readable pPower 2 1 x"
    and own: "\<And>n. n \<le> 10 \<Longrightarrow> loose x = n + 3 \<Longrightarrow> spinnable n x"
    and tern: "loose x = 14 \<Longrightarrow> readable pTernary 14 2 x"
  shows "reads_all x"
proof -
  have power: "readable pPower 2 1 x" if "loose x \<le> 2"
    using that assms(1,2) unary_is_power by (cases "loose x = 2") auto
  have chain: "readable (\<lambda>d. chain n (pPower d)) (n + 2) 1 x" if "n \<le> 11" "loose x \<le> n + 2" for n
    using that
  proof (induction n)
    case 0
    then show ?case using power by (simp add: numeral_2_eq_2)
  next
    case (Suc n)
    show ?case
    proof (cases "loose x = n + 3")
      case True
      with Suc show ?thesis using spins_read [OF own, of n] by simp
    next
      case False
      with Suc have "readable (\<lambda>d. chain n (pPower d)) (n + 2) 1 x" by simp
      from spins_read [OF readable_spins [OF this]] Suc show ?thesis by simp
    qed
  qed
  have ternary: "readable pTernary 14 2 x"
  proof (cases "loose x = 14")
    case False
    then have "loose x \<le> 11 + 2" using loose_le [of x] by linarith
    from chain_is_ternary [of x] chain [OF _ this] show ?thesis by simp
  qed (rule tern)
  have spins: "spinnable n x" if "n \<le> 10" "loose x \<le> n + 3" for n
    using that own chain [of n] readable_spins [of n x] by (cases "loose x = n + 3") auto
  show ?thesis unfolding reads_all_def
    using assms(1) power chain spins ternary ternary_is_assignment [OF ternary] by blast
qed

lemma reads_ternary_condition: "reads_all x \<Longrightarrow> loose x \<le> 13 \<Longrightarrow> readable (\<lambda>d. chain 11 (pPower d)) 13 1 x"
proof -
  assume "reads_all x" "loose x \<le> 13"
  then have "(11::nat) \<le> 11 \<longrightarrow> loose x \<le> 11 + 2 \<longrightarrow> readable (\<lambda>d. chain 11 (pPower d)) (11 + 2) 1 x"
    unfolding reads_all_def by blast
  with \<open>loose x \<le> 13\<close> show ?thesis by simp
qed

lemma call_reads_all: "callable x \<Longrightarrow> formed x \<Longrightarrow> fits x \<Longrightarrow> loose x = 0 \<Longrightarrow> reads_all x"
  by (rule reads_up) (simp_all add: call_reads del: One_nat_def)

lemma every_tree: "formed x \<Longrightarrow> fits x \<Longrightarrow> reads_all x \<and> (loose x = 0 \<longrightarrow> callable x)"
proof (induction x)
  case (Atom t)
  then show ?case using atom_callable [of t] call_reads_all [of "Atom t"] by simp
next
  case (Paren x)
  then have "callable (Paren x)" by (intro paren_callable) (auto simp: reads_all_def)
  with Paren.prems show ?case using call_reads_all [of "Paren x"] by simp
next
  case (Binop op l r)
  then have l: "reads_all l" and r: "reads_all r" and f: "formed (Binop op l r)" by auto
  from f obtain c where c: "opLoose (ttype op) = Some c" by auto
  have "2 \<le> c" "c \<le> 13" using c by (auto simp: opLoose_def split: if_splits)
  have "reads_all (Binop op l r)"
  proof (rule reads_up)
    assume "loose (Binop op l r) = 2"
    with c have "ttype op = TK_STAR_STAR" by (auto simp: opLoose_def split: if_splits)
    with c Binop.prems l r show "readable pPower 2 1 (Binop op l r)"
      by (intro power_reads) (auto simp: reads_all_def opLoose_def)
  next
    fix n :: nat assume n: "n \<le> 10" "loose (Binop op l r) = n + 3"
    with c have c3: "c = n + 3" by simp
    with Binop.prems c have fit: "loose l \<le> n + 3" "loose r \<le> n + 2" by auto
    have left: "spinnable n l" using l n fit by (simp add: reads_all_def)
    show "spinnable n (Binop op l r)"
      using r n fit c c3 by (intro binop_spins [OF left]) (auto simp: reads_all_def)
  qed (use c \<open>2 \<le> c\<close> \<open>c \<le> 13\<close> in auto)
  with c \<open>2 \<le> c\<close> show ?case by simp
next
  case (Unop op x)
  then have "readable pUnary 1 0 (Unop op x)" by (intro unary_reads) (auto simp: reads_all_def)
  then have "reads_all (Unop op x)" by (rule_tac reads_up) (simp_all del: One_nat_def)
  then show ?case by simp
next
  case (Tern op c a b)
  then have "readable pTernary 14 2 (Tern op c a b)"
    by (intro ternary_reads reads_ternary_condition) (auto simp: reads_all_def)
  then have "reads_all (Tern op c a b)" by (rule_tac reads_up) (simp_all del: One_nat_def)
  then show ?case by simp
next
  case (Call opn f xs)
  then have "callable (Call opn f xs)" by (intro call_callable) (auto simp: reads_all_def)
  with Call.prems show ?case using call_reads_all [of "Call opn f xs"] by simp
next
  case (Idx opn x i)
  then have "callable (Idx opn x i)" by (intro index_callable) (auto simp: reads_all_def)
  with Idx.prems show ?case using call_reads_all [of "Idx opn x i"] by simp
next
  case (Prop dot x name)
  then have "callable (Prop dot x name)" by (intro property_callable) auto
  with Prop.prems show ?case using call_reads_all [of "Prop dot x name"] by simp
qed

subsection \<open>The round trip\<close>

lemma nodes_written: "nodes x \<le> length (written x)"
proof (induction x)
  case (Call opn f xs)
  have "sum_list (map nodes xs) \<le> length (commas (map written xs))" using Call(2)
  proof (induction xs rule: induct_list012)
    case (3 x y zs)
    then have "nodes x \<le> length (written x)" "sum_list (map nodes (y # zs)) \<le> length (commas (map written (y # zs)))" by auto
    then show ?case by simp
  qed auto
  with Call show ?case by simp
qed auto

lemma exec_skipNewlines: "ahead s \<noteq> [] \<Longrightarrow> ttype (hd (ahead s)) \<noteq> TK_NEWLINE \<Longrightarrow> skipNewlines s = Inr ((), s)"
  unfolding skipNewlines_def by (rule exec_ploop [where n = 0 and b = "()" and t = s]) (simp_all add: exec)

lemma out_statement_reads:
  assumes x: "formed x" "fits x" and s: "ahead s = out # written x @ w" "ttype out = TK_OUT" "ends 15 w"
    "pDepth s + nest x + 2 \<le> maxParseDepth" "4 * nodes x + 5 \<le> d"
  shows "pDeclaration d s = Inr (stmtAt out (OutStmt (node x)), move (Suc (length (written x))) s)"
proof -
  obtain e where d: "d = Suc (Suc e)" "4 * nodes x + 3 \<le> e" using s(5) by (cases d; cases "d - 1") auto
  let ?s = "s\<lparr>pDepth := Suc (pDepth s)\<rparr>"
  have a: "readable pAssignment 15 3 x" using every_tree [OF x] by (simp add: reads_all_def)
  have "guarded (pAssignment e) (move (Suc 0) ?s) = Inr (node x, move (Suc (length (written x))) ?s)"
    using expression_reads [OF a, of "move (Suc 0) ?s" w e] s d by simp
  then have "outStatement (guarded (pAssignment e)) (move (Suc 0) ?s)
      = Inr (stmtAt out (OutStmt (node x)), move (Suc (length (written x))) ?s)"
    using s(1) by (simp add: outStatement_def exec)
  then have "pStatement (Suc e) s = Inr (stmtAt out (OutStmt (node x)), move (Suc (length (written x))) s)"
    unfolding recursion_steps statement_def
    by (intro exec_guarded) (use s in \<open>simp_all add: exec\<close>)
  then show ?thesis using s(1,2) unfolding d(1) recursion_steps declaration1_def recover_def
    by (simp add: catching_def exec startsVarDecl_def)
qed


text \<open>\<open>(1 + 2) * x\<close>: the sum is the left operand of a tighter operator and gets its parentheses.\<close>

definition sumTimesX :: src where
  "sumTimesX = Binop (mark TK_STAR) (Binop (mark TK_PLUS) (Atom (tokenOf TK_NUMBER ''1'' (LInt 1)))
     (Atom (tokenOf TK_NUMBER ''2'' (LInt 2)))) (Atom (tokenOf TK_IDENTIFIER ''x'' LNull))"


end
