(* ===== verification/Parser_Depth.thy ===== *)
theory Parser_Depth
  imports Parser_Total
begin

text \<open>
  The depth counter of the parser. Every action keeps the counter in step with the reports of
  \<open>tooDeep\<close>: a guard whose constructor throws never lowers the counter again, and its error is
  reported once by the guard and once more where it is caught, so each such error leaves the counter one
  higher and two reports behind.
\<close>

definition reports :: "pstate \<Rightarrow> nat" where
  "reports s = length (filter (\<lambda>d. fst d = tooDeep) (pDiags s))"

fun inStep :: "pstate \<Rightarrow> (pstop \<times> pstate) + 'a \<times> pstate \<Rightarrow> bool" where
  "inStep s (Inr (a, t)) \<longleftrightarrow> reports s \<le> reports t \<and> 2 * pDepth t + reports s = 2 * pDepth s + reports t"
| "inStep s (Inl (ParseError msg line, t)) \<longleftrightarrow> reports s \<le> reports t
     \<and> 2 * pDepth t + reports s = 2 * pDepth s + reports t + (if msg = tooDeep then 1 else 0)"
| "inStep s (Inl (ParserThrows x, t)) \<longleftrightarrow> True"
| "inStep s (Inl (NoFuel, t)) \<longleftrightarrow> True"

definition balanced :: "'a pact \<Rightarrow> bool" where
  "balanced m \<longleftrightarrow> (\<forall>s. inStep s (m s))"

lemma balancedD: "balanced m \<Longrightarrow> inStep s (m s)"
  by (simp add: balanced_def)

text \<open>What two actions in a row do to the counter and the reports.\<close>

lemma inStep_trans:
  "inStep s (Inr (a, u)) \<Longrightarrow> inStep u r \<Longrightarrow> inStep s r"
  by (cases "(s, r)" rule: inStep.cases) auto

subsection \<open>Rules\<close>

named_theorems balancing

text \<open>No other message begins like \<open>tooDeep\<close>.\<close>

definition otherMessage :: "string \<Rightarrow> bool" where
  "otherMessage msg \<longleftrightarrow> msg \<noteq> [] \<and> hd msg \<noteq> CHR ''M''"

lemma otherMessage_Cons [simp]: "otherMessage (c # msg) \<longleftrightarrow> c \<noteq> CHR ''M''"
  by (simp add: otherMessage_def)

lemma otherMessage_append: "otherMessage msg \<Longrightarrow> otherMessage (msg @ xs)"
  by (simp add: otherMessage_def)

lemma otherMessage_not: "otherMessage msg \<Longrightarrow> msg \<noteq> tooDeep"
  by (auto simp: otherMessage_def tooDeep_def)

lemma balanced_bind [balancing]:
  assumes m: "balanced m" and f: "\<And>a. balanced (f a)"
  shows "balanced (pbind m f)"
  unfolding balanced_def
proof
  fix s :: pstate
  show "inStep s (pbind m f s)"
  proof (cases "m s")
    case (Inl e)
    with balancedD [OF m, of s] show ?thesis
      by (cases e; cases "fst e") (auto simp: pbind_def)
  next
    case (Inr r)
    obtain a u where r: "r = (a, u)" by force
    with Inr balancedD [OF m, of s] have "inStep s (Inr (a, u))" by simp
    from inStep_trans [OF this balancedD [OF f [of a]]] Inr r show ?thesis by (simp add: pbind_def)
  qed
qed

lemma balanced_then [balancing]: "balanced m \<Longrightarrow> balanced n \<Longrightarrow> balanced (pthen m n)"
  unfolding pthen_def by (rule balanced_bind)

lemma balanced_pret [balancing]: "balanced (pret a)"
  by (simp add: balanced_def pret_def)

lemma balanced_pfail [balancing]: "otherMessage msg \<Longrightarrow> balanced (pfail msg line)"
  using otherMessage_not by (simp add: balanced_def pfail_def)

lemma balanced_throws [balancing]: "balanced (\<lambda>s. Inl (ParserThrows x, s))"
  by (simp add: balanced_def)

lemma balanced_undefined [balancing]: "balanced (pundefined what)"
  by (simp add: balanced_def pundefined_def)

lemma balanced_if [balancing]: "(b \<Longrightarrow> balanced x) \<Longrightarrow> (\<not> b \<Longrightarrow> balanced y) \<Longrightarrow> balanced (if b then x else y)"
  by simp

lemma balanced_peekTok [balancing]: "balanced peekTok"
  by (auto simp: balanced_def peekTok_def pundefined_def)

lemma balanced_peekNextTok [balancing]: "balanced peekNextTok"
  by (auto simp: balanced_def peekNextTok_def pundefined_def)

lemma balanced_previousTok [balancing]: "balanced previousTok"
  by (auto simp: balanced_def previousTok_def pundefined_def)

lemma balanced_atEnd [balancing]: "balanced atEnd"
  unfolding atEnd_def by (intro balancing)

lemma balanced_advanceTok [balancing]: "balanced advanceTok"
proof -
  have "balanced (\<lambda>s. previousTok (if e then s else s\<lparr>pCurrent := pCurrent s + 1\<rparr>))" for e
    by (auto simp: balanced_def previousTok_def pundefined_def reports_def)
  then show ?thesis unfolding advanceTok_def by (intro balancing)
qed

lemma balanced_check [balancing]: "balanced (check k)"
  unfolding check_def by (intro balancing)

lemma balanced_matchTok [balancing]: "balanced (matchTok k)"
  unfolding matchTok_def by (intro balancing)

lemma balanced_matchAny [balancing]: "balanced (matchAny ks)"
  by (induction ks) (auto simp: matchAny.simps checkAny.simps intro!: balancing)

lemma balanced_checkAny [balancing]: "balanced (checkAny ks)"
  by (induction ks) (auto simp: matchAny.simps checkAny.simps intro!: balancing)

lemma balanced_consume [balancing]: "otherMessage msg \<Longrightarrow> balanced (consume k msg)"
  unfolding consume_def by (intro balancing otherMessage_append)

lemma balanced_stringOf [balancing]: "balanced (stringOf t)"
  unfolding stringOf_def by (auto intro!: balancing split: literal.split)

lemma balanced_loopFor: "(\<And>a. balanced (f a)) \<Longrightarrow> balanced (loopFor n f a)"
proof (induction n arbitrary: a)
  case (Suc n)
  have "balanced (pbind (f a) (\<lambda>r. case r of Inl b \<Rightarrow> loopFor n f b | Inr c \<Rightarrow> pret c))"
    by (rule balanced_bind) (auto intro: Suc balancing split: sum.split)
  then show ?case by (simp add: balanced_def)
qed (simp add: balanced_def)

lemma balanced_ploop [balancing]: "(\<And>a. balanced (f a)) \<Longrightarrow> balanced (ploop f a)"
  using balanced_loopFor [of f] by (simp add: balanced_def ploop_def del: loopFor.simps)

lemma balanced_skipNewlines [balancing]: "balanced skipNewlines"
  unfolding skipNewlines_def by (intro balancing)

lemma balanced_synchronize [balancing]: "balanced synchronize"
  unfolding synchronize_def by (intro balancing)

lemma balanced_commaSep [balancing]: "balanced m \<Longrightarrow> balanced (commaSep m)"
  unfolding commaSep_def by (intro balancing)

lemma balanced_report [balancing]: "otherMessage msg \<Longrightarrow> balanced (parserError t msg)"
  using otherMessage_not [of msg] by (simp add: balanced_def parserError_def reports_def)

lemma reports_depth [simp]: "reports (s\<lparr>pDepth := k\<rparr>) = reports s"
  by (simp add: reports_def)

lemma balanced_guarded [balancing]:
  assumes m: "balanced m"
  shows "balanced (guarded m)"
  unfolding balanced_def
proof
  fix s :: pstate
  let ?u = "s\<lparr>pDepth := pDepth s + 1\<rparr>"
  show "inStep s (guarded m s)"
  proof (cases "pCurrent s < length (pTokens s)")
    case True
    have inner: "inStep s (case m ?u of Inl (e, t) \<Rightarrow> Inl (e, t\<lparr>pDepth := pDepth t - 1\<rparr>)
        | Inr (a, t) \<Rightarrow> Inr (a, t\<lparr>pDepth := pDepth t - 1\<rparr>))"
      using balancedD [OF m, of ?u]
      by (cases "(?u, m ?u)" rule: inStep.cases) auto
    with True show ?thesis
      by (auto simp: guarded_def pbind_def pthen_def peekTok_def parserError_def pfail_def Let_def reports_def)
  qed (simp add: guarded_def pbind_def peekTok_def pundefined_def)
qed

lemma balanced_recover [balancing]:
  assumes m: "balanced m"
  shows "balanced (recover m)"
  unfolding balanced_def
proof
  fix s :: pstate
  have sync: "inStep u (pthen synchronize (pret NoStmt) u)" for u
    by (rule balancedD) (intro balancing)
  show "inStep s (recover m s)"
  proof (cases "\<exists>msg line t. m s = Inl (ParseError msg line, t)")
    case True
    then obtain msg line t where t: "m s = Inl (ParseError msg line, t)" by blast
    define v where "v = t\<lparr>pHadError := True, pDiags := pDiags t @ [(msg, pTokens t ! pCurrent t)]\<rparr>"
    have "reports v = reports t + (if msg = tooDeep then 1 else 0)" "pDepth v = pDepth t"
      by (simp_all add: v_def reports_def)
    with balancedD [OF m, of s] t have "inStep s (Inr ((), v))" by (simp split: if_splits)
    from inStep_trans [OF this sync] t show ?thesis
      by (simp add: recover_def catching_def pbind_def peekTok_def pundefined_def pthen_def parserError_def v_def)
  next
    case False
    then have "recover m s = m s"
      by (auto simp: recover_def catching_def split: sum.splits pstop.splits)
    with balancedD [OF m] show ?thesis by simp
  qed
qed

subsection \<open>The grammar\<close>

lemma balanced_parseType [balancing]: "balanced (parseType d)"
proof (induction d)
  case (Suc d)
  have "balanced (pbind (consume TK_IDENTIFIER ''Expected type name'') (\<lambda>t.
     pbind (matchTok TK_LBRACKET) (\<lambda>b.
       if b then pthen (commaSep (parseType d))
         (pthen (consume TK_RBRACKET ''Expected ']' after type arguments'') (pret (lexeme t)))
       else pret (lexeme t))))"
    by (auto intro!: balancing Suc)
  then show ?case by (simp add: balanced_def)
qed (simp add: balanced_def)

lemma balanced_typeParameters [balancing]: "balanced typeParameters"
  unfolding typeParameters_def by (auto intro!: balancing)

lemma balanced_state: "(\<And>s. balanced (F s)) \<Longrightarrow> balanced (\<lambda>s. F s s)"
  by (simp add: balanced_def)

lemma balanced_binLevel [balancing]: "balanced m \<Longrightarrow> balanced (binLevel ks mk m)"
  unfolding binLevel_def by (auto intro!: balancing)

lemma balanced_assignTo [balancing]: "balanced (assignTo target op e)"
  unfolding assignTo_def by (auto intro!: balancing split: expr.split expr_form.split)

locale balanced_parsers =
  fixes pe :: "expr pact" and pt :: "expr pact" and pd :: "stmt pact" and ps :: "stmt pact"
    and pty :: "string pact" and pwhen :: "stmt pact"
  assumes pe [balancing]: "balanced pe" and pt [balancing]: "balanced pt" and pd [balancing]: "balanced pd"
    and ps [balancing]: "balanced ps" and pty [balancing]: "balanced pty" and pwhen [balancing]: "balanced pwhen"
begin

lemma operators_balanced:
  assumes "balanced pw" "balanced pu" "balanced pa" "balanced pcall"
  shows "balanced (ternary pw pe pt)" "balanced (power pu pw)" "balanced (unary pu pcall)"
    "balanced (assignment pt pa)"
  unfolding ternary_def power_def unary_def assignment_def nullCoalescing_def logicalOr_def
    logicalAnd_def bitwiseOr_def bitwiseXor_def bitwiseAnd_def equality_def comparison_def bitwiseShift_def
    term_level_def factor_def
  using assms by (auto intro!: balancing)

lemma after_balanced [balancing]:
  "balanced (callArgument pe opn)" "balanced (propertyAfter op e)" "balanced (indexAfter pe e)"
  unfolding callArgument_def propertyAfter_def indexAfter_def
  by (auto intro!: balancing otherMessage_append)

lemma finishCall_balanced [balancing]: "balanced (finishCall pe callee)"
  unfolding finishCall_def by (auto intro!: balancing)

lemma chainNext_balanced [balancing]: "balanced (chainNext e)"
  unfolding balanced_def
proof
  fix s :: pstate
  have "balanced (pbind advanceTok (\<lambda>op. pbind (propertyAfter op e) (\<lambda>e'. pret (Inl e' :: expr + expr))))"
    by (intro balancing)
  from balancedD [OF this, of "s\<lparr>pCurrent := pastNewlines s\<rparr>"]
  show "inStep s (chainNext e s)"
    by (cases "dotAt (pastNewlines s) s";
        cases "(s\<lparr>pCurrent := pastNewlines s\<rparr>, chainNext e s)" rule: inStep.cases)
      (auto simp: chainNext_def reports_def)
qed

lemma call_balanced [balancing]: "balanced m \<Longrightarrow> balanced (call pe m)"
  unfolding call_def callStep_def by (auto intro!: balancing)

lemma blockBody_balanced [balancing]: "otherMessage msg \<Longrightarrow> balanced (blockBody pd msg)"
  unfolding blockBody_def by (auto intro!: balancing)

lemma lambda_balanced [balancing]: "balanced (lambdaExpression pe pd async np)"
  unfolding lambdaExpression_def lambdaParams_def lambdaBody_def
  by (auto intro!: balancing otherMessage_append split: prod.split)

lemma literals_balanced [balancing]:
  "balanced (newExpression pe pty)" "balanced (arrayLiteral pe opn)" "balanced (dictLiteral pe pt)"
  "balanced (parenthesized pe opn)" "balanced (asyncExpression pe pd)" "balanced (numberLiteral t)"
  unfolding newExpression_def arrayLiteral_def arrayElement_def dictLiteral_def dictEntry_def
    parenthesized_def asyncExpression_def numberLiteral_def
  by (auto intro!: balancing otherMessage_append split: literal.split)

lemma primary_balanced [balancing]: "balanced (primary pe pt pd pty)"
  unfolding primary_def primaryAfter_def Let_def
  by (auto intro!: balancing split: option.split)

lemma simple_balanced [balancing]:
  "balanced (optionalType pty)" "balanced (varDeclStatement pe pty)" "balanced (outStatement pe)"
  "balanced (throwStatement pe)" "balanced escapeStatement" "balanced skipStatement" "balanced (staticStatement pe)"
  "balanced (giveStatement pe)" "balanced useStatement"
  unfolding optionalType_def varDeclStatement_def outStatement_def throwStatement_def escapeStatement_def
    skipStatement_def staticStatement_def giveStatement_def useStatement_def
  by (auto intro!: balancing otherMessage_append)

lemma block_balanced [balancing]: "balanced (blockStatement pd)" "balanced (blockOrStatement pd ps)"
  unfolding blockOrStatement_def blockStatement_def by (auto intro!: balancing)

lemma untilBrace_balanced [balancing]: "(\<And>a. balanced (f a)) \<Longrightarrow> balanced (untilBrace f a)"
  unfolding untilBrace_def by (auto intro!: balancing)

lemma branches_balanced [balancing]:
  "balanced (whenStatement pe pd ps pwhen)" "balanced (whileStatement pe pd ps)" "balanced (repeatStatement pe pd ps)"
  "balanced (getStatement pe pd ps)" "balanced (matchStatement pe pd ps)" "balanced (tryStatement pd)"
  unfolding whenStatement_def thenPart_def bareThen_def whileStatement_def repeatStatement_def getStatement_def
    getVariables_def matchStatement_def matchArmOf_def tryStatement_def catchClauses_def catchHead_def catchNames_def Let_def
  by (auto intro!: balancing otherMessage_append split: prod.split)

lemma task_parts_balanced [balancing]:
  "balanced (parameters rest pt pty)" "balanced (contracts pe)" "balanced (returnType pty)"
  unfolding parameters_def paramStep_def restParam_def plainParam_def contracts_def contractStep_def clauseStep_def
    afterClause_def clauseEnds_def returnType_def
  by (auto intro!: balancing otherMessage_append split: prod.split)

lemma taskStatement_balanced [balancing]: "balanced (taskStatement pe pt pty pd ps async)"
  unfolding taskStatement_def by (auto intro!: balancing split: prod.split)

lemma enum_balanced [balancing]: "balanced (enumStatement pe)"
  unfolding enumStatement_def enumStep_def enumValue_def enumNext_def
  by (auto intro!: balancing otherMessage_append split: prod.split expr.split expr_form.split literal.split)

lemma struct_balanced [balancing]: "balanced (structStatement pe pty)"
  unfolding structStatement_def fieldStep_def by (auto intro!: balancing)

lemma property_balanced [balancing]: "balanced (propertyMember pe pty public hasModifier static)"
  unfolding propertyMember_def validators_def validateRule_def validateArgs_def
  by (auto intro!: balancing otherMessage_append split: prod.split)

lemma method_balanced [balancing]: "balanced (methodMember pe pt pty pd public static async cd)"
  "balanced (initMember pt pty pd static mb)"
  unfolding methodMember_def initMember_def
  by (auto intro!: balancing otherMessage_append split: prod.split)

lemma member_balanced [balancing]: "balanced (memberStep pe pt pty pd mb)"
  unfolding memberStep_def otherMember_def unexpectedMember_def methodDecorators_def
  by (auto intro!: balancing otherMessage_append split: prod.split option.split)

lemma model_balanced [balancing]: "balanced (modelStatement pe pt pty pd)" "balanced (interfaceStatement pty)"
  unfolding modelStatement_def interfaceStatement_def interfaceMethod_def by (auto intro!: balancing)

lemma test_balanced [balancing]: "balanced (testStatement pe pd)"
  unfolding testStatement_def by (auto intro!: balancing)

lemma export_balanced [balancing]: "balanced (exportStatement pd)"
proof -
  have "balanced (afterExport tok h inner)" for tok h inner
    using otherMessage_not [of "''Expected declaration after 'export'' @ [CHR 0x27]"]
    by (auto simp: balanced_def afterExport_def pret_def pfail_def)
  then have "balanced (\<lambda>s. pbind pd (afterExport tok (pHadError s)) s)" for tok
    by (intro balanced_state [where F = "\<lambda>s. pbind pd (afterExport tok (pHadError s))"] balancing)
  then show ?thesis unfolding exportStatement_def by (intro balancing)
qed

lemma expression_balanced [balancing]: "balanced (expressionStatement pe)"
  unfolding expressionStatement_def strayName_def
  by (auto intro!: balancing otherMessage_append split: option.split)

lemma decorators_balanced [balancing]: "balanced (decorators pe)"
  unfolding decorators_def decorateWith_def
  by (auto intro!: balancing split: expr.split expr_form.split option.split sum.split prod.split)

lemma undecorated_balanced [balancing]: "balanced (undecorated pe pd ps pty)"
  unfolding undecorated_def by (auto intro!: balancing)

lemma statement_balanced: "balanced (statement pe pt pd ps pwhen pty)"
  unfolding statement_def decoratedStatement_def by (auto intro!: balancing)

end

lemma declaration_balanced:
  assumes "balanced pe" "balanced ps" "balanced pty"
  shows "balanced (declaration1 pe ps pty)"
proof -
  have "balanced startsVarDecl"
    unfolding startsVarDecl_def by (rule balanced_bind [OF balanced_check]) (simp add: balanced_def)
  then show ?thesis unfolding declaration1_def varDeclStatement_def
    using assms by (auto intro!: balancing)
qed

subsection \<open>The recursion\<close>

definition inBalance :: "nat \<Rightarrow> bool" where
  "inBalance d \<longleftrightarrow> balanced (pAssignment d) \<and> balanced (pTernary d) \<and> balanced (pPower d)
     \<and> balanced (pUnary d) \<and> balanced (pWhen d) \<and> balanced (pStatement d) \<and> balanced (pDeclaration d)"

lemma inBalance_parsers:
  assumes "inBalance d"
  shows "balanced_parsers (guarded (pAssignment d)) (pTernary d) (pDeclaration d) (pStatement d) (parseType d) (pWhen d)"
  using assms by unfold_locales (auto simp: inBalance_def intro!: balancing)

lemma all_in_balance: "inBalance d"
proof (induction d)
  case 0
  show ?case by (simp add: inBalance_def balanced_def)
next
  case (Suc d)
  note sub = inBalance_parsers [OF Suc]
  let ?e = "guarded (pAssignment d)"
  have "balanced (assignment (pTernary d) (pAssignment d))"
    "balanced (ternary (pPower d) ?e (pTernary d))" "balanced (power (pUnary d) (pPower d))"
    "balanced (unary (pUnary d) (call ?e (primary ?e (pTernary d) (pDeclaration d) (parseType d))))"
    using Suc by (auto simp: inBalance_def intro!: balanced_parsers.operators_balanced [OF sub]
        balanced_parsers.call_balanced [OF sub] balanced_parsers.primary_balanced [OF sub])
  moreover have "balanced (whenStatement ?e (pDeclaration d) (pStatement d) (pWhen d))"
    by (rule balanced_parsers.branches_balanced [OF sub])
  moreover have "balanced (statement ?e (pTernary d) (pDeclaration d) (pStatement d) (pWhen d) (parseType d))"
    by (rule balanced_parsers.statement_balanced [OF sub])
  moreover have "balanced (declaration1 ?e (pStatement d) (parseType d))"
    using Suc by (intro declaration_balanced balancing) (simp_all add: inBalance_def)
  ultimately show ?case by (simp add: inBalance_def balanced_def)
qed

interpretation bal: balanced_parsers "guarded (pAssignment d)" "pTernary d" "pDeclaration d" "pStatement d"
  "parseType d" "pWhen d" for d
  by (rule inBalance_parsers [OF all_in_balance])

subsection \<open>Programs\<close>

lemma quiet_declaration [quieting]: "quiet (pDeclaration d)"
proof (cases d)
  case (Suc e)
  have "quiet (recover m)" for m
    unfolding recover_def pthen_def by (intro quieting) (simp add: quiet_def parserError_def)
  then show ?thesis unfolding Suc recursion_steps declaration1_def .
qed (simp add: quiet_def)

lemma catching_quiet: "quiet m \<Longrightarrow> catching m h = m"
  by (rule ext) (auto simp: quiet_def catching_def split: sum.splits pstop.splits)

lemma balanced_parseStep [balancing]: "balanced (parseStep d ss)"
proof -
  have "quiet (pbind (pDeclaration d) (\<lambda>st. pthen skipNewlines (pret (Inl (if st = NoStmt then ss else ss @ [st]) :: stmt list + stmt list))))"
    unfolding pthen_def by (intro quieting)
  moreover have "balanced (pDeclaration d)" by (rule bal.pd)
  ultimately show ?thesis unfolding parseStep_def by (auto simp: catching_quiet intro!: balancing)
qed

text \<open>
  C7. The depth of the parser is in step with its reports: after a program was parsed, \<open>currentDepth\<close> is
  half the number of reports of \<open>Maximum nesting depth exceeded\<close>. Where there is none it is back at
  zero; every error of that kind leaves it one higher, as the guard's constructor has raised it and the
  destructor does not run, and is reported twice.
\<close>

theorem depth_counts_too_deep:
  assumes "parse ts = Inr (program, s)"
  shows "2 * pDepth s = length (filter (\<lambda>d. fst d = ''Maximum nesting depth exceeded'') (pDiags s))"
proof -
  have "balanced (pthen skipNewlines (ploop (parseStep (parseFuel ts)) []))" by (intro balancing)
  from balancedD [OF this, of "newParser ts"] assms show ?thesis
    by (simp add: parse_def reports_def newParser_def tooDeep_def)
qed

text \<open>At the limit nothing is parsed any more: every statement is refused and raises the counter again.\<close>

lemma refused_at_limit:
  assumes "maxParseDepth \<le> pDepth s" "pCurrent s < length (pTokens s)"
  shows "\<exists>line t. pStatement (Suc d) s = Inl (ParseError tooDeep line, t) \<and> pDepth t = Suc (pDepth s)"
  using assms by (simp add: statement_def guarded_def pbind_def pthen_def peekTok_def parserError_def pfail_def Let_def)

definition openParens3 :: "token list" where
  "openParens3 = replicate 3 (tokenOf TK_LPAREN ''('' LNull) @ [tokenOf TK_END_OF_FILE [] LNull]"

lemma parse_openParens3:
  "case parse openParens3 of Inr (ss, s) \<Rightarrow> ss = [] \<and> map fst (pDiags s) = [''Expected expression''] | Inl _ \<Rightarrow> False"
  by code_simp

theorem depth_counts_too_deep_witness:
  "\<exists>program s. parse openParens3 = Inr (program, s) \<and> pDiags s \<noteq> [] \<and> pDepth s = 0"
proof -
  obtain program s where p: "parse openParens3 = Inr (program, s)" and d: "map fst (pDiags s) = [''Expected expression'']"
    using parse_openParens3 by (auto split: sum.splits)
  from d obtain t where "pDiags s = [(''Expected expression'', t)]" by (cases "pDiags s") auto
  with depth_counts_too_deep [OF p] p show ?thesis by auto
qed

end
